(* ===== verification/Mcp_Prelude.thy ===== *)
theory Mcp_Prelude
  imports Complex_Main "HOL-Library.Word"
begin

text \<open>
  What the components share: the sequencing of fallible computations (a C++ function that may
  throw is a function into \<open>'e + 'a\<close>, with \<open>Inl\<close> for the exception), machine integers at
  their width, the value set of \<open>double\<close> with \<open>static_cast\<close> to \<open>std::int64_t\<close>, and the
  decimal text that \<open>std::to_string\<close> writes and the digit loops of the code read.
\<close>

declare option.map_ident [simp] option.pred_True [simp] list.pred_True [simp]

named_theorems codec_simps \<open>equations that evaluate a decoder on an encoder's output\<close>

type_synonym int32 = "32 word"
type_synonym int64 = "64 word"
type_synonym uint64 = "64 word"
type_synonym size_t = "64 word"

section \<open>Fallible computations\<close>

text \<open>Run the first computation; an exception skips the rest.\<close>

fun ebind :: "'e + 'a \<Rightarrow> ('a \<Rightarrow> 'e + 'b) \<Rightarrow> 'e + 'b" where
  "ebind (Inl e) f = Inl e"
| "ebind (Inr x) f = f x"

fun emap :: "('a \<Rightarrow> 'b) \<Rightarrow> 'e + 'a \<Rightarrow> 'e + 'b" where
  "emap f (Inl e) = Inl e"
| "emap f (Inr x) = Inr (f x)"

text \<open>A range loop that pushes one converted element per input and stops at the first throw.\<close>

fun emap_list :: "('a \<Rightarrow> 'e + 'b) \<Rightarrow> 'a list \<Rightarrow> 'e + 'b list" where
  "emap_list f [] = Inr []"
| "emap_list f (x # xs) = ebind (f x) (\<lambda>y. ebind (emap_list f xs) (\<lambda>ys. Inr (y # ys)))"

text \<open>A \<open>try\<close> block: the handler sees the exception and may return or throw itself.\<close>

fun ecatch :: "'e + 'a \<Rightarrow> ('e \<Rightarrow> 'f + 'a) \<Rightarrow> 'f + 'a" where
  "ecatch (Inl e) h = h e"
| "ecatch (Inr x) h = Inr x"

lemma ebind_eq_Inr_iff: "ebind m f = Inr y \<longleftrightarrow> (\<exists>x. m = Inr x \<and> f x = Inr y)"
  by (cases m) auto

lemma ebind_eq_Inl_iff:
  "ebind m f = Inl e \<longleftrightarrow> m = Inl e \<or> (\<exists>x. m = Inr x \<and> f x = Inl e)"
  by (cases m) auto

lemma emap_eq_Inr_iff: "emap f m = Inr y \<longleftrightarrow> (\<exists>x. m = Inr x \<and> f x = y)"
  by (cases m) auto

lemma emap_eq_Inl_iff: "emap f m = Inl e \<longleftrightarrow> m = Inl e"
  by (cases m) auto

lemma ebind_assoc: "ebind (ebind m f) g = ebind m (\<lambda>x. ebind (f x) g)"
  by (cases m) simp_all

lemma ecatch_eq_Inr_iff:
  "ecatch m h = Inr y \<longleftrightarrow> m = Inr y \<or> (\<exists>e. m = Inl e \<and> h e = Inr y)"
  by (cases m) auto

lemma emap_list_map:
  "(\<And>x. x \<in> set xs \<Longrightarrow> dec (enc x) = Inr x) \<Longrightarrow> emap_list dec (map enc xs) = Inr xs"
  by (induction xs) auto

lemma emap_list_Inr_length: "emap_list f xs = Inr ys \<Longrightarrow> length ys = length xs"
  by (induction xs arbitrary: ys) (auto simp: ebind_eq_Inr_iff)

lemma emap_list_Inr_iff:
  "emap_list f xs = Inr ys \<longleftrightarrow> list_all2 (\<lambda>x y. f x = Inr y) xs ys"
proof (induction xs arbitrary: ys)
  case Nil
  show ?case by auto
next
  case (Cons x xs)
  show ?case
    by (cases ys) (auto simp: ebind_eq_Inr_iff Cons.IH)
qed

section \<open>Floating point values\<close>

text \<open>
  The value of an IEEE \<open>double\<close>: a finite one is a rational number, with a negative zero beside
  \<open>DFin 0\<close>; an infinity has its sign (\<open>True\<close> is negative). The payload of a NaN is not kept: no code looks
  at it.
\<close>

datatype double = DFin rat | DNegZero | DInf bool | DNaN

text \<open>
  \<open>static_cast<std::int64_t>(v)\<close> truncates towards zero. The C++ standard leaves it undefined
  when the truncated value does not fit ([conv.fpint]): \<open>None\<close>.
\<close>

definition trunc_rat :: "rat \<Rightarrow> int" where
  "trunc_rat r = (if r < 0 then - \<lfloor>- r\<rfloor> else \<lfloor>r\<rfloor>)"

fun double_to_int64 :: "double \<Rightarrow> int64 option" where
  "double_to_int64 (DFin r) =
     (let t = trunc_rat r
      in if - (2 ^ 63) \<le> t \<and> t < 2 ^ 63 then Some (word_of_int t) else None)"
| "double_to_int64 DNegZero = Some 0"
| "double_to_int64 (DInf s) = None"
| "double_to_int64 DNaN = None"

text \<open>
  \<open>static_cast<double>(truncated) == v\<close>, for \<open>truncated\<close> obtained from \<open>v\<close> by the cast above:
  below \<open>2 ^ 53\<close> every integer is a double, and above it \<open>v\<close> itself is an integer, so the
  conversion back is exact in every case the code reaches.
\<close>

fun int64_equals_double :: "int64 \<Rightarrow> double \<Rightarrow> bool" where
  "int64_equals_double w (DFin r) \<longleftrightarrow> of_int (sint w) = r"
| "int64_equals_double w DNegZero \<longleftrightarrow> w = 0"
| "int64_equals_double w (DInf s) \<longleftrightarrow> False"
| "int64_equals_double w DNaN \<longleftrightarrow> False"

lemma trunc_rat_of_int [simp]: "trunc_rat (of_int n) = n"
proof (cases "n < 0")
  case True
  have "- (of_int n :: rat) = of_int (- n)" by simp
  then have "\<lfloor>- (of_int n :: rat)\<rfloor> = - n" by (simp only: floor_of_int)
  with True show ?thesis by (simp add: trunc_rat_def)
next
  case False
  then show ?thesis by (simp add: trunc_rat_def)
qed

lemma sint_word_of_int_64:
  "- (2 ^ 63) \<le> t \<Longrightarrow> t < 2 ^ 63 \<Longrightarrow> sint (word_of_int t :: int64) = t"
  by (simp add: signed_of_int signed_take_bit_int_eq_self)

lemma double_to_int64_of_int:
  "- (2 ^ 63) \<le> n \<Longrightarrow> n < 2 ^ 63 \<Longrightarrow>
     double_to_int64 (DFin (of_int n)) = Some (word_of_int n)"
  by simp

section \<open>64-bit words\<close>

lemma unat_of_nat_64: "n < 2 ^ 64 \<Longrightarrow> unat (of_nat n :: 64 word) = n"
  by (simp add: unsigned_of_nat take_bit_nat_eq_self)

lemma unat_add_mod: "unat (a + b :: 64 word) = (unat a + unat b) mod 2 ^ 64"
  using unat_word_ariths(1) [of a b] by simp

lemma unat_add_64: "unat a + unat b < 2 ^ 64 \<Longrightarrow> unat (a + b :: 64 word) = unat a + unat b"
  by (simp only: unat_add_mod mod_less)

lemma unat_less_64: "unat (a :: 64 word) < 2 ^ 64"
  using unsigned_less [of a] by simp

lemma unat_add_64_wrap:
  assumes "2 ^ 64 \<le> unat a + unat b"
  shows "unat (a + b :: 64 word) = unat a + unat b - 2 ^ 64"
  using assms unat_less_64 [of a] unat_less_64 [of b] unat_add_mod [of a b]
  by (simp add: le_mod_geq)

lemma unat_max_minus: "unat (- 1 - d :: 64 word) = 2 ^ 64 - 1 - unat d"
proof -
  have "unat (- 1 :: 64 word) = 2 ^ 64 - 1" by (simp add: unsigned_minus_1_eq_mask mask_eq_exp_minus_1)
  moreover have "unat (- 1 - d) = unat (- 1 :: 64 word) - unat d"
    by (rule unat_sub) simp
  ultimately show ?thesis by simp
qed

section \<open>Decimal text\<close>

definition is_digit :: "char \<Rightarrow> bool" where
  "is_digit c \<longleftrightarrow> (48::nat) \<le> of_char c \<and> of_char c \<le> (57::nat)"

definition digit_value :: "char \<Rightarrow> nat" where
  "digit_value c = of_char c - 48"

definition digit_char :: "nat \<Rightarrow> char" where
  "digit_char d = char_of (48 + d)"

text \<open>\<open>std::to_string\<close> on an unsigned value.\<close>

fun dec_string :: "nat \<Rightarrow> string" where
  "dec_string n = (if n < 10 then [digit_char n]
                   else dec_string (n div 10) @ [digit_char (n mod 10)])"

declare dec_string.simps [simp del]

text \<open>\<open>std::to_string\<close> on a signed value.\<close>

definition int_string :: "int \<Rightarrow> string" where
  "int_string i = (if i < 0 then CHR ''-'' # dec_string (nat (- i)) else dec_string (nat i))"

text \<open>The value of a digit string, most significant digit first.\<close>

definition dec_value_from :: "nat \<Rightarrow> string \<Rightarrow> nat" where
  "dec_value_from v s = foldl (\<lambda>v c. v * 10 + digit_value c) v s"

abbreviation dec_value :: "string \<Rightarrow> nat" where
  "dec_value s \<equiv> dec_value_from 0 s"

lemma digit_char_is_digit [simp]: "d < 10 \<Longrightarrow> is_digit (digit_char d)"
  by (simp add: is_digit_def digit_char_def)

lemma digit_value_digit_char [simp]: "d < 10 \<Longrightarrow> digit_value (digit_char d) = d"
  by (simp add: digit_value_def digit_char_def)

lemma digit_char_neq_minus [simp]: "d < 10 \<Longrightarrow> digit_char d \<noteq> CHR ''-''"
proof
  assume "d < 10" "digit_char d = CHR ''-''"
  then have "(of_char (digit_char d) :: nat) = of_char (CHR ''-'')" by simp
  with \<open>d < 10\<close> show False by (simp add: digit_char_def)
qed

lemma digit_value_less: "is_digit c \<Longrightarrow> digit_value c < 10"
  by (auto simp: is_digit_def digit_value_def)

lemma dec_value_from_Nil [simp]: "dec_value_from v [] = v"
  by (simp add: dec_value_from_def)

lemma dec_value_from_Cons [simp]:
  "dec_value_from v (c # s) = dec_value_from (v * 10 + digit_value c) s"
  by (simp add: dec_value_from_def)

lemma dec_value_from_append [simp]:
  "dec_value_from v (s @ t) = dec_value_from (dec_value_from v s) t"
  by (simp add: dec_value_from_def)

lemma dec_value_from_ge: "v \<le> dec_value_from v s"
proof (induction s arbitrary: v)
  case (Cons c s)
  have "v \<le> v * 10 + digit_value c" by simp
  also have "\<dots> \<le> dec_value_from (v * 10 + digit_value c) s" by (rule Cons.IH)
  finally show ?case by simp
qed simp

lemma dec_string_nonempty [simp]: "dec_string n \<noteq> []"
  by (subst dec_string.simps) simp

lemma dec_string_digits: "list_all is_digit (dec_string n)"
proof (induction n rule: dec_string.induct)
  case (1 n)
  then show ?case by (simp add: dec_string.simps [of n])
qed

lemma dec_value_dec_string [simp]: "dec_value (dec_string n) = n"
proof (induction n rule: dec_string.induct)
  case (1 n)
  then show ?case by (simp add: dec_string.simps [of n])
qed

lemma dec_string_inject [simp]: "dec_string m = dec_string n \<longleftrightarrow> m = n"
  by (metis dec_value_dec_string)

lemma length_dec_string: "n < 10 ^ k \<Longrightarrow> 0 < k \<Longrightarrow> length (dec_string n) \<le> k"
proof (induction k arbitrary: n)
  case (Suc k)
  show ?case
  proof (cases "n < 10")
    case True
    then show ?thesis by (simp add: dec_string.simps [of n])
  next
    case False
    with Suc.prems have "n div 10 < 10 ^ k" "0 < k"
      by (auto simp: div_less_iff_less_mult intro: gr0I)
    with Suc.IH have "length (dec_string (n div 10)) \<le> k" by blast
    with False show ?thesis by (simp add: dec_string.simps [of n])
  qed
qed simp

lemma dec_string_no_minus: "dec_string n \<noteq> CHR ''-'' # s"
proof
  assume "dec_string n = CHR ''-'' # s"
  with dec_string_digits [of n] have "is_digit (CHR ''-'')" by simp
  then show False by (simp add: is_digit_def)
qed

lemma int_string_inject [simp]: "int_string i = int_string j \<longleftrightarrow> i = j"
  using dec_string_no_minus dec_string_no_minus [symmetric]
  by (auto simp: int_string_def split: if_splits)

text \<open>\<open>printf("%0kd")\<close> on a value that is not negative.\<close>

definition zero_pad :: "nat \<Rightarrow> nat \<Rightarrow> string" where
  "zero_pad k n = replicate (k - length (dec_string n)) CHR ''0'' @ dec_string n"

lemma length_zero_pad [simp]: "0 < k \<Longrightarrow> n < 10 ^ k \<Longrightarrow> length (zero_pad k n) = k"
  using length_dec_string [of n k] by (simp add: zero_pad_def)

lemma dec_value_from_zeros: "dec_value_from v (replicate k CHR ''0'' @ s) = dec_value_from (v * 10 ^ k) s"
  by (induction k arbitrary: v) (simp_all add: digit_value_def mult.assoc)

lemma dec_value_from_split: "dec_value_from v s = v * 10 ^ length s + dec_value s"
proof (induction s arbitrary: v)
  case (Cons c s)
  show ?case using Cons [of "v * 10 + digit_value c"] Cons [of "digit_value c"] by (simp add: algebra_simps)
qed simp

lemma dec_value_zero_pad [simp]: "dec_value (zero_pad k n) = n"
  by (simp only: zero_pad_def dec_value_from_zeros mult_0 dec_value_dec_string)

end
