(* ===== verification/Stdio_Transport.thy ===== *)
theory Stdio_Transport
  imports Mcp_Prelude
begin

text \<open>
  The stdio transport of src/stdio_transport.cpp: newline-delimited frames over a pair of file
  descriptors. The operating system's \<open>poll\<close>, \<open>read\<close> and \<open>write\<close> are the environment: their
  results are arguments, one per call, in the order of the calls. Modelled are \<open>send\<close> with its
  loop over partial writes, the framing automaton in \<open>read_loop\<close>, the loop around it, and the
  life cycle flags with \<open>start\<close>, \<open>close\<close>, \<open>deliver_error\<close> and \<open>fire_close\<close>.

  Lemmas: what a successful \<open>send\<close> writes, what the framing delivers and how it depends on the
  chunks it is given (not at all), the bound on the buffer, and that \<open>on_close\<close> fires once.
\<close>

section \<open>Error codes\<close>

datatype error_code =
    Ec_not_connected
  | Ec_invalid_argument
  | Ec_message_size
  | Ec_io_error
  | Ec_permission_denied
  | Ec_protocol_error
  | Ec_errno int

section \<open>Sending\<close>

text \<open>
  One result of \<open>::write\<close>: the number of bytes taken, \<open>EINTR\<close>, or another error number. A list
  of results that ends early is a call that is still blocked, \<open>None\<close>.
\<close>

datatype write_result = Wrote nat | WriteEintr | WriteErrno int

datatype send_outcome = Sent | SendFailed error_code | SendBlocked

fun write_frame :: "string \<Rightarrow> write_result list \<Rightarrow> string \<times> send_outcome \<times> write_result list" where
  "write_frame [] rs = ([], Sent, rs)"
| "write_frame (c # data) [] = ([], SendBlocked, [])"
| "write_frame (c # data) (Wrote n # rs) =
     (let (out, r, rest) = write_frame (drop n (c # data)) rs in (take n (c # data) @ out, r, rest))"
| "write_frame (c # data) (WriteEintr # rs) = write_frame (c # data) rs"
| "write_frame (c # data) (WriteErrno e # rs) = ([], SendFailed (Ec_errno e), rs)"

text \<open>
  The second loop writes the delimiter. A write of no byte falls through to the error return,
  with whatever \<open>errno\<close> holds: an argument.
\<close>

fun write_newline :: "int \<Rightarrow> write_result list \<Rightarrow> string \<times> send_outcome \<times> write_result list" where
  "write_newline errno [] = ([], SendBlocked, [])"
| "write_newline errno (Wrote n # rs) =
     (if n = 1 then ([CHR 0x0A], Sent, rs) else ([], SendFailed (Ec_errno errno), rs))"
| "write_newline errno (WriteEintr # rs) = write_newline errno rs"
| "write_newline errno (WriteErrno e # rs) = ([], SendFailed (Ec_errno e), rs)"

definition stdio_send ::
    "bool \<Rightarrow> int \<Rightarrow> write_result list \<Rightarrow> string \<Rightarrow> string \<times> send_outcome" where
  "stdio_send running errno rs frame =
     (if \<not> running then ([], SendFailed Ec_not_connected)
      else if CHR 0x0A \<in> set frame then ([], SendFailed Ec_invalid_argument)
      else case write_frame frame rs of
             (out, Sent, rs) \<Rightarrow>
               (let (nl, r, _) = write_newline errno rs in (out @ nl, r))
           | (out, r, _) \<Rightarrow> (out, r))"

lemma write_frame_prefix: "write_frame data rs = (out, r, rest) \<Longrightarrow> \<exists>t. data = out @ t"
proof (induction data rs arbitrary: out r rest rule: write_frame.induct)
  case (3 c data n rs)
  obtain out' r' rest' where w: "write_frame (drop n (c # data)) rs = (out', r', rest')"
    by (metis prod_cases3)
  with "3.prems" have "out = take n (c # data) @ out'" by (simp only: write_frame.simps) auto
  moreover obtain t where "drop n (c # data) = out' @ t" using "3.IH" [OF w] by blast
  ultimately show ?case by (metis append_assoc append_take_drop_id)
qed auto

lemma write_frame_Sent: "write_frame data rs = (out, Sent, rest) \<Longrightarrow> out = data"
proof (induction data rs arbitrary: out rest rule: write_frame.induct)
  case (3 c data n rs)
  obtain out' r' rest' where w: "write_frame (drop n (c # data)) rs = (out', r', rest')"
    by (metis prod_cases3)
  with "3.prems" have out: "out = take n (c # data) @ out'" and r: "r' = Sent"
    by (simp_all only: write_frame.simps) auto
  from "3.IH" [OF w [unfolded r]] out show ?case by (simp only: append_take_drop_id)
qed auto

lemma write_newline_cases:
  "write_newline errno rs = (out, r, rest) \<Longrightarrow>
     (r = Sent \<longrightarrow> out = [CHR 0x0A]) \<and> (r \<noteq> Sent \<longrightarrow> out = [])"
  by (induction errno rs rule: write_newline.induct) (auto split: if_splits)

lemma stdio_send_Sent:
  assumes "stdio_send running errno rs frame = (out, Sent)"
  shows "running" "CHR 0x0A \<notin> set frame" "out = frame @ [CHR 0x0A]"
proof -
  obtain o1 r1 rs1 where w: "write_frame frame rs = (o1, r1, rs1)" by (metis prod_cases3)
  obtain o2 r2 rs2 where nl: "write_newline errno rs1 = (o2, r2, rs2)" by (metis prod_cases3)
  from assms w nl have "running \<and> CHR 0x0A \<notin> set frame \<and> r1 = Sent \<and> r2 = Sent \<and> out = o1 @ o2"
    by (auto simp: stdio_send_def split: if_splits send_outcome.splits)
  with w nl write_frame_Sent write_newline_cases
  show "running" "CHR 0x0A \<notin> set frame" "out = frame @ [CHR 0x0A]" by blast+
qed

lemma stdio_send_prefix:
  assumes "stdio_send running errno rs frame = (out, r)"
  shows "\<exists>t. frame @ [CHR 0x0A] = out @ t"
proof -
  obtain o1 r1 rs1 where w: "write_frame frame rs = (o1, r1, rs1)" by (metis prod_cases3)
  obtain o2 r2 rs2 where nl: "write_newline errno rs1 = (o2, r2, rs2)" by (metis prod_cases3)
  consider "out = []" | "out = o1" | "r1 = Sent" "out = o1 @ o2"
    using assms w nl by (auto simp: stdio_send_def split: if_splits send_outcome.splits)
  then show ?thesis
  proof cases
    case 2
    with write_frame_prefix [OF w] show ?thesis by auto
  next
    case 3
    with write_frame_Sent w have "o1 = frame" by blast
    with 3 write_newline_cases [OF nl] show ?thesis by (cases "r2 = Sent") auto
  qed simp
qed

section \<open>The framing automaton\<close>

text \<open>
  The loop body of \<open>read_loop\<close> over one chunk: the messages handed to \<open>on_message\<close> and the buffer
  that is left, or \<open>None\<close> when a frame exceeds the limit and the loop returns.
\<close>

definition strip_cr :: "string \<Rightarrow> string" where
  "strip_cr buffer = (if buffer \<noteq> [] \<and> last buffer = CHR 0x0D then butlast buffer else buffer)"

fun feed :: "size_t \<Rightarrow> string \<Rightarrow> string \<Rightarrow> string list \<times> string option" where
  "feed max_frame_bytes buffer [] = ([], Some buffer)"
| "feed max_frame_bytes buffer (c # chunk) =
     (if c = CHR 0x0A then
        (let buffer' = strip_cr buffer;
             (msgs, r) = feed max_frame_bytes [] chunk
         in ((if buffer' \<noteq> [] then buffer' # msgs else msgs), r))
      else if length buffer \<ge> unat max_frame_bytes then ([], None)
      else feed max_frame_bytes (buffer @ [c]) chunk)"

lemma feed_append:
  "feed m b (s @ t) =
     (case feed m b s of
        (msgs, None) \<Rightarrow> (msgs, None)
      | (msgs, Some b') \<Rightarrow> (let (msgs', r) = feed m b' t in (msgs @ msgs', r)))"
  by (induction m b s rule: feed.induct) (auto simp: Let_def split: prod.split option.split)

text \<open>A frame's bytes without the delimiter are collected in the buffer.\<close>

lemma feed_collect:
  "CHR 0x0A \<notin> set s \<Longrightarrow> length b + length s \<le> unat m \<Longrightarrow> feed m b s = ([], Some (b @ s))"
  by (induction s arbitrary: b) auto

lemma feed_too_long:
  "CHR 0x0A \<notin> set s \<Longrightarrow> unat m < length b + length s \<Longrightarrow> length b \<le> unat m \<Longrightarrow>
     feed m b s = ([], None)"
  by (induction s arbitrary: b) auto

lemma feed_frame:
  assumes "CHR 0x0A \<notin> set f" "length f \<le> unat m"
  shows "feed m [] (f @ [CHR 0x0A]) =
    ((if strip_cr f \<noteq> [] then [strip_cr f] else []), Some [])"
  using feed_collect [OF assms(1), of "[]" m] assms(2) by (simp add: feed_append Let_def)

definition good_frame :: "size_t \<Rightarrow> string \<Rightarrow> bool" where
  "good_frame m f \<longleftrightarrow>
     f \<noteq> [] \<and> CHR 0x0A \<notin> set f \<and> last f \<noteq> CHR 0x0D \<and> length f \<le> unat m"

lemma feed_good_frame: "good_frame m f \<Longrightarrow> feed m [] (f @ [CHR 0x0A]) = ([f], Some [])"
  by (simp add: good_frame_def feed_frame strip_cr_def)

lemma feed_frames:
  "list_all (good_frame m) fs \<Longrightarrow>
     feed m [] (concat (map (\<lambda>f. f @ [CHR 0x0A]) fs)) = (fs, Some [])"
proof (induction fs)
  case (Cons f fs)
  from Cons.prems have f: "good_frame m f" and fs: "list_all (good_frame m) fs" by simp_all
  have "feed m [] ((f @ [CHR 0x0A]) @ concat (map (\<lambda>f. f @ [CHR 0x0A]) fs)) = (f # fs, Some [])"
    unfolding feed_append [of m "[]" "f @ [CHR 0x0A]"] feed_good_frame [OF f]
    by (simp add: Cons.IH [OF fs])
  then show ?case by simp
qed simp

text \<open>Invariant of the automaton: what is kept and what is delivered is within the limit.\<close>

lemma strip_cr_bounds: "length (strip_cr b) \<le> length b" "set (strip_cr b) \<subseteq> set b"
  by (auto simp: strip_cr_def dest: in_set_butlastD)

definition within_limit :: "size_t \<Rightarrow> string \<Rightarrow> bool" where
  "within_limit m f \<longleftrightarrow> length f \<le> unat m \<and> CHR 0x0A \<notin> set f"

lemma within_limit_Nil [simp]: "within_limit m []"
  by (simp add: within_limit_def)

lemma within_limit_strip_cr: "within_limit m b \<Longrightarrow> within_limit m (strip_cr b)"
  using strip_cr_bounds [of b] by (auto simp: within_limit_def)

lemma feed_invariant:
  assumes "within_limit m b"
  shows "list_all (\<lambda>f. f \<noteq> [] \<and> within_limit m f) (fst (feed m b s)) \<and>
    pred_option (within_limit m) (snd (feed m b s))"
  using assms
proof (induction m b s rule: feed.induct)
  case (2 m b c s)
  consider "c = CHR 0x0A" | "c \<noteq> CHR 0x0A" "unat m \<le> length b"
    | "c \<noteq> CHR 0x0A" "length b < unat m"
    by linarith
  then show ?case
  proof cases
    case 1
    with "2.IH"(1) "2.prems" within_limit_strip_cr [of m b] show ?thesis
      by (auto simp: Let_def split: prod.split)
  next
    case 3
    with "2.prems" have "within_limit m (b @ [c])" by (simp add: within_limit_def)
    with 3 "2.IH"(2) show ?thesis by simp
  qed simp
qed simp

section \<open>The read loop\<close>

text \<open>
  One iteration sees: \<open>running_\<close>, the result of \<open>poll\<close> (an error number, or the returned events
  of the wake-up pipe and of the input), \<open>closing_\<close>, and the result of \<open>read\<close> when it is called.
\<close>

datatype read_result = ReadEof | ReadErrno int | ReadAgain | ReadChunk string

datatype poll_result =
    PollErrno int
  | PollEintr
  | PollReady (wakeup: bool) (pollerr: bool) (pollin: "read_result option") (pollhup: bool)

record iteration =
  it_running :: bool
  it_closing :: bool
  it_poll :: poll_result

datatype callback = Cb_message string | Cb_error error_code | Cb_close

datatype loop_state = Looping string | Finished

fun read_body :: "size_t \<Rightarrow> string \<Rightarrow> read_result option \<Rightarrow> bool \<Rightarrow> callback list \<times> loop_state" where
  "read_body m buffer (Some ReadEof) hup = ([], Finished)"
| "read_body m buffer (Some ReadAgain) hup = ([], Looping buffer)"
| "read_body m buffer (Some (ReadErrno e)) hup = ([Cb_error (Ec_errno e)], Finished)"
| "read_body m buffer (Some (ReadChunk chunk)) hup =
     (case feed m buffer chunk of
        (msgs, Some buffer') \<Rightarrow> (map Cb_message msgs, Looping buffer')
      | (msgs, None) \<Rightarrow> (map Cb_message msgs @ [Cb_error Ec_message_size], Finished))"
| "read_body m buffer None hup = ([], if hup then Finished else Looping buffer)"

definition read_iteration :: "size_t \<Rightarrow> string \<Rightarrow> iteration \<Rightarrow> callback list \<times> loop_state" where
  "read_iteration m buffer it =
     (if \<not> it_running it then ([], Finished)
      else case it_poll it of
        PollEintr \<Rightarrow> ([], Looping buffer)
      | PollErrno e \<Rightarrow> ([Cb_error (Ec_errno e)], Finished)
      | PollReady wake err inp hup \<Rightarrow>
          if wake \<and> it_closing it then ([], Finished)
          else if err then ([Cb_error Ec_io_error], Finished)
          else read_body m buffer inp hup)"

text \<open>
  \<open>fire_close\<close> is called on every way out of the loop. The flag \<open>close_fired_\<close> is the one
  \<open>fire_close\<close> exchanges; the argument of the loop is its value before.
\<close>

definition fire_close :: "bool \<Rightarrow> callback list \<times> bool" where
  "fire_close already = ((if already then [] else [Cb_close]), True)"

fun read_loop :: "size_t \<Rightarrow> bool \<Rightarrow> string \<Rightarrow> iteration list \<Rightarrow> callback list \<times> bool \<times> loop_state" where
  "read_loop m fired buffer [] = ([], fired, Looping buffer)"
| "read_loop m fired buffer (it # its) =
     (case read_iteration m buffer it of
        (cbs, Looping buffer') \<Rightarrow>
          (let (cbs', fired', st) = read_loop m fired buffer' its in (cbs @ cbs', fired', st))
      | (cbs, Finished) \<Rightarrow>
          (let (cl, fired') = fire_close fired in (cbs @ cl, fired', Finished)))"

definition messages :: "callback list \<Rightarrow> string list" where
  "messages cbs = concat (map (\<lambda>cb. case cb of Cb_message f \<Rightarrow> [f] | _ \<Rightarrow> []) cbs)"

lemma messages_simps [simp]:
  "messages [] = []"
  "messages (Cb_message f # cbs) = f # messages cbs"
  "messages (Cb_error e # cbs) = messages cbs"
  "messages (Cb_close # cbs) = messages cbs"
  "messages (cbs @ cbs') = messages cbs @ messages cbs'"
  "messages (map Cb_message fs) = fs"
  by (induction fs) (simp_all add: messages_def)

definition quiet_iteration :: "string \<Rightarrow> iteration" where
  "quiet_iteration chunk =
     \<lparr>it_running = True, it_closing = False, it_poll = PollReady False False (Some (ReadChunk chunk)) False\<rparr>"

text \<open>Reading a stream chunk by chunk delivers what reading it in one piece delivers.\<close>

lemma read_loop_chunks:
  assumes "feed m b (concat chunks) = (msgs, Some b')"
  shows "read_loop m fired b (map quiet_iteration chunks) = (map Cb_message msgs, fired, Looping b')"
  using assms
proof (induction chunks arbitrary: b msgs)
  case (Cons c cs)
  obtain m1 r1 where f1: "feed m b c = (m1, r1)" by fastforce
  then obtain b1 m2 where "r1 = Some b1" "feed m b1 (concat cs) = (m2, Some b')" "msgs = m1 @ m2"
    using Cons.prems by (auto simp: feed_append Let_def split: option.splits prod.splits)
  with Cons.IH [of b1 m2] f1 show ?case
    by (simp add: quiet_iteration_def read_iteration_def)
qed simp

lemma read_iteration_no_close:
  "read_iteration m b it = (cbs, st) \<Longrightarrow> Cb_close \<notin> set cbs"
  by (auto simp: read_iteration_def split: if_splits poll_result.splits option.splits
      read_result.splits prod.splits elim!: read_body.elims)

lemma read_loop_close_once:
  "read_loop m fired b its = (cbs, fired', st) \<Longrightarrow>
     count_list cbs Cb_close = (if st = Finished \<and> \<not> fired then 1 else 0) \<and>
     (st = Finished \<longrightarrow> fired') \<and> (st \<noteq> Finished \<longrightarrow> fired' = fired)"
proof (induction m fired b its arbitrary: cbs fired' st rule: read_loop.induct)
  case (2 m fired b it its)
  obtain cbs1 st1 where it: "read_iteration m b it = (cbs1, st1)" by fastforce
  then have c1: "count_list cbs1 Cb_close = 0"
    by (simp add: read_iteration_no_close count_list_0_iff)
  show ?case
  proof (cases st1)
    case Finished
    with it c1 "2.prems" show ?thesis by (auto simp: fire_close_def)
  next
    case (Looping b')
    obtain cbs2 where "read_loop m fired b' its = (cbs2, fired', st)" "cbs = cbs1 @ cbs2"
      using "2.prems" it Looping by (auto split: prod.splits)
    with "2.IH" [OF it [symmetric] Looping] c1 show ?thesis by simp
  qed
qed auto

lemma read_body_invariant:
  assumes "within_limit m b"
  shows "list_all (\<lambda>f. f \<noteq> [] \<and> within_limit m f) (messages (fst (read_body m b r hup))) \<and>
    (\<forall>b'. snd (read_body m b r hup) = Looping b' \<longrightarrow> within_limit m b')"
proof (cases "(m, b, r, hup)" rule: read_body.cases)
  case (4 m' b' chunk hup')
  with assms feed_invariant [of m b chunk] show ?thesis
    by (auto split: prod.split option.split)
qed (use assms in auto)

lemma read_iteration_invariant:
  assumes "within_limit m b"
  shows "list_all (\<lambda>f. f \<noteq> [] \<and> within_limit m f) (messages (fst (read_iteration m b it))) \<and>
    (\<forall>b'. snd (read_iteration m b it) = Looping b' \<longrightarrow> within_limit m b')"
  using read_body_invariant [OF assms] assms
  by (simp add: read_iteration_def split: poll_result.split)

lemma messages_fire_close [simp]: "messages (fst (fire_close fired)) = []"
  by (simp add: fire_close_def)

lemma read_loop_invariant:
  assumes "within_limit m b"
  shows "list_all (\<lambda>f. f \<noteq> [] \<and> within_limit m f) (messages (fst (read_loop m fired b its)))"
  using assms
proof (induction m fired b its rule: read_loop.induct)
  case (2 m fired b it its)
  obtain cbs st where it: "read_iteration m b it = (cbs, st)" by fastforce
  note inv = read_iteration_invariant [OF "2.prems", of it, unfolded it fst_conv snd_conv]
  show ?case
  proof (cases st)
    case (Looping b')
    with "2.IH" [OF it [symmetric] Looping] it inv show ?thesis by (auto split: prod.split)
  next
    case Finished
    with it inv show ?thesis by (simp add: fire_close_def)
  qed
qed simp

section \<open>Life cycle\<close>

record StdioTransport =
  sio_running :: bool
  sio_closing :: bool
  sio_close_fired :: bool

definition StdioTransport_init :: StdioTransport where
  "StdioTransport_init = \<lparr>sio_running = False, sio_closing = False, sio_close_fired = False\<rparr>"

text \<open>The result of creating the wake-up pipe and setting its flags.\<close>

datatype pipe_result = PipeOk | PipeErrno int

definition stdio_start :: "pipe_result \<Rightarrow> StdioTransport \<Rightarrow> callback list \<times> StdioTransport" where
  "stdio_start pipe t =
     (if sio_running t then ([], t)
      else let t = t\<lparr>sio_running := True, sio_closing := False, sio_close_fired := False\<rparr>
           in case pipe of
                PipeErrno e \<Rightarrow> ([Cb_error (Ec_errno e)], t\<lparr>sio_running := False\<rparr>)
              | PipeOk \<Rightarrow> ([], t))"

text \<open>The read thread: its iterations change nothing but \<open>close_fired_\<close>.\<close>

definition stdio_read ::
    "size_t \<Rightarrow> string \<Rightarrow> iteration list \<Rightarrow> StdioTransport \<Rightarrow> callback list \<times> StdioTransport \<times> loop_state" where
  "stdio_read m buffer its t =
     (let (cbs, fired, st) = read_loop m (sio_close_fired t) buffer its
      in (cbs, t\<lparr>sio_close_fired := fired\<rparr>, st))"

text \<open>
  \<open>close\<close> waits for the read thread; \<open>its\<close> are the iterations that thread still makes before it
  is joined (none when it is gone already).
\<close>

definition stdio_close ::
    "size_t \<Rightarrow> string \<Rightarrow> iteration list \<Rightarrow> StdioTransport \<Rightarrow> callback list \<times> StdioTransport" where
  "stdio_close m buffer its t =
     (let t = t\<lparr>sio_closing := True, sio_running := False\<rparr>;
          (cbs, t, st) = stdio_read m buffer its t;
          (cl, fired) = fire_close (sio_close_fired t)
      in (cbs @ cl, t\<lparr>sio_close_fired := fired\<rparr>))"

lemma stdio_close_flags:
  assumes "stdio_close m b its t = (cbs, t')"
  shows "\<not> sio_running t' \<and> sio_close_fired t' \<and>
    count_list cbs Cb_close = (if sio_close_fired t then 0 else 1)"
proof -
  obtain cbs1 fired st where r: "read_loop m (sio_close_fired t) b its = (cbs1, fired, st)"
    by (metis prod_cases3)
  from read_loop_close_once [OF r] assms r show ?thesis
    by (auto simp: stdio_close_def stdio_read_def fire_close_def Let_def split: if_splits)
qed

lemma write_frame_progress:
  "list_all (\<lambda>r. r = WriteEintr \<or> r = Wrote 1) rs \<Longrightarrow> length data < count_list rs (Wrote 1) \<Longrightarrow>
     \<exists>rest. write_frame data rs = (data, Sent, rest) \<and>
       list_all (\<lambda>r. r = WriteEintr \<or> r = Wrote 1) rest \<and> Wrote 1 \<in> set rest"
proof (induction data rs rule: write_frame.induct)
  case (1 rs)
  then have "Wrote 1 \<in> set rs" using count_list_0_iff [of rs "Wrote 1"] by auto
  with 1 show ?case by simp
qed auto

lemma write_newline_progress:
  "list_all (\<lambda>r. r = WriteEintr \<or> r = Wrote 1) rs \<Longrightarrow> Wrote 1 \<in> set rs \<Longrightarrow>
     \<exists>rest. write_newline errno rs = ([CHR 0x0A], Sent, rest)"
  by (induction errno rs rule: write_newline.induct) auto

lemma good_frame_of_send:
  "stdio_send running errno rs f = (out, Sent) \<Longrightarrow> f \<noteq> [] \<Longrightarrow> last f \<noteq> CHR 0x0D \<Longrightarrow>
     length f \<le> unat m \<Longrightarrow> good_frame m f \<and> out = f @ [CHR 0x0A]"
  using stdio_send_Sent [of running errno rs f out] by (simp add: good_frame_def)

lemma read_loop_feed_overflow:
  assumes "feed m b (concat chunks) = (msgs, None)"
  shows "read_loop m False b (map quiet_iteration chunks @ its) =
    (map Cb_message msgs @ [Cb_error Ec_message_size, Cb_close], True, Finished)"
  using assms
proof (induction chunks arbitrary: b msgs)
  case (Cons c cs)
  obtain m1 r1 where f1: "feed m b c = (m1, r1)" by fastforce
  show ?case
  proof (cases r1)
    case None
    with f1 Cons.prems show ?thesis
      by (simp add: feed_append quiet_iteration_def read_iteration_def fire_close_def)
  next
    case (Some b1)
    then obtain m2 where "feed m b1 (concat cs) = (m2, None)" "msgs = m1 @ m2"
      using f1 Cons.prems by (auto simp: feed_append Let_def split: prod.splits)
    with Cons.IH [of b1 m2] f1 Some show ?thesis
      by (simp add: quiet_iteration_def read_iteration_def)
  qed
qed simp

section \<open>Properties\<close>

text \<open>
  \<open>StdioTransport::send\<close> reports success exactly when it has written the frame and one
  newline, however the kernel splits the writes; whatever it reports, what it wrote is a prefix
  of that.
\<close>

theorem stdio_send_exact:
  "stdio_send running errno rs frame = (out, r) \<Longrightarrow>
     (\<exists>t. frame @ [CHR 0x0A] = out @ t) \<and> (r = Sent \<longleftrightarrow> out = frame @ [CHR 0x0A])"
proof -
  assume s: "stdio_send running errno rs frame = (out, r)"
  obtain o1 r1 rs1 where w: "write_frame frame rs = (o1, r1, rs1)" by (metis prod_cases3)
  obtain o2 r2 rs2 where nl: "write_newline errno rs1 = (o2, r2, rs2)" by (metis prod_cases3)
  have len: "length o1 \<le> length frame" using write_frame_prefix [OF w] by auto
  have "r \<noteq> Sent \<Longrightarrow> length out \<le> length frame"
    using s w nl len write_newline_cases [OF nl]
    by (auto simp: stdio_send_def split: if_splits send_outcome.splits)
  moreover have "r = Sent \<Longrightarrow> out = frame @ [CHR 0x0A]" using stdio_send_Sent s by blast
  ultimately show ?thesis using stdio_send_prefix [OF s] by fastforce
qed

theorem stdio_send_exact_witness:
  "(\<exists>t. ''ab'' @ [CHR 0x0A] = ''a'' @ t) \<and>
     (SendFailed (Ec_errno 32) = Sent \<longleftrightarrow> ''a'' = ''ab'' @ [CHR 0x0A])"
  by (rule stdio_send_exact [of True 0 "[Wrote 1, WriteEintr, WriteErrno 32]"])
    (simp add: stdio_send_def)

text \<open>
  A write that always makes progress ends: with one byte taken per call, however many
  interrupted calls come between, \<open>send\<close> of a frame without a newline succeeds.
\<close>

theorem stdio_send_completes:
  assumes "list_all (\<lambda>r. r = WriteEintr \<or> r = Wrote 1) rs"
    and "length frame < count_list rs (Wrote 1)" and "CHR 0x0A \<notin> set frame"
  shows "stdio_send True errno rs frame = (frame @ [CHR 0x0A], Sent)"
proof -
  obtain rest where w: "write_frame frame rs = (frame, Sent, rest)"
    and rest: "list_all (\<lambda>r. r = WriteEintr \<or> r = Wrote 1) rest" "Wrote 1 \<in> set rest"
    using write_frame_progress [OF assms(1,2)] by blast
  obtain rest' where "write_newline errno rest = ([CHR 0x0A], Sent, rest')"
    using write_newline_progress [OF rest] by blast
  with w assms(3) show ?thesis by (simp add: stdio_send_def)
qed

theorem stdio_send_completes_witness:
  "stdio_send True 0 [Wrote 1, WriteEintr, Wrote 1, Wrote 1] ''{}'' = (''{}'' @ [CHR 0x0A], Sent)"
  by (rule stdio_send_completes) simp_all

text \<open>
  C25: Frames sent one after another over a pipe arrive one by one, in order and unchanged, however
  the writes were split and whatever chunks the reader gets, provided that no frame is empty, ends
  in a carriage return or exceeds the reader's limit. Nothing is left in the buffer.
\<close>

theorem stdio_roundtrip:
  assumes "list_all2 (\<lambda>(errno, rs, frame) out. stdio_send True errno rs frame = (out, Sent)) sends outs"
    and "list_all (\<lambda>(errno, rs, frame). frame \<noteq> [] \<and> last frame \<noteq> CHR 0x0D \<and>
           length frame \<le> unat m) sends"
    and "concat chunks = concat outs"
  shows "read_loop m fired [] (map quiet_iteration chunks) =
    (map (\<lambda>(errno, rs, frame). Cb_message frame) sends, fired, Looping [])"
proof -
  let ?fs = "map (\<lambda>(errno, rs, frame). frame) sends"
  have "list_all (good_frame m) ?fs \<and> outs = map (\<lambda>f. f @ [CHR 0x0A]) ?fs"
    using assms(1,2)
    by (induction sends outs rule: list_all2_induct) (auto dest: good_frame_of_send)
  with assms(3) feed_frames [of m ?fs]
  have "feed m [] (concat chunks) = (?fs, Some [])" by simp
  from read_loop_chunks [OF this, of fired] show ?thesis by (simp add: comp_def case_prod_unfold)
qed

theorem stdio_roundtrip_witness:
  "read_loop 16 False [] (map quiet_iteration [''a'', ''b'' @ [CHR 0x0A] @ ''cd'', [CHR 0x0A]]) =
     (map (\<lambda>(errno, rs, frame). Cb_message frame)
        [(0 :: int, [Wrote 1, WriteEintr, Wrote 1, Wrote 1], ''ab''), (0, [Wrote 2, Wrote 1], ''cd'')],
      False, Looping [])"
  by (rule stdio_roundtrip [where outs = "[''ab'' @ [CHR 0x0A], ''cd'' @ [CHR 0x0A]]"])
    (simp_all add: stdio_send_def)

text \<open>
  The reader never hands up an empty message or one longer than \<open>max_frame_bytes\<close> or one
  with a newline in it, whatever the peer and the operating system do.
\<close>

theorem stdio_messages_bounded:
  "list_all (\<lambda>f. f \<noteq> [] \<and> length f \<le> unat m \<and> CHR 0x0A \<notin> set f)
     (messages (fst (read_loop m fired [] its)))"
  using read_loop_invariant [OF within_limit_Nil, of m fired its] by (simp add: within_limit_def)

text \<open>
  A line longer than \<open>max_frame_bytes\<close> ends the connection: the complete frames before it are
  delivered, then one \<open>message_size\<close> error and one close, and nothing that follows is read.
\<close>

theorem stdio_oversized_line:
  assumes "list_all (good_frame m) frames" and "CHR 0x0A \<notin> set line" and "unat m < length line"
    and "concat chunks = concat (map (\<lambda>f. f @ [CHR 0x0A]) frames) @ line"
  shows "read_loop m False [] (map quiet_iteration chunks @ its) =
    (map Cb_message frames @ [Cb_error Ec_message_size, Cb_close], True, Finished)"
proof -
  have "feed m [] (concat chunks) = (frames, None)"
    unfolding assms(4) feed_append feed_frames [OF assms(1)]
    using feed_too_long [of line m "[]"] assms(2,3) by simp
  then show ?thesis by (rule read_loop_feed_overflow)
qed

theorem stdio_oversized_line_witness:
  "read_loop 3 False [] (map quiet_iteration [''ok'' @ [CHR 0x0A] @ ''lo'', ''ng''] @
       [quiet_iteration [CHR 0x0A, CHR ''x'', CHR 0x0A]]) =
     (map Cb_message [''ok''] @ [Cb_error Ec_message_size, Cb_close], True, Finished)"
  by (rule stdio_oversized_line [where line = "''long''"]) (simp_all add: good_frame_def)

text \<open>
  Between \<open>start\<close> and the end of \<open>close\<close>, \<open>on_close\<close> fires exactly once, whether the read
  thread ended by itself first (end of file, error) or was stopped by \<open>close\<close>; a second \<open>close\<close>
  does not fire it again, and afterwards \<open>send\<close> reports \<open>not_connected\<close>.
\<close>

theorem stdio_on_close_once:
  assumes "\<not> sio_running told"
    and "stdio_start PipeOk told = (cbs0, t)" and "stdio_read m [] its t = (cbs1, tread, st)"
    and "stdio_close m b its' tread = (cbs2, tclosed)" and "stdio_close m [] [] tclosed = (cbs3, tagain)"
  shows "count_list (cbs0 @ cbs1 @ cbs2) Cb_close = 1 \<and> Cb_close \<notin> set cbs3 \<and>
    stdio_send (sio_running tagain) errno rs frame = ([], SendFailed Ec_not_connected)"
proof -
  have start: "cbs0 = []" "sio_close_fired t = False"
    using assms(1,2) by (auto simp: stdio_start_def)
  obtain fired where r: "read_loop m False [] its = (cbs1, fired, st)"
    and tread: "sio_close_fired tread = fired"
    using assms(3) start by (auto simp: stdio_read_def split: prod.splits)
  note once = read_loop_close_once [OF r]
  from stdio_close_flags [OF assms(4)] stdio_close_flags [OF assms(5)]
  have "sio_close_fired tclosed" "count_list cbs3 Cb_close = 0" "\<not> sio_running tagain"
    "count_list cbs2 Cb_close = (if fired then 0 else 1)"
    using tread by auto
  with once start show ?thesis
    by (auto simp: stdio_send_def count_list_0_iff)
qed

theorem stdio_on_close_once_witness:
  "count_list ([] @ [Cb_message ''a''] @ [Cb_close]) Cb_close = 1 \<and> Cb_close \<notin> set [] \<and>
     stdio_send (sio_running \<lparr>sio_running = False, sio_closing = True, sio_close_fired = True\<rparr>)
       0 [Wrote 1] ''x'' = ([], SendFailed Ec_not_connected)"
proof -
  let ?fired = "\<lparr>sio_running = True, sio_closing = False, sio_close_fired = False\<rparr>"
  have start: "stdio_start PipeOk StdioTransport_init = ([], ?fired)"
    by (simp add: stdio_start_def StdioTransport_init_def)
  have read: "stdio_read 8 [] [quiet_iteration [CHR ''a'', CHR 0x0A]] ?fired =
      ([Cb_message ''a''], ?fired, Looping [])"
    by (simp add: stdio_read_def quiet_iteration_def read_iteration_def strip_cr_def)
  have close: "stdio_close 8 [] [] ?fired =
      ([Cb_close], \<lparr>sio_running = False, sio_closing = True, sio_close_fired = True\<rparr>)"
    by (simp add: stdio_close_def stdio_read_def fire_close_def)
  have again: "stdio_close 8 [] [] \<lparr>sio_running = False, sio_closing = True, sio_close_fired = True\<rparr> =
      ([], \<lparr>sio_running = False, sio_closing = True, sio_close_fired = True\<rparr>)"
    by (simp add: stdio_close_def stdio_read_def fire_close_def)
  show ?thesis
    by (rule stdio_on_close_once [OF _ start read close again]) (simp add: StdioTransport_init_def)
qed

end
