(* ===== verification/Json_Lib.thy ===== *)
theory Json_Lib
  imports Mcp_Prelude
begin

text \<open>
  The interface to nlohmann::json. The library is not part of the repository, so its value type
  is a type parameter \<open>'j\<close> and its operations are the fields of a record \<open>'j json_ops\<close> that every
  definition using them takes as an argument. The locale \<open>json_lib\<close> states the documented
  behaviour the code relies on. On top of it stand the error types of include/mcp/error.hpp, the
  field helpers of src/protocol.cpp (\<open>require\<close>, \<open>take_optional\<close>, \<open>put_optional\<close>), and the locale
  \<open>codec\<close>: a \<open>to_json\<close>/\<open>from_json\<close> pair whose encoder never writes null and whose decoder
  inverts it on well-formed values.
\<close>

section \<open>The operations of the library\<close>

text \<open>
  \<open>j_set j k v\<close> is \<open>j[k] = v\<close> on an object or on null, \<open>j_init\<close> the initializer list of
  key/value pairs, \<open>j_find\<close> is \<open>find\<close> with \<open>None\<close> for \<open>end()\<close>, \<open>j_items\<close> the iteration over an
  object's members. A \<open>get\<close> that throws a \<open>json::exception\<close> returns its \<open>what()\<close> as \<open>Inl\<close>.
\<close>

record 'j json_ops =
  j_null :: 'j
  j_object :: 'j
  j_string :: "string \<Rightarrow> 'j"
  j_bool :: "bool \<Rightarrow> 'j"
  j_int :: "int32 \<Rightarrow> 'j"
  j_int64 :: "int64 \<Rightarrow> 'j"
  j_double :: "double \<Rightarrow> 'j"
  j_array :: "'j list \<Rightarrow> 'j"
  j_init :: "(string \<times> 'j) list \<Rightarrow> 'j"
  j_set :: "'j \<Rightarrow> string \<Rightarrow> 'j \<Rightarrow> 'j"
  j_find :: "'j \<Rightarrow> string \<Rightarrow> 'j option"
  j_contains :: "'j \<Rightarrow> string \<Rightarrow> bool"
  j_at :: "'j \<Rightarrow> string \<Rightarrow> string + 'j"
  j_items :: "'j \<Rightarrow> (string \<times> 'j) list"
  j_is_null :: "'j \<Rightarrow> bool"
  j_is_object :: "'j \<Rightarrow> bool"
  j_is_array :: "'j \<Rightarrow> bool"
  j_is_string :: "'j \<Rightarrow> bool"
  j_is_number_integer :: "'j \<Rightarrow> bool"
  j_is_number_unsigned :: "'j \<Rightarrow> bool"
  j_is_number_float :: "'j \<Rightarrow> bool"
  j_get_string :: "'j \<Rightarrow> string + string"
  j_get_bool :: "'j \<Rightarrow> string + bool"
  j_get_int :: "'j \<Rightarrow> string + int32"
  j_get_int64 :: "'j \<Rightarrow> string + int64"
  j_get_uint64 :: "'j \<Rightarrow> string + uint64"
  j_get_double :: "'j \<Rightarrow> string + double"
  j_get_array :: "'j \<Rightarrow> string + 'j list"
  j_parse :: "string \<Rightarrow> string + 'j"
  j_dump :: "'j \<Rightarrow> string + string"

section \<open>Errors\<close>

record 'j ErrorObject =
  eo_code :: int32
  eo_message :: string
  eo_data :: 'j

text \<open>
  Everything a call can throw, as the \<open>catch\<close> clauses of the code tell them apart: \<open>mcp::Error\<close>,
  \<open>nlohmann::json::exception\<close>, another \<open>std::exception\<close> (both with their \<open>what()\<close>), anything
  else. \<open>Undefined\<close> is no exception: it marks an execution that has undefined behaviour, which
  no handler of the model turns into a normal result.
\<close>

datatype 'j exc =
    McpError "'j ErrorObject"
  | JsonException string
  | StdException string
  | OtherException
  | Undefined

definition parse_error :: int32 where "parse_error = - 32700"
definition invalid_request :: int32 where "invalid_request = - 32600"
definition method_not_found :: int32 where "method_not_found = - 32601"
definition invalid_params :: int32 where "invalid_params = - 32602"
definition internal_error :: int32 where "internal_error = - 32603"
definition url_elicitation_required :: int32 where "url_elicitation_required = - 32042"

lemmas error_code_defs =
  parse_error_def invalid_request_def method_not_found_def invalid_params_def
  internal_error_def url_elicitation_required_def

definition has_data :: "'j json_ops \<Rightarrow> 'j ErrorObject \<Rightarrow> bool" where
  "has_data J e \<longleftrightarrow> \<not> j_is_null J (eo_data e)"

text \<open>The constructor \<open>Error(code, msg, data = {})\<close>: the default data is null.\<close>

definition Error3 :: "int32 \<Rightarrow> string \<Rightarrow> 'j \<Rightarrow> 'j exc" where
  "Error3 c m d = McpError \<lparr>eo_code = c, eo_message = m, eo_data = d\<rparr>"

definition Error :: "'j json_ops \<Rightarrow> int32 \<Rightarrow> string \<Rightarrow> 'j exc" where
  "Error J c m = Error3 c m (j_null J)"

text \<open>\<open>e.what()\<close> of a \<open>std::exception\<close>; \<open>mcp::Error\<close> hands its message to \<open>runtime_error\<close>.\<close>

fun is_std_exception :: "'j exc \<Rightarrow> bool" where
  "is_std_exception (McpError e) \<longleftrightarrow> True"
| "is_std_exception (JsonException w) \<longleftrightarrow> True"
| "is_std_exception (StdException w) \<longleftrightarrow> True"
| "is_std_exception OtherException \<longleftrightarrow> False"
| "is_std_exception Undefined \<longleftrightarrow> False"

fun what :: "'j exc \<Rightarrow> string" where
  "what (McpError e) = eo_message e"
| "what (JsonException w) = w"
| "what (StdException w) = w"
| "what OtherException = []"
| "what Undefined = []"

text \<open>A library call that throws \<open>json::exception\<close>, inside code that can throw anything.\<close>

fun json_call :: "string + 'a \<Rightarrow> 'j exc + 'a" where
  "json_call (Inl w) = Inl (JsonException w)"
| "json_call (Inr x) = Inr x"

text \<open>\<open>catch (const std::exception& e) { throw Error(code, prefix + e.what()); }\<close>\<close>

definition rethrow_as :: "'j json_ops \<Rightarrow> int32 \<Rightarrow> string \<Rightarrow> 'j exc + 'a \<Rightarrow> 'j exc + 'a" where
  "rethrow_as J code prefix m =
     ecatch m (\<lambda>e. Inl (if is_std_exception e then Error J code (prefix @ what e) else e))"

section \<open>The field helpers of src/protocol.cpp\<close>

definition require :: "'j json_ops \<Rightarrow> ('j \<Rightarrow> 'j exc + 'a) \<Rightarrow> 'j \<Rightarrow> string \<Rightarrow> 'j exc + 'a" where
  "require J get j key =
     (case j_find J j key of
        None \<Rightarrow> Inl (Error J parse_error (''missing required field: '' @ key))
      | Some v \<Rightarrow> get v)"

definition take_optional ::
    "'j json_ops \<Rightarrow> ('j \<Rightarrow> 'j exc + 'a) \<Rightarrow> 'j \<Rightarrow> string \<Rightarrow> 'j exc + 'a option" where
  "take_optional J get j key =
     (case j_find J j key of
        None \<Rightarrow> Inr None
      | Some v \<Rightarrow> if j_is_null J v then Inr None else emap Some (get v))"

definition take_optional_json :: "'j json_ops \<Rightarrow> 'j \<Rightarrow> string \<Rightarrow> 'j exc + 'j option" where
  "take_optional_json J j key =
     (case j_find J j key of
        None \<Rightarrow> Inr None
      | Some v \<Rightarrow> if j_is_null J v then Inr None else Inr (Some v))"

definition put_optional ::
    "'j json_ops \<Rightarrow> ('a \<Rightarrow> 'j) \<Rightarrow> string \<Rightarrow> 'a option \<Rightarrow> 'j \<Rightarrow> 'j" where
  "put_optional J put key value j =
     (case value of None \<Rightarrow> j | Some v \<Rightarrow> j_set J j key (put v))"

text \<open>The variant that ignores a field of another kind: \<open>it != j.end() && it->is_array()\<close>.\<close>

definition take_if_array ::
    "'j json_ops \<Rightarrow> ('j \<Rightarrow> 'j exc + 'a) \<Rightarrow> 'j \<Rightarrow> string \<Rightarrow> 'j exc + 'a option" where
  "take_if_array J get j key =
     (case j_find J j key of
        None \<Rightarrow> Inr None
      | Some v \<Rightarrow> if j_is_array J v then emap Some (get v) else Inr None)"

text \<open>\<open>j.at(key).get<T>()\<close>\<close>

definition at_get :: "'j json_ops \<Rightarrow> ('j \<Rightarrow> 'j exc + 'a) \<Rightarrow> 'j \<Rightarrow> string \<Rightarrow> 'j exc + 'a" where
  "at_get J get j key = ebind (json_call (j_at J j key)) get"

text \<open>The \<open>get<T>\<close> of the basic types.\<close>

definition get_str :: "'j json_ops \<Rightarrow> 'j \<Rightarrow> 'j exc + string" where
  "get_str J j = json_call (j_get_string J j)"

definition get_boolean :: "'j json_ops \<Rightarrow> 'j \<Rightarrow> 'j exc + bool" where
  "get_boolean J j = json_call (j_get_bool J j)"

definition get_i32 :: "'j json_ops \<Rightarrow> 'j \<Rightarrow> 'j exc + int32" where
  "get_i32 J j = json_call (j_get_int J j)"

definition get_i64 :: "'j json_ops \<Rightarrow> 'j \<Rightarrow> 'j exc + int64" where
  "get_i64 J j = json_call (j_get_int64 J j)"

definition get_dbl :: "'j json_ops \<Rightarrow> 'j \<Rightarrow> 'j exc + double" where
  "get_dbl J j = json_call (j_get_double J j)"

text \<open>\<open>std::vector<T>\<close>: \<open>to_json\<close> maps the element encoder, \<open>get\<close> reads every element in turn.\<close>

definition put_vector :: "'j json_ops \<Rightarrow> ('a \<Rightarrow> 'j) \<Rightarrow> 'a list \<Rightarrow> 'j" where
  "put_vector J put xs = j_array J (map put xs)"

definition get_vector :: "'j json_ops \<Rightarrow> ('j \<Rightarrow> 'j exc + 'a) \<Rightarrow> 'j \<Rightarrow> 'j exc + 'a list" where
  "get_vector J get j = ebind (json_call (j_get_array J j)) (emap_list get)"

section \<open>Documented behaviour of the library\<close>

locale json_lib =
  fixes J :: "'j json_ops"
  assumes find_not_object: "\<not> j_is_object J j \<Longrightarrow> j_find J j k = None"
    and find_object: "j_find J (j_object J) k = None"
    and find_set: "j_is_object J j \<Longrightarrow>
      j_find J (j_set J j k v) k' = (if k' = k then Some v else j_find J j k')"
    and find_init: "distinct (map fst kvs) \<Longrightarrow> kvs \<noteq> [] \<Longrightarrow> j_find J (j_init J kvs) k = map_of kvs k"
    and contains_find: "j_contains J j k \<longleftrightarrow> j_find J j k \<noteq> None"
    and at_found: "j_find J j k = Some v \<Longrightarrow> j_at J j k = Inr v"
    and at_missing: "j_find J j k = None \<Longrightarrow> \<exists>w. j_at J j k = Inl w"
    and items_object: "j_is_object J j \<Longrightarrow>
      distinct (map fst (j_items J j)) \<and> map_of (j_items J j) = j_find J j"
    and one_kind: "of_bool (j_is_null J j) + of_bool (j_is_object J j) + of_bool (j_is_array J j)
      + of_bool (j_is_string J j) + of_bool (j_is_number_integer J j)
      + of_bool (j_is_number_float J j) \<le> (1::nat)"
    and is_null_null: "j_is_null J (j_null J)"
    and null_unique: "j_is_null J j \<Longrightarrow> j = j_null J"
    and is_object_object: "j_is_object J (j_object J)"
    and is_object_set: "j_is_object J j \<Longrightarrow> j_is_object J (j_set J j k v)"
    and is_object_init: "kvs \<noteq> [] \<Longrightarrow> j_is_object J (j_init J kvs)"
    and is_array_array: "j_is_array J (j_array J xs)"
    and is_string_string: "j_is_string J (j_string J s)"
    and is_integer_int: "j_is_number_integer J (j_int J i)"
    and is_integer_int64: "j_is_number_integer J (j_int64 J w)"
    and is_float_double: "j_is_number_float J (j_double J d)"
    and bool_not_null: "\<not> j_is_null J (j_bool J b)"
    and unsigned_integer: "j_is_number_unsigned J j \<Longrightarrow> j_is_number_integer J j"
    and int64_not_unsigned: "\<not> j_is_number_unsigned J (j_int64 J w)"
    and get_string: "j_get_string J (j_string J s) = Inr s"
    and get_bool: "j_get_bool J (j_bool J b) = Inr b"
    and get_int: "j_get_int J (j_int J i) = Inr i"
    and get_int64: "j_get_int64 J (j_int64 J w) = Inr w"
    and get_double: "j_get_double J (j_double J d) = Inr d"
    and get_array: "j_get_array J (j_array J xs) = Inr xs"
    and get_string_kind: "j_is_string J j \<longleftrightarrow> (\<exists>s. j_get_string J j = Inr s)"
    and get_array_kind: "j_is_array J j \<longleftrightarrow> (\<exists>xs. j_get_array J j = Inr xs)"
    and get_int64_integer: "j_is_number_integer J j \<Longrightarrow> \<exists>w. j_get_int64 J j = Inr w"
    and get_double_float: "j_is_number_float J j \<Longrightarrow> \<exists>d. j_get_double J j = Inr d"
    and get_uint64_unsigned: "j_is_number_unsigned J j \<Longrightarrow> j_get_uint64 J j = j_get_int64 J j"
begin

lemma object_kind:
  assumes "j_is_object J j"
  shows "\<not> j_is_null J j" "\<not> j_is_array J j" "\<not> j_is_string J j"
    "\<not> j_is_number_integer J j" "\<not> j_is_number_float J j"
  using assms one_kind [of j] by (auto simp: of_bool_def split: if_splits)

lemma array_kind:
  assumes "j_is_array J j"
  shows "\<not> j_is_null J j" "\<not> j_is_object J j" "\<not> j_is_string J j"
    "\<not> j_is_number_integer J j" "\<not> j_is_number_float J j"
  using assms one_kind [of j] by (auto simp: of_bool_def split: if_splits)

lemma string_kind:
  assumes "j_is_string J j"
  shows "\<not> j_is_null J j" "\<not> j_is_object J j" "\<not> j_is_array J j"
    "\<not> j_is_number_integer J j" "\<not> j_is_number_float J j"
  using assms one_kind [of j] by (auto simp: of_bool_def split: if_splits)

lemma integer_kind:
  assumes "j_is_number_integer J j"
  shows "\<not> j_is_null J j" "\<not> j_is_object J j" "\<not> j_is_array J j"
    "\<not> j_is_string J j" "\<not> j_is_number_float J j"
  using assms one_kind [of j] by (auto simp: of_bool_def split: if_splits)

lemma float_kind:
  assumes "j_is_number_float J j"
  shows "\<not> j_is_null J j" "\<not> j_is_object J j" "\<not> j_is_array J j"
    "\<not> j_is_string J j" "\<not> j_is_number_integer J j" "\<not> j_is_number_unsigned J j"
  using assms one_kind [of j] unsigned_integer [of j]
  by (auto simp: of_bool_def split: if_splits)

lemmas kind_simps [simp] =
  is_null_null is_object_object is_object_set is_object_init is_array_array is_string_string
  is_integer_int is_integer_int64 is_float_double bool_not_null int64_not_unsigned
  object_kind [OF is_object_object] object_kind [OF is_object_set] object_kind [OF is_object_init]
  array_kind [OF is_array_array] string_kind [OF is_string_string]
  integer_kind [OF is_integer_int] integer_kind [OF is_integer_int64]
  float_kind [OF is_float_double]

lemmas get_simps [simp] =
  get_string get_bool get_int get_int64 get_double get_array

lemmas find_simps [simp] = find_object find_set find_init

lemma get_str_string [simp]: "get_str J (j_string J s) = Inr s"
  by (simp add: get_str_def)

lemma get_boolean_bool [simp]: "get_boolean J (j_bool J b) = Inr b"
  by (simp add: get_boolean_def)

lemma get_i32_int [simp]: "get_i32 J (j_int J i) = Inr i"
  by (simp add: get_i32_def)

lemma get_i64_int64 [simp]: "get_i64 J (j_int64 J w) = Inr w"
  by (simp add: get_i64_def)

lemma get_dbl_double [simp]: "get_dbl J (j_double J d) = Inr d"
  by (simp add: get_dbl_def)

text \<open>Fields written by \<open>put_optional\<close> into an object that does not have the key yet.\<close>

lemma is_object_put_optional [simp]:
  "j_is_object J j \<Longrightarrow> j_is_object J (put_optional J put k v j)"
  by (cases v) (simp_all add: put_optional_def)

lemmas put_optional_kind [simp] = object_kind [OF is_object_put_optional]

lemma find_put_optional_same [simp]:
  "j_is_object J j \<Longrightarrow> j_find J j k = None \<Longrightarrow>
     j_find J (put_optional J put k v j) k = map_option put v"
  by (cases v) (simp_all add: put_optional_def)

lemma find_put_optional_other [simp]:
  "j_is_object J j \<Longrightarrow> k' \<noteq> k \<Longrightarrow>
     j_find J (put_optional J put k v j) k' = j_find J j k'"
  by (cases v) (simp_all add: put_optional_def)

lemma at_get_found [simp]:
  "j_find J j k = Some v \<Longrightarrow> at_get J get j k = get v"
  by (simp add: at_get_def at_found)

lemma at_get_eq_Inr_iff:
  "at_get J get j k = Inr x \<longleftrightarrow> (\<exists>v. j_find J j k = Some v \<and> get v = Inr x)"
proof (cases "j_find J j k")
  case None
  with at_missing [OF None] show ?thesis by (auto simp: at_get_def)
next
  case (Some v)
  then show ?thesis by (simp add: at_get_found)
qed

lemma require_eq_Inr_iff:
  "require J get j k = Inr x \<longleftrightarrow> (\<exists>v. j_find J j k = Some v \<and> get v = Inr x)"
  by (simp add: require_def split: option.split)

end

section \<open>Codecs\<close>

text \<open>
  \<open>opt_get J dec v\<close> reads a found value (\<open>None\<close> for \<open>end()\<close>) as \<open>take_optional\<close> does.
\<close>

definition opt_get ::
    "'j json_ops \<Rightarrow> ('j \<Rightarrow> 'j exc + 'a) \<Rightarrow> 'j option \<Rightarrow> 'j exc + 'a option" where
  "opt_get J dec v =
     (case v of None \<Rightarrow> Inr None
              | Some v \<Rightarrow> if j_is_null J v then Inr None else emap Some (dec v))"

lemma take_optional_opt_get [codec_simps]:
  "take_optional J dec j k = opt_get J dec (j_find J j k)"
  by (simp add: take_optional_def opt_get_def)

lemma take_optional_json_opt_get [codec_simps]:
  "take_optional_json J j k = opt_get J Inr (j_find J j k)"
  by (auto simp: take_optional_json_def opt_get_def split: option.split)

lemma opt_get_None [simp]: "opt_get J dec None = Inr None"
  by (simp add: opt_get_def)

text \<open>A raw JSON field round-trips unless it holds an explicit null.\<close>

definition raw_wf :: "'j json_ops \<Rightarrow> 'j option \<Rightarrow> bool" where
  "raw_wf J r \<longleftrightarrow> (case r of None \<Rightarrow> True | Some v \<Rightarrow> \<not> j_is_null J v)"

lemma raw_wf_simps [simp]: "raw_wf J None" "raw_wf J (Some v) \<longleftrightarrow> \<not> j_is_null J v"
  by (simp_all add: raw_wf_def)

lemma opt_get_raw [codec_simps]: "raw_wf J r \<Longrightarrow> opt_get J Inr r = Inr r"
  by (cases r) (simp_all add: opt_get_def)

locale codec =
  fixes J :: "'j json_ops" and enc :: "'a \<Rightarrow> 'j" and dec :: "'j \<Rightarrow> 'j exc + 'a"
    and valid :: "'a \<Rightarrow> bool"
  assumes dec_enc: "valid x \<Longrightarrow> dec (enc x) = Inr x"
    and enc_not_null: "valid x \<Longrightarrow> \<not> j_is_null J (enc x)"
begin

lemma opt_get_enc [simp]: "pred_option valid v \<Longrightarrow> opt_get J dec (map_option enc v) = Inr v"
  by (cases v) (simp_all add: opt_get_def dec_enc enc_not_null)

lemma emap_list_enc: "list_all valid xs \<Longrightarrow> emap_list dec (map enc xs) = Inr xs"
  by (rule emap_list_map) (simp add: list_all_iff dec_enc)

lemma dec_enc' [simp]: "valid x \<Longrightarrow> dec (enc x) = Inr x"
  by (rule dec_enc)

lemma enc_not_null' [simp]: "valid x \<Longrightarrow> \<not> j_is_null J (enc x)"
  by (rule enc_not_null)

end

context json_lib
begin

lemma string_codec: "codec J (j_string J) (get_str J) (\<lambda>_. True)"
  by unfold_locales simp_all

lemma bool_codec: "codec J (j_bool J) (get_boolean J) (\<lambda>_. True)"
  by unfold_locales simp_all

lemma int64_codec: "codec J (j_int64 J) (get_i64 J) (\<lambda>_. True)"
  by unfold_locales simp_all

lemma double_codec: "codec J (j_double J) (get_dbl J) (\<lambda>_. True)"
  by unfold_locales simp_all

lemma vector_codec:
  assumes "codec J put get valid"
  shows "codec J (put_vector J put) (get_vector J get) (list_all valid)"
proof
  fix xs assume "list_all valid xs"
  with assms show "get_vector J get (put_vector J put xs) = Inr xs"
    by (simp add: get_vector_def put_vector_def codec.emap_list_enc)
qed (simp add: put_vector_def)

lemma take_if_array_found:
  assumes "codec J put get valid" and "pred_option (list_all valid) v"
    and "j_find J j k = map_option (put_vector J put) v"
  shows "take_if_array J (get_vector J get) j k = Inr v"
  using assms codec.dec_enc [OF vector_codec [OF assms(1)]]
  by (cases v) (simp_all add: take_if_array_def put_vector_def)

end

sublocale json_lib \<subseteq> string: codec J "j_string J" "get_str J" "\<lambda>_. True"
  by (rule string_codec)

sublocale json_lib \<subseteq> bool: codec J "j_bool J" "get_boolean J" "\<lambda>_. True"
  by (rule bool_codec)

sublocale json_lib \<subseteq> int64: codec J "j_int64 J" "get_i64 J" "\<lambda>_. True"
  by (rule int64_codec)

sublocale json_lib \<subseteq> double: codec J "j_double J" "get_dbl J" "\<lambda>_. True"
  by (rule double_codec)

sublocale json_lib \<subseteq> strings:
  codec J "put_vector J (j_string J)" "get_vector J (get_str J)" "list_all (\<lambda>_. True)"
  by (rule vector_codec) (rule string_codec)

end
