(* ===== verification/Ieee_Double.thy ===== *)
theory Ieee_Double
  imports Mcp_Prelude
begin

text \<open>
  The arithmetic of \<open>double\<close> that the example programs use: IEEE binary64 with rounding to nearest, ties
  to even (the default mode, which no code changes), the conversion of an integer to \<open>double\<close>, and
  the text that \<open>std::to_string(double)\<close> writes, that is \<open>printf("%f")\<close> with its six digits.

  Lemmas: rounding returns a representable value, the nearest one, and leaves a representable value
  as it is; hence operations on integers of at most 53 bits are exact.
\<close>

section \<open>Rounding to an integer\<close>

definition nearest_even :: "rat \<Rightarrow> int" where
  "nearest_even x =
     (let q = \<lfloor>x\<rfloor>; r = x - of_int q in if r < 1 / 2 \<or> r = 1 / 2 \<and> even q then q else q + 1)"

lemma nearest_even_of_int [simp]: "nearest_even (of_int n) = n"
  by (simp add: nearest_even_def)

lemma nearest_even_close: "\<bar>of_int (nearest_even x) - x\<bar> \<le> 1 / 2"
proof -
  have "of_int \<lfloor>x\<rfloor> \<le> x" "x < of_int \<lfloor>x\<rfloor> + 1" by linarith+
  then show ?thesis by (simp add: nearest_even_def Let_def)
qed

lemma nearest_even_nearest: "\<bar>of_int (nearest_even x) - x\<bar> \<le> \<bar>of_int k - x\<bar>"
proof (cases "k = nearest_even x")
  case False
  then have "1 \<le> \<bar>k - nearest_even x\<bar>" by linarith
  then have "(1 :: rat) \<le> \<bar>of_int k - of_int (nearest_even x)\<bar>"
    by (metis of_int_1 of_int_abs of_int_diff of_int_le_iff)
  then show ?thesis using nearest_even_close [of x] by linarith
qed simp

lemma nearest_even_mono: "x \<le> y \<Longrightarrow> nearest_even x \<le> nearest_even y"
proof (rule ccontr)
  assume le: "x \<le> y" and "\<not> nearest_even x \<le> nearest_even y"
  then have "(of_int (nearest_even y) :: rat) + 1 \<le> of_int (nearest_even x)"
    by (metis not_le zless_imp_add1_zle of_int_1 of_int_add of_int_le_iff)
  then have "x = y" using le nearest_even_close [of x] nearest_even_close [of y] by linarith
  with \<open>\<not> nearest_even x \<le> nearest_even y\<close> show False by simp
qed

lemma nearest_even_bounds:
  "of_int a \<le> x \<Longrightarrow> a \<le> nearest_even x" "x \<le> of_int b \<Longrightarrow> nearest_even x \<le> b"
  using nearest_even_mono [of "of_int a" x] nearest_even_mono [of x "of_int b"] by simp_all

lemma nearest_even_unique: "\<bar>of_int n - x\<bar> < 1 / 2 \<Longrightarrow> nearest_even x = n"
proof -
  assume n: "\<bar>of_int n - x\<bar> < 1 / 2"
  then have "\<bar>of_int (nearest_even x) - of_int n :: rat\<bar> < 1" using nearest_even_close [of x] by linarith
  then have "\<bar>of_int (nearest_even x - n) :: rat\<bar> < of_int 1" by simp
  then have "\<bar>nearest_even x - n\<bar> < 1" by (simp only: of_int_less_iff flip: of_int_abs)
  then show ?thesis by simp
qed

section \<open>The exponent of a number\<close>

fun bit_len :: "nat \<Rightarrow> nat" where
  "bit_len n = (if n = 0 then 0 else Suc (bit_len (n div 2)))"

declare bit_len.simps [simp del]

lemma bit_len_bounds: "0 < n \<Longrightarrow> 2 ^ bit_len n \<le> 2 * n \<and> n < 2 ^ bit_len n"
proof (induction n rule: bit_len.induct)
  case (1 n)
  show ?case
  proof (cases "n = 1")
    case True
    then show ?thesis by (simp add: bit_len.simps [of "Suc 0"] bit_len.simps [of 0])
  next
    case False
    with 1 have "2 ^ bit_len (n div 2) \<le> 2 * (n div 2) \<and> n div 2 < 2 ^ bit_len (n div 2)" by simp
    moreover have "bit_len n = Suc (bit_len (n div 2))" using 1 by (simp add: bit_len.simps [of n])
    then have "(2 :: nat) ^ bit_len n = 2 * 2 ^ bit_len (n div 2)" by simp
    ultimately show ?thesis by linarith
  qed
qed

definition log2_floor :: "rat \<Rightarrow> int" where
  "log2_floor x =
     (let (n, d) = quotient_of x; k = int (bit_len (nat n)) - int (bit_len (nat d))
      in if 2 powi k \<le> x then k else k - 1)"

lemma log2_floor:
  assumes "0 < x"
  shows "2 powi log2_floor x \<le> x" "x < 2 powi (log2_floor x + 1)"
proof -
  obtain n d where q: "quotient_of x = (n, d)" by fastforce
  then have x: "x = of_int n / of_int d" and d: "0 < d"
    using quotient_of_div quotient_of_denom_pos by blast+
  with assms have n: "0 < n" by (simp add: zero_less_divide_iff)
  let ?a = "bit_len (nat n)" and ?b = "bit_len (nat d)"
  have pow: "(2 :: rat) powi (int ?a - int ?b) = 2 ^ ?a / 2 ^ ?b"
    "(2 :: rat) powi (int ?a - int ?b + 1) = 2 * 2 ^ ?a / 2 ^ ?b"
    "(2 :: rat) powi (int ?a - int ?b - 1) = 2 ^ ?a / (2 * 2 ^ ?b)"
    by (simp_all add: power_int_diff power_int_add)
  have rat_bounds: "(2 :: rat) ^ bit_len (nat i) \<le> 2 * of_int i \<and> of_int i < (2 :: rat) ^ bit_len (nat i)"
    if i: "0 < i" for i
  proof -
    have i': "(of_nat (nat i) :: rat) = of_int i" using i by simp
    have "0 < nat i" using i by simp
    note bit_len_bounds [OF this, THEN conjunct1] bit_len_bounds [OF this, THEN conjunct2]
    then have "(of_nat (2 ^ bit_len (nat i)) :: rat) \<le> of_nat (2 * nat i)"
      "(of_nat (nat i) :: rat) < of_nat (2 ^ bit_len (nat i))" by (simp_all only: of_nat_le_iff of_nat_less_iff)
    then show ?thesis by (simp only: i' of_nat_mult of_nat_power of_nat_numeral)
  qed
  note N' = rat_bounds [OF n] and D' = rat_bounds [OF d]
  have d': "(0 :: rat) < of_int d" and n': "(0 :: rat) < of_int n" using n d by simp_all
  have up: "x < 2 powi (int ?a - int ?b + 1)"
  proof -
    have "of_int n * 2 ^ ?b < (2 :: rat) ^ ?a * 2 ^ ?b" using N' by simp
    also have "\<dots> \<le> 2 ^ ?a * (2 * of_int d)" using D' by simp
    finally show ?thesis using d' by (simp add: pow x divide_simps mult.commute mult.left_commute)
  qed
  have down: "2 powi (int ?a - int ?b - 1) \<le> x"
  proof -
    have "(2 :: rat) ^ ?a * of_int d \<le> (2 * of_int n) * of_int d" using N' d' by simp
    also have "\<dots> \<le> 2 * of_int n * 2 ^ ?b" using D' n' by simp
    finally show ?thesis using d' by (simp add: pow x divide_simps mult.commute mult.left_commute)
  qed
  from up down show "2 powi log2_floor x \<le> x" "x < 2 powi (log2_floor x + 1)"
    by (simp_all add: log2_floor_def q Let_def)
qed

lemma log2_floor_unique:
  assumes "2 powi k \<le> x" "x < 2 powi (k + 1)"
  shows "log2_floor x = k"
proof -
  have "(0 :: rat) < 2 powi k" by simp
  then have x: "0 < x" using assms(1) by linarith
  have lt: "a < b + 1" if "2 powi a \<le> x" "x < 2 powi (b + 1)" for a b
  proof (rule ccontr)
    assume "\<not> a < b + 1"
    then have "(2 :: rat) powi (b + 1) \<le> 2 powi a" by (intro power_int_increasing) simp_all
    with that show False by linarith
  qed
  show ?thesis using lt [OF assms(1) log2_floor(2) [OF x]] lt [OF log2_floor(1) [OF x] assms(2)] by linarith
qed

section \<open>Rounding to a double\<close>

text \<open>
  The last place of a number: 53 significant bits, but nothing below the smallest subnormal. Rounding
  may carry into the next binade; that value is representable, too.
\<close>

definition ulp_exp :: "rat \<Rightarrow> int" where
  "ulp_exp x = max (log2_floor x - 52) (- 1074)"

definition round_mag :: "rat \<Rightarrow> rat" where
  "round_mag x = of_int (nearest_even (x / 2 powi ulp_exp x)) * 2 powi ulp_exp x"

definition double_limit :: rat where
  "double_limit = 2 ^ 1024"

definition round_double :: "rat \<Rightarrow> double" where
  "round_double r =
     (if r = 0 then DFin 0
      else let v = round_mag \<bar>r\<bar>
           in if double_limit \<le> v then DInf (r < 0)
              else if v = 0 then (if r < 0 then DNegZero else DFin 0)
              else DFin (if r < 0 then - v else v))"

text \<open>The finite values of the format.\<close>

definition representable :: "rat \<Rightarrow> bool" where
  "representable r \<longleftrightarrow>
     (\<exists>m e. r = of_int m * 2 powi e \<and> \<bar>m\<bar> \<le> 2 ^ 53 \<and> - 1074 \<le> e) \<and> \<bar>r\<bar> < double_limit"

fun double_wf :: "double \<Rightarrow> bool" where
  "double_wf (DFin r) = representable r"
| "double_wf d = True"

lemma representableI:
  "r = of_int m * 2 powi e \<Longrightarrow> \<bar>m\<bar> \<le> 2 ^ 53 \<Longrightarrow> - 1074 \<le> e \<Longrightarrow> \<bar>r\<bar> < double_limit \<Longrightarrow> representable r"
  unfolding representable_def by blast

lemma representable_minus [simp]: "representable (- r) \<longleftrightarrow> representable r"
proof -
  have minus: "representable (- r)" if rep: "representable r" for r
  proof -
    obtain m e where "r = of_int m * 2 powi e" "\<bar>m\<bar> \<le> 2 ^ 53" "- 1074 \<le> e" "\<bar>r\<bar> < double_limit"
      using rep unfolding representable_def by blast
    then show ?thesis by (intro representableI [where m = "- m" and e = e]) simp_all
  qed
  show ?thesis using minus [of r] minus [of "- r"] by auto
qed

lemma representable_abs [simp]: "representable \<bar>r\<bar> \<longleftrightarrow> representable r"
  by (simp add: abs_if)

lemma double_limit: "2 ^ 53 < double_limit" "0 < double_limit"
  unfolding double_limit_def by (rule power_strict_increasing, simp_all)

lemma representable_of_int:
  assumes "\<bar>n\<bar> \<le> 2 ^ 53"
  shows "representable (of_int n)"
proof (rule representableI [where m = n and e = 0])
  have "(of_int \<bar>n\<bar> :: rat) \<le> of_int (2 ^ 53)" using assms by (simp only: of_int_le_iff)
  then show "\<bar>of_int n :: rat\<bar> < double_limit" using double_limit(1) by (simp only: of_int_abs of_int_power of_int_numeral)
qed (use assms in simp_all)

text \<open>The significand that rounding chooses.\<close>

lemma round_mag_significand:
  assumes "0 < x"
  shows "0 \<le> nearest_even (x / 2 powi ulp_exp x)" "nearest_even (x / 2 powi ulp_exp x) \<le> 2 ^ 53"
proof -
  have u: "(0 :: rat) < 2 powi ulp_exp x" by simp
  show "0 \<le> nearest_even (x / 2 powi ulp_exp x)"
    using nearest_even_bounds(1) [of 0] assms u by simp
  have "x < 2 powi (log2_floor x + 1)" using log2_floor(2) [OF assms] .
  also have "\<dots> \<le> 2 powi (53 + ulp_exp x)" by (rule power_int_increasing) (simp_all add: ulp_exp_def)
  also have "\<dots> = 2 ^ 53 * 2 powi ulp_exp x" by (simp add: power_int_add)
  finally have "x / 2 powi ulp_exp x \<le> of_int (2 ^ 53)" using u by (simp add: field_simps)
  then show "nearest_even (x / 2 powi ulp_exp x) \<le> 2 ^ 53" by (rule nearest_even_bounds(2))
qed

lemma round_mag_nonneg: "0 < x \<Longrightarrow> 0 \<le> round_mag x"
  using round_mag_significand(1) [of x] by (simp add: round_mag_def)

lemma round_mag_representable:
  assumes "0 < x" "round_mag x < double_limit"
  shows "representable (round_mag x)"
proof -
  show ?thesis
    by (rule representableI [OF round_mag_def [of x]])
      (use round_mag_significand [OF assms(1)] round_mag_nonneg [OF assms(1)] assms(2)
       in \<open>simp_all add: ulp_exp_def\<close>)
qed

lemma multiple_of_ulp:
  assumes "e \<le> f"
  obtains k :: int where "(of_int m * 2 powi f :: rat) = of_int k * 2 powi e"
proof
  have "(2 :: rat) powi f = 2 powi (f - e) * 2 powi e" by (simp flip: power_int_add)
  moreover have "(2 :: rat) powi (f - e) = of_int (2 ^ nat (f - e))"
    using assms by (simp add: power_int_nonneg_exp)
  ultimately show "of_int m * 2 powi f = (of_int (m * 2 ^ nat (f - e)) * 2 powi e :: rat)" by simp
qed

lemma round_mag_nearest_multiple:
  assumes "0 < x"
  shows "\<bar>round_mag x - x\<bar> \<le> \<bar>of_int k * 2 powi ulp_exp x - x\<bar>"
proof -
  let ?u = "2 powi ulp_exp x :: rat"
  have scale: "\<bar>of_int i * ?u - x\<bar> = \<bar>of_int i - x / ?u\<bar> * ?u" for i
    by (simp add: abs_mult_pos left_diff_distrib)
  show ?thesis
    unfolding round_mag_def scale using nearest_even_nearest [of "x / ?u" k] by (simp add: mult_right_mono)
qed

text \<open>Below the binade of \<open>x\<close> there is nothing nearer than its lower end.\<close>

lemma round_mag_nearest:
  assumes "0 < x" "representable y"
  shows "\<bar>round_mag x - x\<bar> \<le> \<bar>y - x\<bar>"
proof -
  let ?e = "ulp_exp x"
  obtain m f where y: "y = of_int m * 2 powi f" "\<bar>m\<bar> \<le> 2 ^ 53" "- 1074 \<le> f"
    using assms(2) by (auto simp: representable_def)
  show ?thesis
  proof (cases "?e \<le> f")
    case True
    with multiple_of_ulp obtain k where "y = of_int k * 2 powi ?e" using y(1) by metis
    then show ?thesis using round_mag_nearest_multiple [OF assms(1)] by simp
  next
    case False
    then have e: "?e = log2_floor x - 52" "f \<le> ?e - 1" using y(3) by (auto simp: ulp_exp_def)
    let ?z = "of_int (2 ^ 52) * 2 powi ?e :: rat"
    have "y \<le> \<bar>y\<bar>" by simp
    also have "\<dots> = of_int \<bar>m\<bar> * 2 powi f" by (simp add: y(1) abs_mult)
    also have "\<dots> \<le> of_int (2 ^ 53) * 2 powi (?e - 1)"
      using y(2) e(2) by (intro mult_mono power_int_increasing) (simp_all only: of_int_le_iff, simp_all)
    also have "\<dots> = ?z" by (simp add: power_int_diff)
    finally have "y \<le> ?z" .
    moreover have "?z = 2 powi log2_floor x" by (simp add: e(1) power_int_diff)
    then have "?z \<le> x" using log2_floor(1) [OF assms(1)] by simp
    ultimately show ?thesis using round_mag_nearest_multiple [OF assms(1), of "2 ^ 52"] by linarith
  qed
qed

lemma round_mag_exact: "0 < x \<Longrightarrow> representable x \<Longrightarrow> round_mag x = x"
  using round_mag_nearest [of x x] by simp

lemma round_double_wf: "double_wf (round_double r)"
proof -
  have "representable 0" using representable_of_int [of 0] by simp
  moreover have "representable (round_mag \<bar>r\<bar>)" if "r \<noteq> 0" "\<not> double_limit \<le> round_mag \<bar>r\<bar>"
    using that round_mag_representable [of "\<bar>r\<bar>"] by (simp del: abs_if)
  ultimately show ?thesis by (cases "r < 0") (simp_all add: round_double_def Let_def)
qed

lemma round_double_exact:
  assumes "representable r"
  shows "round_double r = DFin r"
proof (cases "r = 0")
  case False
  then have m: "round_mag \<bar>r\<bar> = \<bar>r\<bar>" using assms by (simp add: round_mag_exact del: abs_if)
  have "\<not> double_limit \<le> \<bar>r\<bar>" using assms by (simp add: representable_def)
  then show ?thesis using False by (simp only: round_double_def m Let_def) simp
qed (simp add: round_double_def)

text \<open>A finite result is the nearest of the finite values of the format.\<close>

lemma round_double_nearest:
  assumes "round_double r = DFin v" "representable y"
  shows "\<bar>v - r\<bar> \<le> \<bar>y - r\<bar>"
proof (cases "r = 0")
  case False
  have "v = (if r < 0 then - round_mag \<bar>r\<bar> else round_mag \<bar>r\<bar>)"
    using assms(1) False by (simp add: round_double_def Let_def split: if_splits)
  moreover have "representable (if r < 0 then - y else y)" using assms(2) by simp
  from round_mag_nearest [OF _ this, of "\<bar>r\<bar>"] False
  have "\<bar>round_mag \<bar>r\<bar> - \<bar>r\<bar>\<bar> \<le> \<bar>(if r < 0 then - y else y) - \<bar>r\<bar>\<bar>" by simp
  ultimately show ?thesis by (cases "r < 0") simp_all
qed (use assms(1) in \<open>simp add: round_double_def\<close>)


text \<open>An overflow happens only within half a unit of the last place of the limit, or beyond it.\<close>

lemma representable_largest: "representable (double_limit - 2 ^ 971)"
proof (rule representableI [where m = "2 ^ 53 - 1" and e = 971])
  show "double_limit - 2 ^ 971 = of_int (2 ^ 53 - 1) * 2 powi 971"
    by (simp add: double_limit_def left_diff_distrib flip: power_add)
  have "(2 :: rat) ^ 971 < double_limit" unfolding double_limit_def by (rule power_strict_increasing) simp_all
  then show "\<bar>double_limit - 2 ^ 971\<bar> < double_limit" by (simp only: abs_if) simp
qed simp_all

lemma round_double_overflow:
  assumes "round_double r = DInf s"
  shows "double_limit - 2 ^ 970 \<le> \<bar>r\<bar>"
proof -
  let ?x = "\<bar>r\<bar>"
  have x: "0 < ?x" and v: "double_limit \<le> round_mag ?x"
    using assms by (simp_all add: round_double_def Let_def split: if_splits)
  have "l - h \<le> y" if "0 < h" "t = 2 * h" "\<bar>w - y\<bar> \<le> \<bar>l - t - y\<bar>" "l \<le> w" for l h t w y :: rat
    using that by linarith
  from this [OF _ _ round_mag_nearest [OF x representable_largest] v, of "2 ^ 970"] show ?thesis
    by (simp flip: power_Suc)
qed

section \<open>The operations\<close>

fun double_value :: "double \<Rightarrow> rat" where
  "double_value (DFin r) = r"
| "double_value d = 0"

fun double_sign :: "double \<Rightarrow> bool" where
  "double_sign (DFin r) = (r < 0)"
| "double_sign DNegZero = True"
| "double_sign (DInf s) = s"
| "double_sign DNaN = False"

definition double_zero :: "bool \<Rightarrow> double" where
  "double_zero s = (if s then DNegZero else DFin 0)"

definition double_is_zero :: "double \<Rightarrow> bool" where
  "double_is_zero d \<longleftrightarrow> d = DFin 0 \<or> d = DNegZero"

fun double_is_inf :: "double \<Rightarrow> bool" where
  "double_is_inf (DInf s) = True"
| "double_is_inf d = False"

fun double_neg :: "double \<Rightarrow> double" where
  "double_neg (DFin r) = (if r = 0 then DNegZero else DFin (- r))"
| "double_neg DNegZero = DFin 0"
| "double_neg (DInf s) = DInf (\<not> s)"
| "double_neg DNaN = DNaN"

definition double_add :: "double \<Rightarrow> double \<Rightarrow> double" where
  "double_add a b =
     (if a = DNaN \<or> b = DNaN \<or> double_is_inf a \<and> b = double_neg a then DNaN
      else if double_is_inf a then a
      else if double_is_inf b then b
      else if a = DNegZero \<and> b = DNegZero then DNegZero
      else round_double (double_value a + double_value b))"

definition double_sub :: "double \<Rightarrow> double \<Rightarrow> double" where
  "double_sub a b = double_add a (double_neg b)"

definition double_mul :: "double \<Rightarrow> double \<Rightarrow> double" where
  "double_mul a b =
     (let s = (double_sign a \<noteq> double_sign b)
      in if a = DNaN \<or> b = DNaN \<or> double_is_inf a \<and> double_is_zero b \<or> double_is_zero a \<and> double_is_inf b then DNaN
         else if double_is_inf a \<or> double_is_inf b then DInf s
         else if double_is_zero a \<or> double_is_zero b then double_zero s
         else round_double (double_value a * double_value b))"

definition double_div :: "double \<Rightarrow> double \<Rightarrow> double" where
  "double_div a b =
     (let s = (double_sign a \<noteq> double_sign b)
      in if a = DNaN \<or> b = DNaN \<or> double_is_inf a \<and> double_is_inf b \<or> double_is_zero a \<and> double_is_zero b then DNaN
         else if double_is_inf a \<or> double_is_zero b then DInf s
         else if double_is_inf b \<or> double_is_zero a then double_zero s
         else round_double (double_value a / double_value b))"

definition double_of_int :: "int \<Rightarrow> double" where
  "double_of_int n = round_double (of_int n)"

lemma double_of_int_exact: "\<bar>n\<bar> \<le> 2 ^ 53 \<Longrightarrow> double_of_int n = DFin (of_int n)"
  by (simp add: double_of_int_def round_double_exact representable_of_int)

lemma double_value_neg [simp]: "double_value (double_neg d) = - double_value d"
  by (cases d) simp_all

lemma double_op_wf:
  assumes "double_wf a" "double_wf b"
  shows "double_wf (double_add a b)" "double_wf (double_sub a b)" "double_wf (double_mul a b)"
    "double_wf (double_div a b)" "double_wf (double_of_int n)"
proof -
  have add: "double_wf (double_add a b)" if "double_wf a" "double_wf b" for a b
    using that round_double_wf by (auto simp: double_add_def)
  have neg: "double_wf (double_neg b)" using assms(2) representable_of_int [of 0] by (cases b) auto
  have zero: "double_wf (double_zero s)" for s
    using representable_of_int [of 0] by (simp add: double_zero_def)
  show "double_wf (double_add a b)" using add assms by blast
  show "double_wf (double_sub a b)" using add assms(1) neg by (simp add: double_sub_def)
  show "double_wf (double_mul a b)" "double_wf (double_div a b)" "double_wf (double_of_int n)"
    using round_double_wf zero by (simp_all add: double_mul_def double_div_def double_of_int_def Let_def)
qed

text \<open>On integers the operations are exact as long as the result has at most 53 bits.\<close>

lemma double_int_ops:
  "\<bar>i + j\<bar> \<le> 2 ^ 53 \<Longrightarrow> double_add (DFin (of_int i)) (DFin (of_int j)) = DFin (of_int (i + j))"
  "\<bar>i - j\<bar> \<le> 2 ^ 53 \<Longrightarrow> double_sub (DFin (of_int i)) (DFin (of_int j)) = DFin (of_int (i - j))"
  "\<bar>i * j\<bar> \<le> 2 ^ 53 \<Longrightarrow> i * j \<noteq> 0 \<Longrightarrow>
     double_mul (DFin (of_int i)) (DFin (of_int j)) = DFin (of_int (i * j))"
proof -
  show "double_add (DFin (of_int i)) (DFin (of_int j)) = DFin (of_int (i + j))" if "\<bar>i + j\<bar> \<le> 2 ^ 53"
    using round_double_exact [OF representable_of_int [OF that]] by (simp add: double_add_def)
  show "double_sub (DFin (of_int i)) (DFin (of_int j)) = DFin (of_int (i - j))" if "\<bar>i - j\<bar> \<le> 2 ^ 53"
    using round_double_exact [OF representable_of_int [OF that]]
    by (cases "j = 0") (simp_all add: double_sub_def double_add_def)
  show "double_mul (DFin (of_int i)) (DFin (of_int j)) = DFin (of_int (i * j))"
    if "\<bar>i * j\<bar> \<le> 2 ^ 53" "i * j \<noteq> 0"
    using round_double_exact [OF representable_of_int [OF that(1)]] that(2)
    by (simp add: double_mul_def double_is_zero_def)
qed

section \<open>The text of a double\<close>

definition fixed6 :: "rat \<Rightarrow> string" where
  "fixed6 r =
     (let n = nat (nearest_even (r * 1000000))
      in dec_string (n div 1000000) @ ''.'' @ zero_pad 6 (n mod 1000000))"

fun double_to_string :: "double \<Rightarrow> string" where
  "double_to_string (DFin r) = (if r < 0 then ''-'' else []) @ fixed6 \<bar>r\<bar>"
| "double_to_string DNegZero = ''-0.000000''"
| "double_to_string (DInf s) = (if s then ''-inf'' else ''inf'')"
| "double_to_string DNaN = ''nan''"

lemma fixed6_of_nat: "fixed6 (of_nat n) = dec_string n @ ''.000000''"
proof -
  have "(of_nat n * 1000000 :: rat) = of_int (int n * 1000000)" by simp
  then have "nearest_even (of_nat n * 1000000) = int n * 1000000" by (simp only: nearest_even_of_int)
  then have "nat (nearest_even (of_nat n * 1000000)) = n * 1000000" by (simp add: nat_mult_distrib)
  moreover have "zero_pad 6 0 = ''000000''" by code_simp
  ultimately show ?thesis by (simp add: fixed6_def)
qed

lemma double_to_string_of_int: "double_to_string (DFin (of_int n)) = int_string n @ ''.000000''"
proof -
  have "(of_int \<bar>n\<bar> :: rat) = of_nat (nat \<bar>n\<bar>)" by simp
  then have "fixed6 \<bar>of_int n\<bar> = dec_string (nat \<bar>n\<bar>) @ ''.000000''" by (simp only: fixed6_of_nat flip: of_int_abs)
  then show ?thesis by (cases "n < 0") (simp_all add: int_string_def)
qed

text \<open>The number that such a text denotes; it is within half a unit of the sixth decimal.\<close>

definition read_fixed :: "string \<Rightarrow> rat" where
  "read_fixed s =
     (let neg = (s \<noteq> [] \<and> hd s = CHR ''-'');
          s = (if neg then tl s else s);
          fp = drop 1 (dropWhile is_digit s);
          v = of_nat (dec_value (takeWhile is_digit s @ fp)) / 10 ^ length fp
      in if neg then - v else v)"

lemma read_fixed6:
  assumes "0 \<le> r"
  shows "read_fixed (fixed6 r) = of_int (nearest_even (r * 1000000)) / 1000000"
    "read_fixed (CHR ''-'' # fixed6 r) = - (of_int (nearest_even (r * 1000000)) / 1000000)"
    "hd (fixed6 r) \<noteq> CHR ''-''"
proof -
  define n where "n = nat (nearest_even (r * 1000000))"
  let ?ip = "dec_string (n div 1000000)" and ?fp = "zero_pad 6 (n mod 1000000)"
  have n: "(of_nat n :: rat) = of_int (nearest_even (r * 1000000))"
    using nearest_even_bounds(1) [of 0 "r * 1000000"] assms by (simp add: n_def)
  have shape: "fixed6 r = ?ip @ CHR ''.'' # ?fp" by (simp add: fixed6_def n_def Let_def)
  have digits: "list_all is_digit ?ip" "\<not> is_digit (CHR ''.'')" by (simp_all add: dec_string_digits is_digit_def)
  then have span: "takeWhile is_digit (fixed6 r) = ?ip" "dropWhile is_digit (fixed6 r) = CHR ''.'' # ?fp"
    unfolding shape by (simp_all add: list_all_iff)
  have "n mod 1000000 < 10 ^ 6" by simp
  then have fp: "length ?fp = 6" by simp
  have "dec_value (?ip @ ?fp) = n" using dec_value_from_split [of "n div 1000000" ?fp] fp by simp
  with fp have v: "of_nat (dec_value (?ip @ ?fp)) / 10 ^ length ?fp = (of_nat n / 1000000 :: rat)" by simp
  show hd: "hd (fixed6 r) \<noteq> CHR ''-''"
    using dec_string_no_minus [of "n div 1000000"] unfolding shape by (cases ?ip) auto
  show "read_fixed (fixed6 r) = of_int (nearest_even (r * 1000000)) / 1000000"
    using hd v by (simp add: read_fixed_def span n Let_def)
  show "read_fixed (CHR ''-'' # fixed6 r) = - (of_int (nearest_even (r * 1000000)) / 1000000)"
    using v by (simp add: read_fixed_def span n Let_def)
qed

lemma double_to_string_close: "\<bar>read_fixed (double_to_string (DFin r)) - r\<bar> \<le> 1 / 2000000"
proof -
  have close: "\<bar>of_int (nearest_even (x * 1000000)) / 1000000 - x\<bar> \<le> 1 / 2000000" for x :: rat
    using nearest_even_close [of "x * 1000000"] by (simp add: abs_le_iff field_simps)
  show ?thesis
  proof (cases "r < 0")
    case True
    then show ?thesis using close [of "- r"] read_fixed6(2) [of "- r"] by (simp add: abs_if split: if_splits)
  next
    case False
    then have "double_to_string (DFin r) = fixed6 r" "0 \<le> r" by simp_all
    then show ?thesis using close [of r] by (simp only: read_fixed6(1))
  qed
qed

end
