(* ===== verification/Json_Value.thy ===== *)
theory Json_Value
  imports Json_Lib Ieee_Double "HOL-Library.AList"
begin

text \<open>
  A concrete JSON value type on which the interface of \<open>Json_Lib\<close> is interpreted. It shows that
  the laws assumed of the library can hold together, and gives the witnesses a value to compute
  with. It is not a model of nlohmann::json: its text format covers null, booleans, integers,
  strings (with the two-character escapes and \<open>\u00XY\<close> on output), arrays and objects.
\<close>

datatype jv =
    VNull
  | VBool bool
  | VInt int64
  | VUInt uint64
  | VFloat double
  | VString string
  | VArray "jv list"
  | VObject "(string \<times> jv) list"

definition type_error :: string where
  "type_error = ''[json.exception.type_error.302] unexpected type''"

fun jv_find :: "jv \<Rightarrow> string \<Rightarrow> jv option" where
  "jv_find (VObject kvs) k = map_of kvs k"
| "jv_find j k = None"

fun jv_set :: "jv \<Rightarrow> string \<Rightarrow> jv \<Rightarrow> jv" where
  "jv_set (VObject kvs) k v = VObject (AList.update k v kvs)"
| "jv_set VNull k v = VObject [(k, v)]"
| "jv_set j k v = j"

fun jv_items :: "jv \<Rightarrow> (string \<times> jv) list" where
  "jv_items (VObject kvs) = AList.clearjunk kvs"
| "jv_items j = []"

fun jv_string :: "jv \<Rightarrow> string + string" where
  "jv_string (VString s) = Inr s"
| "jv_string j = Inl type_error"

fun jv_bool :: "jv \<Rightarrow> string + bool" where
  "jv_bool (VBool b) = Inr b"
| "jv_bool j = Inl type_error"

fun jv_word :: "jv \<Rightarrow> string + int64" where
  "jv_word (VInt w) = Inr w"
| "jv_word (VUInt w) = Inr w"
| "jv_word (VFloat d) = Inr (case double_to_int64 d of Some w \<Rightarrow> w | None \<Rightarrow> 0)"
| "jv_word j = Inl type_error"

fun jv_double :: "jv \<Rightarrow> string + double" where
  "jv_double (VInt w) = Inr (double_of_int (sint w))"
| "jv_double (VUInt w) = Inr (double_of_int (uint w))"
| "jv_double (VFloat d) = Inr d"
| "jv_double j = Inl type_error"

fun jv_array :: "jv \<Rightarrow> string + jv list" where
  "jv_array (VArray xs) = Inr xs"
| "jv_array j = Inl type_error"

fun is_VUInt :: "jv \<Rightarrow> bool" where
  "is_VUInt (VUInt w) = True"
| "is_VUInt j = False"

fun is_VInteger :: "jv \<Rightarrow> bool" where
  "is_VInteger (VInt w) = True"
| "is_VInteger (VUInt w) = True"
| "is_VInteger j = False"

fun is_VFloat :: "jv \<Rightarrow> bool" where
  "is_VFloat (VFloat d) = True"
| "is_VFloat j = False"

fun is_VString :: "jv \<Rightarrow> bool" where
  "is_VString (VString s) = True"
| "is_VString j = False"

fun is_VArray :: "jv \<Rightarrow> bool" where
  "is_VArray (VArray xs) = True"
| "is_VArray j = False"

fun is_VObject :: "jv \<Rightarrow> bool" where
  "is_VObject (VObject kvs) = True"
| "is_VObject j = False"

fun is_VNull :: "jv \<Rightarrow> bool" where
  "is_VNull VNull = True"
| "is_VNull j = False"

section \<open>Text\<close>

definition hex_char :: "nat \<Rightarrow> char" where
  "hex_char d = char_of (if d < 10 then 48 + d else 87 + d)"

definition escape_char :: "char \<Rightarrow> string" where
  "escape_char c =
     (if c = CHR 0x22 then [CHR 0x5C, CHR 0x22]
      else if c = CHR 0x5C then [CHR 0x5C, CHR 0x5C]
      else if (of_char c :: nat) < 32
      then [CHR 0x5C, CHR ''u'', CHR ''0'', CHR ''0'',
            hex_char (of_char c div 16), hex_char (of_char c mod 16)]
      else [c])"

definition quote_string :: "string \<Rightarrow> string" where
  "quote_string s = CHR 0x22 # concat (map escape_char s) @ [CHR 0x22]"

fun comma_join :: "string list \<Rightarrow> string" where
  "comma_join [] = []"
| "comma_join [s] = s"
| "comma_join (s # t # ss) = s @ CHR '','' # comma_join (t # ss)"

fun jv_text :: "jv \<Rightarrow> string" where
  "jv_text VNull = ''null''"
| "jv_text (VBool b) = (if b then ''true'' else ''false'')"
| "jv_text (VInt w) = int_string (sint w)"
| "jv_text (VUInt w) = dec_string (unat w)"
| "jv_text (VFloat (DFin r)) = int_string (trunc_rat r) @ ''.0''"
| "jv_text (VFloat DNegZero) = ''-0.0''"
| "jv_text (VFloat d) = ''null''"
| "jv_text (VString s) = quote_string s"
| "jv_text (VArray xs) = CHR ''['' # comma_join (map jv_text xs) @ '']''"
| "jv_text (VObject kvs) =
     CHR ''{'' # comma_join (map (\<lambda>(k, v). quote_string k @ CHR '':'' # jv_text v) kvs) @ ''}''"

fun skip_ws :: "string \<Rightarrow> string" where
  "skip_ws [] = []"
| "skip_ws (c # s) = (if c \<in> {CHR '' '', CHR 0x09, CHR 0x0A, CHR 0x0D} then skip_ws s else c # s)"

fun read_string :: "string \<Rightarrow> (string \<times> string) option" where
  "read_string [] = None"
| "read_string (c # s) =
     (if c = CHR 0x22 then Some ([], s)
      else if c = CHR 0x5C then
        (case s of
           [] \<Rightarrow> None
         | e # s \<Rightarrow>
             if e = CHR 0x22 \<or> e = CHR 0x5C \<or> e = CHR ''/''
             then map_option (\<lambda>(r, t). (e # r, t)) (read_string s)
             else if e = CHR ''n'' then map_option (\<lambda>(r, t). (CHR 0x0A # r, t)) (read_string s)
             else None)
      else if (of_char c :: nat) < 32 then None
      else map_option (\<lambda>(r, t). (c # r, t)) (read_string s))"

definition read_number :: "string \<Rightarrow> (jv \<times> string) option" where
  "read_number s =
     (let neg = (case s of c # _ \<Rightarrow> c = CHR ''-'' | [] \<Rightarrow> False);
          s = (if neg then tl s else s);
          ds = takeWhile is_digit s;
          n = dec_value ds;
          rest = dropWhile is_digit s
      in if ds = [] then None
         else if take 1 rest = ''.'' \<and> takeWhile is_digit (tl rest) \<noteq> [] then
           let fs = takeWhile is_digit (tl rest);
               d = round_double (of_nat n + of_nat (dec_value fs) / 10 ^ List.length fs)
           in Some (VFloat (if neg then double_neg d else d), dropWhile is_digit (tl rest))
         else if neg then Some (VInt (word_of_int (- int n)), rest)
         else Some (VUInt (of_nat n), rest))"

text \<open>The parser's fuel bounds the nesting depth plus the number of members it reads.\<close>

fun read_value :: "nat \<Rightarrow> string \<Rightarrow> (jv \<times> string) option"
  and read_elems :: "nat \<Rightarrow> string \<Rightarrow> (jv list \<times> string) option"
  and read_members :: "nat \<Rightarrow> string \<Rightarrow> ((string \<times> jv) list \<times> string) option" where
  "read_value 0 s = None"
| "read_value (Suc n) s =
     (case skip_ws s of
        [] \<Rightarrow> None
      | c # t \<Rightarrow>
          if c = CHR ''n'' then (if take 3 t = ''ull'' then Some (VNull, drop 3 t) else None)
          else if c = CHR ''t'' then (if take 3 t = ''rue'' then Some (VBool True, drop 3 t) else None)
          else if c = CHR ''f'' then (if take 4 t = ''alse'' then Some (VBool False, drop 4 t) else None)
          else if c = CHR 0x22 then map_option (\<lambda>(r, t). (VString r, t)) (read_string t)
          else if c = CHR ''['' then
            (case skip_ws t of
               CHR '']'' # u \<Rightarrow> Some (VArray [], u)
             | u \<Rightarrow> map_option (\<lambda>(r, t). (VArray r, t)) (read_elems n u))
          else if c = CHR ''{'' then
            (case skip_ws t of
               CHR ''}'' # u \<Rightarrow> Some (VObject [], u)
             | u \<Rightarrow> map_option (\<lambda>(r, t). (VObject r, t)) (read_members n u))
          else read_number (c # t))"
| "read_elems 0 s = None"
| "read_elems (Suc n) s =
     (case read_value n s of
        None \<Rightarrow> None
      | Some (v, t) \<Rightarrow>
          (case skip_ws t of
             CHR '','' # u \<Rightarrow> map_option (\<lambda>(r, t). (v # r, t)) (read_elems n u)
           | CHR '']'' # u \<Rightarrow> Some ([v], u)
           | _ \<Rightarrow> None))"
| "read_members 0 s = None"
| "read_members (Suc n) s =
     (case skip_ws s of
        CHR 0x22 # t \<Rightarrow>
          (case read_string t of
             None \<Rightarrow> None
           | Some (k, t) \<Rightarrow>
               (case skip_ws t of
                  CHR '':'' # t \<Rightarrow>
                    (case read_value n t of
                       None \<Rightarrow> None
                     | Some (v, t) \<Rightarrow>
                         (case skip_ws t of
                            CHR '','' # u \<Rightarrow> map_option (\<lambda>(r, t). ((k, v) # r, t)) (read_members n u)
                          | CHR ''}'' # u \<Rightarrow> Some ([(k, v)], u)
                          | _ \<Rightarrow> None))
                | _ \<Rightarrow> None))
      | _ \<Rightarrow> None)"

definition jv_parse :: "string \<Rightarrow> string + jv" where
  "jv_parse s =
     (case read_value (length s) s of
        Some (v, t) \<Rightarrow> if skip_ws t = [] then Inr v
                       else Inl ''[json.exception.parse_error.101] unexpected character''
      | None \<Rightarrow> Inl ''[json.exception.parse_error.101] syntax error'')"

section \<open>The interpretation\<close>

definition jv_ops :: "jv json_ops" where
  "jv_ops = \<lparr>
     j_null = VNull,
     j_object = VObject [],
     j_string = VString,
     j_bool = VBool,
     j_int = (\<lambda>i. VInt (scast i)),
     j_int64 = VInt,
     j_double = VFloat,
     j_array = VArray,
     j_init = VObject,
     j_set = jv_set,
     j_find = jv_find,
     j_contains = (\<lambda>j k. jv_find j k \<noteq> None),
     j_at = (\<lambda>j k. case jv_find j k of
               Some v \<Rightarrow> Inr v
             | None \<Rightarrow> Inl (''[json.exception.out_of_range.403] key '' @ k @ '' not found'')),
     j_items = jv_items,
     j_is_null = is_VNull,
     j_is_object = is_VObject,
     j_is_array = is_VArray,
     j_is_string = is_VString,
     j_is_number_integer = is_VInteger,
     j_is_number_unsigned = is_VUInt,
     j_is_number_float = is_VFloat,
     j_get_string = jv_string,
     j_get_bool = jv_bool,
     j_get_int = (\<lambda>j. case jv_word j of Inl w \<Rightarrow> Inl w | Inr w \<Rightarrow> Inr (ucast w)),
     j_get_int64 = jv_word,
     j_get_uint64 = jv_word,
     j_get_double = jv_double,
     j_get_array = jv_array,
     j_parse = jv_parse,
     j_dump = (\<lambda>j. Inr (jv_text j))\<rparr>"

lemma jv_ops_simps [simp]:
  "j_null jv_ops = VNull"
  "j_object jv_ops = VObject []"
  "j_string jv_ops s = VString s"
  "j_bool jv_ops b = VBool b"
  "j_int jv_ops i = VInt (scast i)"
  "j_int64 jv_ops w = VInt w"
  "j_double jv_ops d = VFloat d"
  "j_array jv_ops xs = VArray xs"
  "j_init jv_ops kvs = VObject kvs"
  "j_set jv_ops j k v = jv_set j k v"
  "j_find jv_ops j k = jv_find j k"
  "j_contains jv_ops j k = (jv_find j k \<noteq> None)"
  "j_at jv_ops j k = (case jv_find j k of
      Some v \<Rightarrow> Inr v
    | None \<Rightarrow> Inl (''[json.exception.out_of_range.403] key '' @ k @ '' not found''))"
  "j_items jv_ops j = jv_items j"
  "j_is_null jv_ops j = is_VNull j"
  "j_is_object jv_ops j = is_VObject j"
  "j_is_array jv_ops j = is_VArray j"
  "j_is_string jv_ops j = is_VString j"
  "j_is_number_integer jv_ops j = is_VInteger j"
  "j_is_number_unsigned jv_ops j = is_VUInt j"
  "j_is_number_float jv_ops j = is_VFloat j"
  "j_get_string jv_ops j = jv_string j"
  "j_get_bool jv_ops j = jv_bool j"
  "j_get_int jv_ops j = (case jv_word j of Inl w \<Rightarrow> Inl w | Inr w \<Rightarrow> Inr (ucast w))"
  "j_get_int64 jv_ops j = jv_word j"
  "j_get_uint64 jv_ops j = jv_word j"
  "j_get_double jv_ops j = jv_double j"
  "j_get_array jv_ops j = jv_array j"
  "j_parse jv_ops s = jv_parse s"
  "j_dump jv_ops j = Inr (jv_text j)"
  by (simp_all add: jv_ops_def)

lemma ucast_scast_32 [simp]: "ucast (scast (i :: int32) :: int64) = i"
proof (rule bit_word_eqI)
  fix n assume n: "n < LENGTH(32)"
  then have "n < 31 \<or> n = 31" by auto
  with n show "bit (ucast (scast i :: int64) :: int32) n = bit i n"
    by (auto simp: bit_simps)
qed

interpretation jv: json_lib jv_ops
proof
  show "\<exists>w. j_at jv_ops j k = Inl w" if "j_find jv_ops j k = None" for j k
    using that by simp
  fix j
  show "of_bool (j_is_null jv_ops j) + of_bool (j_is_object jv_ops j)
      + of_bool (j_is_array jv_ops j) + of_bool (j_is_string jv_ops j)
      + of_bool (j_is_number_integer jv_ops j) + of_bool (j_is_number_float jv_ops j) \<le> (1::nat)"
    by (cases j) simp_all
  show "j_is_null jv_ops j \<Longrightarrow> j = j_null jv_ops" by (cases j) simp_all
  show "j_is_string jv_ops j \<longleftrightarrow> (\<exists>s. j_get_string jv_ops j = Inr s)" by (cases j) simp_all
  show "j_is_array jv_ops j \<longleftrightarrow> (\<exists>xs. j_get_array jv_ops j = Inr xs)" by (cases j) simp_all
  show "j_is_number_integer jv_ops j \<Longrightarrow> \<exists>w. j_get_int64 jv_ops j = Inr w"
    by (cases j) simp_all
  show "j_is_number_float jv_ops j \<Longrightarrow> \<exists>d. j_get_double jv_ops j = Inr d"
    by (cases j) simp_all
  show "j_is_number_unsigned jv_ops j \<Longrightarrow> j_is_number_integer jv_ops j" by (cases j) simp_all
  show "j_is_object jv_ops j \<Longrightarrow>
      distinct (map fst (j_items jv_ops j)) \<and> map_of (j_items jv_ops j) = j_find jv_ops j"
    by (cases j) (simp_all add: fun_eq_iff map_of_clearjunk distinct_clearjunk)
  fix k
  show "\<not> j_is_object jv_ops j \<Longrightarrow> j_find jv_ops j k = None" by (cases j) simp_all
  fix v
  show "j_is_object jv_ops j \<Longrightarrow> j_is_object jv_ops (j_set jv_ops j k v)"
    by (cases j) simp_all
  fix k'
  show "j_is_object jv_ops j \<Longrightarrow>
      j_find jv_ops (j_set jv_ops j k v) k' = (if k' = k then Some v else j_find jv_ops j k')"
    by (cases j) (simp_all add: update_conv)
qed simp_all

lemma jv_json_lib: "json_lib jv_ops"
  by (rule jv.json_lib_axioms)

end
