(* ===== verification/Pagination.thy ===== *)
theory Pagination
  imports Json_Value
begin

text \<open>
  The cursor pagination of src/server.cpp: \<open>decode_cursor\<close> and \<open>paginate\<close>, which every list
  handler of the server uses. Cursors and offsets are 64-bit words, so the overflow checks and the
  sum \<open>offset + page_size\<close> are modelled with their wrap-around; where the wrapped sum makes the
  code build an iterator range with its end before its begin, the result is undefined.

  Lemmas: which strings are cursors and what they denote, what a page holds, and that following
  \<open>nextCursor\<close> from the start returns every item once and stops.
\<close>

section \<open>Cursors\<close>

definition bad_cursor :: "'j json_ops \<Rightarrow> string \<Rightarrow> 'j exc" where
  "bad_cursor J s = Error J invalid_params (''invalid pagination cursor: '' @ s)"

text \<open>The digit loop: \<open>None\<close> is the throw.\<close>

fun decode_digits :: "uint64 \<Rightarrow> string \<Rightarrow> uint64 option" where
  "decode_digits value [] = Some value"
| "decode_digits value (c # s) =
     (if \<not> is_digit c then None
      else
        let digit = of_nat (digit_value c)
        in if value > (- 1 - digit) div 10 then None
           else decode_digits (value * 10 + digit) s)"

definition decode_cursor :: "'j json_ops \<Rightarrow> string option \<Rightarrow> 'j exc + size_t" where
  "decode_cursor J cursor =
     (case cursor of
        None \<Rightarrow> Inr 0
      | Some s \<Rightarrow>
          if s = [] then Inr 0
          else if length s > 20 then Inl (bad_cursor J s)
          else case decode_digits 0 s of
                 None \<Rightarrow> Inl (bad_cursor J s)
               | Some value \<Rightarrow> Inr value)"

section \<open>Pages\<close>

text \<open>
  A vector has fewer than \<open>2 ^ 64\<close> elements: \<open>items.size()\<close> is \<open>of_nat (length items)\<close>. A range
  \<open>[begin, end)\<close> with \<open>end\<close> before \<open>begin\<close> is undefined behaviour.
\<close>

definition iterator_range :: "'a list \<Rightarrow> size_t \<Rightarrow> size_t \<Rightarrow> 'j exc + 'a list" where
  "iterator_range items lo hi =
     (if hi < lo then Inl Undefined
      else Inr (take (unat hi - unat lo) (drop (unat lo) items)))"

definition paginate :: "'a list \<Rightarrow> size_t \<Rightarrow> size_t \<Rightarrow> 'j exc + 'a list \<times> string option" where
  "paginate items offset page_size =
     (let size = of_nat (length items) :: size_t
      in if offset \<ge> size then Inr ([], None)
         else if page_size = 0 \<or> offset + page_size \<ge> size
         then Inr (drop (unat offset) items, None)
         else
           let next = offset + page_size
           in emap (\<lambda>page. (page, Some (dec_string (unat next)))) (iterator_range items offset next))"

text \<open>The common tail of the list handlers: decode the cursor, then cut the page.\<close>

definition list_page ::
    "'j json_ops \<Rightarrow> 'a list \<Rightarrow> string option \<Rightarrow> size_t \<Rightarrow> 'j exc + 'a list \<times> string option" where
  "list_page J items cursor page_size =
     ebind (decode_cursor J cursor) (\<lambda>offset. paginate items offset page_size)"

section \<open>What the cursor decoder accepts\<close>

lemma digit_of_nat:
  assumes "is_digit c"
  shows "unat (of_nat (digit_value c) :: uint64) = digit_value c" "digit_value c \<le> 9"
  using digit_value_less [OF assms] by (simp_all add: unat_of_nat_64)

lemma decode_step:
  assumes "is_digit c"
  defines "digit \<equiv> of_nat (digit_value c) :: uint64"
  shows "v > (- 1 - digit) div 10 \<longleftrightarrow> 2 ^ 64 \<le> unat v * 10 + digit_value c"
    and "unat v * 10 + digit_value c < 2 ^ 64 \<Longrightarrow>
      unat (v * 10 + digit) = unat v * 10 + digit_value c"
proof -
  note d = digit_of_nat [OF assms(1), folded digit_def]
  have "unat ((- 1 - digit) div 10) = (2 ^ 64 - 1 - digit_value c) div 10"
    by (simp add: unat_div unat_max_minus d(1))
  then have "v > (- 1 - digit) div 10 \<longleftrightarrow> (2 ^ 64 - 1 - digit_value c) div 10 < unat v"
    by (simp add: word_less_nat_alt)
  also have "\<dots> \<longleftrightarrow> 2 ^ 64 - 1 - digit_value c < unat v * 10"
    by (simp add: div_less_iff_less_mult)
  also have "\<dots> \<longleftrightarrow> 2 ^ 64 \<le> unat v * 10 + digit_value c"
    using d(2) by simp arith
  finally show "v > (- 1 - digit) div 10 \<longleftrightarrow> 2 ^ 64 \<le> unat v * 10 + digit_value c" .
  assume less: "unat v * 10 + digit_value c < 2 ^ 64"
  have "unat (v * 10) = unat v * 10"
    using less by (subst unat_mult_lem [THEN iffD1]) auto
  then show "unat (v * 10 + digit) = unat v * 10 + digit_value c"
    using unat_add_64 [of "v * 10" digit] less d(1) by simp
qed

lemma decode_digits_eq_Some_iff:
  "decode_digits v s = Some w \<longleftrightarrow>
     list_all is_digit s \<and> dec_value_from (unat v) s < 2 ^ 64 \<and>
     unat w = dec_value_from (unat v) s"
proof (induction v s rule: decode_digits.induct)
  case (1 v)
  show ?case using unat_less_64 [of v] by (auto simp: word_unat_eq_iff)
next
  case (2 v c s)
  show ?case
  proof (cases "is_digit c")
    case digit: True
    show ?thesis
    proof (cases "2 ^ 64 \<le> unat v * 10 + digit_value c")
      case True
      then have "\<not> dec_value_from (unat v * 10 + digit_value c) s < 2 ^ 64"
        using dec_value_from_ge [of "unat v * 10 + digit_value c" s] by linarith
      with True digit decode_step(1) [OF digit, of v] show ?thesis by (simp add: Let_def)
    next
      case False
      with digit decode_step [OF digit, of v] "2.IH" [OF _ refl] show ?thesis
        by (simp add: Let_def)
    qed
  qed simp
qed

lemma decode_cursor_eq_Inr_iff:
  "decode_cursor J (Some s) = Inr w \<longleftrightarrow>
     (if s = [] then w = 0
      else length s \<le> 20 \<and> list_all is_digit s \<and> dec_value s < 2 ^ 64 \<and> unat w = dec_value s)"
  using decode_digits_eq_Some_iff [of 0 s w]
  by (auto simp: decode_cursor_def split: option.split)

lemma decode_cursor_dec_string:
  "n < 2 ^ 64 \<Longrightarrow> decode_cursor J (Some (dec_string n)) = Inr (of_nat n)"
proof -
  assume n: "n < 2 ^ 64"
  then have "length (dec_string n) \<le> 20" by (intro length_dec_string) auto
  with n show ?thesis
    by (simp add: decode_cursor_eq_Inr_iff dec_string_digits unat_of_nat_64)
qed

section \<open>What a page holds\<close>

text \<open>Inside the bounds, where the sum does not wrap, \<open>paginate\<close> is a slice of the list.\<close>

lemma paginate_slice:
  fixes items :: "'a list" and offset page_size :: size_t
  assumes size: "length items < 2 ^ 64" and "unat offset + unat page_size < 2 ^ 64"
  shows "paginate items offset page_size =
    (if page_size = 0 \<or> length items \<le> unat offset + unat page_size
     then Inr (drop (unat offset) items, None)
     else Inr (take (unat page_size) (drop (unat offset) items),
               Some (dec_string (unat offset + unat page_size))))"
proof -
  note sum = unat_add_64 [OF assms(2)]
  note size' = unat_of_nat_64 [OF size]
  show ?thesis
  proof (cases "length items \<le> unat offset")
    case True
    then show ?thesis by (simp add: paginate_def word_le_nat_alt size')
  next
    case False
    then show ?thesis
      by (simp add: paginate_def word_le_nat_alt word_less_nat_alt size' sum iterator_range_def)
  qed
qed

text \<open>
  When \<open>offset + page_size\<close> wraps, the wrapped sum is below \<open>offset\<close>, so the range is invalid.
\<close>

lemma paginate_wrap:
  fixes items :: "'a list" and offset page_size :: size_t
  assumes "length items < 2 ^ 64" "unat offset < length items"
    and wrap: "2 ^ 64 \<le> unat offset + unat page_size"
  shows "paginate items offset page_size = Inl Undefined"
proof -
  have "unat (offset + page_size) < unat offset"
    unfolding unat_add_64_wrap [OF wrap] using unat_less_64 [of page_size] wrap by linarith
  moreover have "page_size \<noteq> 0"
    using wrap unat_less_64 [of offset] by (auto simp del: unat_0_iff)
  moreover note unat_of_nat_64 [OF assms(1)]
  ultimately show ?thesis using assms(2)
    by (simp add: paginate_def word_le_nat_alt word_less_nat_alt iterator_range_def)
qed

section \<open>Following the cursors\<close>

text \<open>
  What a client does with a list method: ask without a cursor, then with each \<open>nextCursor\<close> until
  there is none. The number bounds the requests; \<open>None\<close> is a client that is not done within them.
\<close>

fun follow ::
    "(string option \<Rightarrow> 'e + 'a list \<times> string option) \<Rightarrow> nat \<Rightarrow> string option \<Rightarrow> ('e + 'a list list) option" where
  "follow fetch 0 cursor = None"
| "follow fetch (Suc n) cursor =
     (case fetch cursor of
        Inl e \<Rightarrow> Some (Inl e)
      | Inr (page, None) \<Rightarrow> Some (Inr [page])
      | Inr (page, Some cursor') \<Rightarrow>
          map_option (emap (\<lambda>pages. page # pages)) (follow fetch n (Some cursor')))"

lemma list_page_slice:
  fixes items :: "'a list" and J :: "'j json_ops"
  assumes "length items < 2 ^ 64" "k + unat page_size < 2 ^ 64"
    and cursor: "cursor = Some (dec_string k) \<or> cursor = None \<and> k = 0"
  shows "list_page J items cursor page_size =
    (if page_size = 0 \<or> length items \<le> k + unat page_size
     then Inr (drop k items, None)
     else Inr (take (unat page_size) (drop k items), Some (dec_string (k + unat page_size))))"
proof -
  have k: "k < 2 ^ 64" using assms(2) by simp
  have "decode_cursor J cursor = Inr (of_nat k)"
    using cursor decode_cursor_dec_string [OF k] by (auto simp: decode_cursor_def)
  moreover note paginate_slice [OF assms(1), of "of_nat k" page_size, unfolded unat_of_nat_64 [OF k]]
  ultimately show ?thesis using assms(2) by (simp add: list_page_def)
qed

definition page_ok :: "size_t \<Rightarrow> 'a list \<Rightarrow> bool" where
  "page_ok page_size page \<longleftrightarrow> page_size = 0 \<or> length page \<le> unat page_size"

lemma follow_list_page:
  assumes "length items + unat page_size < 2 ^ 64" "k \<le> length items"
    and "cursor = Some (dec_string k) \<or> cursor = None \<and> k = 0"
    and "length items - k < n"
  shows "\<exists>pages. follow (\<lambda>c. list_page J items c page_size) n cursor = Some (Inr pages) \<and>
    concat pages = drop k items \<and> list_all (page_ok page_size) pages"
  using assms
proof (induction n arbitrary: k cursor)
  case (Suc n)
  have bounds: "length items < 2 ^ 64" "k + unat page_size < 2 ^ 64" using Suc.prems by simp_all
  note page = list_page_slice [OF bounds Suc.prems(3), of J]
  show ?case
  proof (cases "page_size = 0 \<or> length items \<le> k + unat page_size")
    case True
    with page Suc.prems(2) show ?thesis by (auto simp: page_ok_def)
  next
    case False
    let ?k = "k + unat page_size"
    from False have "0 < unat page_size" by (simp add: unat_gt_0)
    then have "length items - ?k < n" using Suc.prems(4) False by linarith
    with Suc.IH [of ?k "Some (dec_string ?k)"] Suc.prems(1) False
    obtain pages where pages: "follow (\<lambda>c. list_page J items c page_size) n (Some (dec_string ?k)) = Some (Inr pages)"
      "concat pages = drop ?k items" "list_all (page_ok page_size) pages"
      by auto
    have "take (unat page_size) (drop k items) @ drop ?k items = drop k items"
      by (metis add.commute append_take_drop_id drop_drop)
    moreover have "page_ok page_size (take (unat page_size) (drop k items))"
      by (simp add: page_ok_def)
    ultimately show ?thesis using pages page False by auto
  qed
qed simp

section \<open>Properties\<close>

text \<open>
  C32: A client that follows \<open>nextCursor\<close> from the first page gets, within one request per item and
  one more, every item exactly once and in order, and no page is longer than the page size. The
  page size may be anything that does not make \<open>offset + page_size\<close> wrap.
\<close>

theorem pagination_complete:
  assumes "length items + unat page_size < 2 ^ 64"
  shows "\<exists>pages. follow (\<lambda>c. list_page J items c page_size) (length items + 1) None = Some (Inr pages) \<and>
    concat pages = items \<and> list_all (page_ok page_size) pages"
  using follow_list_page [OF assms, of 0 None "length items + 1" J] by simp

theorem pagination_complete_witness:
  "\<exists>pages. follow (\<lambda>c. list_page jv_ops ''abcde'' c 2) (length ''abcde'' + 1) None = Some (Inr pages) \<and>
     concat pages = ''abcde'' \<and> list_all (page_ok 2) pages"
  by (rule pagination_complete) simp

text \<open>
  \<open>decode_cursor\<close> is strict: it accepts the empty cursor as 0 and otherwise exactly the strings
  of at most 20 decimal digits whose value fits 64 bits, and returns that value; everything else is
  refused with \<open>invalid_params\<close>. In particular the wrap-around of the digit loop never shows.
\<close>

theorem decode_cursor_exact:
  "decode_cursor J (Some s) =
     (if s = [] then Inr 0
      else if length s \<le> 20 \<and> list_all is_digit s \<and> dec_value s < 2 ^ 64
      then Inr (of_nat (dec_value s))
      else Inl (Error J invalid_params (''invalid pagination cursor: '' @ s)))"
proof (cases "decode_cursor J (Some s)")
  case (Inl e)
  then have "e = bad_cursor J s"
    by (auto simp: decode_cursor_def split: if_splits option.splits)
  moreover from Inl have "s \<noteq> []" by (auto simp: decode_cursor_def)
  moreover have "\<not> (length s \<le> 20 \<and> list_all is_digit s \<and> dec_value s < 2 ^ 64)"
  proof
    assume s: "length s \<le> 20 \<and> list_all is_digit s \<and> dec_value s < 2 ^ 64"
    then have "decode_cursor J (Some s) = Inr (of_nat (dec_value s))"
      using \<open>s \<noteq> []\<close> by (simp add: decode_cursor_eq_Inr_iff unat_of_nat_64)
    with Inl show False by simp
  qed
  ultimately show ?thesis using Inl by (simp only: bad_cursor_def if_False)
next
  case (Inr w)
  then have "(s = [] \<and> w = 0) \<or> (s \<noteq> [] \<and> length s \<le> 20 \<and> list_all is_digit s \<and>
      dec_value s < 2 ^ 64 \<and> unat w = dec_value s)"
    by (auto simp: decode_cursor_eq_Inr_iff split: if_splits)
  then show ?thesis using Inr by (auto simp: word_unat_eq_iff unat_of_nat_64)
qed

text \<open>
  With a page size near the top of \<open>size_t\<close> the sum \<open>offset + page_size\<close> wraps below
  \<open>offset\<close>, and a client cursor inside the list makes \<open>paginate\<close> build an iterator range that ends
  before it begins: undefined behaviour.
\<close>

theorem paginate_sum_wraps:
  assumes "length items < 2 ^ 64" and "n < length items" and "2 ^ 64 \<le> n + unat page_size"
  shows "list_page J items (Some (dec_string n)) page_size = Inl Undefined"
proof -
  from assms(1,2) have n: "n < 2 ^ 64" by simp
  note paginate_wrap [OF assms(1), of "of_nat n" page_size, unfolded unat_of_nat_64 [OF n]]
  with assms(2,3) show ?thesis by (simp add: list_page_def decode_cursor_dec_string [OF n])
qed

theorem paginate_sum_wraps_witness:
  "list_page jv_ops ''ab'' (Some (dec_string 1)) (- 1) = (Inl Undefined :: jv exc + string \<times> string option)"
  by (rule paginate_sum_wraps) (simp_all add: unsigned_minus_1_eq_mask mask_eq_exp_minus_1)

end
