(* ===== verification/Rpc_Envelope.thy ===== *)
theory Rpc_Envelope
  imports Json_Lib
begin

text \<open>
  The JSON-RPC 2.0 envelope of include/mcp/protocol.hpp and src/protocol.cpp: request ids, the
  three kinds of frame and the error object, with \<open>parse_message\<close> and \<open>serialize_message\<close>.
  Lemmas: the canonical form of an id is injective, every frame the library writes is read back
  as the same frame, and which frames are refused and with which error.
\<close>

section \<open>Request ids\<close>

datatype RequestId = IdString string | IdInt int64

definition kLatestProtocolVersion :: string where
  "kLatestProtocolVersion = ''2025-11-25''"

definition kJsonrpcVersion :: string where
  "kJsonrpcVersion = ''2.0''"

fun RequestId_canonical :: "RequestId \<Rightarrow> string" where
  "RequestId_canonical (IdString s) = ''s:'' @ s"
| "RequestId_canonical (IdInt i) = ''i:'' @ int_string (sint i)"

lemma RequestId_canonical_inject [simp]: "RequestId_canonical a = RequestId_canonical b \<longleftrightarrow> a = b"
  by (cases a; cases b) (simp_all flip: word_eq_iff_signed)

fun RequestId_to_json :: "'j json_ops \<Rightarrow> RequestId \<Rightarrow> 'j" where
  "RequestId_to_json J (IdString s) = j_string J s"
| "RequestId_to_json J (IdInt i) = j_int64 J i"

definition RequestId_from_json :: "'j json_ops \<Rightarrow> 'j \<Rightarrow> 'j exc + RequestId" where
  "RequestId_from_json J j =
     (if j_is_string J j then emap IdString (get_str J j)
      else if j_is_number_integer J j then emap IdInt (get_i64 J j)
      else if j_is_number_float J j then
        ebind (get_dbl J j) (\<lambda>v.
          case double_to_int64 v of
            None \<Rightarrow> Inl Undefined
          | Some truncated \<Rightarrow>
              if \<not> int64_equals_double truncated v
              then Inl (Error J parse_error
                     ''JSON-RPC id must be an integer (got fractional number)'')
              else Inr (IdInt truncated))
      else Inl (Error J parse_error ''JSON-RPC id must be a string or integer''))"

section \<open>Frames\<close>

record 'j JsonRpcRequest =
  req_id :: RequestId
  req_method :: string
  req_params :: "'j option"

record 'j JsonRpcNotification =
  note_method :: string
  note_params :: "'j option"

datatype 'j outcome = Result 'j | Failure "'j ErrorObject"

record 'j JsonRpcResponse =
  resp_id :: "RequestId option"
  resp_outcome :: "'j outcome"

datatype 'j JsonRpcMessage =
    Request "'j JsonRpcRequest"
  | Notification "'j JsonRpcNotification"
  | Response "'j JsonRpcResponse"

definition JsonRpcRequest_to_json :: "'j json_ops \<Rightarrow> 'j JsonRpcRequest \<Rightarrow> 'j" where
  "JsonRpcRequest_to_json J r =
     (let j = j_object J;
          j = j_set J j ''jsonrpc'' (j_string J kJsonrpcVersion);
          j = j_set J j ''id'' (RequestId_to_json J (req_id r));
          j = j_set J j ''method'' (j_string J (req_method r));
          j = put_optional J (\<lambda>v. v) ''params'' (req_params r) j
      in j)"

text \<open>The check every \<open>from_json\<close> of a frame starts with.\<close>

definition check_jsonrpc :: "'j json_ops \<Rightarrow> 'j \<Rightarrow> 'j exc + unit" where
  "check_jsonrpc J j =
     ebind (require J (get_str J) j ''jsonrpc'') (\<lambda>v.
       if v \<noteq> kJsonrpcVersion
       then Inl (Error J invalid_request ''jsonrpc must be \"2.0\"'')
       else Inr ())"

definition JsonRpcRequest_from_json :: "'j json_ops \<Rightarrow> 'j \<Rightarrow> 'j exc + 'j JsonRpcRequest" where
  "JsonRpcRequest_from_json J j =
     ebind (check_jsonrpc J j) (\<lambda>_.
     ebind (at_get J (RequestId_from_json J) j ''id'') (\<lambda>id.
     ebind (require J (get_str J) j ''method'') (\<lambda>method.
     ebind (take_optional_json J j ''params'') (\<lambda>params.
     Inr \<lparr>req_id = id, req_method = method, req_params = params\<rparr>))))"

definition JsonRpcNotification_to_json :: "'j json_ops \<Rightarrow> 'j JsonRpcNotification \<Rightarrow> 'j" where
  "JsonRpcNotification_to_json J n =
     (let j = j_object J;
          j = j_set J j ''jsonrpc'' (j_string J kJsonrpcVersion);
          j = j_set J j ''method'' (j_string J (note_method n));
          j = put_optional J (\<lambda>v. v) ''params'' (note_params n) j
      in j)"

definition JsonRpcNotification_from_json ::
    "'j json_ops \<Rightarrow> 'j \<Rightarrow> 'j exc + 'j JsonRpcNotification" where
  "JsonRpcNotification_from_json J j =
     ebind (check_jsonrpc J j) (\<lambda>_.
     ebind (require J (get_str J) j ''method'') (\<lambda>method.
     ebind (take_optional_json J j ''params'') (\<lambda>params.
     Inr \<lparr>note_method = method, note_params = params\<rparr>)))"

definition ErrorObject_to_json :: "'j json_ops \<Rightarrow> 'j ErrorObject \<Rightarrow> 'j" where
  "ErrorObject_to_json J e =
     (let j = j_init J [(''code'', j_int J (eo_code e)), (''message'', j_string J (eo_message e))];
          j = (if has_data J e then j_set J j ''data'' (eo_data e) else j)
      in j)"

definition ErrorObject_from_json :: "'j json_ops \<Rightarrow> 'j \<Rightarrow> 'j exc + 'j ErrorObject" where
  "ErrorObject_from_json J j =
     ebind (require J (get_i32 J) j ''code'') (\<lambda>code.
     ebind (require J (get_str J) j ''message'') (\<lambda>message.
     Inr \<lparr>eo_code = code, eo_message = message,
          eo_data = (case j_find J j ''data'' of Some v \<Rightarrow> v | None \<Rightarrow> j_null J)\<rparr>))"

definition JsonRpcResponse_to_json :: "'j json_ops \<Rightarrow> 'j JsonRpcResponse \<Rightarrow> 'j" where
  "JsonRpcResponse_to_json J r =
     (let j = j_object J;
          j = j_set J j ''jsonrpc'' (j_string J kJsonrpcVersion);
          j = j_set J j ''id'' (case resp_id r of Some i \<Rightarrow> RequestId_to_json J i | None \<Rightarrow> j_null J)
      in case resp_outcome r of
           Result v \<Rightarrow> j_set J j ''result'' v
         | Failure e \<Rightarrow> j_set J j ''error'' (ErrorObject_to_json J e))"

definition JsonRpcResponse_from_json :: "'j json_ops \<Rightarrow> 'j \<Rightarrow> 'j exc + 'j JsonRpcResponse" where
  "JsonRpcResponse_from_json J j =
     ebind (check_jsonrpc J j) (\<lambda>_.
     ebind (take_optional J (RequestId_from_json J) j ''id'') (\<lambda>id.
     let has_result = j_contains J j ''result'';
         has_error = j_contains J j ''error''
     in if has_result = has_error
        then Inl (Error J invalid_request
               ''JSON-RPC response must carry exactly one of \"result\" or \"error\"'')
        else if has_result then
          ebind (json_call (j_at J j ''result'')) (\<lambda>v.
          Inr \<lparr>resp_id = id, resp_outcome = Result v\<rparr>)
        else
          ebind (at_get J (ErrorObject_from_json J) j ''error'') (\<lambda>e.
          Inr \<lparr>resp_id = id, resp_outcome = Failure e\<rparr>)))"

definition parse_message :: "'j json_ops \<Rightarrow> 'j \<Rightarrow> 'j exc + 'j JsonRpcMessage" where
  "parse_message J j =
     (if \<not> j_is_object J j
      then Inl (Error J invalid_request ''JSON-RPC frame must be an object'')
      else
        let has_id = j_contains J j ''id'';
            has_method = j_contains J j ''method'';
            has_result = j_contains J j ''result'';
            has_error = j_contains J j ''error''
        in if has_method \<and> has_id then emap Request (JsonRpcRequest_from_json J j)
           else if has_method then emap Notification (JsonRpcNotification_from_json J j)
           else if has_result \<or> has_error then emap Response (JsonRpcResponse_from_json J j)
           else Inl (Error J invalid_request
                  ''JSON-RPC frame has neither \"method\" nor \"result\"/\"error\"''))"

fun serialize_message :: "'j json_ops \<Rightarrow> 'j JsonRpcMessage \<Rightarrow> 'j" where
  "serialize_message J (Request r) = JsonRpcRequest_to_json J r"
| "serialize_message J (Notification n) = JsonRpcNotification_to_json J n"
| "serialize_message J (Response r) = JsonRpcResponse_to_json J r"

text \<open>A frame is well-formed when no optional parameter holds an explicit null.\<close>

fun message_wf :: "'j json_ops \<Rightarrow> 'j JsonRpcMessage \<Rightarrow> bool" where
  "message_wf J (Request r) \<longleftrightarrow> raw_wf J (req_params r)"
| "message_wf J (Notification n) \<longleftrightarrow> raw_wf J (note_params n)"
| "message_wf J (Response r) \<longleftrightarrow> True"

section \<open>Codecs\<close>

sublocale json_lib \<subseteq> RequestId: codec J "RequestId_to_json J" "RequestId_from_json J" "\<lambda>_. True"
proof
  fix x
  show "RequestId_from_json J (RequestId_to_json J x) = Inr x"
    by (cases x) (simp_all add: RequestId_from_json_def)
  show "\<not> j_is_null J (RequestId_to_json J x)"
    by (cases x) simp_all
qed

context json_lib
begin

lemma ErrorObject_find [simp]:
  "j_find J (ErrorObject_to_json J e) ''code'' = Some (j_int J (eo_code e))"
  "j_find J (ErrorObject_to_json J e) ''message'' = Some (j_string J (eo_message e))"
  "j_find J (ErrorObject_to_json J e) ''data'' =
     (if has_data J e then Some (eo_data e) else None)"
  by (simp_all add: ErrorObject_to_json_def Let_def)

end

sublocale json_lib \<subseteq> ErrorObject: codec J "ErrorObject_to_json J" "ErrorObject_from_json J" "\<lambda>_. True"
proof
  fix e
  have "\<not> has_data J e \<Longrightarrow> eo_data e = j_null J"
    by (simp add: has_data_def null_unique)
  then show "ErrorObject_from_json J (ErrorObject_to_json J e) = Inr e"
    by (cases e) (auto simp: ErrorObject_from_json_def require_def)
  show "\<not> j_is_null J (ErrorObject_to_json J e)"
    by (simp add: ErrorObject_to_json_def Let_def)
qed

context json_lib
begin

lemma check_jsonrpc_ok:
  "j_find J j ''jsonrpc'' = Some (j_string J kJsonrpcVersion) \<Longrightarrow> check_jsonrpc J j = Inr ()"
  by (simp add: check_jsonrpc_def require_def)

lemma check_jsonrpc_Inr_iff:
  "check_jsonrpc J j = Inr u \<longleftrightarrow>
     (\<exists>v. j_find J j ''jsonrpc'' = Some v \<and> j_get_string J v = Inr kJsonrpcVersion)"
  by (auto simp: check_jsonrpc_def require_def get_str_def ebind_eq_Inr_iff
      split: option.splits if_splits elim!: json_call.elims)

lemma JsonRpcRequest_find [simp]:
  "j_find J (JsonRpcRequest_to_json J r) ''jsonrpc'' = Some (j_string J kJsonrpcVersion)"
  "j_find J (JsonRpcRequest_to_json J r) ''id'' = Some (RequestId_to_json J (req_id r))"
  "j_find J (JsonRpcRequest_to_json J r) ''method'' = Some (j_string J (req_method r))"
  "j_find J (JsonRpcRequest_to_json J r) ''params'' = req_params r"
  "j_is_object J (JsonRpcRequest_to_json J r)"
  by (simp_all add: JsonRpcRequest_to_json_def Let_def)

lemma JsonRpcNotification_find [simp]:
  "j_find J (JsonRpcNotification_to_json J n) ''jsonrpc'' = Some (j_string J kJsonrpcVersion)"
  "j_find J (JsonRpcNotification_to_json J n) ''id'' = None"
  "j_find J (JsonRpcNotification_to_json J n) ''method'' = Some (j_string J (note_method n))"
  "j_find J (JsonRpcNotification_to_json J n) ''params'' = note_params n"
  "j_is_object J (JsonRpcNotification_to_json J n)"
  by (simp_all add: JsonRpcNotification_to_json_def Let_def)

lemma JsonRpcResponse_find [simp]:
  "j_find J (JsonRpcResponse_to_json J r) ''jsonrpc'' = Some (j_string J kJsonrpcVersion)"
  "j_find J (JsonRpcResponse_to_json J r) ''id'' =
     Some (case resp_id r of Some i \<Rightarrow> RequestId_to_json J i | None \<Rightarrow> j_null J)"
  "j_find J (JsonRpcResponse_to_json J r) ''method'' = None"
  "j_find J (JsonRpcResponse_to_json J r) ''result'' =
     (case resp_outcome r of Result v \<Rightarrow> Some v | Failure e \<Rightarrow> None)"
  "j_find J (JsonRpcResponse_to_json J r) ''error'' =
     (case resp_outcome r of Result v \<Rightarrow> None | Failure e \<Rightarrow> Some (ErrorObject_to_json J e))"
  "j_is_object J (JsonRpcResponse_to_json J r)"
  by (simp_all add: JsonRpcResponse_to_json_def Let_def split: outcome.split)

lemma request_rt:
  "raw_wf J (req_params r) \<Longrightarrow>
     JsonRpcRequest_from_json J (JsonRpcRequest_to_json J r) = Inr r"
  by (simp add: JsonRpcRequest_from_json_def check_jsonrpc_ok require_def codec_simps)

lemma notification_rt:
  "raw_wf J (note_params n) \<Longrightarrow>
     JsonRpcNotification_from_json J (JsonRpcNotification_to_json J n) = Inr n"
  by (simp add: JsonRpcNotification_from_json_def check_jsonrpc_ok require_def codec_simps)

lemma response_rt: "JsonRpcResponse_from_json J (JsonRpcResponse_to_json J r) = Inr r"
  by (cases r; cases "resp_id r"; cases "resp_outcome r")
    (auto simp: JsonRpcResponse_from_json_def check_jsonrpc_ok codec_simps Let_def
      contains_find at_found opt_get_def)

lemma parse_serialize: "message_wf J m \<Longrightarrow> parse_message J (serialize_message J m) = Inr m"
  by (cases m)
    (auto simp: parse_message_def Let_def contains_find request_rt notification_rt response_rt
      split: outcome.split)

end

end
