(* ===== verification/Proto_Core.thy ===== *)
theory Proto_Core
  imports Rpc_Envelope
begin

text \<open>
  The wire structs of include/mcp/protocol.hpp that describe the two parties: icons,
  implementation metadata, the capabilities each side offers, and the \<open>initialize\<close> request and
  result. Each struct is a record with the fields in declaration order; \<open>X_to_json\<close> and
  \<open>X_from_json\<close> are the functions of src/protocol.cpp of that name, field by field in their
  order; \<open>X_wf\<close> says that no optional raw field holds an explicit null, which the decoder reads
  as absent. Every pair is an instance of the locale \<open>codec\<close>.
\<close>

record Icon =
  icon_src :: string
  icon_mime_type :: "string option"
  icon_sizes :: "string option"
  icon_theme :: "string option"

definition Icon_to_json :: "'j json_ops \<Rightarrow> Icon \<Rightarrow> 'j" where
  "Icon_to_json J c =
     (let j = j_object J;
          j = j_set J j ''src'' (j_string J (icon_src c));
          j = put_optional J (j_string J) ''mimeType'' (icon_mime_type c) j;
          j = put_optional J (j_string J) ''sizes'' (icon_sizes c) j;
          j = put_optional J (j_string J) ''theme'' (icon_theme c) j
      in j)"

definition Icon_from_json :: "'j json_ops \<Rightarrow> 'j \<Rightarrow> 'j exc + Icon" where
  "Icon_from_json J j =
     ebind (require J (get_str J) j ''src'') (\<lambda>icon_src'.
     ebind (take_optional J (get_str J) j ''mimeType'') (\<lambda>icon_mime_type'.
     ebind (take_optional J (get_str J) j ''sizes'') (\<lambda>icon_sizes'.
     ebind (take_optional J (get_str J) j ''theme'') (\<lambda>icon_theme'.
     Inr \<lparr>icon_src = icon_src', icon_mime_type = icon_mime_type',
            icon_sizes = icon_sizes', icon_theme = icon_theme'\<rparr>))))"

sublocale json_lib \<subseteq> Icon: codec J "Icon_to_json J" "Icon_from_json J" "\<lambda>_. True"
  by unfold_locales
    (simp_all add: Icon_to_json_def Icon_from_json_def Let_def require_def
      codec_simps)

sublocale json_lib \<subseteq> Icons: codec J "put_vector J (Icon_to_json J)" "get_vector J (Icon_from_json J)"
    "list_all (\<lambda>_. True)"
  by (rule vector_codec) (rule Icon.codec_axioms)

record 'j Implementation =
  impl_name :: string
  impl_title :: "string option"
  impl_version :: string
  impl_description :: "string option"
  impl_website_url :: "string option"
  impl_icons :: "Icon list option"
  impl_meta :: "'j option"

definition Implementation_to_json :: "'j json_ops \<Rightarrow> 'j Implementation \<Rightarrow> 'j" where
  "Implementation_to_json J i =
     (let j = j_object J;
          j = j_set J j ''name'' (j_string J (impl_name i));
          j = j_set J j ''version'' (j_string J (impl_version i));
          j = put_optional J (j_string J) ''title'' (impl_title i) j;
          j = put_optional J (j_string J) ''description'' (impl_description i) j;
          j = put_optional J (j_string J) ''websiteUrl'' (impl_website_url i) j;
          j = put_optional J (put_vector J (Icon_to_json J)) ''icons'' (impl_icons i) j;
          j = put_optional J (\<lambda>v. v) ''_meta'' (impl_meta i) j
      in j)"

definition Implementation_from_json :: "'j json_ops \<Rightarrow> 'j \<Rightarrow> 'j exc + 'j Implementation" where
  "Implementation_from_json J j =
     ebind (require J (get_str J) j ''name'') (\<lambda>impl_name'.
     ebind (require J (get_str J) j ''version'') (\<lambda>impl_version'.
     ebind (take_optional J (get_str J) j ''title'') (\<lambda>impl_title'.
     ebind (take_optional J (get_str J) j ''description'') (\<lambda>impl_description'.
     ebind (take_optional J (get_str J) j ''websiteUrl'') (\<lambda>impl_website_url'.
     ebind (take_optional J (get_vector J (Icon_from_json J)) j ''icons'') (\<lambda>impl_icons'.
     ebind (take_optional_json J j ''_meta'') (\<lambda>impl_meta'.
     Inr \<lparr>impl_name = impl_name', impl_title = impl_title',
            impl_version = impl_version', impl_description = impl_description',
            impl_website_url = impl_website_url', impl_icons = impl_icons',
            impl_meta = impl_meta'\<rparr>)))))))"

definition Implementation_wf :: "'j json_ops \<Rightarrow> 'j Implementation \<Rightarrow> bool" where
  "Implementation_wf J i \<longleftrightarrow>
     raw_wf J (impl_meta i)"

sublocale json_lib \<subseteq> Implementation: codec J "Implementation_to_json J" "Implementation_from_json J" "Implementation_wf J"
  by unfold_locales
    (simp_all add: Implementation_to_json_def Implementation_from_json_def Implementation_wf_def Let_def require_def
      codec_simps)

record RootsCapability =
  roots_list_changed :: "bool option"

definition RootsCapability_to_json :: "'j json_ops \<Rightarrow> RootsCapability \<Rightarrow> 'j" where
  "RootsCapability_to_json J c =
     (let j = j_object J;
          j = put_optional J (j_bool J) ''listChanged'' (roots_list_changed c) j
      in j)"

definition RootsCapability_from_json :: "'j json_ops \<Rightarrow> 'j \<Rightarrow> 'j exc + RootsCapability" where
  "RootsCapability_from_json J j =
     ebind (take_optional J (get_boolean J) j ''listChanged'') (\<lambda>roots_list_changed'.
     Inr \<lparr>roots_list_changed = roots_list_changed'\<rparr>)"

sublocale json_lib \<subseteq> RootsCapability: codec J "RootsCapability_to_json J" "RootsCapability_from_json J" "\<lambda>_. True"
  by unfold_locales
    (simp_all add: RootsCapability_to_json_def RootsCapability_from_json_def Let_def require_def
      codec_simps)

record 'j SamplingCapability =
  sampling_context :: "'j option"
  sampling_tools :: "'j option"

definition SamplingCapability_to_json :: "'j json_ops \<Rightarrow> 'j SamplingCapability \<Rightarrow> 'j" where
  "SamplingCapability_to_json J c =
     (let j = j_object J;
          j = put_optional J (\<lambda>v. v) ''context'' (sampling_context c) j;
          j = put_optional J (\<lambda>v. v) ''tools'' (sampling_tools c) j
      in j)"

definition SamplingCapability_from_json :: "'j json_ops \<Rightarrow> 'j \<Rightarrow> 'j exc + 'j SamplingCapability" where
  "SamplingCapability_from_json J j =
     ebind (take_optional_json J j ''context'') (\<lambda>sampling_context'.
     ebind (take_optional_json J j ''tools'') (\<lambda>sampling_tools'.
     Inr \<lparr>sampling_context = sampling_context', sampling_tools = sampling_tools'\<rparr>))"

definition SamplingCapability_wf :: "'j json_ops \<Rightarrow> 'j SamplingCapability \<Rightarrow> bool" where
  "SamplingCapability_wf J c \<longleftrightarrow>
     raw_wf J (sampling_context c) \<and>
     raw_wf J (sampling_tools c)"

sublocale json_lib \<subseteq> SamplingCapability: codec J "SamplingCapability_to_json J" "SamplingCapability_from_json J" "SamplingCapability_wf J"
  by unfold_locales
    (simp_all add: SamplingCapability_to_json_def SamplingCapability_from_json_def SamplingCapability_wf_def Let_def require_def
      codec_simps)

record 'j ElicitationCapability =
  elicitation_form :: "'j option"
  elicitation_url :: "'j option"

definition ElicitationCapability_to_json :: "'j json_ops \<Rightarrow> 'j ElicitationCapability \<Rightarrow> 'j" where
  "ElicitationCapability_to_json J c =
     (let j = j_object J;
          j = put_optional J (\<lambda>v. v) ''form'' (elicitation_form c) j;
          j = put_optional J (\<lambda>v. v) ''url'' (elicitation_url c) j
      in j)"

definition ElicitationCapability_from_json :: "'j json_ops \<Rightarrow> 'j \<Rightarrow> 'j exc + 'j ElicitationCapability" where
  "ElicitationCapability_from_json J j =
     ebind (take_optional_json J j ''form'') (\<lambda>elicitation_form'.
     ebind (take_optional_json J j ''url'') (\<lambda>elicitation_url'.
     Inr \<lparr>elicitation_form = elicitation_form', elicitation_url = elicitation_url'\<rparr>))"

definition ElicitationCapability_wf :: "'j json_ops \<Rightarrow> 'j ElicitationCapability \<Rightarrow> bool" where
  "ElicitationCapability_wf J c \<longleftrightarrow>
     raw_wf J (elicitation_form c) \<and>
     raw_wf J (elicitation_url c)"

sublocale json_lib \<subseteq> ElicitationCapability: codec J "ElicitationCapability_to_json J" "ElicitationCapability_from_json J" "ElicitationCapability_wf J"
  by unfold_locales
    (simp_all add: ElicitationCapability_to_json_def ElicitationCapability_from_json_def ElicitationCapability_wf_def Let_def require_def
      codec_simps)

record TaskAugmentation =
  task_aug_ttl :: "int64 option"

definition TaskAugmentation_to_json :: "'j json_ops \<Rightarrow> TaskAugmentation \<Rightarrow> 'j" where
  "TaskAugmentation_to_json J t =
     (let j = j_object J;
          j = put_optional J (j_int64 J) ''ttl'' (task_aug_ttl t) j
      in j)"

definition TaskAugmentation_from_json :: "'j json_ops \<Rightarrow> 'j \<Rightarrow> 'j exc + TaskAugmentation" where
  "TaskAugmentation_from_json J j =
     ebind (take_optional J (get_i64 J) j ''ttl'') (\<lambda>task_aug_ttl'.
     Inr \<lparr>task_aug_ttl = task_aug_ttl'\<rparr>)"

sublocale json_lib \<subseteq> TaskAugmentation: codec J "TaskAugmentation_to_json J" "TaskAugmentation_from_json J" "\<lambda>_. True"
  by unfold_locales
    (simp_all add: TaskAugmentation_to_json_def TaskAugmentation_from_json_def Let_def require_def
      codec_simps)

record 'j TasksRequestsCapability =
  tasks_req_tools :: "'j option"
  tasks_req_sampling :: "'j option"
  tasks_req_elicitation :: "'j option"

definition TasksRequestsCapability_to_json :: "'j json_ops \<Rightarrow> 'j TasksRequestsCapability \<Rightarrow> 'j" where
  "TasksRequestsCapability_to_json J c =
     (let j = j_object J;
          j = put_optional J (\<lambda>v. v) ''tools'' (tasks_req_tools c) j;
          j = put_optional J (\<lambda>v. v) ''sampling'' (tasks_req_sampling c) j;
          j = put_optional J (\<lambda>v. v) ''elicitation'' (tasks_req_elicitation c) j
      in j)"

definition TasksRequestsCapability_from_json :: "'j json_ops \<Rightarrow> 'j \<Rightarrow> 'j exc + 'j TasksRequestsCapability" where
  "TasksRequestsCapability_from_json J j =
     ebind (take_optional_json J j ''tools'') (\<lambda>tasks_req_tools'.
     ebind (take_optional_json J j ''sampling'') (\<lambda>tasks_req_sampling'.
     ebind (take_optional_json J j ''elicitation'') (\<lambda>tasks_req_elicitation'.
     Inr \<lparr>tasks_req_tools = tasks_req_tools',
            tasks_req_sampling = tasks_req_sampling',
            tasks_req_elicitation = tasks_req_elicitation'\<rparr>)))"

definition TasksRequestsCapability_wf :: "'j json_ops \<Rightarrow> 'j TasksRequestsCapability \<Rightarrow> bool" where
  "TasksRequestsCapability_wf J c \<longleftrightarrow>
     raw_wf J (tasks_req_tools c) \<and>
     raw_wf J (tasks_req_sampling c) \<and>
     raw_wf J (tasks_req_elicitation c)"

sublocale json_lib \<subseteq> TasksRequestsCapability: codec J "TasksRequestsCapability_to_json J" "TasksRequestsCapability_from_json J" "TasksRequestsCapability_wf J"
  by unfold_locales
    (simp_all add: TasksRequestsCapability_to_json_def TasksRequestsCapability_from_json_def TasksRequestsCapability_wf_def Let_def require_def
      codec_simps)

record 'j TasksCapability =
  tasks_list :: "'j option"
  tasks_cancel :: "'j option"
  tasks_requests :: "'j TasksRequestsCapability option"

definition TasksCapability_to_json :: "'j json_ops \<Rightarrow> 'j TasksCapability \<Rightarrow> 'j" where
  "TasksCapability_to_json J c =
     (let j = j_object J;
          j = put_optional J (\<lambda>v. v) ''list'' (tasks_list c) j;
          j = put_optional J (\<lambda>v. v) ''cancel'' (tasks_cancel c) j;
          j = put_optional J (TasksRequestsCapability_to_json J) ''requests'' (tasks_requests c) j
      in j)"

definition TasksCapability_from_json :: "'j json_ops \<Rightarrow> 'j \<Rightarrow> 'j exc + 'j TasksCapability" where
  "TasksCapability_from_json J j =
     ebind (take_optional_json J j ''list'') (\<lambda>tasks_list'.
     ebind (take_optional_json J j ''cancel'') (\<lambda>tasks_cancel'.
     ebind (take_optional J (TasksRequestsCapability_from_json J) j ''requests'') (\<lambda>tasks_requests'.
     Inr \<lparr>tasks_list = tasks_list', tasks_cancel = tasks_cancel',
            tasks_requests = tasks_requests'\<rparr>)))"

definition TasksCapability_wf :: "'j json_ops \<Rightarrow> 'j TasksCapability \<Rightarrow> bool" where
  "TasksCapability_wf J c \<longleftrightarrow>
     raw_wf J (tasks_list c) \<and>
     raw_wf J (tasks_cancel c) \<and>
     pred_option (TasksRequestsCapability_wf J) (tasks_requests c)"

sublocale json_lib \<subseteq> TasksCapability: codec J "TasksCapability_to_json J" "TasksCapability_from_json J" "TasksCapability_wf J"
  by unfold_locales
    (simp_all add: TasksCapability_to_json_def TasksCapability_from_json_def TasksCapability_wf_def Let_def require_def
      codec_simps)

record 'j ClientCapabilities =
  ccaps_experimental :: "'j option"
  ccaps_roots :: "RootsCapability option"
  ccaps_sampling :: "'j SamplingCapability option"
  ccaps_elicitation :: "'j ElicitationCapability option"
  ccaps_tasks :: "'j TasksCapability option"

definition ClientCapabilities_to_json :: "'j json_ops \<Rightarrow> 'j ClientCapabilities \<Rightarrow> 'j" where
  "ClientCapabilities_to_json J c =
     (let j = j_object J;
          j = put_optional J (\<lambda>v. v) ''experimental'' (ccaps_experimental c) j;
          j = put_optional J (RootsCapability_to_json J) ''roots'' (ccaps_roots c) j;
          j = put_optional J (SamplingCapability_to_json J) ''sampling'' (ccaps_sampling c) j;
          j = put_optional J (ElicitationCapability_to_json J) ''elicitation'' (ccaps_elicitation c) j;
          j = put_optional J (TasksCapability_to_json J) ''tasks'' (ccaps_tasks c) j
      in j)"

definition ClientCapabilities_from_json :: "'j json_ops \<Rightarrow> 'j \<Rightarrow> 'j exc + 'j ClientCapabilities" where
  "ClientCapabilities_from_json J j =
     ebind (take_optional_json J j ''experimental'') (\<lambda>ccaps_experimental'.
     ebind (take_optional J (RootsCapability_from_json J) j ''roots'') (\<lambda>ccaps_roots'.
     ebind (take_optional J (SamplingCapability_from_json J) j ''sampling'') (\<lambda>ccaps_sampling'.
     ebind (take_optional J (ElicitationCapability_from_json J) j ''elicitation'') (\<lambda>ccaps_elicitation'.
     ebind (take_optional J (TasksCapability_from_json J) j ''tasks'') (\<lambda>ccaps_tasks'.
     Inr \<lparr>ccaps_experimental = ccaps_experimental', ccaps_roots = ccaps_roots',
            ccaps_sampling = ccaps_sampling', ccaps_elicitation = ccaps_elicitation',
            ccaps_tasks = ccaps_tasks'\<rparr>)))))"

definition ClientCapabilities_wf :: "'j json_ops \<Rightarrow> 'j ClientCapabilities \<Rightarrow> bool" where
  "ClientCapabilities_wf J c \<longleftrightarrow>
     raw_wf J (ccaps_experimental c) \<and>
     pred_option (SamplingCapability_wf J) (ccaps_sampling c) \<and>
     pred_option (ElicitationCapability_wf J) (ccaps_elicitation c) \<and>
     pred_option (TasksCapability_wf J) (ccaps_tasks c)"

sublocale json_lib \<subseteq> ClientCapabilities: codec J "ClientCapabilities_to_json J" "ClientCapabilities_from_json J" "ClientCapabilities_wf J"
  by unfold_locales
    (simp_all add: ClientCapabilities_to_json_def ClientCapabilities_from_json_def ClientCapabilities_wf_def Let_def require_def
      codec_simps)

record PromptsCapability =
  prompts_list_changed :: "bool option"

definition PromptsCapability_to_json :: "'j json_ops \<Rightarrow> PromptsCapability \<Rightarrow> 'j" where
  "PromptsCapability_to_json J c =
     (let j = j_object J;
          j = put_optional J (j_bool J) ''listChanged'' (prompts_list_changed c) j
      in j)"

definition PromptsCapability_from_json :: "'j json_ops \<Rightarrow> 'j \<Rightarrow> 'j exc + PromptsCapability" where
  "PromptsCapability_from_json J j =
     ebind (take_optional J (get_boolean J) j ''listChanged'') (\<lambda>prompts_list_changed'.
     Inr \<lparr>prompts_list_changed = prompts_list_changed'\<rparr>)"

sublocale json_lib \<subseteq> PromptsCapability: codec J "PromptsCapability_to_json J" "PromptsCapability_from_json J" "\<lambda>_. True"
  by unfold_locales
    (simp_all add: PromptsCapability_to_json_def PromptsCapability_from_json_def Let_def require_def
      codec_simps)

record ResourcesCapability =
  resources_subscribe :: "bool option"
  resources_list_changed :: "bool option"

definition ResourcesCapability_to_json :: "'j json_ops \<Rightarrow> ResourcesCapability \<Rightarrow> 'j" where
  "ResourcesCapability_to_json J c =
     (let j = j_object J;
          j = put_optional J (j_bool J) ''subscribe'' (resources_subscribe c) j;
          j = put_optional J (j_bool J) ''listChanged'' (resources_list_changed c) j
      in j)"

definition ResourcesCapability_from_json :: "'j json_ops \<Rightarrow> 'j \<Rightarrow> 'j exc + ResourcesCapability" where
  "ResourcesCapability_from_json J j =
     ebind (take_optional J (get_boolean J) j ''subscribe'') (\<lambda>resources_subscribe'.
     ebind (take_optional J (get_boolean J) j ''listChanged'') (\<lambda>resources_list_changed'.
     Inr \<lparr>resources_subscribe = resources_subscribe',
            resources_list_changed = resources_list_changed'\<rparr>))"

sublocale json_lib \<subseteq> ResourcesCapability: codec J "ResourcesCapability_to_json J" "ResourcesCapability_from_json J" "\<lambda>_. True"
  by unfold_locales
    (simp_all add: ResourcesCapability_to_json_def ResourcesCapability_from_json_def Let_def require_def
      codec_simps)

record ToolsCapability =
  tools_list_changed :: "bool option"

definition ToolsCapability_to_json :: "'j json_ops \<Rightarrow> ToolsCapability \<Rightarrow> 'j" where
  "ToolsCapability_to_json J c =
     (let j = j_object J;
          j = put_optional J (j_bool J) ''listChanged'' (tools_list_changed c) j
      in j)"

definition ToolsCapability_from_json :: "'j json_ops \<Rightarrow> 'j \<Rightarrow> 'j exc + ToolsCapability" where
  "ToolsCapability_from_json J j =
     ebind (take_optional J (get_boolean J) j ''listChanged'') (\<lambda>tools_list_changed'.
     Inr \<lparr>tools_list_changed = tools_list_changed'\<rparr>)"

sublocale json_lib \<subseteq> ToolsCapability: codec J "ToolsCapability_to_json J" "ToolsCapability_from_json J" "\<lambda>_. True"
  by unfold_locales
    (simp_all add: ToolsCapability_to_json_def ToolsCapability_from_json_def Let_def require_def
      codec_simps)

record 'j ServerCapabilities =
  scaps_experimental :: "'j option"
  scaps_logging :: "'j option"
  scaps_completions :: "'j option"
  scaps_prompts :: "PromptsCapability option"
  scaps_resources :: "ResourcesCapability option"
  scaps_tools :: "ToolsCapability option"
  scaps_tasks :: "'j TasksCapability option"

definition ServerCapabilities_to_json :: "'j json_ops \<Rightarrow> 'j ServerCapabilities \<Rightarrow> 'j" where
  "ServerCapabilities_to_json J c =
     (let j = j_object J;
          j = put_optional J (\<lambda>v. v) ''experimental'' (scaps_experimental c) j;
          j = put_optional J (\<lambda>v. v) ''logging'' (scaps_logging c) j;
          j = put_optional J (\<lambda>v. v) ''completions'' (scaps_completions c) j;
          j = put_optional J (PromptsCapability_to_json J) ''prompts'' (scaps_prompts c) j;
          j = put_optional J (ResourcesCapability_to_json J) ''resources'' (scaps_resources c) j;
          j = put_optional J (ToolsCapability_to_json J) ''tools'' (scaps_tools c) j;
          j = put_optional J (TasksCapability_to_json J) ''tasks'' (scaps_tasks c) j
      in j)"

definition ServerCapabilities_from_json :: "'j json_ops \<Rightarrow> 'j \<Rightarrow> 'j exc + 'j ServerCapabilities" where
  "ServerCapabilities_from_json J j =
     ebind (take_optional_json J j ''experimental'') (\<lambda>scaps_experimental'.
     ebind (take_optional_json J j ''logging'') (\<lambda>scaps_logging'.
     ebind (take_optional_json J j ''completions'') (\<lambda>scaps_completions'.
     ebind (take_optional J (PromptsCapability_from_json J) j ''prompts'') (\<lambda>scaps_prompts'.
     ebind (take_optional J (ResourcesCapability_from_json J) j ''resources'') (\<lambda>scaps_resources'.
     ebind (take_optional J (ToolsCapability_from_json J) j ''tools'') (\<lambda>scaps_tools'.
     ebind (take_optional J (TasksCapability_from_json J) j ''tasks'') (\<lambda>scaps_tasks'.
     Inr \<lparr>scaps_experimental = scaps_experimental', scaps_logging = scaps_logging',
            scaps_completions = scaps_completions', scaps_prompts = scaps_prompts',
            scaps_resources = scaps_resources', scaps_tools = scaps_tools',
            scaps_tasks = scaps_tasks'\<rparr>)))))))"

definition ServerCapabilities_wf :: "'j json_ops \<Rightarrow> 'j ServerCapabilities \<Rightarrow> bool" where
  "ServerCapabilities_wf J c \<longleftrightarrow>
     raw_wf J (scaps_experimental c) \<and>
     raw_wf J (scaps_logging c) \<and>
     raw_wf J (scaps_completions c) \<and>
     pred_option (TasksCapability_wf J) (scaps_tasks c)"

sublocale json_lib \<subseteq> ServerCapabilities: codec J "ServerCapabilities_to_json J" "ServerCapabilities_from_json J" "ServerCapabilities_wf J"
  by unfold_locales
    (simp_all add: ServerCapabilities_to_json_def ServerCapabilities_from_json_def ServerCapabilities_wf_def Let_def require_def
      codec_simps)

record 'j InitializeRequestParams =
  init_protocol_version :: string
  init_capabilities :: "'j ClientCapabilities"
  init_client_info :: "'j Implementation"

definition InitializeRequestParams_to_json :: "'j json_ops \<Rightarrow> 'j InitializeRequestParams \<Rightarrow> 'j" where
  "InitializeRequestParams_to_json J p =
     (let j = j_object J;
          j = j_set J j ''protocolVersion'' (j_string J (init_protocol_version p));
          j = j_set J j ''capabilities'' (ClientCapabilities_to_json J (init_capabilities p));
          j = j_set J j ''clientInfo'' (Implementation_to_json J (init_client_info p))
      in j)"

definition InitializeRequestParams_from_json :: "'j json_ops \<Rightarrow> 'j \<Rightarrow> 'j exc + 'j InitializeRequestParams" where
  "InitializeRequestParams_from_json J j =
     ebind (require J (get_str J) j ''protocolVersion'') (\<lambda>init_protocol_version'.
     ebind (at_get J (ClientCapabilities_from_json J) j ''capabilities'') (\<lambda>init_capabilities'.
     ebind (at_get J (Implementation_from_json J) j ''clientInfo'') (\<lambda>init_client_info'.
     Inr \<lparr>init_protocol_version = init_protocol_version',
            init_capabilities = init_capabilities', init_client_info = init_client_info'\<rparr>)))"

definition InitializeRequestParams_wf :: "'j json_ops \<Rightarrow> 'j InitializeRequestParams \<Rightarrow> bool" where
  "InitializeRequestParams_wf J p \<longleftrightarrow>
     ClientCapabilities_wf J (init_capabilities p) \<and>
     Implementation_wf J (init_client_info p)"

sublocale json_lib \<subseteq> InitializeRequestParams: codec J "InitializeRequestParams_to_json J" "InitializeRequestParams_from_json J" "InitializeRequestParams_wf J"
  by unfold_locales
    (simp_all add: InitializeRequestParams_to_json_def InitializeRequestParams_from_json_def InitializeRequestParams_wf_def Let_def require_def
      codec_simps)

record 'j InitializeResult =
  initres_protocol_version :: string
  initres_capabilities :: "'j ServerCapabilities"
  initres_server_info :: "'j Implementation"
  initres_instructions :: "string option"
  initres_meta :: "'j option"

definition InitializeResult_to_json :: "'j json_ops \<Rightarrow> 'j InitializeResult \<Rightarrow> 'j" where
  "InitializeResult_to_json J r =
     (let j = j_object J;
          j = j_set J j ''protocolVersion'' (j_string J (initres_protocol_version r));
          j = j_set J j ''capabilities'' (ServerCapabilities_to_json J (initres_capabilities r));
          j = j_set J j ''serverInfo'' (Implementation_to_json J (initres_server_info r));
          j = put_optional J (j_string J) ''instructions'' (initres_instructions r) j;
          j = put_optional J (\<lambda>v. v) ''_meta'' (initres_meta r) j
      in j)"

definition InitializeResult_from_json :: "'j json_ops \<Rightarrow> 'j \<Rightarrow> 'j exc + 'j InitializeResult" where
  "InitializeResult_from_json J j =
     ebind (require J (get_str J) j ''protocolVersion'') (\<lambda>initres_protocol_version'.
     ebind (at_get J (ServerCapabilities_from_json J) j ''capabilities'') (\<lambda>initres_capabilities'.
     ebind (at_get J (Implementation_from_json J) j ''serverInfo'') (\<lambda>initres_server_info'.
     ebind (take_optional J (get_str J) j ''instructions'') (\<lambda>initres_instructions'.
     ebind (take_optional_json J j ''_meta'') (\<lambda>initres_meta'.
     Inr \<lparr>initres_protocol_version = initres_protocol_version',
            initres_capabilities = initres_capabilities',
            initres_server_info = initres_server_info',
            initres_instructions = initres_instructions', initres_meta = initres_meta'\<rparr>)))))"

definition InitializeResult_wf :: "'j json_ops \<Rightarrow> 'j InitializeResult \<Rightarrow> bool" where
  "InitializeResult_wf J r \<longleftrightarrow>
     ServerCapabilities_wf J (initres_capabilities r) \<and>
     Implementation_wf J (initres_server_info r) \<and>
     raw_wf J (initres_meta r)"

sublocale json_lib \<subseteq> InitializeResult: codec J "InitializeResult_to_json J" "InitializeResult_from_json J" "InitializeResult_wf J"
  by unfold_locales
    (simp_all add: InitializeResult_to_json_def InitializeResult_from_json_def InitializeResult_wf_def Let_def require_def
      codec_simps)

end
