(* ===== verification/Proto_Content.thy ===== *)
theory Proto_Content
  imports Proto_Core
begin

text \<open>
  Content blocks and resources: roles, annotations, the text, image, audio, resource and tool
  blocks, and the two tagged unions \<open>PlainContentBlock\<close> and \<open>ContentBlock\<close> that the wire tells
  apart by their \<open>type\<close> field (\<open>ResourceContents\<close>: by the member that is present). Lemmas: each
  codec round-trips, and a plain block is never a tool block.
\<close>

section \<open>Roles and annotations\<close>

datatype Role = Role_user | Role_assistant

fun Role_to_string :: "Role \<Rightarrow> string" where
  "Role_to_string Role_user = ''user''"
| "Role_to_string Role_assistant = ''assistant''"

definition Role_from_string :: "'j json_ops \<Rightarrow> string \<Rightarrow> 'j exc + Role" where
  "Role_from_string J s =
     (if s = ''user'' then Inr Role_user
      else if s = ''assistant'' then Inr Role_assistant
      else Inl (Error J parse_error (''unknown role: '' @ s)))"

definition Role_to_json :: "'j json_ops \<Rightarrow> Role \<Rightarrow> 'j" where
  "Role_to_json J r = j_string J (Role_to_string r)"

definition Role_from_json :: "'j json_ops \<Rightarrow> 'j \<Rightarrow> 'j exc + Role" where
  "Role_from_json J j = ebind (get_str J j) (Role_from_string J)"

sublocale json_lib \<subseteq> Role: codec J "Role_to_json J" "Role_from_json J" "\<lambda>_. True"
proof
  fix r
  show "Role_from_json J (Role_to_json J r) = Inr r"
    by (cases r) (simp_all add: Role_to_json_def Role_from_json_def Role_from_string_def)
qed (simp add: Role_to_json_def)

record Annotations =
  ann_audience :: "Role list option"
  ann_priority :: "double option"
  ann_last_modified :: "string option"

definition Annotations_to_json :: "'j json_ops \<Rightarrow> Annotations \<Rightarrow> 'j" where
  "Annotations_to_json J a =
     (let j = j_object J;
          j = put_optional J (put_vector J (Role_to_json J)) ''audience'' (ann_audience a) j;
          j = put_optional J (j_double J) ''priority'' (ann_priority a) j;
          j = put_optional J (j_string J) ''lastModified'' (ann_last_modified a) j
      in j)"

definition Annotations_from_json :: "'j json_ops \<Rightarrow> 'j \<Rightarrow> 'j exc + Annotations" where
  "Annotations_from_json J j =
     ebind (take_if_array J (get_vector J (Role_from_json J)) j ''audience'') (\<lambda>ann_audience'.
     ebind (take_optional J (get_dbl J) j ''priority'') (\<lambda>ann_priority'.
     ebind (take_optional J (get_str J) j ''lastModified'') (\<lambda>ann_last_modified'.
     Inr \<lparr>ann_audience = ann_audience', ann_priority = ann_priority',
            ann_last_modified = ann_last_modified'\<rparr>)))"

sublocale json_lib \<subseteq> Annotations: codec J "Annotations_to_json J" "Annotations_from_json J" "\<lambda>_. True"
  by unfold_locales
    (simp_all add: Annotations_to_json_def Annotations_from_json_def Let_def require_def
      codec_simps take_if_array_found [OF Role.codec_axioms])

section \<open>Text, image and audio\<close>

record TextContent =
  text_text :: string
  text_annotations :: "Annotations option"

definition TextContent_to_json :: "'j json_ops \<Rightarrow> TextContent \<Rightarrow> 'j" where
  "TextContent_to_json J c =
     (let j = j_init J [(''type'', j_string J ''text''), (''text'', j_string J (text_text c))];
          j = put_optional J (Annotations_to_json J) ''annotations'' (text_annotations c) j
      in j)"

definition TextContent_from_json :: "'j json_ops \<Rightarrow> 'j \<Rightarrow> 'j exc + TextContent" where
  "TextContent_from_json J j =
     ebind (require J (get_str J) j ''text'') (\<lambda>text_text'.
     ebind (take_optional J (Annotations_from_json J) j ''annotations'') (\<lambda>text_annotations'.
     Inr \<lparr>text_text = text_text', text_annotations = text_annotations'\<rparr>))"

sublocale json_lib \<subseteq> TextContent: codec J "TextContent_to_json J" "TextContent_from_json J" "\<lambda>_. True"
  by unfold_locales
    (simp_all add: TextContent_to_json_def TextContent_from_json_def Let_def require_def
      codec_simps)

context json_lib
begin

lemma TextContent_find [simp]:
  "j_find J (TextContent_to_json J c) ''type'' = Some (j_string J ''text'')"
  "j_is_object J (TextContent_to_json J c)"
  by (simp_all add: TextContent_to_json_def Let_def)

end

record ImageContent =
  image_data :: string
  image_mime_type :: string
  image_annotations :: "Annotations option"

definition ImageContent_to_json :: "'j json_ops \<Rightarrow> ImageContent \<Rightarrow> 'j" where
  "ImageContent_to_json J c =
     (let j = j_init J [(''type'', j_string J ''image''), (''data'', j_string J (image_data c)), (''mimeType'', j_string J (image_mime_type c))];
          j = put_optional J (Annotations_to_json J) ''annotations'' (image_annotations c) j
      in j)"

definition ImageContent_from_json :: "'j json_ops \<Rightarrow> 'j \<Rightarrow> 'j exc + ImageContent" where
  "ImageContent_from_json J j =
     ebind (require J (get_str J) j ''data'') (\<lambda>image_data'.
     ebind (require J (get_str J) j ''mimeType'') (\<lambda>image_mime_type'.
     ebind (take_optional J (Annotations_from_json J) j ''annotations'') (\<lambda>image_annotations'.
     Inr \<lparr>image_data = image_data', image_mime_type = image_mime_type',
            image_annotations = image_annotations'\<rparr>)))"

sublocale json_lib \<subseteq> ImageContent: codec J "ImageContent_to_json J" "ImageContent_from_json J" "\<lambda>_. True"
  by unfold_locales
    (simp_all add: ImageContent_to_json_def ImageContent_from_json_def Let_def require_def
      codec_simps)

context json_lib
begin

lemma ImageContent_find [simp]:
  "j_find J (ImageContent_to_json J c) ''type'' = Some (j_string J ''image'')"
  "j_is_object J (ImageContent_to_json J c)"
  by (simp_all add: ImageContent_to_json_def Let_def)

end

record AudioContent =
  audio_data :: string
  audio_mime_type :: string
  audio_annotations :: "Annotations option"

definition AudioContent_to_json :: "'j json_ops \<Rightarrow> AudioContent \<Rightarrow> 'j" where
  "AudioContent_to_json J c =
     (let j = j_init J [(''type'', j_string J ''audio''), (''data'', j_string J (audio_data c)), (''mimeType'', j_string J (audio_mime_type c))];
          j = put_optional J (Annotations_to_json J) ''annotations'' (audio_annotations c) j
      in j)"

definition AudioContent_from_json :: "'j json_ops \<Rightarrow> 'j \<Rightarrow> 'j exc + AudioContent" where
  "AudioContent_from_json J j =
     ebind (require J (get_str J) j ''data'') (\<lambda>audio_data'.
     ebind (require J (get_str J) j ''mimeType'') (\<lambda>audio_mime_type'.
     ebind (take_optional J (Annotations_from_json J) j ''annotations'') (\<lambda>audio_annotations'.
     Inr \<lparr>audio_data = audio_data', audio_mime_type = audio_mime_type',
            audio_annotations = audio_annotations'\<rparr>)))"

sublocale json_lib \<subseteq> AudioContent: codec J "AudioContent_to_json J" "AudioContent_from_json J" "\<lambda>_. True"
  by unfold_locales
    (simp_all add: AudioContent_to_json_def AudioContent_from_json_def Let_def require_def
      codec_simps)

context json_lib
begin

lemma AudioContent_find [simp]:
  "j_find J (AudioContent_to_json J c) ''type'' = Some (j_string J ''audio'')"
  "j_is_object J (AudioContent_to_json J c)"
  by (simp_all add: AudioContent_to_json_def Let_def)

end

section \<open>Resources\<close>

record TextResourceContents =
  trc_uri :: string
  trc_mime_type :: "string option"
  trc_text :: string

definition TextResourceContents_to_json :: "'j json_ops \<Rightarrow> TextResourceContents \<Rightarrow> 'j" where
  "TextResourceContents_to_json J c =
     (let j = j_object J;
          j = j_set J j ''uri'' (j_string J (trc_uri c));
          j = j_set J j ''text'' (j_string J (trc_text c));
          j = put_optional J (j_string J) ''mimeType'' (trc_mime_type c) j
      in j)"

definition TextResourceContents_from_json :: "'j json_ops \<Rightarrow> 'j \<Rightarrow> 'j exc + TextResourceContents" where
  "TextResourceContents_from_json J j =
     ebind (require J (get_str J) j ''uri'') (\<lambda>trc_uri'.
     ebind (require J (get_str J) j ''text'') (\<lambda>trc_text'.
     ebind (take_optional J (get_str J) j ''mimeType'') (\<lambda>trc_mime_type'.
     Inr \<lparr>trc_uri = trc_uri', trc_mime_type = trc_mime_type', trc_text = trc_text'\<rparr>)))"

sublocale json_lib \<subseteq> TextResourceContents: codec J "TextResourceContents_to_json J" "TextResourceContents_from_json J" "\<lambda>_. True"
  by unfold_locales
    (simp_all add: TextResourceContents_to_json_def TextResourceContents_from_json_def Let_def require_def
      codec_simps)

context json_lib
begin

lemma TextResourceContents_find [simp]:
  "j_find J (TextResourceContents_to_json J c) ''text'' = Some (j_string J (trc_text c))"
  "j_is_object J (TextResourceContents_to_json J c)"
  by (simp_all add: TextResourceContents_to_json_def Let_def)

end

record BlobResourceContents =
  brc_uri :: string
  brc_mime_type :: "string option"
  brc_blob :: string

definition BlobResourceContents_to_json :: "'j json_ops \<Rightarrow> BlobResourceContents \<Rightarrow> 'j" where
  "BlobResourceContents_to_json J c =
     (let j = j_object J;
          j = j_set J j ''uri'' (j_string J (brc_uri c));
          j = j_set J j ''blob'' (j_string J (brc_blob c));
          j = put_optional J (j_string J) ''mimeType'' (brc_mime_type c) j
      in j)"

definition BlobResourceContents_from_json :: "'j json_ops \<Rightarrow> 'j \<Rightarrow> 'j exc + BlobResourceContents" where
  "BlobResourceContents_from_json J j =
     ebind (require J (get_str J) j ''uri'') (\<lambda>brc_uri'.
     ebind (require J (get_str J) j ''blob'') (\<lambda>brc_blob'.
     ebind (take_optional J (get_str J) j ''mimeType'') (\<lambda>brc_mime_type'.
     Inr \<lparr>brc_uri = brc_uri', brc_mime_type = brc_mime_type', brc_blob = brc_blob'\<rparr>)))"

sublocale json_lib \<subseteq> BlobResourceContents: codec J "BlobResourceContents_to_json J" "BlobResourceContents_from_json J" "\<lambda>_. True"
  by unfold_locales
    (simp_all add: BlobResourceContents_to_json_def BlobResourceContents_from_json_def Let_def require_def
      codec_simps)

context json_lib
begin

lemma BlobResourceContents_find [simp]:
  "j_find J (BlobResourceContents_to_json J c) ''text'' = None"
  "j_find J (BlobResourceContents_to_json J c) ''blob'' = Some (j_string J (brc_blob c))"
  "j_is_object J (BlobResourceContents_to_json J c)"
  by (simp_all add: BlobResourceContents_to_json_def Let_def)

end

datatype ResourceContents = TextResource TextResourceContents | BlobResource BlobResourceContents

fun ResourceContents_to_json :: "'j json_ops \<Rightarrow> ResourceContents \<Rightarrow> 'j" where
  "ResourceContents_to_json J (TextResource c) = TextResourceContents_to_json J c"
| "ResourceContents_to_json J (BlobResource c) = BlobResourceContents_to_json J c"

definition ResourceContents_from_json :: "'j json_ops \<Rightarrow> 'j \<Rightarrow> 'j exc + ResourceContents" where
  "ResourceContents_from_json J j =
     (if j_contains J j ''text'' then emap TextResource (TextResourceContents_from_json J j)
      else if j_contains J j ''blob'' then emap BlobResource (BlobResourceContents_from_json J j)
      else Inl (Error J parse_error
             ''ResourceContents must have either \"text\" or \"blob\"''))"

sublocale json_lib \<subseteq> ResourceContents:
  codec J "ResourceContents_to_json J" "ResourceContents_from_json J" "\<lambda>_. True"
proof
  fix c
  show "ResourceContents_from_json J (ResourceContents_to_json J c) = Inr c"
    by (cases c) (simp_all add: ResourceContents_from_json_def contains_find)
  show "\<not> j_is_null J (ResourceContents_to_json J c)"
    by (cases c) simp_all
qed

sublocale json_lib \<subseteq> ResourceContentsList: codec J "put_vector J (ResourceContents_to_json J)" "get_vector J (ResourceContents_from_json J)"
    "list_all (\<lambda>_. True)"
  by (rule vector_codec) (rule ResourceContents.codec_axioms)

record 'j Resource =
  res_uri :: string
  res_name :: string
  res_title :: "string option"
  res_description :: "string option"
  res_mime_type :: "string option"
  res_annotations :: "Annotations option"
  res_size :: "int64 option"
  res_icons :: "Icon list option"
  res_meta :: "'j option"

definition Resource_to_json :: "'j json_ops \<Rightarrow> 'j Resource \<Rightarrow> 'j" where
  "Resource_to_json J r =
     (let j = j_object J;
          j = j_set J j ''uri'' (j_string J (res_uri r));
          j = j_set J j ''name'' (j_string J (res_name r));
          j = put_optional J (j_string J) ''title'' (res_title r) j;
          j = put_optional J (j_string J) ''description'' (res_description r) j;
          j = put_optional J (j_string J) ''mimeType'' (res_mime_type r) j;
          j = put_optional J (Annotations_to_json J) ''annotations'' (res_annotations r) j;
          j = put_optional J (j_int64 J) ''size'' (res_size r) j;
          j = put_optional J (put_vector J (Icon_to_json J)) ''icons'' (res_icons r) j;
          j = put_optional J (\<lambda>v. v) ''_meta'' (res_meta r) j
      in j)"

definition Resource_from_json :: "'j json_ops \<Rightarrow> 'j \<Rightarrow> 'j exc + 'j Resource" where
  "Resource_from_json J j =
     ebind (require J (get_str J) j ''uri'') (\<lambda>res_uri'.
     ebind (require J (get_str J) j ''name'') (\<lambda>res_name'.
     ebind (take_optional J (get_str J) j ''title'') (\<lambda>res_title'.
     ebind (take_optional J (get_str J) j ''description'') (\<lambda>res_description'.
     ebind (take_optional J (get_str J) j ''mimeType'') (\<lambda>res_mime_type'.
     ebind (take_optional J (Annotations_from_json J) j ''annotations'') (\<lambda>res_annotations'.
     ebind (take_optional J (get_i64 J) j ''size'') (\<lambda>res_size'.
     ebind (take_optional J (get_vector J (Icon_from_json J)) j ''icons'') (\<lambda>res_icons'.
     ebind (take_optional_json J j ''_meta'') (\<lambda>res_meta'.
     Inr \<lparr>res_uri = res_uri', res_name = res_name', res_title = res_title',
            res_description = res_description', res_mime_type = res_mime_type',
            res_annotations = res_annotations', res_size = res_size',
            res_icons = res_icons', res_meta = res_meta'\<rparr>)))))))))"

definition Resource_wf :: "'j json_ops \<Rightarrow> 'j Resource \<Rightarrow> bool" where
  "Resource_wf J r \<longleftrightarrow>
     raw_wf J (res_meta r)"

sublocale json_lib \<subseteq> Resource: codec J "Resource_to_json J" "Resource_from_json J" "Resource_wf J"
  by unfold_locales
    (simp_all add: Resource_to_json_def Resource_from_json_def Resource_wf_def Let_def require_def
      codec_simps)

sublocale json_lib \<subseteq> Resources: codec J "put_vector J (Resource_to_json J)" "get_vector J (Resource_from_json J)"
    "list_all (Resource_wf J)"
  by (rule vector_codec) (rule Resource.codec_axioms)

record 'j ResourceTemplate =
  rt_uri_template :: string
  rt_name :: string
  rt_title :: "string option"
  rt_description :: "string option"
  rt_mime_type :: "string option"
  rt_annotations :: "Annotations option"
  rt_icons :: "Icon list option"
  rt_meta :: "'j option"

definition ResourceTemplate_to_json :: "'j json_ops \<Rightarrow> 'j ResourceTemplate \<Rightarrow> 'j" where
  "ResourceTemplate_to_json J r =
     (let j = j_object J;
          j = j_set J j ''uriTemplate'' (j_string J (rt_uri_template r));
          j = j_set J j ''name'' (j_string J (rt_name r));
          j = put_optional J (j_string J) ''title'' (rt_title r) j;
          j = put_optional J (j_string J) ''description'' (rt_description r) j;
          j = put_optional J (j_string J) ''mimeType'' (rt_mime_type r) j;
          j = put_optional J (Annotations_to_json J) ''annotations'' (rt_annotations r) j;
          j = put_optional J (put_vector J (Icon_to_json J)) ''icons'' (rt_icons r) j;
          j = put_optional J (\<lambda>v. v) ''_meta'' (rt_meta r) j
      in j)"

definition ResourceTemplate_from_json :: "'j json_ops \<Rightarrow> 'j \<Rightarrow> 'j exc + 'j ResourceTemplate" where
  "ResourceTemplate_from_json J j =
     ebind (require J (get_str J) j ''uriTemplate'') (\<lambda>rt_uri_template'.
     ebind (require J (get_str J) j ''name'') (\<lambda>rt_name'.
     ebind (take_optional J (get_str J) j ''title'') (\<lambda>rt_title'.
     ebind (take_optional J (get_str J) j ''description'') (\<lambda>rt_description'.
     ebind (take_optional J (get_str J) j ''mimeType'') (\<lambda>rt_mime_type'.
     ebind (take_optional J (Annotations_from_json J) j ''annotations'') (\<lambda>rt_annotations'.
     ebind (take_optional J (get_vector J (Icon_from_json J)) j ''icons'') (\<lambda>rt_icons'.
     ebind (take_optional_json J j ''_meta'') (\<lambda>rt_meta'.
     Inr \<lparr>rt_uri_template = rt_uri_template', rt_name = rt_name',
            rt_title = rt_title', rt_description = rt_description',
            rt_mime_type = rt_mime_type', rt_annotations = rt_annotations',
            rt_icons = rt_icons', rt_meta = rt_meta'\<rparr>))))))))"

definition ResourceTemplate_wf :: "'j json_ops \<Rightarrow> 'j ResourceTemplate \<Rightarrow> bool" where
  "ResourceTemplate_wf J r \<longleftrightarrow>
     raw_wf J (rt_meta r)"

sublocale json_lib \<subseteq> ResourceTemplate: codec J "ResourceTemplate_to_json J" "ResourceTemplate_from_json J" "ResourceTemplate_wf J"
  by unfold_locales
    (simp_all add: ResourceTemplate_to_json_def ResourceTemplate_from_json_def ResourceTemplate_wf_def Let_def require_def
      codec_simps)

sublocale json_lib \<subseteq> ResourceTemplates: codec J "put_vector J (ResourceTemplate_to_json J)" "get_vector J (ResourceTemplate_from_json J)"
    "list_all (ResourceTemplate_wf J)"
  by (rule vector_codec) (rule ResourceTemplate.codec_axioms)

record 'j ResourceLink =
  rl_uri :: string
  rl_name :: string
  rl_title :: "string option"
  rl_description :: "string option"
  rl_mime_type :: "string option"
  rl_annotations :: "Annotations option"
  rl_size :: "int64 option"
  rl_icons :: "Icon list option"
  rl_meta :: "'j option"

definition ResourceLink_to_json :: "'j json_ops \<Rightarrow> 'j ResourceLink \<Rightarrow> 'j" where
  "ResourceLink_to_json J c =
     (let j = j_object J;
          j = j_set J j ''type'' (j_string J ''resource_link'');
          j = j_set J j ''uri'' (j_string J (rl_uri c));
          j = j_set J j ''name'' (j_string J (rl_name c));
          j = put_optional J (j_string J) ''title'' (rl_title c) j;
          j = put_optional J (j_string J) ''description'' (rl_description c) j;
          j = put_optional J (j_string J) ''mimeType'' (rl_mime_type c) j;
          j = put_optional J (Annotations_to_json J) ''annotations'' (rl_annotations c) j;
          j = put_optional J (j_int64 J) ''size'' (rl_size c) j;
          j = put_optional J (put_vector J (Icon_to_json J)) ''icons'' (rl_icons c) j;
          j = put_optional J (\<lambda>v. v) ''_meta'' (rl_meta c) j
      in j)"

definition ResourceLink_from_json :: "'j json_ops \<Rightarrow> 'j \<Rightarrow> 'j exc + 'j ResourceLink" where
  "ResourceLink_from_json J j =
     ebind (require J (get_str J) j ''uri'') (\<lambda>rl_uri'.
     ebind (require J (get_str J) j ''name'') (\<lambda>rl_name'.
     ebind (take_optional J (get_str J) j ''title'') (\<lambda>rl_title'.
     ebind (take_optional J (get_str J) j ''description'') (\<lambda>rl_description'.
     ebind (take_optional J (get_str J) j ''mimeType'') (\<lambda>rl_mime_type'.
     ebind (take_optional J (Annotations_from_json J) j ''annotations'') (\<lambda>rl_annotations'.
     ebind (take_optional J (get_i64 J) j ''size'') (\<lambda>rl_size'.
     ebind (take_optional J (get_vector J (Icon_from_json J)) j ''icons'') (\<lambda>rl_icons'.
     ebind (take_optional_json J j ''_meta'') (\<lambda>rl_meta'.
     Inr \<lparr>rl_uri = rl_uri', rl_name = rl_name', rl_title = rl_title',
            rl_description = rl_description', rl_mime_type = rl_mime_type',
            rl_annotations = rl_annotations', rl_size = rl_size', rl_icons = rl_icons',
            rl_meta = rl_meta'\<rparr>)))))))))"

definition ResourceLink_wf :: "'j json_ops \<Rightarrow> 'j ResourceLink \<Rightarrow> bool" where
  "ResourceLink_wf J c \<longleftrightarrow>
     raw_wf J (rl_meta c)"

sublocale json_lib \<subseteq> ResourceLink: codec J "ResourceLink_to_json J" "ResourceLink_from_json J" "ResourceLink_wf J"
  by unfold_locales
    (simp_all add: ResourceLink_to_json_def ResourceLink_from_json_def ResourceLink_wf_def Let_def require_def
      codec_simps)

context json_lib
begin

lemma ResourceLink_find [simp]:
  "j_find J (ResourceLink_to_json J c) ''type'' = Some (j_string J ''resource_link'')"
  "j_is_object J (ResourceLink_to_json J c)"
  by (simp_all add: ResourceLink_to_json_def Let_def)

end

record EmbeddedResource =
  emb_resource :: ResourceContents
  emb_annotations :: "Annotations option"

definition EmbeddedResource_to_json :: "'j json_ops \<Rightarrow> EmbeddedResource \<Rightarrow> 'j" where
  "EmbeddedResource_to_json J c =
     (let j = j_object J;
          j = j_set J j ''type'' (j_string J ''resource'');
          j = j_set J j ''resource'' (ResourceContents_to_json J (emb_resource c));
          j = put_optional J (Annotations_to_json J) ''annotations'' (emb_annotations c) j
      in j)"

definition EmbeddedResource_from_json :: "'j json_ops \<Rightarrow> 'j \<Rightarrow> 'j exc + EmbeddedResource" where
  "EmbeddedResource_from_json J j =
     ebind (at_get J (ResourceContents_from_json J) j ''resource'') (\<lambda>emb_resource'.
     ebind (take_optional J (Annotations_from_json J) j ''annotations'') (\<lambda>emb_annotations'.
     Inr \<lparr>emb_resource = emb_resource', emb_annotations = emb_annotations'\<rparr>))"

sublocale json_lib \<subseteq> EmbeddedResource: codec J "EmbeddedResource_to_json J" "EmbeddedResource_from_json J" "\<lambda>_. True"
  by unfold_locales
    (simp_all add: EmbeddedResource_to_json_def EmbeddedResource_from_json_def Let_def require_def
      codec_simps)

context json_lib
begin

lemma EmbeddedResource_find [simp]:
  "j_find J (EmbeddedResource_to_json J c) ''type'' = Some (j_string J ''resource'')"
  "j_is_object J (EmbeddedResource_to_json J c)"
  by (simp_all add: EmbeddedResource_to_json_def Let_def)

end

section \<open>Tool blocks and the tagged unions\<close>

record 'j ToolUseContent =
  tu_id :: string
  tu_name :: string
  tu_input :: "'j"
  tu_annotations :: "Annotations option"

definition ToolUseContent_to_json :: "'j json_ops \<Rightarrow> 'j ToolUseContent \<Rightarrow> 'j" where
  "ToolUseContent_to_json J c =
     (let j = j_object J;
          j = j_set J j ''type'' (j_string J ''tool_use'');
          j = j_set J j ''id'' (j_string J (tu_id c));
          j = j_set J j ''name'' (j_string J (tu_name c));
          j = j_set J j ''input'' (tu_input c);
          j = put_optional J (Annotations_to_json J) ''annotations'' (tu_annotations c) j
      in j)"

definition ToolUseContent_from_json :: "'j json_ops \<Rightarrow> 'j \<Rightarrow> 'j exc + 'j ToolUseContent" where
  "ToolUseContent_from_json J j =
     ebind (require J (get_str J) j ''id'') (\<lambda>tu_id'.
     ebind (require J (get_str J) j ''name'') (\<lambda>tu_name'.
     ebind (require J (Inr) j ''input'') (\<lambda>tu_input'.
     ebind (take_optional J (Annotations_from_json J) j ''annotations'') (\<lambda>tu_annotations'.
     Inr \<lparr>tu_id = tu_id', tu_name = tu_name', tu_input = tu_input',
            tu_annotations = tu_annotations'\<rparr>))))"

sublocale json_lib \<subseteq> ToolUseContent: codec J "ToolUseContent_to_json J" "ToolUseContent_from_json J" "\<lambda>_. True"
  by unfold_locales
    (simp_all add: ToolUseContent_to_json_def ToolUseContent_from_json_def Let_def require_def
      codec_simps)

context json_lib
begin

lemma ToolUseContent_find [simp]:
  "j_find J (ToolUseContent_to_json J c) ''type'' = Some (j_string J ''tool_use'')"
  "j_is_object J (ToolUseContent_to_json J c)"
  by (simp_all add: ToolUseContent_to_json_def Let_def)

end

datatype 'j PlainContentBlock =
    PlainTextContent TextContent
  | PlainImageContent ImageContent
  | PlainAudioContent AudioContent
  | PlainResourceLink "'j ResourceLink"
  | PlainEmbeddedResource EmbeddedResource

fun PlainContentBlock_to_json :: "'j json_ops \<Rightarrow> 'j PlainContentBlock \<Rightarrow> 'j" where
  "PlainContentBlock_to_json J (PlainTextContent c) = TextContent_to_json J c"
| "PlainContentBlock_to_json J (PlainImageContent c) = ImageContent_to_json J c"
| "PlainContentBlock_to_json J (PlainAudioContent c) = AudioContent_to_json J c"
| "PlainContentBlock_to_json J (PlainResourceLink c) = ResourceLink_to_json J c"
| "PlainContentBlock_to_json J (PlainEmbeddedResource c) = EmbeddedResource_to_json J c"

definition PlainContentBlock_from_json :: "'j json_ops \<Rightarrow> 'j \<Rightarrow> 'j exc + 'j PlainContentBlock" where
  "PlainContentBlock_from_json J j =
     ebind (require J (get_str J) j ''type'') (\<lambda>t.
       if t = ''text'' then emap PlainTextContent (TextContent_from_json J j)
       else if t = ''image'' then emap PlainImageContent (ImageContent_from_json J j)
       else if t = ''audio'' then emap PlainAudioContent (AudioContent_from_json J j)
       else if t = ''resource_link'' then emap PlainResourceLink (ResourceLink_from_json J j)
       else if t = ''resource'' then emap PlainEmbeddedResource (EmbeddedResource_from_json J j)
       else Inl (Error J parse_error (''plain content block must not be \"'' @ t @ ''\"'')))"

fun PlainContentBlock_wf :: "'j json_ops \<Rightarrow> 'j PlainContentBlock \<Rightarrow> bool" where
  "PlainContentBlock_wf J (PlainTextContent c) \<longleftrightarrow> True"
| "PlainContentBlock_wf J (PlainImageContent c) \<longleftrightarrow> True"
| "PlainContentBlock_wf J (PlainAudioContent c) \<longleftrightarrow> True"
| "PlainContentBlock_wf J (PlainResourceLink c) \<longleftrightarrow> ResourceLink_wf J c"
| "PlainContentBlock_wf J (PlainEmbeddedResource c) \<longleftrightarrow> True"

sublocale json_lib \<subseteq> PlainContentBlock:
  codec J "PlainContentBlock_to_json J" "PlainContentBlock_from_json J" "PlainContentBlock_wf J"
proof
  fix c
  assume wf: "PlainContentBlock_wf J c"
  then show "PlainContentBlock_from_json J (PlainContentBlock_to_json J c) = Inr c"
    by (cases c) (simp_all add: PlainContentBlock_from_json_def require_def)
  show "\<not> j_is_null J (PlainContentBlock_to_json J c)"
    using wf by (cases c) simp_all
qed

sublocale json_lib \<subseteq> PlainContentBlocks: codec J "put_vector J (PlainContentBlock_to_json J)" "get_vector J (PlainContentBlock_from_json J)"
    "list_all (PlainContentBlock_wf J)"
  by (rule vector_codec) (rule PlainContentBlock.codec_axioms)

record 'j ToolResultContent =
  tr_tool_use_id :: string
  tr_content :: "'j PlainContentBlock list"
  tr_is_error :: "bool option"
  tr_annotations :: "Annotations option"

definition ToolResultContent_to_json :: "'j json_ops \<Rightarrow> 'j ToolResultContent \<Rightarrow> 'j" where
  "ToolResultContent_to_json J c =
     (let j = j_object J;
          j = j_set J j ''type'' (j_string J ''tool_result'');
          j = j_set J j ''toolUseId'' (j_string J (tr_tool_use_id c));
          j = j_set J j ''content'' (put_vector J (PlainContentBlock_to_json J) (tr_content c));
          j = put_optional J (j_bool J) ''isError'' (tr_is_error c) j;
          j = put_optional J (Annotations_to_json J) ''annotations'' (tr_annotations c) j
      in j)"

definition ToolResultContent_from_json :: "'j json_ops \<Rightarrow> 'j \<Rightarrow> 'j exc + 'j ToolResultContent" where
  "ToolResultContent_from_json J j =
     ebind (require J (get_str J) j ''toolUseId'') (\<lambda>tr_tool_use_id'.
     ebind (at_get J (get_vector J (PlainContentBlock_from_json J)) j ''content'') (\<lambda>tr_content'.
     ebind (take_optional J (get_boolean J) j ''isError'') (\<lambda>tr_is_error'.
     ebind (take_optional J (Annotations_from_json J) j ''annotations'') (\<lambda>tr_annotations'.
     Inr \<lparr>tr_tool_use_id = tr_tool_use_id', tr_content = tr_content',
            tr_is_error = tr_is_error', tr_annotations = tr_annotations'\<rparr>))))"

definition ToolResultContent_wf :: "'j json_ops \<Rightarrow> 'j ToolResultContent \<Rightarrow> bool" where
  "ToolResultContent_wf J c \<longleftrightarrow>
     list_all (PlainContentBlock_wf J) (tr_content c)"

sublocale json_lib \<subseteq> ToolResultContent: codec J "ToolResultContent_to_json J" "ToolResultContent_from_json J" "ToolResultContent_wf J"
  by unfold_locales
    (simp_all add: ToolResultContent_to_json_def ToolResultContent_from_json_def ToolResultContent_wf_def Let_def require_def
      codec_simps)

context json_lib
begin

lemma ToolResultContent_find [simp]:
  "j_find J (ToolResultContent_to_json J c) ''type'' = Some (j_string J ''tool_result'')"
  "j_is_object J (ToolResultContent_to_json J c)"
  by (simp_all add: ToolResultContent_to_json_def Let_def)

end

datatype 'j ContentBlock =
    BlockTextContent TextContent
  | BlockImageContent ImageContent
  | BlockAudioContent AudioContent
  | BlockResourceLink "'j ResourceLink"
  | BlockEmbeddedResource EmbeddedResource
  | BlockToolUse "'j ToolUseContent"
  | BlockToolResult "'j ToolResultContent"

fun ContentBlock_to_json :: "'j json_ops \<Rightarrow> 'j ContentBlock \<Rightarrow> 'j" where
  "ContentBlock_to_json J (BlockTextContent c) = TextContent_to_json J c"
| "ContentBlock_to_json J (BlockImageContent c) = ImageContent_to_json J c"
| "ContentBlock_to_json J (BlockAudioContent c) = AudioContent_to_json J c"
| "ContentBlock_to_json J (BlockResourceLink c) = ResourceLink_to_json J c"
| "ContentBlock_to_json J (BlockEmbeddedResource c) = EmbeddedResource_to_json J c"
| "ContentBlock_to_json J (BlockToolUse c) = ToolUseContent_to_json J c"
| "ContentBlock_to_json J (BlockToolResult c) = ToolResultContent_to_json J c"

definition ContentBlock_from_json :: "'j json_ops \<Rightarrow> 'j \<Rightarrow> 'j exc + 'j ContentBlock" where
  "ContentBlock_from_json J j =
     ebind (require J (get_str J) j ''type'') (\<lambda>t.
       if t = ''text'' then emap BlockTextContent (TextContent_from_json J j)
       else if t = ''image'' then emap BlockImageContent (ImageContent_from_json J j)
       else if t = ''audio'' then emap BlockAudioContent (AudioContent_from_json J j)
       else if t = ''resource_link'' then emap BlockResourceLink (ResourceLink_from_json J j)
       else if t = ''resource'' then emap BlockEmbeddedResource (EmbeddedResource_from_json J j)
       else if t = ''tool_use'' then emap BlockToolUse (ToolUseContent_from_json J j)
       else if t = ''tool_result'' then emap BlockToolResult (ToolResultContent_from_json J j)
       else Inl (Error J parse_error (''unknown content block type: '' @ t)))"

fun ContentBlock_wf :: "'j json_ops \<Rightarrow> 'j ContentBlock \<Rightarrow> bool" where
  "ContentBlock_wf J (BlockTextContent c) \<longleftrightarrow> True"
| "ContentBlock_wf J (BlockImageContent c) \<longleftrightarrow> True"
| "ContentBlock_wf J (BlockAudioContent c) \<longleftrightarrow> True"
| "ContentBlock_wf J (BlockResourceLink c) \<longleftrightarrow> ResourceLink_wf J c"
| "ContentBlock_wf J (BlockEmbeddedResource c) \<longleftrightarrow> True"
| "ContentBlock_wf J (BlockToolUse c) \<longleftrightarrow> True"
| "ContentBlock_wf J (BlockToolResult c) \<longleftrightarrow> ToolResultContent_wf J c"

sublocale json_lib \<subseteq> ContentBlock:
  codec J "ContentBlock_to_json J" "ContentBlock_from_json J" "ContentBlock_wf J"
proof
  fix c
  assume wf: "ContentBlock_wf J c"
  then show "ContentBlock_from_json J (ContentBlock_to_json J c) = Inr c"
    by (cases c) (simp_all add: ContentBlock_from_json_def require_def)
  show "\<not> j_is_null J (ContentBlock_to_json J c)"
    using wf by (cases c) simp_all
qed

sublocale json_lib \<subseteq> ContentBlocks: codec J "put_vector J (ContentBlock_to_json J)" "get_vector J (ContentBlock_from_json J)"
    "list_all (ContentBlock_wf J)"
  by (rule vector_codec) (rule ContentBlock.codec_axioms)

end
