(* ===== verification/Proto_Tools.thy ===== *)
theory Proto_Tools
  imports Proto_Content
begin

text \<open>
  Tools: annotations, the per-tool execution policy, the tool descriptor, the \<open>tools/list\<close> and
  \<open>tools/call\<close> parameters and results, and the \<open>Task\<close> structs of task-augmented calls.
\<close>

section \<open>Tool descriptors\<close>

record ToolAnnotations =
  ta_title :: "string option"
  ta_read_only_hint :: "bool option"
  ta_destructive_hint :: "bool option"
  ta_idempotent_hint :: "bool option"
  ta_open_world_hint :: "bool option"

definition ToolAnnotations_to_json :: "'j json_ops \<Rightarrow> ToolAnnotations \<Rightarrow> 'j" where
  "ToolAnnotations_to_json J a =
     (let j = j_object J;
          j = put_optional J (j_string J) ''title'' (ta_title a) j;
          j = put_optional J (j_bool J) ''readOnlyHint'' (ta_read_only_hint a) j;
          j = put_optional J (j_bool J) ''destructiveHint'' (ta_destructive_hint a) j;
          j = put_optional J (j_bool J) ''idempotentHint'' (ta_idempotent_hint a) j;
          j = put_optional J (j_bool J) ''openWorldHint'' (ta_open_world_hint a) j
      in j)"

definition ToolAnnotations_from_json :: "'j json_ops \<Rightarrow> 'j \<Rightarrow> 'j exc + ToolAnnotations" where
  "ToolAnnotations_from_json J j =
     ebind (take_optional J (get_str J) j ''title'') (\<lambda>ta_title'.
     ebind (take_optional J (get_boolean J) j ''readOnlyHint'') (\<lambda>ta_read_only_hint'.
     ebind (take_optional J (get_boolean J) j ''destructiveHint'') (\<lambda>ta_destructive_hint'.
     ebind (take_optional J (get_boolean J) j ''idempotentHint'') (\<lambda>ta_idempotent_hint'.
     ebind (take_optional J (get_boolean J) j ''openWorldHint'') (\<lambda>ta_open_world_hint'.
     Inr \<lparr>ta_title = ta_title', ta_read_only_hint = ta_read_only_hint',
            ta_destructive_hint = ta_destructive_hint',
            ta_idempotent_hint = ta_idempotent_hint',
            ta_open_world_hint = ta_open_world_hint'\<rparr>)))))"

sublocale json_lib \<subseteq> ToolAnnotations: codec J "ToolAnnotations_to_json J" "ToolAnnotations_from_json J" "\<lambda>_. True"
  by unfold_locales
    (simp_all add: ToolAnnotations_to_json_def ToolAnnotations_from_json_def Let_def require_def
      codec_simps)

datatype TaskSupport = Support_forbidden | Support_optional | Support_required

fun TaskSupport_to_string :: "TaskSupport \<Rightarrow> string" where
  "TaskSupport_to_string Support_forbidden = ''forbidden''"
| "TaskSupport_to_string Support_optional = ''optional''"
| "TaskSupport_to_string Support_required = ''required''"

definition TaskSupport_to_json :: "'j json_ops \<Rightarrow> TaskSupport \<Rightarrow> 'j" where
  "TaskSupport_to_json J x = j_string J (TaskSupport_to_string x)"

definition TaskSupport_from_json :: "'j json_ops \<Rightarrow> 'j \<Rightarrow> 'j exc + TaskSupport" where
  "TaskSupport_from_json J j =
     ebind (get_str J j) (\<lambda>s.
       if s = ''forbidden'' then Inr Support_forbidden
       else if s = ''optional'' then Inr Support_optional
       else if s = ''required'' then Inr Support_required
       else Inl (Error J invalid_params (''tool execution: unknown taskSupport \"'' @ s @ ''\"'')))"

sublocale json_lib \<subseteq> TaskSupport: codec J "TaskSupport_to_json J" "TaskSupport_from_json J" "\<lambda>_. True"
proof
  fix x
  show "TaskSupport_from_json J (TaskSupport_to_json J x) = Inr x"
    by (cases x) (simp_all add: TaskSupport_to_json_def TaskSupport_from_json_def)
qed (simp add: TaskSupport_to_json_def)

record ToolExecution =
  te_task_support :: TaskSupport

definition ToolExecution_to_json :: "'j json_ops \<Rightarrow> ToolExecution \<Rightarrow> 'j" where
  "ToolExecution_to_json J e =
     (let j = j_object J;
          j = j_set J j ''taskSupport'' (TaskSupport_to_json J (te_task_support e))
      in j)"

definition ToolExecution_from_json :: "'j json_ops \<Rightarrow> 'j \<Rightarrow> 'j exc + ToolExecution" where
  "ToolExecution_from_json J j =
     (case j_find J j ''taskSupport'' of
        Some v \<Rightarrow> ebind (TaskSupport_from_json J v) (\<lambda>t. Inr \<lparr>te_task_support = t\<rparr>)
      | None \<Rightarrow> Inr \<lparr>te_task_support = Support_optional\<rparr>)"

sublocale json_lib \<subseteq> ToolExecution: codec J "ToolExecution_to_json J" "ToolExecution_from_json J" "\<lambda>_. True"
  by unfold_locales
    (simp_all add: ToolExecution_to_json_def ToolExecution_from_json_def Let_def require_def
      codec_simps)

record 'j Tool =
  tool_name :: string
  tool_title :: "string option"
  tool_description :: "string option"
  tool_input_schema :: "'j"
  tool_output_schema :: "'j option"
  tool_annotations :: "ToolAnnotations option"
  tool_icons :: "Icon list option"
  tool_execution :: "ToolExecution option"
  tool_meta :: "'j option"

definition Tool_to_json :: "'j json_ops \<Rightarrow> 'j Tool \<Rightarrow> 'j" where
  "Tool_to_json J t =
     (let j = j_object J;
          j = j_set J j ''name'' (j_string J (tool_name t));
          j = j_set J j ''inputSchema'' (tool_input_schema t);
          j = put_optional J (j_string J) ''title'' (tool_title t) j;
          j = put_optional J (j_string J) ''description'' (tool_description t) j;
          j = put_optional J (\<lambda>v. v) ''outputSchema'' (tool_output_schema t) j;
          j = put_optional J (ToolAnnotations_to_json J) ''annotations'' (tool_annotations t) j;
          j = put_optional J (put_vector J (Icon_to_json J)) ''icons'' (tool_icons t) j;
          j = put_optional J (ToolExecution_to_json J) ''execution'' (tool_execution t) j;
          j = put_optional J (\<lambda>v. v) ''_meta'' (tool_meta t) j
      in j)"

definition Tool_from_json :: "'j json_ops \<Rightarrow> 'j \<Rightarrow> 'j exc + 'j Tool" where
  "Tool_from_json J j =
     ebind (require J (get_str J) j ''name'') (\<lambda>tool_name'.
     ebind (require J (Inr) j ''inputSchema'') (\<lambda>tool_input_schema'.
     ebind (take_optional J (get_str J) j ''title'') (\<lambda>tool_title'.
     ebind (take_optional J (get_str J) j ''description'') (\<lambda>tool_description'.
     ebind (take_optional_json J j ''outputSchema'') (\<lambda>tool_output_schema'.
     ebind (take_optional J (ToolAnnotations_from_json J) j ''annotations'') (\<lambda>tool_annotations'.
     ebind (take_optional J (get_vector J (Icon_from_json J)) j ''icons'') (\<lambda>tool_icons'.
     ebind (take_optional J (ToolExecution_from_json J) j ''execution'') (\<lambda>tool_execution'.
     ebind (take_optional_json J j ''_meta'') (\<lambda>tool_meta'.
     Inr \<lparr>tool_name = tool_name', tool_title = tool_title',
            tool_description = tool_description', tool_input_schema = tool_input_schema',
            tool_output_schema = tool_output_schema', tool_annotations = tool_annotations',
            tool_icons = tool_icons', tool_execution = tool_execution',
            tool_meta = tool_meta'\<rparr>)))))))))"

definition Tool_wf :: "'j json_ops \<Rightarrow> 'j Tool \<Rightarrow> bool" where
  "Tool_wf J t \<longleftrightarrow>
     raw_wf J (tool_output_schema t) \<and>
     raw_wf J (tool_meta t)"

sublocale json_lib \<subseteq> Tool: codec J "Tool_to_json J" "Tool_from_json J" "Tool_wf J"
  by unfold_locales
    (simp_all add: Tool_to_json_def Tool_from_json_def Tool_wf_def Let_def require_def
      codec_simps)

sublocale json_lib \<subseteq> Tools: codec J "put_vector J (Tool_to_json J)" "get_vector J (Tool_from_json J)"
    "list_all (Tool_wf J)"
  by (rule vector_codec) (rule Tool.codec_axioms)

section \<open>Listing and calling tools\<close>

record ListToolsRequestParams =
  ltp_cursor :: "string option"

definition ListToolsRequestParams_to_json :: "'j json_ops \<Rightarrow> ListToolsRequestParams \<Rightarrow> 'j" where
  "ListToolsRequestParams_to_json J p =
     (let j = j_object J;
          j = put_optional J (j_string J) ''cursor'' (ltp_cursor p) j
      in j)"

definition ListToolsRequestParams_from_json :: "'j json_ops \<Rightarrow> 'j \<Rightarrow> 'j exc + ListToolsRequestParams" where
  "ListToolsRequestParams_from_json J j =
     ebind (take_optional J (get_str J) j ''cursor'') (\<lambda>ltp_cursor'.
     Inr \<lparr>ltp_cursor = ltp_cursor'\<rparr>)"

sublocale json_lib \<subseteq> ListToolsRequestParams: codec J "ListToolsRequestParams_to_json J" "ListToolsRequestParams_from_json J" "\<lambda>_. True"
  by unfold_locales
    (simp_all add: ListToolsRequestParams_to_json_def ListToolsRequestParams_from_json_def Let_def require_def
      codec_simps)

record 'j ListToolsResult =
  ltr_tools :: "'j Tool list"
  ltr_next_cursor :: "string option"
  ltr_meta :: "'j option"

definition ListToolsResult_to_json :: "'j json_ops \<Rightarrow> 'j ListToolsResult \<Rightarrow> 'j" where
  "ListToolsResult_to_json J r =
     (let j = j_object J;
          j = j_set J j ''tools'' (put_vector J (Tool_to_json J) (ltr_tools r));
          j = put_optional J (j_string J) ''nextCursor'' (ltr_next_cursor r) j;
          j = put_optional J (\<lambda>v. v) ''_meta'' (ltr_meta r) j
      in j)"

definition ListToolsResult_from_json :: "'j json_ops \<Rightarrow> 'j \<Rightarrow> 'j exc + 'j ListToolsResult" where
  "ListToolsResult_from_json J j =
     ebind (at_get J (get_vector J (Tool_from_json J)) j ''tools'') (\<lambda>ltr_tools'.
     ebind (take_optional J (get_str J) j ''nextCursor'') (\<lambda>ltr_next_cursor'.
     ebind (take_optional_json J j ''_meta'') (\<lambda>ltr_meta'.
     Inr \<lparr>ltr_tools = ltr_tools', ltr_next_cursor = ltr_next_cursor',
            ltr_meta = ltr_meta'\<rparr>)))"

definition ListToolsResult_wf :: "'j json_ops \<Rightarrow> 'j ListToolsResult \<Rightarrow> bool" where
  "ListToolsResult_wf J r \<longleftrightarrow>
     list_all (Tool_wf J) (ltr_tools r) \<and>
     raw_wf J (ltr_meta r)"

sublocale json_lib \<subseteq> ListToolsResult: codec J "ListToolsResult_to_json J" "ListToolsResult_from_json J" "ListToolsResult_wf J"
  by unfold_locales
    (simp_all add: ListToolsResult_to_json_def ListToolsResult_from_json_def ListToolsResult_wf_def Let_def require_def
      codec_simps)

record 'j CallToolRequestParams =
  ctp_name :: string
  ctp_arguments :: "'j option"
  ctp_task :: "TaskAugmentation option"

definition CallToolRequestParams_to_json :: "'j json_ops \<Rightarrow> 'j CallToolRequestParams \<Rightarrow> 'j" where
  "CallToolRequestParams_to_json J p =
     (let j = j_object J;
          j = j_set J j ''name'' (j_string J (ctp_name p));
          j = put_optional J (\<lambda>v. v) ''arguments'' (ctp_arguments p) j;
          j = put_optional J (TaskAugmentation_to_json J) ''task'' (ctp_task p) j
      in j)"

definition CallToolRequestParams_from_json :: "'j json_ops \<Rightarrow> 'j \<Rightarrow> 'j exc + 'j CallToolRequestParams" where
  "CallToolRequestParams_from_json J j =
     ebind (require J (get_str J) j ''name'') (\<lambda>ctp_name'.
     ebind (take_optional_json J j ''arguments'') (\<lambda>ctp_arguments'.
     ebind (take_optional J (TaskAugmentation_from_json J) j ''task'') (\<lambda>ctp_task'.
     Inr \<lparr>ctp_name = ctp_name', ctp_arguments = ctp_arguments', ctp_task = ctp_task'\<rparr>)))"

definition CallToolRequestParams_wf :: "'j json_ops \<Rightarrow> 'j CallToolRequestParams \<Rightarrow> bool" where
  "CallToolRequestParams_wf J p \<longleftrightarrow>
     raw_wf J (ctp_arguments p)"

sublocale json_lib \<subseteq> CallToolRequestParams: codec J "CallToolRequestParams_to_json J" "CallToolRequestParams_from_json J" "CallToolRequestParams_wf J"
  by unfold_locales
    (simp_all add: CallToolRequestParams_to_json_def CallToolRequestParams_from_json_def CallToolRequestParams_wf_def Let_def require_def
      codec_simps)

record 'j CallToolResult =
  ctr_content :: "'j ContentBlock list"
  ctr_structured_content :: "'j option"
  ctr_is_error :: "bool option"
  ctr_meta :: "'j option"

definition CallToolResult_to_json :: "'j json_ops \<Rightarrow> 'j CallToolResult \<Rightarrow> 'j" where
  "CallToolResult_to_json J r =
     (let j = j_object J;
          j = j_set J j ''content'' (put_vector J (ContentBlock_to_json J) (ctr_content r));
          j = put_optional J (\<lambda>v. v) ''structuredContent'' (ctr_structured_content r) j;
          j = put_optional J (j_bool J) ''isError'' (ctr_is_error r) j;
          j = put_optional J (\<lambda>v. v) ''_meta'' (ctr_meta r) j
      in j)"

definition CallToolResult_from_json :: "'j json_ops \<Rightarrow> 'j \<Rightarrow> 'j exc + 'j CallToolResult" where
  "CallToolResult_from_json J j =
     ebind (at_get J (get_vector J (ContentBlock_from_json J)) j ''content'') (\<lambda>ctr_content'.
     ebind (take_optional_json J j ''structuredContent'') (\<lambda>ctr_structured_content'.
     ebind (take_optional J (get_boolean J) j ''isError'') (\<lambda>ctr_is_error'.
     ebind (take_optional_json J j ''_meta'') (\<lambda>ctr_meta'.
     Inr \<lparr>ctr_content = ctr_content',
            ctr_structured_content = ctr_structured_content', ctr_is_error = ctr_is_error',
            ctr_meta = ctr_meta'\<rparr>))))"

definition CallToolResult_wf :: "'j json_ops \<Rightarrow> 'j CallToolResult \<Rightarrow> bool" where
  "CallToolResult_wf J r \<longleftrightarrow>
     list_all (ContentBlock_wf J) (ctr_content r) \<and>
     raw_wf J (ctr_structured_content r) \<and>
     raw_wf J (ctr_meta r)"

sublocale json_lib \<subseteq> CallToolResult: codec J "CallToolResult_to_json J" "CallToolResult_from_json J" "CallToolResult_wf J"
  by unfold_locales
    (simp_all add: CallToolResult_to_json_def CallToolResult_from_json_def CallToolResult_wf_def Let_def require_def
      codec_simps)

section \<open>Tasks\<close>

datatype TaskStatus = Task_working | Task_input_required | Task_completed | Task_failed | Task_cancelled

fun TaskStatus_to_string :: "TaskStatus \<Rightarrow> string" where
  "TaskStatus_to_string Task_working = ''working''"
| "TaskStatus_to_string Task_input_required = ''input_required''"
| "TaskStatus_to_string Task_completed = ''completed''"
| "TaskStatus_to_string Task_failed = ''failed''"
| "TaskStatus_to_string Task_cancelled = ''cancelled''"

definition TaskStatus_to_json :: "'j json_ops \<Rightarrow> TaskStatus \<Rightarrow> 'j" where
  "TaskStatus_to_json J x = j_string J (TaskStatus_to_string x)"

definition TaskStatus_from_json :: "'j json_ops \<Rightarrow> 'j \<Rightarrow> 'j exc + TaskStatus" where
  "TaskStatus_from_json J j =
     ebind (get_str J j) (\<lambda>s.
       if s = ''working'' then Inr Task_working
       else if s = ''input_required'' then Inr Task_input_required
       else if s = ''completed'' then Inr Task_completed
       else if s = ''failed'' then Inr Task_failed
       else if s = ''cancelled'' then Inr Task_cancelled
       else Inl (Error J invalid_params (''task: unknown status \"'' @ s @ ''\"'')))"

sublocale json_lib \<subseteq> TaskStatus: codec J "TaskStatus_to_json J" "TaskStatus_from_json J" "\<lambda>_. True"
proof
  fix x
  show "TaskStatus_from_json J (TaskStatus_to_json J x) = Inr x"
    by (cases x) (simp_all add: TaskStatus_to_json_def TaskStatus_from_json_def)
qed (simp add: TaskStatus_to_json_def)

record Task =
  task_taskId :: string
  task_status :: TaskStatus
  task_status_message :: "string option"
  task_created_at :: string
  task_last_updated_at :: string
  task_ttl :: "int64 option"
  task_poll_interval :: "int64 option"

definition Task_to_json :: "'j json_ops \<Rightarrow> Task \<Rightarrow> 'j" where
  "Task_to_json J t =
     (let j = j_object J;
          j = j_set J j ''taskId'' (j_string J (task_taskId t));
          j = j_set J j ''status'' (TaskStatus_to_json J (task_status t));
          j = j_set J j ''createdAt'' (j_string J (task_created_at t));
          j = j_set J j ''lastUpdatedAt'' (j_string J (task_last_updated_at t));
          j = put_optional J (j_string J) ''statusMessage'' (task_status_message t) j;
          j = put_optional J (j_int64 J) ''ttl'' (task_ttl t) j;
          j = put_optional J (j_int64 J) ''pollInterval'' (task_poll_interval t) j
      in j)"

definition Task_from_json :: "'j json_ops \<Rightarrow> 'j \<Rightarrow> 'j exc + Task" where
  "Task_from_json J j =
     ebind (require J (get_str J) j ''taskId'') (\<lambda>task_taskId'.
     ebind (at_get J (TaskStatus_from_json J) j ''status'') (\<lambda>task_status'.
     ebind (require J (get_str J) j ''createdAt'') (\<lambda>task_created_at'.
     ebind (require J (get_str J) j ''lastUpdatedAt'') (\<lambda>task_last_updated_at'.
     ebind (take_optional J (get_str J) j ''statusMessage'') (\<lambda>task_status_message'.
     ebind (take_optional J (get_i64 J) j ''ttl'') (\<lambda>task_ttl'.
     ebind (take_optional J (get_i64 J) j ''pollInterval'') (\<lambda>task_poll_interval'.
     Inr \<lparr>task_taskId = task_taskId', task_status = task_status',
            task_status_message = task_status_message', task_created_at = task_created_at',
            task_last_updated_at = task_last_updated_at', task_ttl = task_ttl',
            task_poll_interval = task_poll_interval'\<rparr>)))))))"

sublocale json_lib \<subseteq> Task: codec J "Task_to_json J" "Task_from_json J" "\<lambda>_. True"
  by unfold_locales
    (simp_all add: Task_to_json_def Task_from_json_def Let_def require_def
      codec_simps)

sublocale json_lib \<subseteq> TaskList: codec J "put_vector J (Task_to_json J)" "get_vector J (Task_from_json J)"
    "list_all (\<lambda>_. True)"
  by (rule vector_codec) (rule Task.codec_axioms)

record CreateTaskResult =
  ctres_task :: Task

definition CreateTaskResult_to_json :: "'j json_ops \<Rightarrow> CreateTaskResult \<Rightarrow> 'j" where
  "CreateTaskResult_to_json J r =
     (let j = j_object J;
          j = j_set J j ''task'' (Task_to_json J (ctres_task r))
      in j)"

definition CreateTaskResult_from_json :: "'j json_ops \<Rightarrow> 'j \<Rightarrow> 'j exc + CreateTaskResult" where
  "CreateTaskResult_from_json J j =
     ebind (at_get J (Task_from_json J) j ''task'') (\<lambda>ctres_task'.
     Inr \<lparr>ctres_task = ctres_task'\<rparr>)"

sublocale json_lib \<subseteq> CreateTaskResult: codec J "CreateTaskResult_to_json J" "CreateTaskResult_from_json J" "\<lambda>_. True"
  by unfold_locales
    (simp_all add: CreateTaskResult_to_json_def CreateTaskResult_from_json_def Let_def require_def
      codec_simps)

record GetTaskRequestParams =
  gtp_task_id :: string

definition GetTaskRequestParams_to_json :: "'j json_ops \<Rightarrow> GetTaskRequestParams \<Rightarrow> 'j" where
  "GetTaskRequestParams_to_json J p =
     (let j = j_object J;
          j = j_set J j ''taskId'' (j_string J (gtp_task_id p))
      in j)"

definition GetTaskRequestParams_from_json :: "'j json_ops \<Rightarrow> 'j \<Rightarrow> 'j exc + GetTaskRequestParams" where
  "GetTaskRequestParams_from_json J j =
     ebind (require J (get_str J) j ''taskId'') (\<lambda>gtp_task_id'.
     Inr \<lparr>gtp_task_id = gtp_task_id'\<rparr>)"

sublocale json_lib \<subseteq> GetTaskRequestParams: codec J "GetTaskRequestParams_to_json J" "GetTaskRequestParams_from_json J" "\<lambda>_. True"
  by unfold_locales
    (simp_all add: GetTaskRequestParams_to_json_def GetTaskRequestParams_from_json_def Let_def require_def
      codec_simps)

record GetTaskResultRequestParams =
  gtrp_task_id :: string

definition GetTaskResultRequestParams_to_json :: "'j json_ops \<Rightarrow> GetTaskResultRequestParams \<Rightarrow> 'j" where
  "GetTaskResultRequestParams_to_json J p =
     (let j = j_object J;
          j = j_set J j ''taskId'' (j_string J (gtrp_task_id p))
      in j)"

definition GetTaskResultRequestParams_from_json :: "'j json_ops \<Rightarrow> 'j \<Rightarrow> 'j exc + GetTaskResultRequestParams" where
  "GetTaskResultRequestParams_from_json J j =
     ebind (require J (get_str J) j ''taskId'') (\<lambda>gtrp_task_id'.
     Inr \<lparr>gtrp_task_id = gtrp_task_id'\<rparr>)"

sublocale json_lib \<subseteq> GetTaskResultRequestParams: codec J "GetTaskResultRequestParams_to_json J" "GetTaskResultRequestParams_from_json J" "\<lambda>_. True"
  by unfold_locales
    (simp_all add: GetTaskResultRequestParams_to_json_def GetTaskResultRequestParams_from_json_def Let_def require_def
      codec_simps)

record ListTasksRequestParams =
  ltkp_cursor :: "string option"

definition ListTasksRequestParams_to_json :: "'j json_ops \<Rightarrow> ListTasksRequestParams \<Rightarrow> 'j" where
  "ListTasksRequestParams_to_json J p =
     (let j = j_object J;
          j = put_optional J (j_string J) ''cursor'' (ltkp_cursor p) j
      in j)"

definition ListTasksRequestParams_from_json :: "'j json_ops \<Rightarrow> 'j \<Rightarrow> 'j exc + ListTasksRequestParams" where
  "ListTasksRequestParams_from_json J j =
     ebind (take_optional J (get_str J) j ''cursor'') (\<lambda>ltkp_cursor'.
     Inr \<lparr>ltkp_cursor = ltkp_cursor'\<rparr>)"

sublocale json_lib \<subseteq> ListTasksRequestParams: codec J "ListTasksRequestParams_to_json J" "ListTasksRequestParams_from_json J" "\<lambda>_. True"
  by unfold_locales
    (simp_all add: ListTasksRequestParams_to_json_def ListTasksRequestParams_from_json_def Let_def require_def
      codec_simps)

record ListTasksResult =
  ltkr_tasks :: "Task list"
  ltkr_next_cursor :: "string option"

definition ListTasksResult_to_json :: "'j json_ops \<Rightarrow> ListTasksResult \<Rightarrow> 'j" where
  "ListTasksResult_to_json J r =
     (let j = j_object J;
          j = j_set J j ''tasks'' (put_vector J (Task_to_json J) (ltkr_tasks r));
          j = put_optional J (j_string J) ''nextCursor'' (ltkr_next_cursor r) j
      in j)"

definition ListTasksResult_from_json :: "'j json_ops \<Rightarrow> 'j \<Rightarrow> 'j exc + ListTasksResult" where
  "ListTasksResult_from_json J j =
     ebind (at_get J (get_vector J (Task_from_json J)) j ''tasks'') (\<lambda>ltkr_tasks'.
     ebind (take_optional J (get_str J) j ''nextCursor'') (\<lambda>ltkr_next_cursor'.
     Inr \<lparr>ltkr_tasks = ltkr_tasks', ltkr_next_cursor = ltkr_next_cursor'\<rparr>))"

sublocale json_lib \<subseteq> ListTasksResult: codec J "ListTasksResult_to_json J" "ListTasksResult_from_json J" "\<lambda>_. True"
  by unfold_locales
    (simp_all add: ListTasksResult_to_json_def ListTasksResult_from_json_def Let_def require_def
      codec_simps)

record CancelTaskRequestParams =
  cktp_task_id :: string

definition CancelTaskRequestParams_to_json :: "'j json_ops \<Rightarrow> CancelTaskRequestParams \<Rightarrow> 'j" where
  "CancelTaskRequestParams_to_json J p =
     (let j = j_object J;
          j = j_set J j ''taskId'' (j_string J (cktp_task_id p))
      in j)"

definition CancelTaskRequestParams_from_json :: "'j json_ops \<Rightarrow> 'j \<Rightarrow> 'j exc + CancelTaskRequestParams" where
  "CancelTaskRequestParams_from_json J j =
     ebind (require J (get_str J) j ''taskId'') (\<lambda>cktp_task_id'.
     Inr \<lparr>cktp_task_id = cktp_task_id'\<rparr>)"

sublocale json_lib \<subseteq> CancelTaskRequestParams: codec J "CancelTaskRequestParams_to_json J" "CancelTaskRequestParams_from_json J" "\<lambda>_. True"
  by unfold_locales
    (simp_all add: CancelTaskRequestParams_to_json_def CancelTaskRequestParams_from_json_def Let_def require_def
      codec_simps)

record TaskStatusNotificationParams =
  tsn_task :: Task

definition TaskStatusNotificationParams_to_json ::
    "'j json_ops \<Rightarrow> TaskStatusNotificationParams \<Rightarrow> 'j" where
  "TaskStatusNotificationParams_to_json J p = Task_to_json J (tsn_task p)"

definition TaskStatusNotificationParams_from_json ::
    "'j json_ops \<Rightarrow> 'j \<Rightarrow> 'j exc + TaskStatusNotificationParams" where
  "TaskStatusNotificationParams_from_json J j =
     ebind (Task_from_json J j) (\<lambda>t. Inr \<lparr>tsn_task = t\<rparr>)"

sublocale json_lib \<subseteq> TaskStatusNotificationParams: codec J "TaskStatusNotificationParams_to_json J" "TaskStatusNotificationParams_from_json J" "\<lambda>_. True"
  by unfold_locales
    (simp_all add: TaskStatusNotificationParams_to_json_def TaskStatusNotificationParams_from_json_def Let_def require_def
      codec_simps)

end
