(* ===== verification/Proto_Resources.thy ===== *)
theory Proto_Resources
  imports Proto_Content
begin

text \<open>
  The parameters and results of the resource and prompt requests. An
  \<open>unordered_map<string, string>\<close> is an association list with distinct keys, in the order the
  container iterates; two such lists with the same \<open>map_of\<close> are the same map.
\<close>

section \<open>Resource requests\<close>

record ListResourcesRequestParams =
  lrp_cursor :: "string option"

definition ListResourcesRequestParams_to_json :: "'j json_ops \<Rightarrow> ListResourcesRequestParams \<Rightarrow> 'j" where
  "ListResourcesRequestParams_to_json J p =
     (let j = j_object J;
          j = put_optional J (j_string J) ''cursor'' (lrp_cursor p) j
      in j)"

definition ListResourcesRequestParams_from_json :: "'j json_ops \<Rightarrow> 'j \<Rightarrow> 'j exc + ListResourcesRequestParams" where
  "ListResourcesRequestParams_from_json J j =
     ebind (take_optional J (get_str J) j ''cursor'') (\<lambda>lrp_cursor'.
     Inr \<lparr>lrp_cursor = lrp_cursor'\<rparr>)"

sublocale json_lib \<subseteq> ListResourcesRequestParams: codec J "ListResourcesRequestParams_to_json J" "ListResourcesRequestParams_from_json J" "\<lambda>_. True"
  by unfold_locales
    (simp_all add: ListResourcesRequestParams_to_json_def ListResourcesRequestParams_from_json_def Let_def require_def
      codec_simps)

record 'j ListResourcesResult =
  lrr_resources :: "'j Resource list"
  lrr_next_cursor :: "string option"
  lrr_meta :: "'j option"

definition ListResourcesResult_to_json :: "'j json_ops \<Rightarrow> 'j ListResourcesResult \<Rightarrow> 'j" where
  "ListResourcesResult_to_json J r =
     (let j = j_object J;
          j = j_set J j ''resources'' (put_vector J (Resource_to_json J) (lrr_resources r));
          j = put_optional J (j_string J) ''nextCursor'' (lrr_next_cursor r) j;
          j = put_optional J (\<lambda>v. v) ''_meta'' (lrr_meta r) j
      in j)"

definition ListResourcesResult_from_json :: "'j json_ops \<Rightarrow> 'j \<Rightarrow> 'j exc + 'j ListResourcesResult" where
  "ListResourcesResult_from_json J j =
     ebind (at_get J (get_vector J (Resource_from_json J)) j ''resources'') (\<lambda>lrr_resources'.
     ebind (take_optional J (get_str J) j ''nextCursor'') (\<lambda>lrr_next_cursor'.
     ebind (take_optional_json J j ''_meta'') (\<lambda>lrr_meta'.
     Inr \<lparr>lrr_resources = lrr_resources', lrr_next_cursor = lrr_next_cursor',
            lrr_meta = lrr_meta'\<rparr>)))"

definition ListResourcesResult_wf :: "'j json_ops \<Rightarrow> 'j ListResourcesResult \<Rightarrow> bool" where
  "ListResourcesResult_wf J r \<longleftrightarrow>
     list_all (Resource_wf J) (lrr_resources r) \<and>
     raw_wf J (lrr_meta r)"

sublocale json_lib \<subseteq> ListResourcesResult: codec J "ListResourcesResult_to_json J" "ListResourcesResult_from_json J" "ListResourcesResult_wf J"
  by unfold_locales
    (simp_all add: ListResourcesResult_to_json_def ListResourcesResult_from_json_def ListResourcesResult_wf_def Let_def require_def
      codec_simps)

record ListResourceTemplatesRequestParams =
  lrtp_cursor :: "string option"

definition ListResourceTemplatesRequestParams_to_json :: "'j json_ops \<Rightarrow> ListResourceTemplatesRequestParams \<Rightarrow> 'j" where
  "ListResourceTemplatesRequestParams_to_json J p =
     (let j = j_object J;
          j = put_optional J (j_string J) ''cursor'' (lrtp_cursor p) j
      in j)"

definition ListResourceTemplatesRequestParams_from_json :: "'j json_ops \<Rightarrow> 'j \<Rightarrow> 'j exc + ListResourceTemplatesRequestParams" where
  "ListResourceTemplatesRequestParams_from_json J j =
     ebind (take_optional J (get_str J) j ''cursor'') (\<lambda>lrtp_cursor'.
     Inr \<lparr>lrtp_cursor = lrtp_cursor'\<rparr>)"

sublocale json_lib \<subseteq> ListResourceTemplatesRequestParams: codec J "ListResourceTemplatesRequestParams_to_json J" "ListResourceTemplatesRequestParams_from_json J" "\<lambda>_. True"
  by unfold_locales
    (simp_all add: ListResourceTemplatesRequestParams_to_json_def ListResourceTemplatesRequestParams_from_json_def Let_def require_def
      codec_simps)

record 'j ListResourceTemplatesResult =
  lrtr_resource_templates :: "'j ResourceTemplate list"
  lrtr_next_cursor :: "string option"
  lrtr_meta :: "'j option"

definition ListResourceTemplatesResult_to_json :: "'j json_ops \<Rightarrow> 'j ListResourceTemplatesResult \<Rightarrow> 'j" where
  "ListResourceTemplatesResult_to_json J r =
     (let j = j_object J;
          j = j_set J j ''resourceTemplates'' (put_vector J (ResourceTemplate_to_json J) (lrtr_resource_templates r));
          j = put_optional J (j_string J) ''nextCursor'' (lrtr_next_cursor r) j;
          j = put_optional J (\<lambda>v. v) ''_meta'' (lrtr_meta r) j
      in j)"

definition ListResourceTemplatesResult_from_json :: "'j json_ops \<Rightarrow> 'j \<Rightarrow> 'j exc + 'j ListResourceTemplatesResult" where
  "ListResourceTemplatesResult_from_json J j =
     ebind (at_get J (get_vector J (ResourceTemplate_from_json J)) j ''resourceTemplates'') (\<lambda>lrtr_resource_templates'.
     ebind (take_optional J (get_str J) j ''nextCursor'') (\<lambda>lrtr_next_cursor'.
     ebind (take_optional_json J j ''_meta'') (\<lambda>lrtr_meta'.
     Inr \<lparr>lrtr_resource_templates = lrtr_resource_templates',
            lrtr_next_cursor = lrtr_next_cursor', lrtr_meta = lrtr_meta'\<rparr>)))"

definition ListResourceTemplatesResult_wf :: "'j json_ops \<Rightarrow> 'j ListResourceTemplatesResult \<Rightarrow> bool" where
  "ListResourceTemplatesResult_wf J r \<longleftrightarrow>
     list_all (ResourceTemplate_wf J) (lrtr_resource_templates r) \<and>
     raw_wf J (lrtr_meta r)"

sublocale json_lib \<subseteq> ListResourceTemplatesResult: codec J "ListResourceTemplatesResult_to_json J" "ListResourceTemplatesResult_from_json J" "ListResourceTemplatesResult_wf J"
  by unfold_locales
    (simp_all add: ListResourceTemplatesResult_to_json_def ListResourceTemplatesResult_from_json_def ListResourceTemplatesResult_wf_def Let_def require_def
      codec_simps)

record ReadResourceRequestParams =
  rrp_uri :: string

definition ReadResourceRequestParams_to_json :: "'j json_ops \<Rightarrow> ReadResourceRequestParams \<Rightarrow> 'j" where
  "ReadResourceRequestParams_to_json J p =
     (let j = j_init J [(''uri'', j_string J (rrp_uri p))]
      in j)"

definition ReadResourceRequestParams_from_json :: "'j json_ops \<Rightarrow> 'j \<Rightarrow> 'j exc + ReadResourceRequestParams" where
  "ReadResourceRequestParams_from_json J j =
     ebind (require J (get_str J) j ''uri'') (\<lambda>rrp_uri'.
     Inr \<lparr>rrp_uri = rrp_uri'\<rparr>)"

sublocale json_lib \<subseteq> ReadResourceRequestParams: codec J "ReadResourceRequestParams_to_json J" "ReadResourceRequestParams_from_json J" "\<lambda>_. True"
  by unfold_locales
    (simp_all add: ReadResourceRequestParams_to_json_def ReadResourceRequestParams_from_json_def Let_def require_def
      codec_simps)

record 'j ReadResourceResult =
  rrr_contents :: "ResourceContents list"
  rrr_meta :: "'j option"

definition ReadResourceResult_to_json :: "'j json_ops \<Rightarrow> 'j ReadResourceResult \<Rightarrow> 'j" where
  "ReadResourceResult_to_json J r =
     (let j = j_object J;
          j = j_set J j ''contents'' (put_vector J (ResourceContents_to_json J) (rrr_contents r));
          j = put_optional J (\<lambda>v. v) ''_meta'' (rrr_meta r) j
      in j)"

definition ReadResourceResult_from_json :: "'j json_ops \<Rightarrow> 'j \<Rightarrow> 'j exc + 'j ReadResourceResult" where
  "ReadResourceResult_from_json J j =
     ebind (at_get J (get_vector J (ResourceContents_from_json J)) j ''contents'') (\<lambda>rrr_contents'.
     ebind (take_optional_json J j ''_meta'') (\<lambda>rrr_meta'.
     Inr \<lparr>rrr_contents = rrr_contents', rrr_meta = rrr_meta'\<rparr>))"

definition ReadResourceResult_wf :: "'j json_ops \<Rightarrow> 'j ReadResourceResult \<Rightarrow> bool" where
  "ReadResourceResult_wf J r \<longleftrightarrow>
     raw_wf J (rrr_meta r)"

sublocale json_lib \<subseteq> ReadResourceResult: codec J "ReadResourceResult_to_json J" "ReadResourceResult_from_json J" "ReadResourceResult_wf J"
  by unfold_locales
    (simp_all add: ReadResourceResult_to_json_def ReadResourceResult_from_json_def ReadResourceResult_wf_def Let_def require_def
      codec_simps)

record SubscribeRequestParams =
  sub_uri :: string

definition SubscribeRequestParams_to_json :: "'j json_ops \<Rightarrow> SubscribeRequestParams \<Rightarrow> 'j" where
  "SubscribeRequestParams_to_json J p =
     (let j = j_init J [(''uri'', j_string J (sub_uri p))]
      in j)"

definition SubscribeRequestParams_from_json :: "'j json_ops \<Rightarrow> 'j \<Rightarrow> 'j exc + SubscribeRequestParams" where
  "SubscribeRequestParams_from_json J j =
     ebind (require J (get_str J) j ''uri'') (\<lambda>sub_uri'.
     Inr \<lparr>sub_uri = sub_uri'\<rparr>)"

sublocale json_lib \<subseteq> SubscribeRequestParams: codec J "SubscribeRequestParams_to_json J" "SubscribeRequestParams_from_json J" "\<lambda>_. True"
  by unfold_locales
    (simp_all add: SubscribeRequestParams_to_json_def SubscribeRequestParams_from_json_def Let_def require_def
      codec_simps)

record UnsubscribeRequestParams =
  unsub_uri :: string

definition UnsubscribeRequestParams_to_json :: "'j json_ops \<Rightarrow> UnsubscribeRequestParams \<Rightarrow> 'j" where
  "UnsubscribeRequestParams_to_json J p =
     (let j = j_init J [(''uri'', j_string J (unsub_uri p))]
      in j)"

definition UnsubscribeRequestParams_from_json :: "'j json_ops \<Rightarrow> 'j \<Rightarrow> 'j exc + UnsubscribeRequestParams" where
  "UnsubscribeRequestParams_from_json J j =
     ebind (require J (get_str J) j ''uri'') (\<lambda>unsub_uri'.
     Inr \<lparr>unsub_uri = unsub_uri'\<rparr>)"

sublocale json_lib \<subseteq> UnsubscribeRequestParams: codec J "UnsubscribeRequestParams_to_json J" "UnsubscribeRequestParams_from_json J" "\<lambda>_. True"
  by unfold_locales
    (simp_all add: UnsubscribeRequestParams_to_json_def UnsubscribeRequestParams_from_json_def Let_def require_def
      codec_simps)

record ResourceUpdatedNotificationParams =
  run_uri :: string

definition ResourceUpdatedNotificationParams_to_json :: "'j json_ops \<Rightarrow> ResourceUpdatedNotificationParams \<Rightarrow> 'j" where
  "ResourceUpdatedNotificationParams_to_json J p =
     (let j = j_init J [(''uri'', j_string J (run_uri p))]
      in j)"

definition ResourceUpdatedNotificationParams_from_json :: "'j json_ops \<Rightarrow> 'j \<Rightarrow> 'j exc + ResourceUpdatedNotificationParams" where
  "ResourceUpdatedNotificationParams_from_json J j =
     ebind (require J (get_str J) j ''uri'') (\<lambda>run_uri'.
     Inr \<lparr>run_uri = run_uri'\<rparr>)"

sublocale json_lib \<subseteq> ResourceUpdatedNotificationParams: codec J "ResourceUpdatedNotificationParams_to_json J" "ResourceUpdatedNotificationParams_from_json J" "\<lambda>_. True"
  by unfold_locales
    (simp_all add: ResourceUpdatedNotificationParams_to_json_def ResourceUpdatedNotificationParams_from_json_def Let_def require_def
      codec_simps)

section \<open>Prompts\<close>

record PromptArgument =
  pa_name :: string
  pa_title :: "string option"
  pa_description :: "string option"
  pa_required :: "bool option"

definition PromptArgument_to_json :: "'j json_ops \<Rightarrow> PromptArgument \<Rightarrow> 'j" where
  "PromptArgument_to_json J a =
     (let j = j_object J;
          j = j_set J j ''name'' (j_string J (pa_name a));
          j = put_optional J (j_string J) ''title'' (pa_title a) j;
          j = put_optional J (j_string J) ''description'' (pa_description a) j;
          j = put_optional J (j_bool J) ''required'' (pa_required a) j
      in j)"

definition PromptArgument_from_json :: "'j json_ops \<Rightarrow> 'j \<Rightarrow> 'j exc + PromptArgument" where
  "PromptArgument_from_json J j =
     ebind (require J (get_str J) j ''name'') (\<lambda>pa_name'.
     ebind (take_optional J (get_str J) j ''title'') (\<lambda>pa_title'.
     ebind (take_optional J (get_str J) j ''description'') (\<lambda>pa_description'.
     ebind (take_optional J (get_boolean J) j ''required'') (\<lambda>pa_required'.
     Inr \<lparr>pa_name = pa_name', pa_title = pa_title', pa_description = pa_description',
            pa_required = pa_required'\<rparr>))))"

sublocale json_lib \<subseteq> PromptArgument: codec J "PromptArgument_to_json J" "PromptArgument_from_json J" "\<lambda>_. True"
  by unfold_locales
    (simp_all add: PromptArgument_to_json_def PromptArgument_from_json_def Let_def require_def
      codec_simps)

sublocale json_lib \<subseteq> PromptArguments: codec J "put_vector J (PromptArgument_to_json J)" "get_vector J (PromptArgument_from_json J)"
    "list_all (\<lambda>_. True)"
  by (rule vector_codec) (rule PromptArgument.codec_axioms)

record 'j Prompt =
  prompt_name :: string
  prompt_title :: "string option"
  prompt_description :: "string option"
  prompt_arguments :: "PromptArgument list option"
  prompt_icons :: "Icon list option"
  prompt_meta :: "'j option"

definition Prompt_to_json :: "'j json_ops \<Rightarrow> 'j Prompt \<Rightarrow> 'j" where
  "Prompt_to_json J p =
     (let j = j_object J;
          j = j_set J j ''name'' (j_string J (prompt_name p));
          j = put_optional J (j_string J) ''title'' (prompt_title p) j;
          j = put_optional J (j_string J) ''description'' (prompt_description p) j;
          j = put_optional J (put_vector J (PromptArgument_to_json J)) ''arguments'' (prompt_arguments p) j;
          j = put_optional J (put_vector J (Icon_to_json J)) ''icons'' (prompt_icons p) j;
          j = put_optional J (\<lambda>v. v) ''_meta'' (prompt_meta p) j
      in j)"

definition Prompt_from_json :: "'j json_ops \<Rightarrow> 'j \<Rightarrow> 'j exc + 'j Prompt" where
  "Prompt_from_json J j =
     ebind (require J (get_str J) j ''name'') (\<lambda>prompt_name'.
     ebind (take_optional J (get_str J) j ''title'') (\<lambda>prompt_title'.
     ebind (take_optional J (get_str J) j ''description'') (\<lambda>prompt_description'.
     ebind (take_optional J (get_vector J (PromptArgument_from_json J)) j ''arguments'') (\<lambda>prompt_arguments'.
     ebind (take_optional J (get_vector J (Icon_from_json J)) j ''icons'') (\<lambda>prompt_icons'.
     ebind (take_optional_json J j ''_meta'') (\<lambda>prompt_meta'.
     Inr \<lparr>prompt_name = prompt_name', prompt_title = prompt_title',
            prompt_description = prompt_description', prompt_arguments = prompt_arguments',
            prompt_icons = prompt_icons', prompt_meta = prompt_meta'\<rparr>))))))"

definition Prompt_wf :: "'j json_ops \<Rightarrow> 'j Prompt \<Rightarrow> bool" where
  "Prompt_wf J p \<longleftrightarrow>
     raw_wf J (prompt_meta p)"

sublocale json_lib \<subseteq> Prompt: codec J "Prompt_to_json J" "Prompt_from_json J" "Prompt_wf J"
  by unfold_locales
    (simp_all add: Prompt_to_json_def Prompt_from_json_def Prompt_wf_def Let_def require_def
      codec_simps)

sublocale json_lib \<subseteq> Prompts: codec J "put_vector J (Prompt_to_json J)" "get_vector J (Prompt_from_json J)"
    "list_all (Prompt_wf J)"
  by (rule vector_codec) (rule Prompt.codec_axioms)

record 'j PromptMessage =
  pm_role :: Role
  pm_content :: "'j ContentBlock"

definition PromptMessage_to_json :: "'j json_ops \<Rightarrow> 'j PromptMessage \<Rightarrow> 'j" where
  "PromptMessage_to_json J m =
     (let j = j_object J;
          j = j_set J j ''role'' (Role_to_json J (pm_role m));
          j = j_set J j ''content'' (ContentBlock_to_json J (pm_content m))
      in j)"

definition PromptMessage_from_json :: "'j json_ops \<Rightarrow> 'j \<Rightarrow> 'j exc + 'j PromptMessage" where
  "PromptMessage_from_json J j =
     ebind (at_get J (Role_from_json J) j ''role'') (\<lambda>pm_role'.
     ebind (at_get J (ContentBlock_from_json J) j ''content'') (\<lambda>pm_content'.
     Inr \<lparr>pm_role = pm_role', pm_content = pm_content'\<rparr>))"

definition PromptMessage_wf :: "'j json_ops \<Rightarrow> 'j PromptMessage \<Rightarrow> bool" where
  "PromptMessage_wf J m \<longleftrightarrow>
     ContentBlock_wf J (pm_content m)"

sublocale json_lib \<subseteq> PromptMessage: codec J "PromptMessage_to_json J" "PromptMessage_from_json J" "PromptMessage_wf J"
  by unfold_locales
    (simp_all add: PromptMessage_to_json_def PromptMessage_from_json_def PromptMessage_wf_def Let_def require_def
      codec_simps)

sublocale json_lib \<subseteq> PromptMessages: codec J "put_vector J (PromptMessage_to_json J)" "get_vector J (PromptMessage_from_json J)"
    "list_all (PromptMessage_wf J)"
  by (rule vector_codec) (rule PromptMessage.codec_axioms)

record ListPromptsRequestParams =
  lpp_cursor :: "string option"

definition ListPromptsRequestParams_to_json :: "'j json_ops \<Rightarrow> ListPromptsRequestParams \<Rightarrow> 'j" where
  "ListPromptsRequestParams_to_json J p =
     (let j = j_object J;
          j = put_optional J (j_string J) ''cursor'' (lpp_cursor p) j
      in j)"

definition ListPromptsRequestParams_from_json :: "'j json_ops \<Rightarrow> 'j \<Rightarrow> 'j exc + ListPromptsRequestParams" where
  "ListPromptsRequestParams_from_json J j =
     ebind (take_optional J (get_str J) j ''cursor'') (\<lambda>lpp_cursor'.
     Inr \<lparr>lpp_cursor = lpp_cursor'\<rparr>)"

sublocale json_lib \<subseteq> ListPromptsRequestParams: codec J "ListPromptsRequestParams_to_json J" "ListPromptsRequestParams_from_json J" "\<lambda>_. True"
  by unfold_locales
    (simp_all add: ListPromptsRequestParams_to_json_def ListPromptsRequestParams_from_json_def Let_def require_def
      codec_simps)

record 'j ListPromptsResult =
  lpr_prompts :: "'j Prompt list"
  lpr_next_cursor :: "string option"
  lpr_meta :: "'j option"

definition ListPromptsResult_to_json :: "'j json_ops \<Rightarrow> 'j ListPromptsResult \<Rightarrow> 'j" where
  "ListPromptsResult_to_json J r =
     (let j = j_object J;
          j = j_set J j ''prompts'' (put_vector J (Prompt_to_json J) (lpr_prompts r));
          j = put_optional J (j_string J) ''nextCursor'' (lpr_next_cursor r) j;
          j = put_optional J (\<lambda>v. v) ''_meta'' (lpr_meta r) j
      in j)"

definition ListPromptsResult_from_json :: "'j json_ops \<Rightarrow> 'j \<Rightarrow> 'j exc + 'j ListPromptsResult" where
  "ListPromptsResult_from_json J j =
     ebind (at_get J (get_vector J (Prompt_from_json J)) j ''prompts'') (\<lambda>lpr_prompts'.
     ebind (take_optional J (get_str J) j ''nextCursor'') (\<lambda>lpr_next_cursor'.
     ebind (take_optional_json J j ''_meta'') (\<lambda>lpr_meta'.
     Inr \<lparr>lpr_prompts = lpr_prompts', lpr_next_cursor = lpr_next_cursor',
            lpr_meta = lpr_meta'\<rparr>)))"

definition ListPromptsResult_wf :: "'j json_ops \<Rightarrow> 'j ListPromptsResult \<Rightarrow> bool" where
  "ListPromptsResult_wf J r \<longleftrightarrow>
     list_all (Prompt_wf J) (lpr_prompts r) \<and>
     raw_wf J (lpr_meta r)"

sublocale json_lib \<subseteq> ListPromptsResult: codec J "ListPromptsResult_to_json J" "ListPromptsResult_from_json J" "ListPromptsResult_wf J"
  by unfold_locales
    (simp_all add: ListPromptsResult_to_json_def ListPromptsResult_from_json_def ListPromptsResult_wf_def Let_def require_def
      codec_simps)

text \<open>The members of a JSON object that are strings, and an object of string members.\<close>

type_synonym string_map = "(string \<times> string) list"

definition get_string_map :: "'j json_ops \<Rightarrow> 'j \<Rightarrow> string_map" where
  "get_string_map J j =
     List.map_filter (\<lambda>(k, v). case j_get_string J v of
         Inr s \<Rightarrow> if j_is_string J v then Some (k, s) else None
       | Inl e \<Rightarrow> None) (j_items J j)"

definition put_string_map :: "'j json_ops \<Rightarrow> string_map \<Rightarrow> 'j" where
  "put_string_map J m = foldl (\<lambda>j (k, v). j_set J j k (j_string J v)) (j_object J) m"

record GetPromptRequestParams =
  gpp_name :: string
  gpp_arguments :: "string_map option"

definition GetPromptRequestParams_to_json :: "'j json_ops \<Rightarrow> GetPromptRequestParams \<Rightarrow> 'j" where
  "GetPromptRequestParams_to_json J p =
     (let j = j_object J;
          j = j_set J j ''name'' (j_string J (gpp_name p))
      in case gpp_arguments p of
           None \<Rightarrow> j
         | Some args \<Rightarrow> j_set J j ''arguments'' (put_string_map J args))"

definition GetPromptRequestParams_from_json ::
    "'j json_ops \<Rightarrow> 'j \<Rightarrow> 'j exc + GetPromptRequestParams" where
  "GetPromptRequestParams_from_json J j =
     ebind (require J (get_str J) j ''name'') (\<lambda>name.
     Inr \<lparr>gpp_name = name,
          gpp_arguments =
            (case j_find J j ''arguments'' of
               Some v \<Rightarrow> if j_is_object J v then Some (get_string_map J v) else None
             | None \<Rightarrow> None)\<rparr>)"

record 'j GetPromptResult =
  gpr_description :: "string option"
  gpr_messages :: "'j PromptMessage list"
  gpr_meta :: "'j option"

definition GetPromptResult_to_json :: "'j json_ops \<Rightarrow> 'j GetPromptResult \<Rightarrow> 'j" where
  "GetPromptResult_to_json J r =
     (let j = j_object J;
          j = put_optional J (j_string J) ''description'' (gpr_description r) j;
          j = j_set J j ''messages'' (put_vector J (PromptMessage_to_json J) (gpr_messages r));
          j = put_optional J (\<lambda>v. v) ''_meta'' (gpr_meta r) j
      in j)"

definition GetPromptResult_from_json :: "'j json_ops \<Rightarrow> 'j \<Rightarrow> 'j exc + 'j GetPromptResult" where
  "GetPromptResult_from_json J j =
     ebind (take_optional J (get_str J) j ''description'') (\<lambda>gpr_description'.
     ebind (at_get J (get_vector J (PromptMessage_from_json J)) j ''messages'') (\<lambda>gpr_messages'.
     ebind (take_optional_json J j ''_meta'') (\<lambda>gpr_meta'.
     Inr \<lparr>gpr_description = gpr_description', gpr_messages = gpr_messages',
            gpr_meta = gpr_meta'\<rparr>)))"

definition GetPromptResult_wf :: "'j json_ops \<Rightarrow> 'j GetPromptResult \<Rightarrow> bool" where
  "GetPromptResult_wf J r \<longleftrightarrow>
     list_all (PromptMessage_wf J) (gpr_messages r) \<and>
     raw_wf J (gpr_meta r)"

sublocale json_lib \<subseteq> GetPromptResult: codec J "GetPromptResult_to_json J" "GetPromptResult_from_json J" "GetPromptResult_wf J"
  by unfold_locales
    (simp_all add: GetPromptResult_to_json_def GetPromptResult_from_json_def GetPromptResult_wf_def Let_def require_def
      codec_simps)

section \<open>String maps survive the wire\<close>

lemma map_of_map_filter_distinct:
  assumes "distinct (map fst kvs)"
  shows "map_of (List.map_filter (\<lambda>(k, v). map_option (Pair k) (f v)) kvs) k =
     Option.bind (map_of kvs k) f"
  using assms
proof (induction kvs)
  case Nil
  then show ?case by (simp add: map_filter_simps)
next
  case (Cons kv kvs)
  obtain k' v where kv: "kv = (k', v)" by (cases kv)
  have none: "map_of kvs k' = None" if "k = k'"
    using Cons.prems kv by (simp add: map_of_eq_None_iff)
  show ?case
    using Cons kv none by (cases "f v") (auto simp: map_filter_simps)
qed

context json_lib
begin

lemma is_object_put_string_map [simp]: "j_is_object J (put_string_map J m)"
proof -
  have "j_is_object J j \<Longrightarrow>
      j_is_object J (foldl (\<lambda>j (k, v). j_set J j k (j_string J v)) j m)" for j
    by (induction m arbitrary: j) auto
  then show ?thesis by (simp add: put_string_map_def)
qed

lemma find_put_string_map:
  assumes "distinct (map fst m)"
  shows "j_find J (put_string_map J m) k = map_option (j_string J) (map_of m k)"
proof -
  have "j_is_object J j \<Longrightarrow> distinct (map fst m) \<Longrightarrow>
      j_find J (foldl (\<lambda>j (k, v). j_set J j k (j_string J v)) j m) k =
      (case map_of m k of None \<Rightarrow> j_find J j k | Some v \<Rightarrow> Some (j_string J v))" for j
  proof (induction m arbitrary: j)
    case (Cons kv m)
    obtain k' v where kv: "kv = (k', v)" by (cases kv)
    have "k = k' \<Longrightarrow> map_of m k = None"
      using Cons.prems kv by (simp add: map_of_eq_None_iff)
    then show ?case
      using Cons kv by (auto split: option.split)
  qed simp
  then show ?thesis
    using assms by (auto simp: put_string_map_def split: option.split)
qed

lemma map_of_get_string_map:
  assumes "j_is_object J j"
  shows "map_of (get_string_map J j) k =
     Option.bind (j_find J j k) (\<lambda>v. case j_get_string J v of Inr s \<Rightarrow> Some s | Inl e \<Rightarrow> None)"
proof -
  have eq: "(\<lambda>(k, v). case j_get_string J v of
         Inr s \<Rightarrow> if j_is_string J v then Some (k, s) else None | Inl e \<Rightarrow> None) =
      (\<lambda>(k, v). map_option (Pair (k::string))
         (case j_get_string J v of Inr s \<Rightarrow> Some s | Inl e \<Rightarrow> None))"
    by (auto simp: fun_eq_iff get_string_kind split: sum.split)
  show ?thesis
    using items_object [OF assms]
    by (simp add: get_string_map_def eq map_of_map_filter_distinct)
qed

lemma string_map_rt:
  "distinct (map fst m) \<Longrightarrow> map_of (get_string_map J (put_string_map J m)) = map_of m"
  by (rule ext) (simp add: map_of_get_string_map find_put_string_map Option.bind_map_option o_def)

end

end
