(* ===== verification/Proto_Utilities.thy ===== *)
theory Proto_Utilities
  imports Proto_Content Proto_Resources
begin

text \<open>
  Cancellation, progress, protocol-level logging, roots, completion and elicitation: parameter and
  result structs with their codecs. Lemmas: every codec round-trips, and the rules that tell the
  two elicitation modes and the two completion references apart.
\<close>

section \<open>Cancellation and progress\<close>

record CancelledNotificationParams =
  canc_request_id :: "RequestId option"
  canc_reason :: "string option"

definition CancelledNotificationParams_to_json :: "'j json_ops \<Rightarrow> CancelledNotificationParams \<Rightarrow> 'j" where
  "CancelledNotificationParams_to_json J p =
     (let j = j_object J;
          j = put_optional J (RequestId_to_json J) ''requestId'' (canc_request_id p) j;
          j = put_optional J (j_string J) ''reason'' (canc_reason p) j
      in j)"

definition CancelledNotificationParams_from_json :: "'j json_ops \<Rightarrow> 'j \<Rightarrow> 'j exc + CancelledNotificationParams" where
  "CancelledNotificationParams_from_json J j =
     ebind (take_optional J (RequestId_from_json J) j ''requestId'') (\<lambda>canc_request_id'.
     ebind (take_optional J (get_str J) j ''reason'') (\<lambda>canc_reason'.
     Inr \<lparr>canc_request_id = canc_request_id', canc_reason = canc_reason'\<rparr>))"

sublocale json_lib \<subseteq> CancelledNotificationParams: codec J "CancelledNotificationParams_to_json J" "CancelledNotificationParams_from_json J" "\<lambda>_. True"
  by unfold_locales
    (simp_all add: CancelledNotificationParams_to_json_def CancelledNotificationParams_from_json_def Let_def require_def
      codec_simps)

datatype ProgressToken = TokenString string | TokenInt int64

fun ProgressToken_canonical :: "ProgressToken \<Rightarrow> string" where
  "ProgressToken_canonical (TokenString s) = ''s:'' @ s"
| "ProgressToken_canonical (TokenInt i) = ''i:'' @ int_string (sint i)"

fun ProgressToken_to_json :: "'j json_ops \<Rightarrow> ProgressToken \<Rightarrow> 'j" where
  "ProgressToken_to_json J (TokenString s) = j_string J s"
| "ProgressToken_to_json J (TokenInt i) = j_int64 J i"

definition ProgressToken_from_json :: "'j json_ops \<Rightarrow> 'j \<Rightarrow> 'j exc + ProgressToken" where
  "ProgressToken_from_json J j =
     (if j_is_string J j then emap TokenString (get_str J j)
      else if j_is_number_integer J j then emap TokenInt (get_i64 J j)
      else if j_is_number_float J j then
        ebind (get_dbl J j) (\<lambda>v.
          case double_to_int64 v of
            None \<Rightarrow> Inl Undefined
          | Some truncated \<Rightarrow>
              if \<not> int64_equals_double truncated v
              then Inl (Error J parse_error
                     ''progressToken must be an integer (got fractional number)'')
              else Inr (TokenInt truncated))
      else Inl (Error J parse_error ''progressToken must be a string or integer''))"

sublocale json_lib \<subseteq> ProgressToken:
  codec J "ProgressToken_to_json J" "ProgressToken_from_json J" "\<lambda>_. True"
proof
  fix x
  show "ProgressToken_from_json J (ProgressToken_to_json J x) = Inr x"
    by (cases x) (simp_all add: ProgressToken_from_json_def)
  show "\<not> j_is_null J (ProgressToken_to_json J x)"
    by (cases x) simp_all
qed

record ProgressNotificationParams =
  prog_progress_token :: ProgressToken
  prog_progress :: double
  prog_total :: "double option"
  prog_message :: "string option"

definition ProgressNotificationParams_to_json :: "'j json_ops \<Rightarrow> ProgressNotificationParams \<Rightarrow> 'j" where
  "ProgressNotificationParams_to_json J p =
     (let j = j_object J;
          j = j_set J j ''progressToken'' (ProgressToken_to_json J (prog_progress_token p));
          j = j_set J j ''progress'' (j_double J (prog_progress p));
          j = put_optional J (j_double J) ''total'' (prog_total p) j;
          j = put_optional J (j_string J) ''message'' (prog_message p) j
      in j)"

definition ProgressNotificationParams_from_json :: "'j json_ops \<Rightarrow> 'j \<Rightarrow> 'j exc + ProgressNotificationParams" where
  "ProgressNotificationParams_from_json J j =
     ebind (at_get J (ProgressToken_from_json J) j ''progressToken'') (\<lambda>prog_progress_token'.
     ebind (at_get J (get_dbl J) j ''progress'') (\<lambda>prog_progress'.
     ebind (take_optional J (get_dbl J) j ''total'') (\<lambda>prog_total'.
     ebind (take_optional J (get_str J) j ''message'') (\<lambda>prog_message'.
     Inr \<lparr>prog_progress_token = prog_progress_token', prog_progress = prog_progress',
            prog_total = prog_total', prog_message = prog_message'\<rparr>))))"

sublocale json_lib \<subseteq> ProgressNotificationParams: codec J "ProgressNotificationParams_to_json J" "ProgressNotificationParams_from_json J" "\<lambda>_. True"
  by unfold_locales
    (simp_all add: ProgressNotificationParams_to_json_def ProgressNotificationParams_from_json_def Let_def require_def
      codec_simps)

section \<open>Logging\<close>

datatype LoggingLevel =
    Log_debug | Log_info | Log_notice | Log_warning | Log_error | Log_critical | Log_alert
  | Log_emergency

text \<open>\<open>static_cast<int>(level)\<close>: the position in the enum.\<close>

fun LoggingLevel_int :: "LoggingLevel \<Rightarrow> int" where
  "LoggingLevel_int Log_debug = 0"
| "LoggingLevel_int Log_info = 1"
| "LoggingLevel_int Log_notice = 2"
| "LoggingLevel_int Log_warning = 3"
| "LoggingLevel_int Log_error = 4"
| "LoggingLevel_int Log_critical = 5"
| "LoggingLevel_int Log_alert = 6"
| "LoggingLevel_int Log_emergency = 7"

fun LoggingLevel_to_string :: "LoggingLevel \<Rightarrow> string" where
  "LoggingLevel_to_string Log_debug = ''debug''"
| "LoggingLevel_to_string Log_info = ''info''"
| "LoggingLevel_to_string Log_notice = ''notice''"
| "LoggingLevel_to_string Log_warning = ''warning''"
| "LoggingLevel_to_string Log_error = ''error''"
| "LoggingLevel_to_string Log_critical = ''critical''"
| "LoggingLevel_to_string Log_alert = ''alert''"
| "LoggingLevel_to_string Log_emergency = ''emergency''"

definition logging_level_from_string :: "'j json_ops \<Rightarrow> string \<Rightarrow> 'j exc + LoggingLevel" where
  "logging_level_from_string J s =
     (if s = ''debug'' then Inr Log_debug
      else if s = ''info'' then Inr Log_info
      else if s = ''notice'' then Inr Log_notice
      else if s = ''warning'' then Inr Log_warning
      else if s = ''error'' then Inr Log_error
      else if s = ''critical'' then Inr Log_critical
      else if s = ''alert'' then Inr Log_alert
      else if s = ''emergency'' then Inr Log_emergency
      else Inl (Error J parse_error (''unknown logging level: '' @ s)))"

definition LoggingLevel_to_json :: "'j json_ops \<Rightarrow> LoggingLevel \<Rightarrow> 'j" where
  "LoggingLevel_to_json J l = j_string J (LoggingLevel_to_string l)"

definition LoggingLevel_from_json :: "'j json_ops \<Rightarrow> 'j \<Rightarrow> 'j exc + LoggingLevel" where
  "LoggingLevel_from_json J j = ebind (get_str J j) (logging_level_from_string J)"

sublocale json_lib \<subseteq> LoggingLevel:
  codec J "LoggingLevel_to_json J" "LoggingLevel_from_json J" "\<lambda>_. True"
proof
  fix l
  show "LoggingLevel_from_json J (LoggingLevel_to_json J l) = Inr l"
    by (cases l)
      (simp_all add: LoggingLevel_to_json_def LoggingLevel_from_json_def
        logging_level_from_string_def)
qed (simp add: LoggingLevel_to_json_def)

record SetLevelRequestParams =
  slp_level :: LoggingLevel

definition SetLevelRequestParams_to_json :: "'j json_ops \<Rightarrow> SetLevelRequestParams \<Rightarrow> 'j" where
  "SetLevelRequestParams_to_json J p =
     (let j = j_init J [(''level'', LoggingLevel_to_json J (slp_level p))]
      in j)"

definition SetLevelRequestParams_from_json :: "'j json_ops \<Rightarrow> 'j \<Rightarrow> 'j exc + SetLevelRequestParams" where
  "SetLevelRequestParams_from_json J j =
     ebind (at_get J (LoggingLevel_from_json J) j ''level'') (\<lambda>slp_level'.
     Inr \<lparr>slp_level = slp_level'\<rparr>)"

sublocale json_lib \<subseteq> SetLevelRequestParams: codec J "SetLevelRequestParams_to_json J" "SetLevelRequestParams_from_json J" "\<lambda>_. True"
  by unfold_locales
    (simp_all add: SetLevelRequestParams_to_json_def SetLevelRequestParams_from_json_def Let_def require_def
      codec_simps)

record 'j LoggingMessageNotificationParams =
  lmp_level :: LoggingLevel
  lmp_logger :: "string option"
  lmp_data :: "'j"

definition LoggingMessageNotificationParams_to_json :: "'j json_ops \<Rightarrow> 'j LoggingMessageNotificationParams \<Rightarrow> 'j" where
  "LoggingMessageNotificationParams_to_json J p =
     (let j = j_object J;
          j = j_set J j ''level'' (LoggingLevel_to_json J (lmp_level p));
          j = j_set J j ''data'' (lmp_data p);
          j = put_optional J (j_string J) ''logger'' (lmp_logger p) j
      in j)"

definition LoggingMessageNotificationParams_from_json :: "'j json_ops \<Rightarrow> 'j \<Rightarrow> 'j exc + 'j LoggingMessageNotificationParams" where
  "LoggingMessageNotificationParams_from_json J j =
     ebind (at_get J (LoggingLevel_from_json J) j ''level'') (\<lambda>lmp_level'.
     ebind (json_call (j_at J j ''data'')) (\<lambda>lmp_data'.
     ebind (take_optional J (get_str J) j ''logger'') (\<lambda>lmp_logger'.
     Inr \<lparr>lmp_level = lmp_level', lmp_logger = lmp_logger', lmp_data = lmp_data'\<rparr>)))"

sublocale json_lib \<subseteq> LoggingMessageNotificationParams: codec J "LoggingMessageNotificationParams_to_json J" "LoggingMessageNotificationParams_from_json J" "\<lambda>_. True"
  by unfold_locales
    (simp_all add: LoggingMessageNotificationParams_to_json_def LoggingMessageNotificationParams_from_json_def Let_def require_def
      codec_simps at_found)

section \<open>Roots\<close>

record Root =
  root_uri :: string
  root_name :: "string option"

definition Root_to_json :: "'j json_ops \<Rightarrow> Root \<Rightarrow> 'j" where
  "Root_to_json J r =
     (let j = j_init J [(''uri'', j_string J (root_uri r))];
          j = put_optional J (j_string J) ''name'' (root_name r) j
      in j)"

definition Root_from_json :: "'j json_ops \<Rightarrow> 'j \<Rightarrow> 'j exc + Root" where
  "Root_from_json J j =
     ebind (require J (get_str J) j ''uri'') (\<lambda>root_uri'.
     ebind (take_optional J (get_str J) j ''name'') (\<lambda>root_name'.
     Inr \<lparr>root_uri = root_uri', root_name = root_name'\<rparr>))"

sublocale json_lib \<subseteq> Root: codec J "Root_to_json J" "Root_from_json J" "\<lambda>_. True"
  by unfold_locales
    (simp_all add: Root_to_json_def Root_from_json_def Let_def require_def
      codec_simps)

sublocale json_lib \<subseteq> Roots: codec J "put_vector J (Root_to_json J)" "get_vector J (Root_from_json J)"
    "list_all (\<lambda>_. True)"
  by (rule vector_codec) (rule Root.codec_axioms)

record ListRootsResult =
  lroots_roots :: "Root list"

definition ListRootsResult_to_json :: "'j json_ops \<Rightarrow> ListRootsResult \<Rightarrow> 'j" where
  "ListRootsResult_to_json J r =
     (let j = j_object J;
          j = j_set J j ''roots'' (put_vector J (Root_to_json J) (lroots_roots r))
      in j)"

definition ListRootsResult_from_json :: "'j json_ops \<Rightarrow> 'j \<Rightarrow> 'j exc + ListRootsResult" where
  "ListRootsResult_from_json J j =
     ebind (at_get J (get_vector J (Root_from_json J)) j ''roots'') (\<lambda>lroots_roots'.
     Inr \<lparr>lroots_roots = lroots_roots'\<rparr>)"

sublocale json_lib \<subseteq> ListRootsResult: codec J "ListRootsResult_to_json J" "ListRootsResult_from_json J" "\<lambda>_. True"
  by unfold_locales
    (simp_all add: ListRootsResult_to_json_def ListRootsResult_from_json_def Let_def require_def
      codec_simps)

section \<open>Completion\<close>

record ResourceTemplateReference =
  rtref_uri_template :: string

definition ResourceTemplateReference_to_json :: "'j json_ops \<Rightarrow> ResourceTemplateReference \<Rightarrow> 'j" where
  "ResourceTemplateReference_to_json J c =
     (let j = j_init J [(''type'', j_string J ''ref/resource''), (''uri'', j_string J (rtref_uri_template c))]
      in j)"

definition ResourceTemplateReference_from_json :: "'j json_ops \<Rightarrow> 'j \<Rightarrow> 'j exc + ResourceTemplateReference" where
  "ResourceTemplateReference_from_json J j =
     ebind (require J (get_str J) j ''uri'') (\<lambda>rtref_uri_template'.
     Inr \<lparr>rtref_uri_template = rtref_uri_template'\<rparr>)"

sublocale json_lib \<subseteq> ResourceTemplateReference: codec J "ResourceTemplateReference_to_json J" "ResourceTemplateReference_from_json J" "\<lambda>_. True"
  by unfold_locales
    (simp_all add: ResourceTemplateReference_to_json_def ResourceTemplateReference_from_json_def Let_def require_def
      codec_simps)

context json_lib
begin

lemma ResourceTemplateReference_find [simp]:
  "j_find J (ResourceTemplateReference_to_json J c) ''type'' = Some (j_string J ''ref/resource'')"
  "j_is_object J (ResourceTemplateReference_to_json J c)"
  by (simp_all add: ResourceTemplateReference_to_json_def Let_def)

end

record PromptReference =
  pref_name :: string
  pref_title :: "string option"

definition PromptReference_to_json :: "'j json_ops \<Rightarrow> PromptReference \<Rightarrow> 'j" where
  "PromptReference_to_json J c =
     (let j = j_object J;
          j = j_set J j ''type'' (j_string J ''ref/prompt'');
          j = j_set J j ''name'' (j_string J (pref_name c));
          j = put_optional J (j_string J) ''title'' (pref_title c) j
      in j)"

definition PromptReference_from_json :: "'j json_ops \<Rightarrow> 'j \<Rightarrow> 'j exc + PromptReference" where
  "PromptReference_from_json J j =
     ebind (require J (get_str J) j ''name'') (\<lambda>pref_name'.
     ebind (take_optional J (get_str J) j ''title'') (\<lambda>pref_title'.
     Inr \<lparr>pref_name = pref_name', pref_title = pref_title'\<rparr>))"

sublocale json_lib \<subseteq> PromptReference: codec J "PromptReference_to_json J" "PromptReference_from_json J" "\<lambda>_. True"
  by unfold_locales
    (simp_all add: PromptReference_to_json_def PromptReference_from_json_def Let_def require_def
      codec_simps)

context json_lib
begin

lemma PromptReference_find [simp]:
  "j_find J (PromptReference_to_json J c) ''type'' = Some (j_string J ''ref/prompt'')"
  "j_is_object J (PromptReference_to_json J c)"
  by (simp_all add: PromptReference_to_json_def Let_def)

end

datatype CompletionReference =
    RefResource ResourceTemplateReference
  | RefPrompt PromptReference

fun CompletionReference_to_json :: "'j json_ops \<Rightarrow> CompletionReference \<Rightarrow> 'j" where
  "CompletionReference_to_json J (RefResource r) = ResourceTemplateReference_to_json J r"
| "CompletionReference_to_json J (RefPrompt r) = PromptReference_to_json J r"

definition CompletionReference_from_json ::
    "'j json_ops \<Rightarrow> 'j \<Rightarrow> 'j exc + CompletionReference" where
  "CompletionReference_from_json J j =
     ebind (require J (get_str J) j ''type'') (\<lambda>t.
       if t = ''ref/resource'' then emap RefResource (ResourceTemplateReference_from_json J j)
       else if t = ''ref/prompt'' then emap RefPrompt (PromptReference_from_json J j)
       else Inl (Error J parse_error (''unknown completion reference type: '' @ t)))"

sublocale json_lib \<subseteq> CompletionReference:
  codec J "CompletionReference_to_json J" "CompletionReference_from_json J" "\<lambda>_. True"
proof
  fix r
  show "CompletionReference_from_json J (CompletionReference_to_json J r) = Inr r"
    by (cases r) (simp_all add: CompletionReference_from_json_def require_def)
  show "\<not> j_is_null J (CompletionReference_to_json J r)"
    by (cases r) simp_all
qed

record CompleteArgument =
  carg_name :: string
  carg_value :: string

definition CompleteArgument_to_json :: "'j json_ops \<Rightarrow> CompleteArgument \<Rightarrow> 'j" where
  "CompleteArgument_to_json J a =
     (let j = j_init J [(''name'', j_string J (carg_name a)), (''value'', j_string J (carg_value a))]
      in j)"

definition CompleteArgument_from_json :: "'j json_ops \<Rightarrow> 'j \<Rightarrow> 'j exc + CompleteArgument" where
  "CompleteArgument_from_json J j =
     ebind (require J (get_str J) j ''name'') (\<lambda>carg_name'.
     ebind (require J (get_str J) j ''value'') (\<lambda>carg_value'.
     Inr \<lparr>carg_name = carg_name', carg_value = carg_value'\<rparr>))"

sublocale json_lib \<subseteq> CompleteArgument: codec J "CompleteArgument_to_json J" "CompleteArgument_from_json J" "\<lambda>_. True"
  by unfold_locales
    (simp_all add: CompleteArgument_to_json_def CompleteArgument_from_json_def Let_def require_def
      codec_simps)

record CompleteRequestParams =
  crp_reference :: CompletionReference
  crp_argument :: CompleteArgument
  crp_context_arguments :: "string_map option"

definition CompleteRequestParams_to_json :: "'j json_ops \<Rightarrow> CompleteRequestParams \<Rightarrow> 'j" where
  "CompleteRequestParams_to_json J p =
     (let j = j_object J;
          j = j_set J j ''ref'' (CompletionReference_to_json J (crp_reference p));
          j = j_set J j ''argument'' (CompleteArgument_to_json J (crp_argument p))
      in case crp_context_arguments p of
           None \<Rightarrow> j
         | Some args \<Rightarrow>
             j_set J j ''context'' (j_init J [(''arguments'', put_string_map J args)]))"

definition CompleteRequestParams_from_json ::
    "'j json_ops \<Rightarrow> 'j \<Rightarrow> 'j exc + CompleteRequestParams" where
  "CompleteRequestParams_from_json J j =
     ebind (at_get J (CompletionReference_from_json J) j ''ref'') (\<lambda>reference.
     ebind (at_get J (CompleteArgument_from_json J) j ''argument'') (\<lambda>argument.
     Inr \<lparr>crp_reference = reference, crp_argument = argument,
          crp_context_arguments =
            (case j_find J j ''context'' of
               None \<Rightarrow> None
             | Some v \<Rightarrow>
                 if j_is_object J v then
                   (case j_find J v ''arguments'' of
                      None \<Rightarrow> None
                    | Some a \<Rightarrow>
                        if j_is_object J a then Some (get_string_map J a) else None)
                 else None)\<rparr>))"

record CompletionValues =
  cv_values :: "string list"
  cv_total :: "int64 option"
  cv_has_more :: "bool option"

definition CompletionValues_to_json :: "'j json_ops \<Rightarrow> CompletionValues \<Rightarrow> 'j" where
  "CompletionValues_to_json J v =
     (let j = j_object J;
          j = j_set J j ''values'' (put_vector J (j_string J) (cv_values v));
          j = put_optional J (j_int64 J) ''total'' (cv_total v) j;
          j = put_optional J (j_bool J) ''hasMore'' (cv_has_more v) j
      in j)"

definition CompletionValues_from_json :: "'j json_ops \<Rightarrow> 'j \<Rightarrow> 'j exc + CompletionValues" where
  "CompletionValues_from_json J j =
     ebind (at_get J (get_vector J (get_str J)) j ''values'') (\<lambda>cv_values'.
     ebind (take_optional J (get_i64 J) j ''total'') (\<lambda>cv_total'.
     ebind (take_optional J (get_boolean J) j ''hasMore'') (\<lambda>cv_has_more'.
     Inr \<lparr>cv_values = cv_values', cv_total = cv_total', cv_has_more = cv_has_more'\<rparr>)))"

sublocale json_lib \<subseteq> CompletionValues: codec J "CompletionValues_to_json J" "CompletionValues_from_json J" "\<lambda>_. True"
  by unfold_locales
    (simp_all add: CompletionValues_to_json_def CompletionValues_from_json_def Let_def require_def
      codec_simps)

record CompleteResult =
  cres_completion :: CompletionValues

definition CompleteResult_to_json :: "'j json_ops \<Rightarrow> CompleteResult \<Rightarrow> 'j" where
  "CompleteResult_to_json J r =
     (let j = j_object J;
          j = j_set J j ''completion'' (CompletionValues_to_json J (cres_completion r))
      in j)"

definition CompleteResult_from_json :: "'j json_ops \<Rightarrow> 'j \<Rightarrow> 'j exc + CompleteResult" where
  "CompleteResult_from_json J j =
     ebind (at_get J (CompletionValues_from_json J) j ''completion'') (\<lambda>cres_completion'.
     Inr \<lparr>cres_completion = cres_completion'\<rparr>)"

sublocale json_lib \<subseteq> CompleteResult: codec J "CompleteResult_to_json J" "CompleteResult_from_json J" "\<lambda>_. True"
  by unfold_locales
    (simp_all add: CompleteResult_to_json_def CompleteResult_from_json_def Let_def require_def
      codec_simps)

section \<open>Elicitation\<close>

record 'j ElicitFormRequestParams =
  efp_message :: string
  efp_requested_schema :: 'j

definition ElicitFormRequestParams_to_json ::
    "'j json_ops \<Rightarrow> 'j ElicitFormRequestParams \<Rightarrow> 'j" where
  "ElicitFormRequestParams_to_json J p =
     (let j = j_object J;
          j = j_set J j ''message'' (j_string J (efp_message p));
          j = j_set J j ''requestedSchema'' (efp_requested_schema p)
      in j)"

definition ElicitFormRequestParams_from_json ::
    "'j json_ops \<Rightarrow> 'j \<Rightarrow> 'j exc + 'j ElicitFormRequestParams" where
  "ElicitFormRequestParams_from_json J j =
     ebind (require J (get_str J) j ''message'') (\<lambda>message.
     ebind (require J Inr j ''requestedSchema'') (\<lambda>schema.
     if \<not> j_is_object J schema
     then Inl (Error J invalid_params
            ''elicitation/create: `requestedSchema` must be a JSON object'')
     else Inr \<lparr>efp_message = message, efp_requested_schema = schema\<rparr>))"

definition ElicitFormRequestParams_wf :: "'j json_ops \<Rightarrow> 'j ElicitFormRequestParams \<Rightarrow> bool" where
  "ElicitFormRequestParams_wf J p \<longleftrightarrow> j_is_object J (efp_requested_schema p)"

sublocale json_lib \<subseteq> ElicitFormRequestParams: codec J "ElicitFormRequestParams_to_json J" "ElicitFormRequestParams_from_json J" "ElicitFormRequestParams_wf J"
  by unfold_locales
    (simp_all add: ElicitFormRequestParams_to_json_def ElicitFormRequestParams_from_json_def ElicitFormRequestParams_wf_def Let_def require_def
      codec_simps)

context json_lib
begin

lemma ElicitFormRequestParams_find [simp]:
  "j_find J (ElicitFormRequestParams_to_json J c) ''mode'' = None"
  "j_is_object J (ElicitFormRequestParams_to_json J c)"
  by (simp_all add: ElicitFormRequestParams_to_json_def Let_def)

end

record ElicitUrlRequestParams =
  eup_message :: string
  eup_url :: string
  eup_elicitation_id :: string

definition ElicitUrlRequestParams_to_json :: "'j json_ops \<Rightarrow> ElicitUrlRequestParams \<Rightarrow> 'j" where
  "ElicitUrlRequestParams_to_json J c =
     (let j = j_object J;
          j = j_set J j ''mode'' (j_string J ''url'');
          j = j_set J j ''message'' (j_string J (eup_message c));
          j = j_set J j ''url'' (j_string J (eup_url c));
          j = j_set J j ''elicitationId'' (j_string J (eup_elicitation_id c))
      in j)"

definition ElicitUrlRequestParams_from_json :: "'j json_ops \<Rightarrow> 'j \<Rightarrow> 'j exc + ElicitUrlRequestParams" where
  "ElicitUrlRequestParams_from_json J j =
     ebind (require J (get_str J) j ''message'') (\<lambda>eup_message'.
     ebind (require J (get_str J) j ''url'') (\<lambda>eup_url'.
     ebind (require J (get_str J) j ''elicitationId'') (\<lambda>eup_elicitation_id'.
     Inr \<lparr>eup_message = eup_message', eup_url = eup_url',
            eup_elicitation_id = eup_elicitation_id'\<rparr>)))"

sublocale json_lib \<subseteq> ElicitUrlRequestParams: codec J "ElicitUrlRequestParams_to_json J" "ElicitUrlRequestParams_from_json J" "\<lambda>_. True"
  by unfold_locales
    (simp_all add: ElicitUrlRequestParams_to_json_def ElicitUrlRequestParams_from_json_def Let_def require_def
      codec_simps)

context json_lib
begin

lemma ElicitUrlRequestParams_find [simp]:
  "j_find J (ElicitUrlRequestParams_to_json J c) ''mode'' = Some (j_string J ''url'')"
  "j_is_object J (ElicitUrlRequestParams_to_json J c)"
  by (simp_all add: ElicitUrlRequestParams_to_json_def Let_def)

end

sublocale json_lib \<subseteq> ElicitUrls: codec J "put_vector J (ElicitUrlRequestParams_to_json J)" "get_vector J (ElicitUrlRequestParams_from_json J)"
    "list_all (\<lambda>_. True)"
  by (rule vector_codec) (rule ElicitUrlRequestParams.codec_axioms)

datatype 'j ElicitRequestParams =
    ElicitForm "'j ElicitFormRequestParams"
  | ElicitUrl ElicitUrlRequestParams

fun ElicitRequestParams_to_json :: "'j json_ops \<Rightarrow> 'j ElicitRequestParams \<Rightarrow> 'j" where
  "ElicitRequestParams_to_json J (ElicitForm p) = ElicitFormRequestParams_to_json J p"
| "ElicitRequestParams_to_json J (ElicitUrl p) = ElicitUrlRequestParams_to_json J p"

definition ElicitRequestParams_from_json ::
    "'j json_ops \<Rightarrow> 'j \<Rightarrow> 'j exc + 'j ElicitRequestParams" where
  "ElicitRequestParams_from_json J j =
     ebind (case j_find J j ''mode'' of
              None \<Rightarrow> Inr ''form''
            | Some v \<Rightarrow>
                if \<not> j_is_string J v
                then Inl (Error J invalid_params ''elicitation/create: `mode` must be a string'')
                else get_str J v) (\<lambda>mode.
       if mode = ''form'' then emap ElicitForm (ElicitFormRequestParams_from_json J j)
       else if mode = ''url'' then emap ElicitUrl (ElicitUrlRequestParams_from_json J j)
       else Inl (Error J invalid_params
              (''elicitation/create: unknown mode \"'' @ mode @ ''\"'')))"

fun ElicitRequestParams_wf :: "'j json_ops \<Rightarrow> 'j ElicitRequestParams \<Rightarrow> bool" where
  "ElicitRequestParams_wf J (ElicitForm p) \<longleftrightarrow> ElicitFormRequestParams_wf J p"
| "ElicitRequestParams_wf J (ElicitUrl p) \<longleftrightarrow> True"

sublocale json_lib \<subseteq> ElicitRequestParams:
  codec J "ElicitRequestParams_to_json J" "ElicitRequestParams_from_json J" "ElicitRequestParams_wf J"
proof
  fix p
  assume wf: "ElicitRequestParams_wf J p"
  then show "ElicitRequestParams_from_json J (ElicitRequestParams_to_json J p) = Inr p"
    by (cases p) (simp_all add: ElicitRequestParams_from_json_def)
  show "\<not> j_is_null J (ElicitRequestParams_to_json J p)"
    using wf by (cases p) simp_all
qed

datatype ElicitAction = Elicit_accept | Elicit_decline | Elicit_cancel

fun ElicitAction_to_string :: "ElicitAction \<Rightarrow> string" where
  "ElicitAction_to_string Elicit_accept = ''accept''"
| "ElicitAction_to_string Elicit_decline = ''decline''"
| "ElicitAction_to_string Elicit_cancel = ''cancel''"

definition ElicitAction_to_json :: "'j json_ops \<Rightarrow> ElicitAction \<Rightarrow> 'j" where
  "ElicitAction_to_json J x = j_string J (ElicitAction_to_string x)"

definition ElicitAction_from_json :: "'j json_ops \<Rightarrow> 'j \<Rightarrow> 'j exc + ElicitAction" where
  "ElicitAction_from_json J j =
     ebind (get_str J j) (\<lambda>s.
       if s = ''accept'' then Inr Elicit_accept
       else if s = ''decline'' then Inr Elicit_decline
       else if s = ''cancel'' then Inr Elicit_cancel
       else Inl (Error J invalid_params (''elicitation result: unknown action \"'' @ s @ ''\"'')))"

sublocale json_lib \<subseteq> ElicitAction: codec J "ElicitAction_to_json J" "ElicitAction_from_json J" "\<lambda>_. True"
proof
  fix x
  show "ElicitAction_from_json J (ElicitAction_to_json J x) = Inr x"
    by (cases x) (simp_all add: ElicitAction_to_json_def ElicitAction_from_json_def)
qed (simp add: ElicitAction_to_json_def)

record 'j ElicitResult =
  er_action :: ElicitAction
  er_content :: "'j option"

definition ElicitResult_to_json :: "'j json_ops \<Rightarrow> 'j ElicitResult \<Rightarrow> 'j" where
  "ElicitResult_to_json J r =
     (let j = j_object J;
          j = j_set J j ''action'' (ElicitAction_to_json J (er_action r));
          j = put_optional J (\<lambda>v. v) ''content'' (er_content r) j
      in j)"

definition ElicitResult_from_json :: "'j json_ops \<Rightarrow> 'j \<Rightarrow> 'j exc + 'j ElicitResult" where
  "ElicitResult_from_json J j =
     ebind (at_get J (ElicitAction_from_json J) j ''action'') (\<lambda>er_action'.
     ebind (take_optional_json J j ''content'') (\<lambda>er_content'.
     Inr \<lparr>er_action = er_action', er_content = er_content'\<rparr>))"

definition ElicitResult_wf :: "'j json_ops \<Rightarrow> 'j ElicitResult \<Rightarrow> bool" where
  "ElicitResult_wf J r \<longleftrightarrow>
     raw_wf J (er_content r)"

sublocale json_lib \<subseteq> ElicitResult: codec J "ElicitResult_to_json J" "ElicitResult_from_json J" "ElicitResult_wf J"
  by unfold_locales
    (simp_all add: ElicitResult_to_json_def ElicitResult_from_json_def ElicitResult_wf_def Let_def require_def
      codec_simps)

record ElicitationCompleteNotificationParams =
  ecn_elicitation_id :: string

definition ElicitationCompleteNotificationParams_to_json :: "'j json_ops \<Rightarrow> ElicitationCompleteNotificationParams \<Rightarrow> 'j" where
  "ElicitationCompleteNotificationParams_to_json J p =
     (let j = j_object J;
          j = j_set J j ''elicitationId'' (j_string J (ecn_elicitation_id p))
      in j)"

definition ElicitationCompleteNotificationParams_from_json :: "'j json_ops \<Rightarrow> 'j \<Rightarrow> 'j exc + ElicitationCompleteNotificationParams" where
  "ElicitationCompleteNotificationParams_from_json J j =
     ebind (require J (get_str J) j ''elicitationId'') (\<lambda>ecn_elicitation_id'.
     Inr \<lparr>ecn_elicitation_id = ecn_elicitation_id'\<rparr>)"

sublocale json_lib \<subseteq> ElicitationCompleteNotificationParams: codec J "ElicitationCompleteNotificationParams_to_json J" "ElicitationCompleteNotificationParams_from_json J" "\<lambda>_. True"
  by unfold_locales
    (simp_all add: ElicitationCompleteNotificationParams_to_json_def ElicitationCompleteNotificationParams_from_json_def Let_def require_def
      codec_simps)

record UrlElicitationRequiredErrorData =
  uer_elicitations :: "ElicitUrlRequestParams list"

definition UrlElicitationRequiredErrorData_to_json :: "'j json_ops \<Rightarrow> UrlElicitationRequiredErrorData \<Rightarrow> 'j" where
  "UrlElicitationRequiredErrorData_to_json J d =
     (let j = j_object J;
          j = j_set J j ''elicitations'' (put_vector J (ElicitUrlRequestParams_to_json J) (uer_elicitations d))
      in j)"

definition UrlElicitationRequiredErrorData_from_json :: "'j json_ops \<Rightarrow> 'j \<Rightarrow> 'j exc + UrlElicitationRequiredErrorData" where
  "UrlElicitationRequiredErrorData_from_json J j =
     ebind (at_get J (get_vector J (ElicitUrlRequestParams_from_json J)) j ''elicitations'') (\<lambda>uer_elicitations'.
     Inr \<lparr>uer_elicitations = uer_elicitations'\<rparr>)"

sublocale json_lib \<subseteq> UrlElicitationRequiredErrorData: codec J "UrlElicitationRequiredErrorData_to_json J" "UrlElicitationRequiredErrorData_from_json J" "\<lambda>_. True"
  by unfold_locales
    (simp_all add: UrlElicitationRequiredErrorData_to_json_def UrlElicitationRequiredErrorData_from_json_def Let_def require_def
      codec_simps)

end
