(* ===== verification/Proto_Sampling.thy ===== *)
theory Proto_Sampling
  imports Proto_Tools
begin

text \<open>
  Server-initiated sampling: model preferences, the tool choice in its two wire shapes, sampling
  messages whose content is one block or an array of blocks, and the \<open>sampling/createMessage\<close>
  parameters and result with the checks on \<open>maxTokens\<close>.
\<close>

section \<open>Preferences and tool choice\<close>

record ModelHint =
  mh_name :: "string option"

definition ModelHint_to_json :: "'j json_ops \<Rightarrow> ModelHint \<Rightarrow> 'j" where
  "ModelHint_to_json J h =
     (let j = j_object J;
          j = put_optional J (j_string J) ''name'' (mh_name h) j
      in j)"

definition ModelHint_from_json :: "'j json_ops \<Rightarrow> 'j \<Rightarrow> 'j exc + ModelHint" where
  "ModelHint_from_json J j =
     ebind (take_optional J (get_str J) j ''name'') (\<lambda>mh_name'.
     Inr \<lparr>mh_name = mh_name'\<rparr>)"

sublocale json_lib \<subseteq> ModelHint: codec J "ModelHint_to_json J" "ModelHint_from_json J" "\<lambda>_. True"
  by unfold_locales
    (simp_all add: ModelHint_to_json_def ModelHint_from_json_def Let_def require_def
      codec_simps)

record ModelPreferences =
  mp_hints :: "ModelHint list option"
  mp_cost_priority :: "double option"
  mp_speed_priority :: "double option"
  mp_intelligence_priority :: "double option"

definition ModelPreferences_to_json :: "'j json_ops \<Rightarrow> ModelPreferences \<Rightarrow> 'j" where
  "ModelPreferences_to_json J p =
     (let j = j_object J;
          j = put_optional J (put_vector J (ModelHint_to_json J)) ''hints'' (mp_hints p) j;
          j = put_optional J (j_double J) ''costPriority'' (mp_cost_priority p) j;
          j = put_optional J (j_double J) ''speedPriority'' (mp_speed_priority p) j;
          j = put_optional J (j_double J) ''intelligencePriority'' (mp_intelligence_priority p) j
      in j)"

definition ModelPreferences_from_json :: "'j json_ops \<Rightarrow> 'j \<Rightarrow> 'j exc + ModelPreferences" where
  "ModelPreferences_from_json J j =
     ebind (take_if_array J (get_vector J (ModelHint_from_json J)) j ''hints'') (\<lambda>mp_hints'.
     ebind (take_optional J (get_dbl J) j ''costPriority'') (\<lambda>mp_cost_priority'.
     ebind (take_optional J (get_dbl J) j ''speedPriority'') (\<lambda>mp_speed_priority'.
     ebind (take_optional J (get_dbl J) j ''intelligencePriority'') (\<lambda>mp_intelligence_priority'.
     Inr \<lparr>mp_hints = mp_hints', mp_cost_priority = mp_cost_priority',
            mp_speed_priority = mp_speed_priority',
            mp_intelligence_priority = mp_intelligence_priority'\<rparr>))))"

sublocale json_lib \<subseteq> ModelPreferences: codec J "ModelPreferences_to_json J" "ModelPreferences_from_json J" "\<lambda>_. True"
  by unfold_locales
    (simp_all add: ModelPreferences_to_json_def ModelPreferences_from_json_def Let_def require_def
      codec_simps take_if_array_found [OF ModelHint.codec_axioms])

datatype IncludeContext = Context_none | Context_this_server | Context_all_servers

fun IncludeContext_to_string :: "IncludeContext \<Rightarrow> string" where
  "IncludeContext_to_string Context_none = ''none''"
| "IncludeContext_to_string Context_this_server = ''thisServer''"
| "IncludeContext_to_string Context_all_servers = ''allServers''"

definition IncludeContext_to_json :: "'j json_ops \<Rightarrow> IncludeContext \<Rightarrow> 'j" where
  "IncludeContext_to_json J x = j_string J (IncludeContext_to_string x)"

definition IncludeContext_from_json :: "'j json_ops \<Rightarrow> 'j \<Rightarrow> 'j exc + IncludeContext" where
  "IncludeContext_from_json J j =
     ebind (get_str J j) (\<lambda>s.
       if s = ''none'' then Inr Context_none
       else if s = ''thisServer'' then Inr Context_this_server
       else if s = ''allServers'' then Inr Context_all_servers
       else Inl (Error J parse_error (''unknown includeContext: '' @ s)))"

sublocale json_lib \<subseteq> IncludeContext: codec J "IncludeContext_to_json J" "IncludeContext_from_json J" "\<lambda>_. True"
proof
  fix x
  show "IncludeContext_from_json J (IncludeContext_to_json J x) = Inr x"
    by (cases x) (simp_all add: IncludeContext_to_json_def IncludeContext_from_json_def)
qed (simp add: IncludeContext_to_json_def)

datatype ToolChoiceMode = Mode_auto | Mode_any | Mode_none | Mode_tool

fun ToolChoiceMode_to_string :: "ToolChoiceMode \<Rightarrow> string" where
  "ToolChoiceMode_to_string Mode_auto = ''auto''"
| "ToolChoiceMode_to_string Mode_any = ''any''"
| "ToolChoiceMode_to_string Mode_none = ''none''"
| "ToolChoiceMode_to_string Mode_tool = ''tool''"

definition ToolChoiceMode_to_json :: "'j json_ops \<Rightarrow> ToolChoiceMode \<Rightarrow> 'j" where
  "ToolChoiceMode_to_json J x = j_string J (ToolChoiceMode_to_string x)"

definition ToolChoiceMode_from_json :: "'j json_ops \<Rightarrow> 'j \<Rightarrow> 'j exc + ToolChoiceMode" where
  "ToolChoiceMode_from_json J j =
     ebind (get_str J j) (\<lambda>s.
       if s = ''auto'' then Inr Mode_auto
       else if s = ''any'' then Inr Mode_any
       else if s = ''none'' then Inr Mode_none
       else if s = ''tool'' then Inr Mode_tool
       else Inl (Error J parse_error (''unknown toolChoice mode: '' @ s)))"

sublocale json_lib \<subseteq> ToolChoiceMode: codec J "ToolChoiceMode_to_json J" "ToolChoiceMode_from_json J" "\<lambda>_. True"
proof
  fix x
  show "ToolChoiceMode_from_json J (ToolChoiceMode_to_json J x) = Inr x"
    by (cases x) (simp_all add: ToolChoiceMode_to_json_def ToolChoiceMode_from_json_def)
qed (simp add: ToolChoiceMode_to_json_def)

record ToolChoice =
  tc_mode :: "ToolChoiceMode option"
  tc_name :: "string option"

definition ToolChoice_to_json :: "'j json_ops \<Rightarrow> ToolChoice \<Rightarrow> 'j" where
  "ToolChoice_to_json J c =
     (if tc_mode c = Some Mode_tool then
        let j = j_object J;
            j = j_set J j ''type'' (j_string J ''tool'')
        in (case tc_name c of None \<Rightarrow> j | Some n \<Rightarrow> j_set J j ''name'' (j_string J n))
      else
        (case tc_mode c of
           Some m \<Rightarrow> j_string J (ToolChoiceMode_to_string m)
         | None \<Rightarrow> j_object J))"

definition ToolChoice_from_json :: "'j json_ops \<Rightarrow> 'j \<Rightarrow> 'j exc + ToolChoice" where
  "ToolChoice_from_json J j =
     (if j_is_string J j then
        ebind (ToolChoiceMode_from_json J j) (\<lambda>m. Inr \<lparr>tc_mode = Some m, tc_name = None\<rparr>)
      else if j_is_object J j then
        ebind (case j_find J j ''type'' of
                 None \<Rightarrow> Inr False
               | Some v \<Rightarrow>
                   if j_is_string J v then emap (\<lambda>t. t = ''tool'') (get_str J v) else Inr False)
          (\<lambda>is_tool.
            if is_tool then
              ebind (take_optional J (get_str J) j ''name'') (\<lambda>n.
              Inr \<lparr>tc_mode = Some Mode_tool, tc_name = n\<rparr>)
            else
              ebind (take_optional J (ToolChoiceMode_from_json J) j ''mode'') (\<lambda>m.
              ebind (take_optional J (get_str J) j ''name'') (\<lambda>n.
              Inr \<lparr>tc_mode = m, tc_name = n\<rparr>)))
      else Inl (Error J parse_error ''toolChoice must be a string or an object''))"

text \<open>The wire carries a tool name only for the mode \<open>tool\<close>.\<close>

definition ToolChoice_wf :: "'j json_ops \<Rightarrow> ToolChoice \<Rightarrow> bool" where
  "ToolChoice_wf J c \<longleftrightarrow> tc_mode c = Some Mode_tool \<or> tc_name c = None"

sublocale json_lib \<subseteq> ToolChoice:
  codec J "ToolChoice_to_json J" "ToolChoice_from_json J" "ToolChoice_wf J"
proof
  fix c
  assume wf: "ToolChoice_wf J c"
  have mode: "ToolChoiceMode_from_json J (j_string J (ToolChoiceMode_to_string m)) = Inr m" for m
    using ToolChoiceMode.dec_enc [of m] by (simp add: ToolChoiceMode_to_json_def)
  from wf show "ToolChoice_from_json J (ToolChoice_to_json J c) = Inr c"
    by (cases c)
      (auto simp: ToolChoice_to_json_def ToolChoice_from_json_def ToolChoice_wf_def Let_def mode
        codec_simps opt_get_def split: option.split)
  show "\<not> j_is_null J (ToolChoice_to_json J c)"
    by (simp add: ToolChoice_to_json_def Let_def split: option.split)
qed

section \<open>Messages\<close>

text \<open>One block is written as an object, any other number as an array; both are read.\<close>

definition blocks_to_json :: "'j json_ops \<Rightarrow> 'j ContentBlock list \<Rightarrow> 'j" where
  "blocks_to_json J bs =
     (case bs of
        [b] \<Rightarrow> ContentBlock_to_json J b
      | _ \<Rightarrow> put_vector J (ContentBlock_to_json J) bs)"

definition blocks_from_json :: "'j json_ops \<Rightarrow> 'j \<Rightarrow> 'j exc + 'j ContentBlock list" where
  "blocks_from_json J c =
     (if j_is_array J c then get_vector J (ContentBlock_from_json J) c
      else ebind (ContentBlock_from_json J c) (\<lambda>b. Inr [b]))"

context json_lib
begin

lemma is_object_ContentBlock [simp]: "j_is_object J (ContentBlock_to_json J b)"
  by (cases b) simp_all

end

sublocale json_lib \<subseteq> blocks:
  codec J "blocks_to_json J" "blocks_from_json J" "list_all (ContentBlock_wf J)"
proof
  fix bs
  assume wf: "list_all (ContentBlock_wf J) bs"
  have arr: "j_is_array J (put_vector J (ContentBlock_to_json J) bs)"
    by (simp add: put_vector_def)
  have no_arr: "\<not> j_is_array J (ContentBlock_to_json J b)" for b
    by (rule object_kind) simp
  show "blocks_from_json J (blocks_to_json J bs) = Inr bs"
  proof (cases "\<exists>b. bs = [b]")
    case True
    with wf no_arr show ?thesis
      by (auto simp: blocks_to_json_def blocks_from_json_def)
  next
    case False
    then have "blocks_to_json J bs = put_vector J (ContentBlock_to_json J) bs"
      by (auto simp: blocks_to_json_def split: list.split)
    with wf arr show ?thesis
      by (simp add: blocks_from_json_def)
  qed
  show "\<not> j_is_null J (blocks_to_json J bs)"
    using wf array_kind(1) [OF arr] by (auto simp: blocks_to_json_def split: list.split)
qed

record 'j SamplingMessage =
  sm_role :: Role
  sm_content :: "'j ContentBlock list"

definition SamplingMessage_to_json :: "'j json_ops \<Rightarrow> 'j SamplingMessage \<Rightarrow> 'j" where
  "SamplingMessage_to_json J m =
     (let j = j_object J;
          j = j_set J j ''role'' (Role_to_json J (sm_role m));
          j = j_set J j ''content'' (blocks_to_json J (sm_content m))
      in j)"

definition SamplingMessage_from_json :: "'j json_ops \<Rightarrow> 'j \<Rightarrow> 'j exc + 'j SamplingMessage" where
  "SamplingMessage_from_json J j =
     ebind (at_get J (Role_from_json J) j ''role'') (\<lambda>role.
     ebind (at_get J (blocks_from_json J) j ''content'') (\<lambda>content.
     Inr \<lparr>sm_role = role, sm_content = content\<rparr>))"

definition SamplingMessage_wf :: "'j json_ops \<Rightarrow> 'j SamplingMessage \<Rightarrow> bool" where
  "SamplingMessage_wf J m \<longleftrightarrow> list_all (ContentBlock_wf J) (sm_content m)"

sublocale json_lib \<subseteq> SamplingMessage: codec J "SamplingMessage_to_json J" "SamplingMessage_from_json J" "SamplingMessage_wf J"
  by unfold_locales
    (simp_all add: SamplingMessage_to_json_def SamplingMessage_from_json_def SamplingMessage_wf_def Let_def require_def
      codec_simps)

sublocale json_lib \<subseteq> SamplingMessages: codec J "put_vector J (SamplingMessage_to_json J)" "get_vector J (SamplingMessage_from_json J)"
    "list_all (SamplingMessage_wf J)"
  by (rule vector_codec) (rule SamplingMessage.codec_axioms)

section \<open>Requests and results\<close>

text \<open>The checks on \<open>maxTokens\<close>, in the order of the source.\<close>

definition maxTokens_from_json :: "'j json_ops \<Rightarrow> 'j \<Rightarrow> 'j exc + int64" where
  "maxTokens_from_json J mt =
     (if \<not> j_is_number_integer J mt \<and> \<not> j_is_number_unsigned J mt
      then Inl (Error J invalid_params ''maxTokens must be an integer'')
      else
        ebind (if j_is_number_integer J mt
               then ebind (get_i64 J mt) (\<lambda>v.
                      if sint v < 0
                      then Inl (Error J invalid_params ''maxTokens must be non-negative'')
                      else Inr ())
               else Inr ()) (\<lambda>_.
        ebind (if j_is_number_unsigned J mt
               then ebind (json_call (j_get_uint64 J mt)) (\<lambda>u.
                      if unat u > 2 ^ 63 - 1
                      then Inl (Error J invalid_params ''maxTokens overflows int64'')
                      else Inr ())
               else Inr ()) (\<lambda>_.
        get_i64 J mt)))"

record 'j CreateMessageRequestParams =
  cmp_messages :: "'j SamplingMessage list"
  cmp_model_preferences :: "ModelPreferences option"
  cmp_system_prompt :: "string option"
  cmp_include_context :: "IncludeContext option"
  cmp_temperature :: "double option"
  cmp_max_tokens :: int64
  cmp_stop_sequences :: "string list option"
  cmp_metadata :: "'j option"
  cmp_tools :: "'j Tool list option"
  cmp_tool_choice :: "ToolChoice option"

definition CreateMessageRequestParams_to_json ::
    "'j json_ops \<Rightarrow> 'j CreateMessageRequestParams \<Rightarrow> 'j" where
  "CreateMessageRequestParams_to_json J p =
     (let j = j_object J;
          j = j_set J j ''messages'' (put_vector J (SamplingMessage_to_json J) (cmp_messages p));
          j = j_set J j ''maxTokens'' (j_int64 J (cmp_max_tokens p));
          j = put_optional J (ModelPreferences_to_json J) ''modelPreferences''
                (cmp_model_preferences p) j;
          j = put_optional J (j_string J) ''systemPrompt'' (cmp_system_prompt p) j;
          j = put_optional J (IncludeContext_to_json J) ''includeContext''
                (cmp_include_context p) j;
          j = put_optional J (j_double J) ''temperature'' (cmp_temperature p) j;
          j = put_optional J (put_vector J (j_string J)) ''stopSequences''
                (cmp_stop_sequences p) j;
          j = put_optional J (\<lambda>v. v) ''metadata'' (cmp_metadata p) j;
          j = put_optional J (put_vector J (Tool_to_json J)) ''tools'' (cmp_tools p) j;
          j = put_optional J (ToolChoice_to_json J) ''toolChoice'' (cmp_tool_choice p) j
      in j)"

definition CreateMessageRequestParams_from_json ::
    "'j json_ops \<Rightarrow> 'j \<Rightarrow> 'j exc + 'j CreateMessageRequestParams" where
  "CreateMessageRequestParams_from_json J j =
     ebind (at_get J (get_vector J (SamplingMessage_from_json J)) j ''messages'') (\<lambda>messages.
     ebind (at_get J (maxTokens_from_json J) j ''maxTokens'') (\<lambda>max_tokens.
     ebind (take_optional J (ModelPreferences_from_json J) j ''modelPreferences'') (\<lambda>prefs.
     ebind (take_optional J (get_str J) j ''systemPrompt'') (\<lambda>system_prompt.
     ebind (take_optional J (IncludeContext_from_json J) j ''includeContext'') (\<lambda>include_context.
     ebind (take_optional J (get_dbl J) j ''temperature'') (\<lambda>temperature.
     ebind (take_if_array J (get_vector J (get_str J)) j ''stopSequences'') (\<lambda>stop_sequences.
     ebind (take_optional_json J j ''metadata'') (\<lambda>metadata.
     ebind (take_optional J (get_vector J (Tool_from_json J)) j ''tools'') (\<lambda>tools.
     ebind (take_optional J (ToolChoice_from_json J) j ''toolChoice'') (\<lambda>tool_choice.
     Inr \<lparr>cmp_messages = messages, cmp_model_preferences = prefs,
          cmp_system_prompt = system_prompt, cmp_include_context = include_context,
          cmp_temperature = temperature, cmp_max_tokens = max_tokens,
          cmp_stop_sequences = stop_sequences, cmp_metadata = metadata,
          cmp_tools = tools, cmp_tool_choice = tool_choice\<rparr>))))))))))"

definition CreateMessageRequestParams_wf ::
    "'j json_ops \<Rightarrow> 'j CreateMessageRequestParams \<Rightarrow> bool" where
  "CreateMessageRequestParams_wf J p \<longleftrightarrow>
     list_all (SamplingMessage_wf J) (cmp_messages p) \<and>
     0 \<le> sint (cmp_max_tokens p) \<and>
     raw_wf J (cmp_metadata p) \<and>
     pred_option (list_all (Tool_wf J)) (cmp_tools p) \<and>
     pred_option (ToolChoice_wf J) (cmp_tool_choice p)"

context json_lib
begin

lemma maxTokens_int64 [simp]:
  "0 \<le> sint w \<Longrightarrow> maxTokens_from_json J (j_int64 J w) = Inr w"
  by (simp add: maxTokens_from_json_def)

end

sublocale json_lib \<subseteq> CreateMessageRequestParams: codec J "CreateMessageRequestParams_to_json J" "CreateMessageRequestParams_from_json J" "CreateMessageRequestParams_wf J"
  by unfold_locales
    (simp_all add: CreateMessageRequestParams_to_json_def CreateMessageRequestParams_from_json_def CreateMessageRequestParams_wf_def Let_def require_def
      codec_simps take_if_array_found [OF string_codec])

record 'j CreateMessageResult =
  cmr_role :: Role
  cmr_content :: "'j ContentBlock list"
  cmr_model :: string
  cmr_stop_reason :: "string option"
  cmr_meta :: "'j option"

definition CreateMessageResult_to_json :: "'j json_ops \<Rightarrow> 'j CreateMessageResult \<Rightarrow> 'j" where
  "CreateMessageResult_to_json J r =
     (let j = j_object J;
          j = j_set J j ''role'' (Role_to_json J (cmr_role r));
          j = j_set J j ''content'' (blocks_to_json J (cmr_content r));
          j = j_set J j ''model'' (j_string J (cmr_model r));
          j = put_optional J (j_string J) ''stopReason'' (cmr_stop_reason r) j;
          j = put_optional J (\<lambda>v. v) ''_meta'' (cmr_meta r) j
      in j)"

definition CreateMessageResult_from_json ::
    "'j json_ops \<Rightarrow> 'j \<Rightarrow> 'j exc + 'j CreateMessageResult" where
  "CreateMessageResult_from_json J j =
     ebind (at_get J (Role_from_json J) j ''role'') (\<lambda>role.
     ebind (at_get J (blocks_from_json J) j ''content'') (\<lambda>content.
     ebind (require J (get_str J) j ''model'') (\<lambda>model.
     ebind (take_optional J (get_str J) j ''stopReason'') (\<lambda>stop_reason.
     ebind (take_optional_json J j ''_meta'') (\<lambda>meta.
     Inr \<lparr>cmr_role = role, cmr_content = content, cmr_model = model,
          cmr_stop_reason = stop_reason, cmr_meta = meta\<rparr>)))))"

definition CreateMessageResult_wf :: "'j json_ops \<Rightarrow> 'j CreateMessageResult \<Rightarrow> bool" where
  "CreateMessageResult_wf J r \<longleftrightarrow>
     list_all (ContentBlock_wf J) (cmr_content r) \<and> raw_wf J (cmr_meta r)"

sublocale json_lib \<subseteq> CreateMessageResult: codec J "CreateMessageResult_to_json J" "CreateMessageResult_from_json J" "CreateMessageResult_wf J"
  by unfold_locales
    (simp_all add: CreateMessageResult_to_json_def CreateMessageResult_from_json_def CreateMessageResult_wf_def Let_def require_def
      codec_simps)

end
