(* ===== verification/Task_Store.thy ===== *)
theory Task_Store
  imports Proto_Tools Pagination
begin

text \<open>
  The task store of src/server.cpp (class \<open>detail::TaskStore\<close>). Every operation runs under the
  mutex \<open>mu_\<close>, so it is one atomic function on the store; what it calls the status listener with
  after releasing the lock is returned as a list of projections. The random number generator, the
  two clocks and the moment a waiting call wakes up are arguments.

  The component's contract is the locale \<open>task_registry\<close>: a task that is working takes the first
  outcome reported for it and keeps it, other tasks are not touched. The store is shown to
  implement it for the abstraction \<open>task_state\<close>. Further lemmas: the store invariant and its
  preservation, the notifications a task causes, what the waiting call returns, listing, expiry.
\<close>

section \<open>Task ids\<close>

definition hex_digit :: "nat \<Rightarrow> char" where
  "hex_digit d = char_of (if d < 10 then 48 + d else 87 + d)"

text \<open>\<open>os << std::hex << n\<close>: no leading zeros.\<close>

fun hex_string :: "nat \<Rightarrow> string" where
  "hex_string n = (if n < 16 then [hex_digit n] else hex_string (n div 16) @ [hex_digit (n mod 16)])"

declare hex_string.simps [simp del]

text \<open>The two draws of the generator are the arguments.\<close>

definition mint_task_id :: "uint64 \<Rightarrow> uint64 \<Rightarrow> string" where
  "mint_task_id a b = hex_string (unat a) @ hex_string (unat b)"

section \<open>The store\<close>

record 'j Entry =
  en_task :: Task
  en_result :: "'j option"
  en_error :: "string option"
  en_cancelled :: bool
  en_created_steady :: int

text \<open>
  \<open>entries_\<close> is a hash map: an association list with distinct keys, whose order stands for the
  iteration order. The steady clock counts nanoseconds.
\<close>

record 'j TaskStore =
  ts_entries :: "(string \<times> 'j Entry) list"
  ts_order :: "string list"
  ts_listener :: bool
  ts_shutting_down :: bool
  ts_workers_inflight :: int

definition TaskStore_init :: "'j TaskStore" where
  "TaskStore_init = \<lparr>ts_entries = [], ts_order = [], ts_listener = False,
     ts_shutting_down = False, ts_workers_inflight = 0\<rparr>"

definition find_entry :: "'j TaskStore \<Rightarrow> string \<Rightarrow> 'j Entry option" where
  "find_entry s tid = map_of (ts_entries s) tid"

fun is_terminal :: "TaskStatus \<Rightarrow> bool" where
  "is_terminal Task_completed = True"
| "is_terminal Task_failed = True"
| "is_terminal Task_cancelled = True"
| "is_terminal Task_working = False"
| "is_terminal Task_input_required = False"

definition touch_locked :: "string \<Rightarrow> 'j Entry \<Rightarrow> TaskStatus \<Rightarrow> string option \<Rightarrow> 'j Entry" where
  "touch_locked now e new_status msg =
     (let t = (en_task e)\<lparr>task_status := new_status, task_last_updated_at := now\<rparr>;
          t = (case msg of Some m \<Rightarrow> t\<lparr>task_status_message := Some m\<rparr> | None \<Rightarrow> t)
      in e\<lparr>en_task := t\<rparr>)"

definition put_entry :: "string \<Rightarrow> 'j Entry \<Rightarrow> 'j TaskStore \<Rightarrow> 'j TaskStore" where
  "put_entry tid e s = s\<lparr>ts_entries := AList.update tid e (ts_entries s)\<rparr>"

text \<open>What the listener is called with, if one is set.\<close>

definition notify :: "'j TaskStore \<Rightarrow> Task \<Rightarrow> Task list" where
  "notify s t = (if ts_listener s then [t] else [])"

section \<open>Operations\<close>

text \<open>
  \<open>create\<close>: \<open>emplace\<close> leaves the map alone when the key is there already; the id is pushed to
  \<open>order_\<close> all the same.
\<close>

definition new_entry :: "string \<Rightarrow> string \<Rightarrow> int \<Rightarrow> int64 option \<Rightarrow> 'j Entry" where
  "new_entry tid now steady ttl =
     \<lparr>en_task = \<lparr>task_taskId = tid, task_status = Task_working, task_status_message = None,
        task_created_at = now, task_last_updated_at = now, task_ttl = ttl,
        task_poll_interval = Some 500\<rparr>,
      en_result = None, en_error = None, en_cancelled = False, en_created_steady = steady\<rparr>"

definition ts_create ::
    "string \<Rightarrow> string \<Rightarrow> int \<Rightarrow> int64 option \<Rightarrow> 'j TaskStore \<Rightarrow> Task \<times> Task list \<times> 'j TaskStore" where
  "ts_create tid now steady ttl s =
     (let e = new_entry tid now steady ttl;
          s' = s\<lparr>ts_order := ts_order s @ [tid],
                 ts_entries := (if find_entry s tid = None then ts_entries s @ [(tid, e)]
                                else ts_entries s)\<rparr>
      in (en_task e, notify s' (en_task e), s'))"

definition ts_complete :: "string \<Rightarrow> string \<Rightarrow> 'j \<Rightarrow> 'j TaskStore \<Rightarrow> Task list \<times> 'j TaskStore" where
  "ts_complete now tid result s =
     (case find_entry s tid of
        None \<Rightarrow> ([], s)
      | Some e \<Rightarrow>
          if is_terminal (task_status (en_task e)) then ([], s)
          else
            let e' = (if en_cancelled e then touch_locked now e Task_cancelled (Some ''cancelled'')
                      else touch_locked now (e\<lparr>en_result := Some result\<rparr>) Task_completed None)
            in (notify s (en_task e'), put_entry tid e' s))"

definition ts_fail :: "string \<Rightarrow> string \<Rightarrow> string \<Rightarrow> 'j TaskStore \<Rightarrow> Task list \<times> 'j TaskStore" where
  "ts_fail now tid msg s =
     (case find_entry s tid of
        None \<Rightarrow> ([], s)
      | Some e \<Rightarrow>
          if is_terminal (task_status (en_task e)) then ([], s)
          else
            let e' = touch_locked now (e\<lparr>en_error := Some msg\<rparr>) Task_failed (Some msg)
            in (notify s (en_task e'), put_entry tid e' s))"

definition ts_cancel ::
    "string \<Rightarrow> string \<Rightarrow> 'j TaskStore \<Rightarrow> Task option \<times> Task list \<times> 'j TaskStore" where
  "ts_cancel now tid s =
     (case find_entry s tid of
        None \<Rightarrow> (None, [], s)
      | Some e \<Rightarrow>
          if is_terminal (task_status (en_task e)) then (Some (en_task e), [], s)
          else
            let e' = touch_locked now (e\<lparr>en_cancelled := True\<rparr>) Task_cancelled (Some ''cancelled'')
            in (Some (en_task e'), notify s (en_task e'), put_entry tid e' s))"

definition ts_get :: "'j TaskStore \<Rightarrow> string \<Rightarrow> Task option" where
  "ts_get s tid = map_option en_task (find_entry s tid)"

definition ts_is_cancelled :: "'j TaskStore \<Rightarrow> string \<Rightarrow> bool" where
  "ts_is_cancelled s tid = (case find_entry s tid of None \<Rightarrow> False | Some e \<Rightarrow> en_cancelled e)"

text \<open>
  \<open>wait_result\<close>: the list holds the store as the call sees it each time it checks its predicate
  (on entry and at every wake-up, the last at the timeout); \<open>None\<close> is the timeout.
\<close>

definition wait_over :: "string \<Rightarrow> 'j TaskStore \<Rightarrow> bool" where
  "wait_over tid s \<longleftrightarrow>
     (case find_entry s tid of
        None \<Rightarrow> True
      | Some e \<Rightarrow> is_terminal (task_status (en_task e)) \<or> ts_shutting_down s)"

definition wait_outcome :: "'j json_ops \<Rightarrow> string \<Rightarrow> 'j TaskStore \<Rightarrow> 'j exc + 'j" where
  "wait_outcome J tid s =
     (case find_entry s tid of
        None \<Rightarrow> Inl (Error J invalid_request (''task not found: '' @ tid))
      | Some e \<Rightarrow>
          (case task_status (en_task e) of
             Task_completed \<Rightarrow>
               (case en_result e of
                  Some r \<Rightarrow> Inr r
                | None \<Rightarrow> Inl (Error J internal_error ''task completed without a result payload''))
           | Task_failed \<Rightarrow>
               Inl (Error J internal_error (''task failed: '' @
                 (case en_error e of Some m \<Rightarrow> m | None \<Rightarrow> ''<no message>'')))
           | Task_cancelled \<Rightarrow> Inl (Error J invalid_request (''task cancelled: '' @ tid))
           | _ \<Rightarrow> Inl (Error J internal_error ''server shutting down before task completed'')))"

fun ts_wait_result :: "'j json_ops \<Rightarrow> string \<Rightarrow> 'j TaskStore list \<Rightarrow> 'j exc + 'j option" where
  "ts_wait_result J tid [] = Inr None"
| "ts_wait_result J tid (s # ss) =
     (if wait_over tid s then emap Some (wait_outcome J tid s) else ts_wait_result J tid ss)"

text \<open>
  \<open>list\<close>: the cursor is digits only, read by \<open>std::stoull\<close> (which throws when the value does not
  fit). When \<open>offset + page_size\<close> wraps below \<open>offset\<close>, \<open>end - offset\<close> wraps to a size no vector
  can reserve and \<open>reserve\<close> throws \<open>std::length_error\<close>.
\<close>

definition list_cursor :: "'j json_ops \<Rightarrow> string option \<Rightarrow> 'j exc + size_t" where
  "list_cursor J cursor =
     (case cursor of
        None \<Rightarrow> Inr 0
      | Some s \<Rightarrow>
          if s = [] then Inr 0
          else if \<not> list_all is_digit s \<or> 2 ^ 64 \<le> dec_value s
          then Inl (Error J invalid_params (''invalid pagination cursor: '' @ s))
          else Inr (of_nat (dec_value s)))"

definition ts_list ::
    "'j json_ops \<Rightarrow> string option \<Rightarrow> size_t \<Rightarrow> 'j TaskStore \<Rightarrow> 'j exc + ListTasksResult" where
  "ts_list J cursor page_size s =
     ebind (list_cursor J cursor) (\<lambda>offset.
       let size = of_nat (length (ts_order s)) :: size_t
       in if offset \<ge> size then Inr \<lparr>ltkr_tasks = [], ltkr_next_cursor = None\<rparr>
          else
            let hi = (if page_size = 0 then size else min size (offset + page_size))
            in if hi < offset then Inl (StdException ''vector::reserve'')
               else Inr \<lparr>ltkr_tasks = List.map_filter (ts_get s)
                           (take (unat hi - unat offset) (drop (unat offset) (ts_order s))),
                         ltkr_next_cursor = (if hi < size then Some (dec_string (unat hi)) else None)\<rparr>)"

definition set_status_listener :: "'j TaskStore \<Rightarrow> 'j TaskStore" where
  "set_status_listener s = s\<lparr>ts_listener := True\<rparr>"

definition expired :: "int \<Rightarrow> 'j Entry \<Rightarrow> bool" where
  "expired now e \<longleftrightarrow>
     is_terminal (task_status (en_task e)) \<and>
     (case task_ttl (en_task e) of
        None \<Rightarrow> False
      | Some ttl \<Rightarrow> (now - en_created_steady e) div 1000000 \<ge> sint ttl)"

definition ts_gc_expired :: "int \<Rightarrow> 'j TaskStore \<Rightarrow> nat \<times> 'j TaskStore" where
  "ts_gc_expired now s =
     (let gone = map fst (filter (\<lambda>(tid, e). expired now e) (ts_entries s))
      in (length gone,
          s\<lparr>ts_entries := filter (\<lambda>(tid, e). \<not> expired now e) (ts_entries s),
            ts_order := filter (\<lambda>tid. tid \<notin> set gone) (ts_order s)\<rparr>))"

definition worker_started :: "'j TaskStore \<Rightarrow> 'j TaskStore" where
  "worker_started s = s\<lparr>ts_workers_inflight := ts_workers_inflight s + 1\<rparr>"

definition worker_finished :: "'j TaskStore \<Rightarrow> 'j TaskStore" where
  "worker_finished s = s\<lparr>ts_workers_inflight := ts_workers_inflight s - 1\<rparr>"

text \<open>
  \<open>shutdown\<close> sets the flag, wakes the waiters and then blocks until no worker is left: \<open>None\<close> when
  it is still blocked in the store it sees.
\<close>

definition shutdown_begin :: "'j TaskStore \<Rightarrow> 'j TaskStore" where
  "shutdown_begin s = s\<lparr>ts_shutting_down := True\<rparr>"

definition shutdown_wait :: "'j TaskStore \<Rightarrow> unit option" where
  "shutdown_wait s = (if ts_workers_inflight s = 0 then Some () else None)"

section \<open>The contract\<close>

text \<open>
  A registry of tasks, each working or settled: \<open>state\<close> observes a task, \<open>report\<close> reports an
  outcome for it. The first report for a working task settles it, every other changes nothing.
\<close>

locale task_registry =
  fixes ok :: "'s \<Rightarrow> bool" and state :: "'s \<Rightarrow> string \<Rightarrow> 'v option" and working :: 'v
    and report :: "string \<Rightarrow> 'r \<Rightarrow> 's \<Rightarrow> 's" and outcome :: "'r \<Rightarrow> 'v"
  assumes ok_report: "ok s \<Longrightarrow> ok (report tid r s)"
    and state_report: "ok s \<Longrightarrow> state (report tid r s) tid' =
      (if tid' = tid \<and> state s tid' = Some working then Some (outcome r) else state s tid')"
    and outcome_settles: "outcome r \<noteq> working"
begin

definition reports :: "(string \<times> 'r) list \<Rightarrow> 's \<Rightarrow> 's" where
  "reports rs s = fold (\<lambda>(tid, r). report tid r) rs s"

lemma reports_simps [simp]:
  "reports [] s = s"
  "reports ((tid, r) # rs) s = reports rs (report tid r s)"
  by (simp_all add: reports_def)

lemma settled_is_kept:
  "ok s \<Longrightarrow> state s tid = Some v \<Longrightarrow> v \<noteq> working \<Longrightarrow> state (reports rs s) tid = Some v"
  by (induction rs arbitrary: s) (auto simp: ok_report state_report)

lemma unknown_stays_unknown:
  "ok s \<Longrightarrow> state s tid = None \<Longrightarrow> state (reports rs s) tid = None"
  by (induction rs arbitrary: s) (auto simp: ok_report state_report)

lemma first_report_wins:
  "ok s \<Longrightarrow> state s tid = Some working \<Longrightarrow>
     state (reports rs s) tid =
       Some (case filter (\<lambda>(t, r). t = tid) rs of [] \<Rightarrow> working | (t, r) # _ \<Rightarrow> outcome r)"
proof (induction rs arbitrary: s)
  case (Cons p rs)
  obtain t r where p: "p = (t, r)" by fastforce
  show ?case
  proof (cases "t = tid")
    case True
    with Cons.prems p have "state (report t r s) tid = Some (outcome r)"
      by (simp add: state_report)
    from settled_is_kept [OF ok_report [OF Cons.prems(1)] this outcome_settles]
    show ?thesis using p True by simp
  next
    case False
    with Cons p show ?thesis by (simp add: ok_report state_report)
  qed
qed simp

end

section \<open>The store invariant\<close>

definition entry_inv :: "string \<Rightarrow> 'j Entry \<Rightarrow> bool" where
  "entry_inv tid e \<longleftrightarrow>
     task_taskId (en_task e) = tid \<and> task_status (en_task e) \<noteq> Task_input_required \<and>
     (en_cancelled e \<longleftrightarrow> task_status (en_task e) = Task_cancelled) \<and>
     (en_result e \<noteq> None \<longleftrightarrow> task_status (en_task e) = Task_completed) \<and>
     (en_error e \<noteq> None \<longleftrightarrow> task_status (en_task e) = Task_failed)"

definition store_inv :: "'j TaskStore \<Rightarrow> bool" where
  "store_inv s \<longleftrightarrow>
     distinct (map fst (ts_entries s)) \<and>
     (\<forall>tid e. find_entry s tid = Some e \<longrightarrow> entry_inv tid e) \<and>
     set (ts_order s) = dom (find_entry s)"

lemma find_put_entry [simp]:
  "find_entry (put_entry tid e s) tid' = (if tid' = tid then Some e else find_entry s tid')"
  by (simp add: find_entry_def put_entry_def update_conv')

lemma put_entry_fields [simp]:
  "ts_order (put_entry tid e s) = ts_order s"
  "ts_listener (put_entry tid e s) = ts_listener s"
  "ts_shutting_down (put_entry tid e s) = ts_shutting_down s"
  "ts_workers_inflight (put_entry tid e s) = ts_workers_inflight s"
  by (simp_all add: put_entry_def)

lemma touch_locked_fields [simp]:
  "task_taskId (en_task (touch_locked now e st msg)) = task_taskId (en_task e)"
  "task_status (en_task (touch_locked now e st msg)) = st"
  "task_ttl (en_task (touch_locked now e st msg)) = task_ttl (en_task e)"
  "en_result (touch_locked now e st msg) = en_result e"
  "en_error (touch_locked now e st msg) = en_error e"
  "en_cancelled (touch_locked now e st msg) = en_cancelled e"
  by (simp_all add: touch_locked_def Let_def split: option.split)

lemma find_entry_distinct:
  "distinct (map fst (ts_entries s)) \<Longrightarrow>
     find_entry s tid = Some e \<longleftrightarrow> (tid, e) \<in> set (ts_entries s)"
  by (simp add: find_entry_def)

lemma store_inv_put_entry:
  assumes "store_inv s" "find_entry s tid \<noteq> None" "entry_inv tid e"
  shows "store_inv (put_entry tid e s)"
proof -
  have "distinct (map fst (ts_entries (put_entry tid e s)))"
    using assms(1) by (simp add: put_entry_def store_inv_def distinct_update)
  moreover have "dom (find_entry (put_entry tid e s)) = dom (find_entry s)"
    using assms(2) by (auto simp: dom_def)
  ultimately show ?thesis using assms by (auto simp: store_inv_def)
qed

lemma entry_inv_working:
  "entry_inv tid e \<Longrightarrow> \<not> is_terminal (task_status (en_task e)) \<Longrightarrow>
     task_status (en_task e) = Task_working \<and> \<not> en_cancelled e \<and> en_result e = None \<and> en_error e = None"
  by (cases "task_status (en_task e)") (auto simp: entry_inv_def)

text \<open>The branch of \<open>complete\<close> for a task that is cancelled but not terminal is never taken.\<close>

lemma ts_complete_inv:
  assumes "store_inv s" "find_entry s tid = Some e" "\<not> is_terminal (task_status (en_task e))"
  shows "ts_complete now tid result s =
    (let e' = touch_locked now (e\<lparr>en_result := Some result\<rparr>) Task_completed None
     in (notify s (en_task e'), put_entry tid e' s))"
  using assms entry_inv_working [of tid e] by (auto simp: ts_complete_def store_inv_def Let_def)

lemma store_inv_init: "store_inv TaskStore_init"
  by (simp add: store_inv_def TaskStore_init_def find_entry_def dom_def)

lemma find_entry_init [simp]: "find_entry TaskStore_init tid = None"
  by (simp add: find_entry_def TaskStore_init_def)

lemma find_create:
  "find_entry (snd (snd (ts_create tid now steady ttl s))) tid' =
     (if tid' = tid \<and> find_entry s tid = None then Some (new_entry tid now steady ttl)
      else find_entry s tid')"
  by (auto simp: ts_create_def Let_def find_entry_def map_add_def split: option.split)

lemma store_inv_create:
  assumes "store_inv s"
  shows "store_inv (snd (snd (ts_create tid now steady ttl s)))"
proof -
  let ?s = "snd (snd (ts_create tid now steady ttl s))"
  have "entry_inv tid (new_entry tid now steady ttl)" by (simp add: entry_inv_def new_entry_def)
  then have "\<forall>t e. find_entry ?s t = Some e \<longrightarrow> entry_inv t e"
    using assms by (auto simp: find_create store_inv_def)
  moreover have "distinct (map fst (ts_entries ?s))"
    using assms by (auto simp: ts_create_def Let_def store_inv_def find_entry_def map_of_eq_None_iff)
  moreover have "set (ts_order ?s) = dom (find_entry ?s)"
  proof -
    have "set (ts_order ?s) = insert tid (set (ts_order s))"
      by (simp add: ts_create_def Let_def)
    also have "\<dots> = insert tid (dom (find_entry s))" using assms by (simp add: store_inv_def)
    also have "\<dots> = dom (find_entry ?s)" by (auto simp: find_create dom_def)
    finally show ?thesis .
  qed
  ultimately show ?thesis by (simp add: store_inv_def)
qed

lemma store_inv_complete: "store_inv s \<Longrightarrow> store_inv (snd (ts_complete now tid r s))"
  by (cases "find_entry s tid")
    (auto simp: ts_complete_inv Let_def ts_complete_def entry_inv_def
      intro!: store_inv_put_entry dest: entry_inv_working simp: store_inv_def [of s])

lemma store_inv_fail: "store_inv s \<Longrightarrow> store_inv (snd (ts_fail now tid m s))"
  by (cases "find_entry s tid")
    (auto simp: ts_fail_def Let_def entry_inv_def
      intro!: store_inv_put_entry dest: entry_inv_working simp: store_inv_def [of s])

lemma store_inv_cancel: "store_inv s \<Longrightarrow> store_inv (snd (snd (ts_cancel now tid s)))"
  by (cases "find_entry s tid")
    (auto simp: ts_cancel_def Let_def entry_inv_def
      intro!: store_inv_put_entry dest: entry_inv_working simp: store_inv_def [of s])

lemma map_of_filter_distinct:
  "distinct (map fst kvs) \<Longrightarrow>
     map_of (filter (\<lambda>(k, v). P v) kvs) k =
       (case map_of kvs k of None \<Rightarrow> None | Some v \<Rightarrow> if P v then Some v else None)"
  by (induction kvs) (auto simp: map_of_eq_None_iff split: option.split)

lemma find_gc_expired:
  "distinct (map fst (ts_entries s)) \<Longrightarrow>
     find_entry (snd (ts_gc_expired now s)) tid =
       (case find_entry s tid of None \<Rightarrow> None | Some e \<Rightarrow> if expired now e then None else Some e)"
  by (simp add: ts_gc_expired_def Let_def find_entry_def map_of_filter_distinct split: option.split)

lemma distinct_map_filter_fst: "distinct (map fst kvs) \<Longrightarrow> distinct (map fst (filter P kvs))"
  by (induction kvs) auto

lemma gc_gone_iff:
  assumes "distinct (map fst (ts_entries s))"
  shows "tid \<in> fst ` {x \<in> set (ts_entries s). expired now (snd x)} \<longleftrightarrow>
    (\<exists>e. find_entry s tid = Some e \<and> expired now e)"
  using assms by (force simp: find_entry_distinct)

lemma order_gc_expired:
  assumes "store_inv s"
  shows "ts_order (snd (ts_gc_expired now s)) =
    filter (\<lambda>tid. \<not> (\<exists>e. find_entry s tid = Some e \<and> expired now e)) (ts_order s)"
  using gc_gone_iff [of s _ now] assms
  by (simp add: ts_gc_expired_def Let_def case_prod_unfold store_inv_def)

lemma store_inv_gc_expired:
  assumes "store_inv s"
  shows "store_inv (snd (ts_gc_expired now s))"
proof -
  let ?s = "snd (ts_gc_expired now s)"
  have d: "distinct (map fst (ts_entries s))" using assms by (simp add: store_inv_def)
  have "distinct (map fst (ts_entries ?s))"
    using d by (simp add: ts_gc_expired_def Let_def distinct_map_filter_fst)
  moreover have "\<forall>t e. find_entry ?s t = Some e \<longrightarrow> entry_inv t e"
    using assms d by (auto simp: find_gc_expired store_inv_def split: option.splits if_splits)
  moreover have "set (ts_order ?s) = dom (find_entry ?s)"
    using assms d
    by (auto simp: order_gc_expired find_gc_expired store_inv_def dom_def split: option.splits)
  ultimately show ?thesis by (simp add: store_inv_def)
qed

lemma store_inv_cong:
  "ts_entries s' = ts_entries s \<Longrightarrow> ts_order s' = ts_order s \<Longrightarrow> store_inv s \<Longrightarrow> store_inv s'"
  by (simp add: store_inv_def find_entry_def [abs_def])

lemmas store_inv_ops =
  store_inv_create store_inv_complete store_inv_fail store_inv_cancel store_inv_gc_expired

section \<open>Abstraction\<close>

datatype 'j task_state = TWorking | TCompleted 'j | TFailed string | TCancelled

definition entry_state :: "'j Entry \<Rightarrow> 'j task_state" where
  "entry_state e =
     (case task_status (en_task e) of
        Task_completed \<Rightarrow> (case en_result e of Some r \<Rightarrow> TCompleted r | None \<Rightarrow> TWorking)
      | Task_failed \<Rightarrow> (case en_error e of Some m \<Rightarrow> TFailed m | None \<Rightarrow> TWorking)
      | Task_cancelled \<Rightarrow> TCancelled
      | _ \<Rightarrow> TWorking)"

definition task_state :: "'j TaskStore \<Rightarrow> string \<Rightarrow> 'j task_state option" where
  "task_state s tid = map_option entry_state (find_entry s tid)"

lemma entry_state_working:
  "entry_inv tid e \<Longrightarrow> entry_state e = TWorking \<longleftrightarrow> \<not> is_terminal (task_status (en_task e))"
  by (cases "task_status (en_task e)") (auto simp: entry_inv_def entry_state_def)

lemma entry_state_touch:
  "entry_state (touch_locked now (e\<lparr>en_result := Some r\<rparr>) Task_completed msg) = TCompleted r"
  "entry_state (touch_locked now (e\<lparr>en_error := Some m\<rparr>) Task_failed msg) = TFailed m"
  "entry_state (touch_locked now (e\<lparr>en_cancelled := True\<rparr>) Task_cancelled msg) = TCancelled"
  by (simp_all add: entry_state_def)

text \<open>A worker's or a client's report, with the wall clock at that moment.\<close>

datatype 'j report =
    Report_complete string 'j
  | Report_fail string string
  | Report_cancel string

fun ts_report :: "string \<Rightarrow> 'j report \<Rightarrow> 'j TaskStore \<Rightarrow> 'j TaskStore" where
  "ts_report tid (Report_complete now r) s = snd (ts_complete now tid r s)"
| "ts_report tid (Report_fail now m) s = snd (ts_fail now tid m s)"
| "ts_report tid (Report_cancel now) s = snd (snd (ts_cancel now tid s))"

fun report_state :: "'j report \<Rightarrow> 'j task_state" where
  "report_state (Report_complete now r) = TCompleted r"
| "report_state (Report_fail now m) = TFailed m"
| "report_state (Report_cancel now) = TCancelled"

lemma store_inv_report: "store_inv s \<Longrightarrow> store_inv (ts_report tid r s)"
  by (cases r) (simp_all add: store_inv_ops)

lemma task_state_report:
  assumes "store_inv s"
  shows "task_state (ts_report tid r s) tid' =
    (if tid' = tid \<and> task_state s tid' = Some TWorking then Some (report_state r)
     else task_state s tid')"
proof (cases "find_entry s tid")
  case None
  then show ?thesis
    by (cases r) (auto simp: task_state_def ts_complete_def ts_fail_def ts_cancel_def)
next
  case (Some e)
  with assms have inv: "entry_inv tid e" by (simp add: store_inv_def)
  show ?thesis
  proof (cases "is_terminal (task_status (en_task e))")
    case True
    with Some entry_state_working [OF inv] show ?thesis
      by (cases r) (auto simp: task_state_def ts_complete_def ts_fail_def ts_cancel_def)
  next
    case False
    with Some entry_state_working [OF inv] assms show ?thesis
      by (cases r) (auto simp: task_state_def ts_complete_inv ts_fail_def ts_cancel_def Let_def
          entry_state_touch)
  qed
qed

interpretation tasks: task_registry store_inv task_state TWorking ts_report report_state
proof
  show "report_state r \<noteq> TWorking" for r :: "'j report" by (cases r) simp_all
qed (simp_all add: store_inv_report task_state_report)

section \<open>Executions\<close>

text \<open>
  Calls from any number of threads take the mutex one after another: an execution is a list of
  operations, and what it tells the client is the concatenation of their notifications.
\<close>

datatype 'j ts_op =
    Op_create string string int "int64 option"
  | Op_report string "'j report"
  | Op_gc int
  | Op_set_listener
  | Op_worker_started
  | Op_worker_finished
  | Op_shutdown

fun ts_step :: "'j ts_op \<Rightarrow> 'j TaskStore \<Rightarrow> Task list \<times> 'j TaskStore" where
  "ts_step (Op_create tid now steady ttl) s = snd (ts_create tid now steady ttl s)"
| "ts_step (Op_report tid (Report_complete now r)) s = ts_complete now tid r s"
| "ts_step (Op_report tid (Report_fail now m)) s = ts_fail now tid m s"
| "ts_step (Op_report tid (Report_cancel now)) s = snd (ts_cancel now tid s)"
| "ts_step (Op_gc steady) s = ([], snd (ts_gc_expired steady s))"
| "ts_step Op_set_listener s = ([], set_status_listener s)"
| "ts_step Op_worker_started s = ([], worker_started s)"
| "ts_step Op_worker_finished s = ([], worker_finished s)"
| "ts_step Op_shutdown s = ([], shutdown_begin s)"

fun ts_run :: "'j ts_op list \<Rightarrow> 'j TaskStore \<Rightarrow> Task list \<times> 'j TaskStore" where
  "ts_run [] s = ([], s)"
| "ts_run (op # ops) s =
     (let (ns, s') = ts_step op s; (ns', s'') = ts_run ops s' in (ns @ ns', s''))"

lemma ts_step_report: "snd (ts_step (Op_report tid r) s) = ts_report tid r s"
  by (cases r) simp_all

lemma store_inv_step: "store_inv s \<Longrightarrow> store_inv (snd (ts_step op s))"
proof (cases op)
  case (Op_report tid r)
  moreover assume "store_inv s"
  ultimately show ?thesis by (simp only: ts_step_report store_inv_report)
qed (auto simp: store_inv_ops intro: store_inv_cong simp: set_status_listener_def
    worker_started_def worker_finished_def shutdown_begin_def)

lemma store_inv_run: "store_inv s \<Longrightarrow> store_inv (snd (ts_run ops s))"
proof (induction ops arbitrary: s)
  case (Cons op ops)
  from Cons.IH [OF store_inv_step [OF Cons.prems, of op]] show ?case
    by (auto simp: Let_def split: prod.split)
qed simp

lemma ts_run_snoc:
  "ts_run (ops @ [op]) s =
     (let (ns, s') = ts_run ops s; (ns', s'') = ts_step op s' in (ns @ ns', s''))"
  by (induction ops arbitrary: s) (auto simp: Let_def split: prod.splits)

section \<open>Notifications\<close>

definition statuses :: "string \<Rightarrow> Task list \<Rightarrow> TaskStatus list" where
  "statuses tid ns = map task_status (filter (\<lambda>t. task_taskId t = tid) ns)"

lemma statuses_simps [simp]:
  "statuses tid [] = []"
  "statuses tid (t # ns) = (if task_taskId t = tid then [task_status t] else []) @ statuses tid ns"
  "statuses tid (ns @ ns') = statuses tid ns @ statuses tid ns'"
  by (simp_all add: statuses_def)

definition status_at :: "'j TaskStore \<Rightarrow> string \<Rightarrow> TaskStatus option" where
  "status_at s tid = map_option (\<lambda>e. task_status (en_task e)) (find_entry s tid)"

fun report_status :: "'j report \<Rightarrow> TaskStatus" where
  "report_status (Report_complete now r) = Task_completed"
| "report_status (Report_fail now m) = Task_failed"
| "report_status (Report_cancel now) = Task_cancelled"

lemma report_status_terminal [simp]: "is_terminal (report_status r)"
  by (cases r) simp_all

lemma status_at_working:
  "store_inv s \<Longrightarrow> status_at s tid = Some st \<Longrightarrow> is_terminal st \<or> st = Task_working"
  by (cases st) (auto simp: status_at_def store_inv_def entry_inv_def)

lemma status_at_report:
  assumes "store_inv s"
  shows "status_at (ts_report tid r s) t =
    (if t = tid \<and> status_at s t = Some Task_working then Some (report_status r) else status_at s t)"
proof (cases "find_entry s tid")
  case None
  then show ?thesis
    by (cases r) (auto simp: status_at_def ts_complete_def ts_fail_def ts_cancel_def)
next
  case (Some e)
  with assms have inv: "entry_inv tid e" by (simp add: store_inv_def)
  show ?thesis
  proof (cases "is_terminal (task_status (en_task e))")
    case True
    with Some show ?thesis
      by (cases r) (auto simp: status_at_def ts_complete_def ts_fail_def ts_cancel_def)
  next
    case False
    with Some entry_inv_working [OF inv] assms show ?thesis
      by (cases r) (auto simp: status_at_def ts_complete_inv ts_fail_def ts_cancel_def Let_def)
  qed
qed

lemma statuses_report:
  assumes "store_inv s" "ts_listener s"
  shows "statuses t (fst (ts_step (Op_report tid r) s)) =
    (if t = tid \<and> status_at s t = Some Task_working then [report_status r] else [])"
proof (cases "find_entry s tid")
  case None
  then show ?thesis
    by (cases r) (auto simp: status_at_def ts_complete_def ts_fail_def ts_cancel_def)
next
  case (Some e)
  with assms have inv: "entry_inv tid e" by (simp add: store_inv_def)
  then have id: "task_taskId (en_task e) = tid" by (simp add: entry_inv_def)
  show ?thesis
  proof (cases "is_terminal (task_status (en_task e))")
    case True
    with Some show ?thesis
      by (cases r) (auto simp: status_at_def ts_complete_def ts_fail_def ts_cancel_def)
  next
    case False
    with Some entry_inv_working [OF inv] assms id show ?thesis
      by (cases r)
        (auto simp: status_at_def ts_complete_inv ts_fail_def ts_cancel_def Let_def notify_def)
  qed
qed

lemma listener_report: "ts_listener (ts_report tid r s) = ts_listener s"
  by (cases r) (simp_all add: ts_complete_def ts_fail_def ts_cancel_def Let_def split: option.split)

fun created_by :: "'j ts_op \<Rightarrow> string list" where
  "created_by (Op_create tid now steady ttl) = [tid]"
| "created_by op = []"

definition created :: "'j ts_op list \<Rightarrow> string list" where
  "created ops = concat (map created_by ops)"

lemma created_simps [simp]:
  "created [] = []"
  "created (op # ops) = created_by op @ created ops"
  "created (ops @ ops') = created ops @ created ops'"
  by (simp_all add: created_def)

text \<open>What a client has been told of a task, by the store's state.\<close>

definition told :: "'j TaskStore \<Rightarrow> string \<Rightarrow> TaskStatus list \<Rightarrow> bool" where
  "told s tid sts \<longleftrightarrow>
     (case status_at s tid of
        None \<Rightarrow> sts = [] \<or> (\<exists>st. is_terminal st \<and> sts = [Task_working, st])
      | Some st \<Rightarrow> sts = Task_working # (if is_terminal st then [st] else []))"

lemma listener_step:
  "ts_listener s \<Longrightarrow> ts_listener (snd (ts_step op s))"
proof (cases op)
  case (Op_report tid r)
  moreover assume "ts_listener s"
  ultimately show ?thesis by (simp only: ts_step_report listener_report)
qed (simp_all add: ts_create_def Let_def ts_gc_expired_def set_status_listener_def
    worker_started_def worker_finished_def shutdown_begin_def)

lemma told_step:
  assumes inv: "store_inv s" "ts_listener s" and told: "told s tid sts"
    and fresh: "tid \<in> set (created_by op) \<Longrightarrow> sts = []"
  shows "told (snd (ts_step op s)) tid (sts @ statuses tid (fst (ts_step op s)))"
proof (cases op)
  case (Op_create t now steady ttl)
  have find: "status_at (snd (ts_step op s)) tid =
      (if tid = t \<and> status_at s tid = None then Some Task_working else status_at s tid)"
    using Op_create by (auto simp: status_at_def find_create new_entry_def)
  have sts: "statuses tid (fst (ts_step op s)) = (if tid = t then [Task_working] else [])"
    using Op_create inv(2) by (simp add: ts_create_def Let_def notify_def new_entry_def)
  show ?thesis
    using told fresh find sts Op_create by (auto simp: told_def split: option.splits)
next
  case (Op_report t r)
  have "status_at (snd (ts_step op s)) tid =
      (if tid = t \<and> status_at s tid = Some Task_working then Some (report_status r)
       else status_at s tid)"
    unfolding Op_report ts_step_report by (rule status_at_report [OF inv(1)])
  with told show ?thesis unfolding Op_report statuses_report [OF inv]
    by (auto simp: told_def split: option.splits if_splits)
next
  case (Op_gc now)
  have "distinct (map fst (ts_entries s))" using inv(1) by (simp add: store_inv_def)
  with Op_gc told show ?thesis
    by (auto simp: told_def status_at_def find_gc_expired expired_def split: option.splits)
qed (use told in \<open>simp_all add: told_def status_at_def find_entry_def set_status_listener_def
    worker_started_def worker_finished_def shutdown_begin_def\<close>)

lemma told_run:
  assumes "distinct (created ops)" "store_inv s" "ts_listener s"
    and "\<And>tid. find_entry s tid = None"
  shows "told (snd (ts_run ops s)) tid (statuses tid (fst (ts_run ops s))) \<and>
    ts_listener (snd (ts_run ops s)) \<and>
    (statuses tid (fst (ts_run ops s)) \<noteq> [] \<longrightarrow> tid \<in> set (created ops))"
  using assms(1)
proof (induction ops rule: rev_induct)
  case Nil
  show ?case using assms by (simp add: told_def status_at_def)
next
  case (snoc op ops)
  let ?s = "snd (ts_run ops s)" and ?sts = "statuses tid (fst (ts_run ops s))"
  from snoc have IH: "told ?s tid ?sts" "ts_listener ?s" "?sts \<noteq> [] \<longrightarrow> tid \<in> set (created ops)"
    by simp_all
  from snoc.prems IH(3) have fresh: "tid \<in> set (created_by op) \<Longrightarrow> ?sts = []" by auto
  have step: "told (snd (ts_step op ?s)) tid (?sts @ statuses tid (fst (ts_step op ?s)))"
    using store_inv_run [OF assms(2)] IH(2) IH(1) fresh by (rule told_step)
  have new: "statuses tid (fst (ts_step op ?s)) \<noteq> [] \<Longrightarrow>
      ?sts = [] \<Longrightarrow> tid \<in> set (created_by op)"
  proof -
    assume "statuses tid (fst (ts_step op ?s)) \<noteq> []" and sts: "?sts = []"
    moreover have "status_at ?s tid = None"
      using IH(1) sts by (simp add: told_def split: option.splits)
    ultimately show ?thesis
      using statuses_report [OF store_inv_run [OF assms(2)] IH(2)]
      by (cases op) (auto simp: ts_create_def Let_def notify_def new_entry_def split: if_splits)
  qed
  show ?case
    using step listener_step [OF IH(2), of op] new IH(3)
    by (auto simp: ts_run_snoc Let_def split: prod.split)
qed

section \<open>Waiting, listing, expiry\<close>

lemma wait_result_at:
  "list_all (\<lambda>s. \<not> wait_over tid s) before \<Longrightarrow> wait_over tid s \<Longrightarrow>
     ts_wait_result J tid (before @ s # after) = emap Some (wait_outcome J tid s)"
  by (induction before) auto

lemma wait_outcome_state:
  assumes "store_inv s"
  shows "wait_outcome J tid s =
    (case task_state s tid of
       None \<Rightarrow> Inl (Error J invalid_request (''task not found: '' @ tid))
     | Some (TCompleted r) \<Rightarrow> Inr r
     | Some (TFailed m) \<Rightarrow> Inl (Error J internal_error (''task failed: '' @ m))
     | Some TCancelled \<Rightarrow> Inl (Error J invalid_request (''task cancelled: '' @ tid))
     | Some TWorking \<Rightarrow> Inl (Error J internal_error ''server shutting down before task completed''))"
proof (cases "find_entry s tid")
  case None
  then show ?thesis by (simp add: wait_outcome_def task_state_def)
next
  case (Some e)
  with assms have "entry_inv tid e" by (simp add: store_inv_def)
  with Some show ?thesis
    by (cases "task_status (en_task e)")
      (auto simp: wait_outcome_def task_state_def entry_state_def entry_inv_def)
qed

definition tasks_in_order :: "'j TaskStore \<Rightarrow> Task list" where
  "tasks_in_order s = List.map_filter (ts_get s) (ts_order s)"

lemma map_filter_total:
  "(\<And>x. x \<in> set xs \<Longrightarrow> f x \<noteq> None) \<Longrightarrow> List.map_filter f xs = map (\<lambda>x. the (f x)) xs"
  by (simp add: List.map_filter_def comp_def)

lemma ordered_task: "store_inv s \<Longrightarrow> tid \<in> set (ts_order s) \<Longrightarrow> ts_get s tid \<noteq> None"
  by (auto simp: store_inv_def ts_get_def)

lemma tasks_in_order_map:
  "store_inv s \<Longrightarrow> tasks_in_order s = map (\<lambda>tid. the (ts_get s tid)) (ts_order s)"
  unfolding tasks_in_order_def by (rule map_filter_total) (rule ordered_task)

lemma list_cursor_eq:
  assumes "pred_option (\<lambda>c. length c \<le> 20) cursor"
  shows "list_cursor J cursor = decode_cursor J cursor"
proof (cases cursor)
  case (Some c)
  show ?thesis
  proof (cases "decode_cursor J cursor")
    case (Inl e)
    then have "e = bad_cursor J c" "c \<noteq> []"
      using Some by (auto simp: decode_cursor_def split: if_splits option.splits)
    moreover have "\<not> list_all is_digit c \<or> 2 ^ 64 \<le> dec_value c"
    proof (rule ccontr)
      assume "\<not> ?thesis"
      with Some \<open>c \<noteq> []\<close> assms have "decode_cursor J cursor = Inr (of_nat (dec_value c))"
        by (simp add: decode_cursor_eq_Inr_iff unat_of_nat_64)
      with Inl show False by simp
    qed
    ultimately show ?thesis using Some Inl by (simp only: list_cursor_def bad_cursor_def) simp
  next
    case (Inr w)
    then show ?thesis
      using Some decode_cursor_eq_Inr_iff [of J c w]
      by (auto simp: list_cursor_def word_unat_eq_iff unat_of_nat_64 split: if_splits)
  qed
qed (simp add: list_cursor_def decode_cursor_def)

lemma ts_list_slice:
  fixes s :: "'j TaskStore"
  assumes inv: "store_inv s" and size: "length (ts_order s) + unat page_size < 2 ^ 64"
  shows "ts_list J cursor page_size s =
    ebind (list_cursor J cursor) (\<lambda>offset.
      emap (\<lambda>(page, next). \<lparr>ltkr_tasks = page, ltkr_next_cursor = next\<rparr>)
        (paginate (tasks_in_order s) offset page_size))"
proof (cases "list_cursor J cursor")
  case (Inl e)
  then show ?thesis by (simp add: ts_list_def)
next
  case (Inr offset)
  let ?n = "length (ts_order s)"
  have n: "?n < 2 ^ 64" "length (tasks_in_order s) = ?n"
    using size by (simp_all add: tasks_in_order_map [OF inv])
  have slice: "List.map_filter (ts_get s) (take k (drop j (ts_order s))) =
      take k (drop j (tasks_in_order s))" for j k
    unfolding tasks_in_order_map [OF inv]
    by (subst map_filter_total)
      (auto simp: take_map drop_map dest!: in_set_takeD in_set_dropD ordered_task [OF inv])
  note un = unat_of_nat_64 [OF n(1)]
  show ?thesis
  proof (cases "offset \<ge> of_nat ?n")
    case True
    with Inr n(2) show ?thesis by (simp add: ts_list_def paginate_def Let_def)
  next
    case False
    then have lt: "unat offset < ?n" by (simp add: word_le_nat_alt un)
    with size have sum: "unat (offset + page_size) = unat offset + unat page_size"
      by (intro unat_add_64) simp
    show ?thesis
    proof (cases "page_size = 0 \<or> ?n \<le> unat offset + unat page_size")
      case True
      with Inr False lt sum n show ?thesis
        by (auto simp: ts_list_def paginate_def Let_def slice un sum word_le_nat_alt
            word_less_nat_alt min_def)
    next
      case short: False
      with Inr False lt sum n show ?thesis
        by (auto simp: ts_list_def paginate_def Let_def slice un sum word_le_nat_alt
            word_less_nat_alt min_def iterator_range_def)
    qed
  qed
qed

section \<open>Properties\<close>

text \<open>
  C37: In every execution of the store, whatever the threads call and in whatever order, the ids in
  \<open>order_\<close> are those of the entries, every entry carries its own id, and the cancellation flag,
  the result and the error of a task are there exactly when its status is cancelled, completed
  and failed.
\<close>

theorem task_store_invariant: "store_inv (snd (ts_run ops TaskStore_init))"
  by (rule store_inv_run) (rule store_inv_init)

text \<open>
  C10: The first of the reports \<open>complete\<close>, \<open>fail\<close> and \<open>cancel\<close> for a working task settles it, and
  what any thread reports afterwards, for this or another task, does not change it any more.
\<close>

theorem first_report_settles_task:
  assumes "store_inv s" and "task_state s tid = Some TWorking"
  shows "task_state (fold (\<lambda>(t, r). ts_report t r) rs s) tid =
    Some (case filter (\<lambda>(t, r). t = tid) rs of [] \<Rightarrow> TWorking | (t, r) # _ \<Rightarrow> report_state r)"
  using tasks.first_report_wins [OF assms, of rs] by (simp only: tasks.reports_def)

theorem first_report_settles_task_witness:
  "task_state (fold (\<lambda>(t, r). ts_report t r)
       [(''b'', Report_fail ''t1'' ''x''), (''a'', Report_cancel ''t2''), (''a'', Report_complete ''t3'' (5 :: nat))]
       (snd (snd (ts_create ''a'' ''t0'' 0 None TaskStore_init)))) ''a'' =
     Some (case filter (\<lambda>(t, r). t = ''a'')
        [(''b'', Report_fail ''t1'' ''x''), (''a'', Report_cancel ''t2''), (''a'', Report_complete ''t3'' (5 :: nat))]
      of [] \<Rightarrow> TWorking | (t, r) # _ \<Rightarrow> report_state r)"
proof (rule first_report_settles_task)
  show "store_inv (snd (snd (ts_create ''a'' ''t0'' 0 None TaskStore_init)))"
    by (rule store_inv_create) (rule store_inv_init)
  show "task_state (snd (snd (ts_create ''a'' ''t0'' 0 None TaskStore_init))) ''a'' = Some TWorking"
    by (simp add: task_state_def find_create new_entry_def entry_state_def)
qed

text \<open>
  As long as ids are not reused, a client with a status listener is told of each task that it is
  working and then, once, of the terminal status the store holds for it: never twice, never after
  another terminal status, and of no task that was not created.
\<close>

theorem task_notifications:
  assumes "distinct (created ops)"
  shows "case ts_run ops (set_status_listener TaskStore_init) of
    (ns, s) \<Rightarrow>
      (case status_at s tid of
         Some st \<Rightarrow> statuses tid ns = Task_working # (if is_terminal st then [st] else [])
       | None \<Rightarrow> statuses tid ns = [] \<or> (\<exists>st. is_terminal st \<and> statuses tid ns = [Task_working, st]))"
proof -
  have "store_inv (set_status_listener TaskStore_init :: 'a TaskStore)"
    by (rule store_inv_cong [OF _ _ store_inv_init]) (simp_all add: set_status_listener_def)
  moreover have "find_entry (set_status_listener TaskStore_init :: 'a TaskStore) t = None" for t
    by (simp add: find_entry_def set_status_listener_def TaskStore_init_def)
  moreover have "ts_listener (set_status_listener TaskStore_init :: 'a TaskStore)"
    by (simp add: set_status_listener_def)
  ultimately show ?thesis
    using told_run [OF assms, of "set_status_listener TaskStore_init" tid]
    by (auto simp: told_def split: prod.splits option.splits)
qed

theorem task_notifications_witness:
  "case ts_run [Op_create ''a'' ''t0'' 0 None, Op_report ''a'' (Report_cancel ''t1''),
        Op_report ''a'' (Report_complete ''t2'' (5 :: nat))] (set_status_listener TaskStore_init) of
     (ns, s) \<Rightarrow>
       (case status_at s ''a'' of
          Some st \<Rightarrow> statuses ''a'' ns = Task_working # (if is_terminal st then [st] else [])
        | None \<Rightarrow> statuses ''a'' ns = [] \<or>
            (\<exists>st. is_terminal st \<and> statuses ''a'' ns = [Task_working, st]))"
  by (rule task_notifications) simp

text \<open>
  A call waiting for a result returns at the first moment it sees the task settled, gone, or
  the store shutting down, and returns what the store then holds: the result that was reported, or
  the error that names the failure, the cancellation, the missing task or the shutdown. The case
  "completed without a result payload" does not occur.
\<close>

theorem wait_result_returns_state:
  assumes "store_inv s" and "list_all (\<lambda>s. \<not> wait_over tid s) before" and "wait_over tid s"
  shows "ts_wait_result J tid (before @ s # after) =
    (case task_state s tid of
       None \<Rightarrow> Inl (Error J invalid_request (''task not found: '' @ tid))
     | Some (TCompleted r) \<Rightarrow> Inr (Some r)
     | Some (TFailed m) \<Rightarrow> Inl (Error J internal_error (''task failed: '' @ m))
     | Some TCancelled \<Rightarrow> Inl (Error J invalid_request (''task cancelled: '' @ tid))
     | Some TWorking \<Rightarrow> Inl (Error J internal_error ''server shutting down before task completed''))"
  unfolding wait_result_at [OF assms(2,3)] wait_outcome_state [OF assms(1)]
  by (simp split: option.split task_state.split)

theorem wait_result_returns_state_witness:
  fixes created completed :: "jv TaskStore"
  defines "created \<equiv> snd (snd (ts_create ''a'' ''t0'' 0 None TaskStore_init))"
  defines "completed \<equiv> ts_report ''a'' (Report_complete ''t1'' (VBool True)) created"
  shows "ts_wait_result jv_ops ''a'' ([created] @ completed # []) =
    (case task_state completed ''a'' of
       None \<Rightarrow> Inl (Error jv_ops invalid_request (''task not found: '' @ ''a''))
     | Some (TCompleted r) \<Rightarrow> Inr (Some r)
     | Some (TFailed m) \<Rightarrow> Inl (Error jv_ops internal_error (''task failed: '' @ m))
     | Some TCancelled \<Rightarrow> Inl (Error jv_ops invalid_request (''task cancelled: '' @ ''a''))
     | Some TWorking \<Rightarrow>
         Inl (Error jv_ops internal_error ''server shutting down before task completed''))"
proof (rule wait_result_returns_state)
  show "store_inv completed"
    unfolding completed_def created_def
    by (intro store_inv_report store_inv_create store_inv_init)
  show "list_all (\<lambda>s. \<not> wait_over ''a'' s) [created]"
    by (simp add: created_def wait_over_def find_create)
      (simp add: new_entry_def ts_create_def Let_def TaskStore_init_def)
  show "wait_over ''a'' completed"
    by (simp add: completed_def created_def wait_over_def ts_complete_def find_create
        new_entry_def Let_def)
qed

text \<open>
  C40: \<open>TaskStore::list\<close> answers as the server's \<open>paginate\<close> does on the tasks in creation order,
  for every cursor of at most 20 characters and as long as offset and page size do not wrap.
\<close>

theorem task_list_is_paginate:
  assumes "store_inv s" and "length (ts_order s) + unat page_size < 2 ^ 64"
    and "pred_option (\<lambda>c. length c \<le> 20) cursor"
  shows "ts_list J cursor page_size s =
    emap (\<lambda>(page, next). \<lparr>ltkr_tasks = page, ltkr_next_cursor = next\<rparr>)
      (list_page J (tasks_in_order s) cursor page_size)"
  unfolding ts_list_slice [OF assms(1,2)] list_cursor_eq [OF assms(3)] list_page_def
  by (cases "decode_cursor J cursor") simp_all

theorem task_list_is_paginate_witness:
  "ts_list jv_ops (Some ''0'') 1 (TaskStore_init :: jv TaskStore) =
     emap (\<lambda>(page, next). \<lparr>ltkr_tasks = page, ltkr_next_cursor = next\<rparr>)
       (list_page jv_ops (tasks_in_order (TaskStore_init :: jv TaskStore)) (Some ''0'') 1)"
  by (rule task_list_is_paginate [OF store_inv_init]) (simp_all add: TaskStore_init_def)

text \<open>
  The two cursor formats differ: a cursor of more than 20 digits whose value fits, such as one
  with leading zeros, is taken by \<open>TaskStore::list\<close> and refused by \<open>decode_cursor\<close>.
\<close>

theorem list_cursor_is_laxer:
  assumes "list_all is_digit c" and "20 < length c" and "dec_value c < 2 ^ 64"
  shows "list_cursor J (Some c) = Inr (of_nat (dec_value c)) \<and>
    decode_cursor J (Some c) = Inl (bad_cursor J c)"
  using assms by (auto simp: list_cursor_def decode_cursor_def)

theorem list_cursor_is_laxer_witness:
  "list_cursor jv_ops (Some ''000000000000000000001'') = Inr (of_nat (dec_value ''000000000000000000001'')) \<and>
     decode_cursor jv_ops (Some ''000000000000000000001'') = Inl (bad_cursor jv_ops ''000000000000000000001'')"
  by (rule list_cursor_is_laxer) (simp_all add: is_digit_def digit_value_def)

text \<open>
  \<open>gc_expired\<close> removes exactly the terminal tasks whose age has reached their ttl, from the
  entries and from the order, and never a working task or one without a ttl.
\<close>

theorem gc_removes_expired:
  assumes "store_inv s"
  shows "ts_order (snd (ts_gc_expired now s)) =
      filter (\<lambda>tid. \<not> (\<exists>e. find_entry s tid = Some e \<and> expired now e)) (ts_order s) \<and>
    task_state (snd (ts_gc_expired now s)) tid =
      (if \<exists>e. find_entry s tid = Some e \<and> expired now e then None else task_state s tid) \<and>
    (task_state s tid = Some TWorking \<longrightarrow> task_state (snd (ts_gc_expired now s)) tid = Some TWorking)"
proof -
  have d: "distinct (map fst (ts_entries s))" using assms by (simp add: store_inv_def)
  have state: "task_state (snd (ts_gc_expired now s)) tid =
      (if \<exists>e. find_entry s tid = Some e \<and> expired now e then None else task_state s tid)"
    by (auto simp: task_state_def find_gc_expired [OF d] split: option.split)
  moreover have "task_state s tid = Some TWorking \<Longrightarrow>
      \<not> (\<exists>e. find_entry s tid = Some e \<and> expired now e)"
    using assms entry_state_working by (fastforce simp: task_state_def expired_def store_inv_def)
  ultimately show ?thesis using order_gc_expired [OF assms, of now] by auto
qed

theorem gc_removes_expired_witness:
  fixes s :: "jv TaskStore"
  defines "s \<equiv> snd (ts_run [Op_create ''a'' ''t0'' 0 (Some 5), Op_create ''b'' ''t0'' 0 (Some 5),
    Op_report ''a'' (Report_cancel ''t1'')] TaskStore_init)"
  shows "ts_order (snd (ts_gc_expired 6000000 s)) =
      filter (\<lambda>tid. \<not> (\<exists>e. find_entry s tid = Some e \<and> expired 6000000 e)) (ts_order s) \<and>
    task_state (snd (ts_gc_expired 6000000 s)) ''b'' = Some TWorking"
proof -
  have "task_state s ''b'' = Some TWorking" unfolding s_def by code_simp
  with gc_removes_expired [of s 6000000 "''b''"] show ?thesis
    using store_inv_run [OF store_inv_init] unfolding s_def by blast
qed

text \<open>
  \<open>shutdown\<close> settles no task: whatever it is called on, every task keeps its state, and a waiter
  for a working task is released with an error instead.
\<close>

theorem shutdown_keeps_tasks:
  assumes "store_inv s"
  shows "task_state (shutdown_begin s) tid = task_state s tid \<and>
    (task_state s tid = Some TWorking \<longrightarrow>
       ts_wait_result J tid [shutdown_begin s] =
         Inl (Error J internal_error ''server shutting down before task completed''))"
proof -
  have same: "find_entry (shutdown_begin s) = find_entry s"
    by (simp add: find_entry_def [abs_def] shutdown_begin_def)
  then have state: "task_state (shutdown_begin s) tid = task_state s tid"
    by (simp add: task_state_def)
  have inv: "store_inv (shutdown_begin s)"
    using assms by (rule store_inv_cong [rotated 2]) (simp_all add: shutdown_begin_def)
  have "wait_over tid (shutdown_begin s)"
    by (auto simp: wait_over_def same shutdown_begin_def split: option.split)
  with wait_outcome_state [OF inv, of J tid] state show ?thesis by simp
qed

theorem shutdown_keeps_tasks_witness:
  fixes s :: "jv TaskStore"
  defines "s \<equiv> snd (snd (ts_create ''a'' ''t0'' 0 None TaskStore_init))"
  shows "task_state (shutdown_begin s) ''a'' = task_state s ''a'' \<and>
    (task_state s ''a'' = Some TWorking \<longrightarrow>
       ts_wait_result jv_ops ''a'' [shutdown_begin s] =
         Inl (Error jv_ops internal_error ''server shutting down before task completed''))"
  unfolding s_def by (rule shutdown_keeps_tasks) (rule store_inv_create [OF store_inv_init])

text \<open>
  \<open>mint_task_id\<close> does not write 128 bits: without leading zeros the two halves run together and
  different draws give the same id, and the id of two draws of zero is two characters long.
\<close>

theorem mint_task_id_collides:
  "mint_task_id 0x1 0x23 = mint_task_id 0x12 0x3 \<and> mint_task_id 0 0 = ''00''"
  by code_simp

end
