(* ===== verification/Session.thy ===== *)
theory Session
  imports Rpc_Envelope Json_Value Stdio_Transport "HOL-Library.Multiset"
begin

text \<open>
  The session of src/session.cpp: parsing and dispatch of inbound frames, the handler tables with
  the mapping of exceptions to JSON-RPC errors, outbound notifications and requests, the table of
  pending requests with its timeouts, and the ways a session is closed.

  The transport is the abstract interface of include/mcp/transport.hpp: its \<open>send\<close> is an argument.
  Handlers are functions on an application state. A promise is a number, and what it is settled
  with is appended to \<open>se_settled\<close>. Each critical section of the code is one function here; the
  operations compose them without interference, and the step relation \<open>session_step\<close> interleaves
  the critical sections of any number of threads.
\<close>

section \<open>Handlers\<close>

type_synonym ('j, 's) req_handler = "'j \<Rightarrow> 's \<Rightarrow> ('j exc + 'j) \<times> 's"
type_synonym ('j, 's) note_handler = "'j \<Rightarrow> 's \<Rightarrow> ('j exc + unit) \<times> 's"

text \<open>A \<open>std::function\<close> may be empty: the tables hold options.\<close>

record ('j, 's) HandlerTables =
  ht_req :: "(string \<times> ('j, 's) req_handler option) list"
  ht_note :: "(string \<times> ('j, 's) note_handler option) list"
  ht_fallback_req :: "('j, 's) req_handler option"
  ht_fallback_note :: "('j, 's) note_handler option"

definition HandlerTables_init :: "('j, 's) HandlerTables" where
  "HandlerTables_init = \<lparr>ht_req = [], ht_note = [], ht_fallback_req = None, ht_fallback_note = None\<rparr>"

definition set_request_handler ::
    "string \<Rightarrow> ('j, 's) req_handler option \<Rightarrow> ('j, 's) HandlerTables \<Rightarrow> ('j, 's) HandlerTables" where
  "set_request_handler method h t = t\<lparr>ht_req := AList.update method h (ht_req t)\<rparr>"

definition set_notification_handler ::
    "string \<Rightarrow> ('j, 's) note_handler option \<Rightarrow> ('j, 's) HandlerTables \<Rightarrow> ('j, 's) HandlerTables" where
  "set_notification_handler method h t = t\<lparr>ht_note := AList.update method h (ht_note t)\<rparr>"

definition clear_request_handler :: "string \<Rightarrow> ('j, 's) HandlerTables \<Rightarrow> ('j, 's) HandlerTables" where
  "clear_request_handler method t = t\<lparr>ht_req := AList.delete method (ht_req t)\<rparr>"

definition clear_notification_handler ::
    "string \<Rightarrow> ('j, 's) HandlerTables \<Rightarrow> ('j, 's) HandlerTables" where
  "clear_notification_handler method t = t\<lparr>ht_note := AList.delete method (ht_note t)\<rparr>"

definition set_fallback_request_handler ::
    "('j, 's) req_handler option \<Rightarrow> ('j, 's) HandlerTables \<Rightarrow> ('j, 's) HandlerTables" where
  "set_fallback_request_handler h t = t\<lparr>ht_fallback_req := h\<rparr>"

definition set_fallback_notification_handler ::
    "('j, 's) note_handler option \<Rightarrow> ('j, 's) HandlerTables \<Rightarrow> ('j, 's) HandlerTables" where
  "set_fallback_notification_handler h t = t\<lparr>ht_fallback_note := h\<rparr>"

definition lookup_req :: "('j, 's) HandlerTables \<Rightarrow> string \<Rightarrow> ('j, 's) req_handler option" where
  "lookup_req t method =
     (case map_of (ht_req t) method of Some h \<Rightarrow> h | None \<Rightarrow> ht_fallback_req t)"

definition lookup_note :: "('j, 's) HandlerTables \<Rightarrow> string \<Rightarrow> ('j, 's) note_handler option" where
  "lookup_note t method =
     (case map_of (ht_note t) method of Some h \<Rightarrow> h | None \<Rightarrow> ht_fallback_note t)"

section \<open>Sending\<close>

text \<open>
  \<open>Transport::send\<close> returns no error, or an error code; with it comes its \<open>message()\<close>.
\<close>

type_synonym transport_send = "string \<Rightarrow> (error_code \<times> string) option"

datatype 'j send_result =
    SendOk string
  | SendSystemError error_code string
  | SendThrew "'j exc"

definition send_message :: "'j json_ops \<Rightarrow> transport_send \<Rightarrow> 'j JsonRpcMessage \<Rightarrow> 'j send_result" where
  "send_message J send msg =
     (case j_dump J (serialize_message J msg) of
        Inl w \<Rightarrow> SendThrew (JsonException w)
      | Inr str \<Rightarrow>
          (case send str of
             None \<Rightarrow> SendOk str
           | Some (ec, m) \<Rightarrow>
               SendSystemError ec (''Session::send_message: transport->send failed: '' @ m)))"

fun send_exc :: "'j send_result \<Rightarrow> 'j exc option" where
  "send_exc (SendOk str) = None"
| "send_exc (SendSystemError ec w) = Some (StdException w)"
| "send_exc (SendThrew e) = Some e"

definition params_of :: "'j json_ops \<Rightarrow> 'j \<Rightarrow> 'j option" where
  "params_of J params = (if j_is_null J params then None else Some params)"

text \<open>\<open>send_notification\<close>: the error code it returns (none on success).\<close>

definition send_notification ::
    "'j json_ops \<Rightarrow> transport_send \<Rightarrow> string \<Rightarrow> 'j \<Rightarrow> error_code option" where
  "send_notification J send method params =
     (case send_message J send
             (Notification \<lparr>note_method = method, note_params = params_of J params\<rparr>) of
        SendOk str \<Rightarrow> None
      | SendSystemError ec w \<Rightarrow> Some ec
      | SendThrew e \<Rightarrow> Some Ec_io_error)"

section \<open>Inbound frames\<close>

text \<open>
  The first half of \<open>handle_frame\<close>: \<open>None\<close> is a frame that is logged and dropped. Exceptions that
  are neither \<open>mcp::Error\<close> nor \<open>json::exception\<close> pass through to the transport.
\<close>

definition classify_frame :: "'j json_ops \<Rightarrow> string \<Rightarrow> 'j exc + 'j JsonRpcMessage option" where
  "classify_frame J raw =
     (case j_parse J raw of
        Inl w \<Rightarrow> Inr None
      | Inr j \<Rightarrow>
          ecatch (emap Some (parse_message J j))
            (\<lambda>e. case e of McpError e \<Rightarrow> Inr None | JsonException w \<Rightarrow> Inr None | _ \<Rightarrow> Inl e))"

text \<open>The \<open>catch\<close> clauses of \<open>handle_request\<close>.\<close>

fun outcome_of :: "'j json_ops \<Rightarrow> 'j exc + 'j \<Rightarrow> 'j exc + 'j outcome" where
  "outcome_of J (Inr v) = Inr (Result v)"
| "outcome_of J (Inl (McpError e)) = Inr (Failure e)"
| "outcome_of J (Inl (JsonException w)) =
     Inr (Failure \<lparr>eo_code = invalid_params, eo_message = ''invalid params: '' @ w, eo_data = j_null J\<rparr>)"
| "outcome_of J (Inl (StdException w)) =
     Inr (Failure \<lparr>eo_code = internal_error, eo_message = ''handler threw: '' @ w, eo_data = j_null J\<rparr>)"
| "outcome_of J (Inl OtherException) =
     Inr (Failure \<lparr>eo_code = internal_error, eo_message = ''handler threw a non-std exception'',
                   eo_data = j_null J\<rparr>)"
| "outcome_of J (Inl Undefined) = Inl Undefined"

text \<open>The response \<open>handle_request\<close> sends, and the state the handler leaves.\<close>

definition handle_request ::
    "'j json_ops \<Rightarrow> ('j, 's) HandlerTables \<Rightarrow> 'j JsonRpcRequest \<Rightarrow> 's \<Rightarrow>
     ('j exc + 'j JsonRpcResponse) \<times> 's" where
  "handle_request J t req s =
     (let respond = (\<lambda>out. \<lparr>resp_id = Some (req_id req), resp_outcome = out\<rparr>)
      in case lookup_req t (req_method req) of
           None \<Rightarrow>
             (Inr (respond (Failure \<lparr>eo_code = method_not_found,
                 eo_message = ''method not found: '' @ req_method req, eo_data = j_null J\<rparr>)), s)
         | Some h \<Rightarrow>
             (let (r, s') = h (case req_params req of Some p \<Rightarrow> p | None \<Rightarrow> j_null J) s
              in (emap respond (outcome_of J r), s')))"

text \<open>A failing send of the response is logged.\<close>

definition serve_request ::
    "'j json_ops \<Rightarrow> ('j, 's) HandlerTables \<Rightarrow> transport_send \<Rightarrow> 'j JsonRpcRequest \<Rightarrow> 's \<Rightarrow>
     ('j exc + string list) \<times> 's" where
  "serve_request J t send req s =
     (let (r, s') = handle_request J t req s
      in (emap (\<lambda>resp. case send_message J send (Response resp) of SendOk str \<Rightarrow> [str] | _ \<Rightarrow> []) r, s'))"

text \<open>Exceptions of a notification handler are logged: only undefined behaviour shows.\<close>

definition handle_notification ::
    "'j json_ops \<Rightarrow> ('j, 's) HandlerTables \<Rightarrow> 'j JsonRpcNotification \<Rightarrow> 's \<Rightarrow> ('j exc + unit) \<times> 's" where
  "handle_notification J t note s =
     (case lookup_note t (note_method note) of
        None \<Rightarrow> (Inr (), s)
      | Some h \<Rightarrow>
          (let (r, s') = h (case note_params note of Some p \<Rightarrow> p | None \<Rightarrow> j_null J) s
           in (ecatch r (\<lambda>e. if e = Undefined then Inl Undefined else Inr ()), s')))"

section \<open>Pending requests\<close>

text \<open>
  \<open>pd_future\<close> numbers the promise behind the callbacks \<open>resolve\<close> and \<open>reject\<close>; \<open>pd_convert\<close> is the
  conversion \<open>resolve\<close> runs, with what it throws.
\<close>

record ('j, 'v) Pending =
  pd_future :: nat
  pd_convert :: "'j \<Rightarrow> 'j exc + 'v"
  pd_deadline :: int

record ('j, 'v) SessionState =
  se_started :: bool
  se_closed :: bool
  se_next_id :: int64
  se_pending :: "(RequestId \<times> ('j, 'v) Pending) list"
  se_settled :: "(nat \<times> ('j exc + 'v)) list"
  se_timeout_thread :: bool
  se_workers_running :: nat
  se_on_closed_set :: bool
  se_closed_cb_fired :: bool
  se_on_closed_calls :: nat
  se_transport_closes :: nat

definition SessionState_init :: "('j, 'v) SessionState" where
  "SessionState_init = \<lparr>se_started = False, se_closed = False, se_next_id = 1, se_pending = [],
     se_settled = [], se_timeout_thread = False, se_workers_running = 0, se_on_closed_set = False,
     se_closed_cb_fired = False, se_on_closed_calls = 0, se_transport_closes = 0\<rparr>"

text \<open>The calls \<open>resolve(result)\<close> and \<open>reject(e)\<close>.\<close>

definition settle :: "nat \<times> ('j exc + 'v) \<Rightarrow> ('j, 'v) SessionState \<Rightarrow> ('j, 'v) SessionState" where
  "settle fr s = s\<lparr>se_settled := se_settled s @ [fr]\<rparr>"

definition rejected :: "'j exc \<Rightarrow> ('j, 'v) Pending \<Rightarrow> nat \<times> ('j exc + 'v)" where
  "rejected e p = (pd_future p, Inl e)"

definition resolved :: "'j \<Rightarrow> ('j, 'v) Pending \<Rightarrow> nat \<times> ('j exc + 'v)" where
  "resolved v p = (pd_future p, pd_convert p v)"

subsection \<open>Critical sections\<close>

definition next_id :: "('j, 'v) SessionState \<Rightarrow> RequestId \<times> ('j, 'v) SessionState" where
  "next_id s = (IdInt (se_next_id s), s\<lparr>se_next_id := se_next_id s + 1\<rparr>)"

datatype parked = Parked_ok | Parked_closed | Parked_duplicate

definition park ::
    "RequestId \<Rightarrow> ('j, 'v) Pending \<Rightarrow> ('j, 'v) SessionState \<Rightarrow> parked \<times> ('j, 'v) SessionState" where
  "park rid p s =
     (if se_closed s then (Parked_closed, s)
      else if map_of (se_pending s) rid = None
      then (Parked_ok, s\<lparr>se_pending := (rid, p) # se_pending s\<rparr>)
      else (Parked_duplicate, s))"

definition take_pending ::
    "RequestId \<Rightarrow> ('j, 'v) SessionState \<Rightarrow> ('j, 'v) Pending option \<times> ('j, 'v) SessionState" where
  "take_pending rid s =
     (map_of (se_pending s) rid, s\<lparr>se_pending := AList.delete rid (se_pending s)\<rparr>)"

definition drain ::
    "('j, 'v) SessionState \<Rightarrow> (RequestId \<times> ('j, 'v) Pending) list \<times> ('j, 'v) SessionState" where
  "drain s = (se_pending s, s\<lparr>se_pending := []\<rparr>)"

definition sweep ::
    "int \<Rightarrow> ('j, 'v) SessionState \<Rightarrow> (RequestId \<times> ('j, 'v) Pending) list \<times> ('j, 'v) SessionState" where
  "sweep now s =
     (filter (\<lambda>(rid, p). pd_deadline p \<le> now) (se_pending s),
      s\<lparr>se_pending := filter (\<lambda>(rid, p). \<not> pd_deadline p \<le> now) (se_pending s)\<rparr>)"

subsection \<open>Operations without interference\<close>

text \<open>The outcome of a response for the request that waits for it.\<close>

definition response_settlement :: "'j JsonRpcResponse \<Rightarrow> ('j, 'v) Pending \<Rightarrow> nat \<times> ('j exc + 'v)" where
  "response_settlement resp p =
     (case resp_outcome resp of
        Result v \<Rightarrow> resolved v p
      | Failure e \<Rightarrow> rejected (McpError e) p)"

definition handle_response ::
    "'j JsonRpcResponse \<Rightarrow> ('j, 'v) SessionState \<Rightarrow> ('j, 'v) SessionState" where
  "handle_response resp s =
     (case resp_id resp of
        None \<Rightarrow> s
      | Some rid \<Rightarrow>
          (case take_pending rid s of
             (None, s') \<Rightarrow> s
           | (Some p, s') \<Rightarrow> settle (response_settlement resp p) s'))"

definition request_timeout :: "int \<Rightarrow> int \<Rightarrow> int" where
  "request_timeout default_request_timeout timeout =
     (if timeout = 0 then default_request_timeout else timeout)"

definition closed_error :: "'j json_ops \<Rightarrow> 'j exc" where
  "closed_error J = Error J internal_error ''session closed''"

definition duplicate_error :: "'j json_ops \<Rightarrow> RequestId \<Rightarrow> 'j exc" where
  "duplicate_error J rid =
     Error J internal_error (''internal: duplicate request id '' @ RequestId_canonical rid)"

text \<open>
  \<open>register_pending\<close>: \<open>fut\<close> is the promise, \<open>now\<close> the clock. The second component is the frame that
  was sent, if any.
\<close>

definition register_pending ::
    "'j json_ops \<Rightarrow> transport_send \<Rightarrow> int \<Rightarrow> string \<Rightarrow> 'j \<Rightarrow> nat \<Rightarrow> ('j \<Rightarrow> 'j exc + 'v) \<Rightarrow> int \<Rightarrow> int \<Rightarrow>
     ('j, 'v) SessionState \<Rightarrow> ('j, 'v) SessionState \<times> string option" where
  "register_pending J send dflt method params fut convert timeout now s =
     (let (rid, s) = next_id s;
          req = \<lparr>req_id = rid, req_method = method, req_params = params_of J params\<rparr>;
          p = \<lparr>pd_future = fut, pd_convert = convert,
               pd_deadline = now + request_timeout dflt timeout\<rparr>
      in case park rid p s of
           (Parked_closed, s) \<Rightarrow> (settle (rejected (closed_error J) p) s, None)
         | (Parked_duplicate, s) \<Rightarrow> (settle (rejected (duplicate_error J rid) p) s, None)
         | (Parked_ok, s) \<Rightarrow>
             (case send_message J send (Request req) of
                SendOk str \<Rightarrow> (s, Some str)
              | r \<Rightarrow>
                  (case take_pending rid s of
                     (Some p, s) \<Rightarrow>
                       (settle (rejected (case send_exc r of Some e \<Rightarrow> e | None \<Rightarrow> Undefined) p) s, None)
                   | (None, s) \<Rightarrow> (s, None))))"

definition reject_all ::
    "'j exc \<Rightarrow> (RequestId \<times> ('j, 'v) Pending) list \<Rightarrow> ('j, 'v) SessionState \<Rightarrow> ('j, 'v) SessionState" where
  "reject_all e ps s = fold (\<lambda>(rid, p). settle (rejected e p)) ps s"

definition cancel_all_pending ::
    "'j exc \<Rightarrow> ('j, 'v) SessionState \<Rightarrow> ('j, 'v) SessionState" where
  "cancel_all_pending reason s = (let (ps, s) = drain s in reject_all reason ps s)"

definition timeout_error :: "'j json_ops \<Rightarrow> 'j exc" where
  "timeout_error J = Error J internal_error ''request timed out''"

text \<open>One round of \<open>timeout_loop\<close> whose wait ended by timeout at \<open>now\<close>.\<close>

definition timeout_round :: "'j json_ops \<Rightarrow> int \<Rightarrow> ('j, 'v) SessionState \<Rightarrow> ('j, 'v) SessionState" where
  "timeout_round J now s = (let (ps, s) = sweep now s in reject_all (timeout_error J) ps s)"

definition session_start :: "('j, 'v) SessionState \<Rightarrow> ('j, 'v) SessionState" where
  "session_start s =
     (if se_started s then s
      else s\<lparr>se_started := True, se_closed := False, se_timeout_thread := True\<rparr>)"

definition is_open :: "('j, 'v) SessionState \<Rightarrow> bool" where
  "is_open s \<longleftrightarrow> se_started s \<and> \<not> se_closed s"

text \<open>The callback given to \<open>Transport::on_close\<close>.\<close>

definition transport_closed_error :: "'j json_ops \<Rightarrow> 'j exc" where
  "transport_closed_error J = Error J internal_error ''transport closed''"

definition mark_closed :: "('j, 'v) SessionState \<Rightarrow> ('j, 'v) SessionState" where
  "mark_closed s =
     s\<lparr>se_closed := True, se_closed_cb_fired := True,
       se_on_closed_calls := se_on_closed_calls s +
         (if \<not> se_closed_cb_fired s \<and> se_on_closed_set s then 1 else 0)\<rparr>"

definition on_transport_close :: "'j json_ops \<Rightarrow> ('j, 'v) SessionState \<Rightarrow> ('j, 'v) SessionState" where
  "on_transport_close J s = mark_closed (cancel_all_pending (transport_closed_error J) s)"

text \<open>
  \<open>close\<close>: it waits for the request workers (\<open>None\<close>: still waiting), then closes the transport if
  this call was the one that set \<open>closed_\<close>; the transport's \<open>close\<close> fires the callback above,
  unless it has been fired before. The timeout thread is joined.
\<close>

definition session_close ::
    "'j json_ops \<Rightarrow> bool \<Rightarrow> ('j, 'v) SessionState \<Rightarrow> ('j, 'v) SessionState option" where
  "session_close J transport_fired s =
     (let first = \<not> se_closed s;
          s = s\<lparr>se_closed := True\<rparr>;
          s = cancel_all_pending (closed_error J) s
      in if se_workers_running s \<noteq> 0 then None
         else
           let s = (if first
                    then let s = s\<lparr>se_transport_closes := se_transport_closes s + 1\<rparr>
                         in if transport_fired then s else on_transport_close J s
                    else s)
           in Some (s\<lparr>se_timeout_thread := False\<rparr>))"

definition set_on_closed :: "bool \<Rightarrow> ('j, 'v) SessionState \<Rightarrow> ('j, 'v) SessionState" where
  "set_on_closed nonempty s = s\<lparr>se_on_closed_set := nonempty\<rparr>"

text \<open>\<open>send_request\<close> hands out the result as it is, \<open>send_request_void\<close> drops it.\<close>

definition send_request ::
    "'j json_ops \<Rightarrow> transport_send \<Rightarrow> int \<Rightarrow> string \<Rightarrow> 'j \<Rightarrow> nat \<Rightarrow> int \<Rightarrow> int \<Rightarrow>
     ('j, 'j) SessionState \<Rightarrow> ('j, 'j) SessionState \<times> string option" where
  "send_request J send dflt method params fut timeout now s =
     register_pending J send dflt method params fut Inr timeout now s"

definition send_request_void ::
    "'j json_ops \<Rightarrow> transport_send \<Rightarrow> int \<Rightarrow> string \<Rightarrow> 'j \<Rightarrow> nat \<Rightarrow> int \<Rightarrow> int \<Rightarrow>
     ('j, unit) SessionState \<Rightarrow> ('j, unit) SessionState \<times> string option" where
  "send_request_void J send dflt method params fut timeout now s =
     register_pending J send dflt method params fut (\<lambda>j. Inr ()) timeout now s"

text \<open>
  \<open>handle_frame\<close>: a request is handed to a new worker thread (returned), the other kinds are handled
  on the read thread.
\<close>

definition handle_frame ::
    "'j json_ops \<Rightarrow> ('j, 's) HandlerTables \<Rightarrow> string \<Rightarrow> ('j, 'v) SessionState \<Rightarrow> 's \<Rightarrow>
     ('j exc + 'j JsonRpcRequest option) \<times> ('j, 'v) SessionState \<times> 's" where
  "handle_frame J t raw s app =
     (case classify_frame J raw of
        Inl e \<Rightarrow> (Inl e, s, app)
      | Inr None \<Rightarrow> (Inr None, s, app)
      | Inr (Some (Request r)) \<Rightarrow>
          (Inr (Some r), s\<lparr>se_workers_running := se_workers_running s + 1\<rparr>, app)
      | Inr (Some (Notification n)) \<Rightarrow>
          (let (r, app') = handle_notification J t n app in (emap (\<lambda>_. None) r, s, app'))
      | Inr (Some (Response r)) \<Rightarrow> (Inr None, handle_response r s, app))"

definition worker_done :: "('j, 'v) SessionState \<Rightarrow> ('j, 'v) SessionState" where
  "worker_done s = s\<lparr>se_workers_running := se_workers_running s - 1\<rparr>"

section \<open>Interleaved threads\<close>

text \<open>
  A thread is what it still has to do. \<open>Th_settle\<close> calls the callbacks it took out of the table one
  by one, without a lock, and goes on with \<open>after\<close>.
\<close>

datatype after = Nothing | Then_mark_closed | Then_wait_workers bool

datatype ('j, 'v) thread =
    Th_park RequestId "('j, 'v) Pending"
  | Th_send RequestId
  | Th_unpark RequestId "'j exc"
  | Th_settle "(nat \<times> ('j exc + 'v)) list" after
  | Th_drain bool

text \<open>
  A configuration: the session, the threads, the number of promises made, and whether some \<open>close\<close>
  has drained the table (the last is not part of the program).
\<close>

record ('j, 'v) Config =
  cf_session :: "('j, 'v) SessionState"
  cf_threads :: "('j, 'v) thread multiset"
  cf_futures :: nat
  cf_drained :: bool

definition Config_init :: "('j, 'v) Config" where
  "Config_init = \<lparr>cf_session = session_start SessionState_init, cf_threads = {#},
     cf_futures = 0, cf_drained = False\<rparr>"

definition add_thread :: "('j, 'v) thread \<Rightarrow> ('j, 'v) Config \<Rightarrow> ('j, 'v) Config" where
  "add_thread t c = c\<lparr>cf_threads := add_mset t (cf_threads c)\<rparr>"

definition with_session :: "('j, 'v) SessionState \<Rightarrow> ('j, 'v) Config \<Rightarrow> ('j, 'v) Config" where
  "with_session s c = c\<lparr>cf_session := s\<rparr>"

text \<open>The thread \<open>t\<close> makes a step and becomes \<open>ts\<close>.\<close>

definition replace_thread ::
    "('j, 'v) thread \<Rightarrow> ('j, 'v) thread multiset \<Rightarrow> ('j, 'v) SessionState \<Rightarrow> ('j, 'v) Config \<Rightarrow> ('j, 'v) Config" where
  "replace_thread t ts s c = c\<lparr>cf_session := s, cf_threads := cf_threads c - {#t#} + ts\<rparr>"

definition settle_thread ::
    "(RequestId \<times> ('j, 'v) Pending) list \<Rightarrow> 'j exc \<Rightarrow> after \<Rightarrow> ('j, 'v) thread" where
  "settle_thread ps e a = Th_settle (map (\<lambda>(rid, p). rejected e p) ps) a"

inductive session_step :: "'j json_ops \<Rightarrow> ('j, 'v) Config \<Rightarrow> ('j, 'v) Config \<Rightarrow> bool"
  for J :: "'j json_ops" where
  request: "next_id (cf_session c) = (rid, s) \<Longrightarrow>
    session_step J c
      (add_thread (Th_park rid \<lparr>pd_future = cf_futures c, pd_convert = convert, pd_deadline = deadline\<rparr>)
        (with_session s c\<lparr>cf_futures := cf_futures c + 1\<rparr>))"
| park_ok: "Th_park rid p \<in># cf_threads c \<Longrightarrow> park rid p (cf_session c) = (Parked_ok, s) \<Longrightarrow>
    session_step J c (replace_thread (Th_park rid p) {#Th_send rid#} s c)"
| park_closed: "Th_park rid p \<in># cf_threads c \<Longrightarrow> park rid p (cf_session c) = (Parked_closed, s) \<Longrightarrow>
    session_step J c
      (replace_thread (Th_park rid p) {#Th_settle [rejected (closed_error J) p] Nothing#} s c)"
| park_duplicate: "Th_park rid p \<in># cf_threads c \<Longrightarrow> park rid p (cf_session c) = (Parked_duplicate, s) \<Longrightarrow>
    session_step J c
      (replace_thread (Th_park rid p) {#Th_settle [rejected (duplicate_error J rid) p] Nothing#} s c)"
| send_ok: "Th_send rid \<in># cf_threads c \<Longrightarrow>
    session_step J c (replace_thread (Th_send rid) {#} (cf_session c) c)"
| send_failed: "Th_send rid \<in># cf_threads c \<Longrightarrow>
    session_step J c (replace_thread (Th_send rid) {#Th_unpark rid e#} (cf_session c) c)"
| unpark: "Th_unpark rid e \<in># cf_threads c \<Longrightarrow> take_pending rid (cf_session c) = (Some p, s) \<Longrightarrow>
    session_step J c (replace_thread (Th_unpark rid e) {#Th_settle [rejected e p] Nothing#} s c)"
| unpark_raced: "Th_unpark rid e \<in># cf_threads c \<Longrightarrow> take_pending rid (cf_session c) = (None, s) \<Longrightarrow>
    session_step J c (replace_thread (Th_unpark rid e) {#} (cf_session c) c)"
| response: "resp_id resp = Some rid \<Longrightarrow> take_pending rid (cf_session c) = (Some p, s) \<Longrightarrow>
    session_step J c (add_thread (Th_settle [response_settlement resp p] Nothing) (with_session s c))"
| timeout: "se_timeout_thread (cf_session c) \<Longrightarrow> sweep now (cf_session c) = (ps, s) \<Longrightarrow>
    session_step J c (add_thread (settle_thread ps (timeout_error J) Nothing) (with_session s c))"
| timeout_exit: "se_closed (cf_session c) \<Longrightarrow>
    session_step J c (with_session (cf_session c\<lparr>se_timeout_thread := False\<rparr>) c)"
| transport_closes: "drain (cf_session c) = (ps, s) \<Longrightarrow>
    session_step J c
      (add_thread (settle_thread ps (transport_closed_error J) Then_mark_closed) (with_session s c))"
| close_begins:
    "session_step J c
      (add_thread (Th_drain (\<not> se_closed (cf_session c)))
        (with_session (cf_session c\<lparr>se_closed := True\<rparr>) c))"
| close_drains: "Th_drain first \<in># cf_threads c \<Longrightarrow> drain (cf_session c) = (ps, s) \<Longrightarrow>
    session_step J c
      (replace_thread (Th_drain first) {#settle_thread ps (closed_error J) (Then_wait_workers first)#} s c
        \<lparr>cf_drained := True\<rparr>)"
| settles: "Th_settle (fr # frs) a \<in># cf_threads c \<Longrightarrow>
    session_step J c
      (replace_thread (Th_settle (fr # frs) a) {#Th_settle frs a#} (settle fr (cf_session c)) c)"
| settled: "Th_settle [] Nothing \<in># cf_threads c \<Longrightarrow>
    session_step J c (replace_thread (Th_settle [] Nothing) {#} (cf_session c) c)"
| marks_closed: "Th_settle [] Then_mark_closed \<in># cf_threads c \<Longrightarrow>
    session_step J c (replace_thread (Th_settle [] Then_mark_closed) {#} (mark_closed (cf_session c)) c)"
| close_ends: "Th_settle [] (Then_wait_workers first) \<in># cf_threads c \<Longrightarrow>
      se_workers_running (cf_session c) = 0 \<Longrightarrow>
    session_step J c
      (replace_thread (Th_settle [] (Then_wait_workers first)) {#}
        (cf_session c\<lparr>se_transport_closes := se_transport_closes (cf_session c) + of_bool first\<rparr>) c)"
| worker_starts:
    "session_step J c
      (with_session (cf_session c\<lparr>se_workers_running := se_workers_running (cf_session c) + 1\<rparr>) c)"
| worker_ends: "0 < se_workers_running (cf_session c) \<Longrightarrow>
    session_step J c (with_session (worker_done (cf_session c)) c)"
| sets_on_closed:
    "session_step J c (with_session (set_on_closed nonempty (cf_session c)) c)"

inductive session_reachable :: "'j json_ops \<Rightarrow> ('j, 'v) Config \<Rightarrow> bool" for J :: "'j json_ops" where
  initial: "session_reachable J Config_init"
| step: "session_reachable J c \<Longrightarrow> session_step J c c' \<Longrightarrow> session_reachable J c'"

section \<open>Every promise is kept\<close>

fun thread_futures :: "('j, 'v) thread \<Rightarrow> nat multiset" where
  "thread_futures (Th_park rid p) = {#pd_future p#}"
| "thread_futures (Th_send rid) = {#}"
| "thread_futures (Th_unpark rid e) = {#}"
| "thread_futures (Th_settle frs a) = mset (map fst frs)"
| "thread_futures (Th_drain first) = {#}"

definition pending_futures :: "('j, 'v) SessionState \<Rightarrow> nat multiset" where
  "pending_futures s = mset (map (\<lambda>(rid, p). pd_future p) (se_pending s))"

definition settled_futures :: "('j, 'v) SessionState \<Rightarrow> nat multiset" where
  "settled_futures s = mset (map fst (se_settled s))"

definition balance :: "('j, 'v) SessionState \<Rightarrow> nat multiset" where
  "balance s = pending_futures s + settled_futures s"

definition thread_total :: "('j, 'v) thread multiset \<Rightarrow> nat multiset" where
  "thread_total ts = \<Sum>\<^sub># (image_mset thread_futures ts)"

definition all_futures :: "('j, 'v) Config \<Rightarrow> nat multiset" where
  "all_futures c = balance (cf_session c) + thread_total (cf_threads c)"

lemma thread_total_simps [simp]:
  "thread_total {#} = {#}"
  "thread_total (add_mset t ts) = thread_futures t + thread_total ts"
  "thread_total (ts + ts') = thread_total ts + thread_total ts'"
  by (simp_all add: thread_total_def)

lemma config_simps [simp]:
  "cf_session (with_session s c) = s"
  "cf_threads (with_session s c) = cf_threads c"
  "cf_futures (with_session s c) = cf_futures c"
  "cf_drained (with_session s c) = cf_drained c"
  "cf_session (add_thread t c) = cf_session c"
  "cf_threads (add_thread t c) = add_mset t (cf_threads c)"
  "cf_futures (add_thread t c) = cf_futures c"
  "cf_drained (add_thread t c) = cf_drained c"
  "cf_session (replace_thread t ts s c) = s"
  "cf_threads (replace_thread t ts s c) = cf_threads c - {#t#} + ts"
  "cf_futures (replace_thread t ts s c) = cf_futures c"
  "cf_drained (replace_thread t ts s c) = cf_drained c"
  by (simp_all add: with_session_def add_thread_def replace_thread_def)

lemma thread_futures_settle_thread [simp]:
  "thread_futures (settle_thread ps e a) = mset (map (\<lambda>(rid, p). pd_future p) ps)"
  by (induction ps) (auto simp: settle_thread_def rejected_def)

lemma settle_thread_not_drain [simp]:
  "settle_thread ps e a \<noteq> Th_drain first" "Th_drain first \<noteq> settle_thread ps e a"
  by (simp_all add: settle_thread_def)

lemma futures_delete:
  "distinct (map fst ps) \<Longrightarrow> map_of ps rid = Some p \<Longrightarrow>
     mset (map (\<lambda>(rid, p). pd_future p) ps) =
       add_mset (pd_future p) (mset (map (\<lambda>(rid, p). pd_future p) (AList.delete rid ps)))"
proof (induction ps)
  case (Cons q ps)
  obtain k v where q: "q = (k, v)" by fastforce
  show ?case
  proof (cases "k = rid")
    case True
    with Cons.prems q have "AList.delete rid ps = ps"
      by (auto simp: AList.delete_eq filter_id_conv rev_image_eqI)
    with True Cons.prems q show ?thesis by simp
  next
    case False
    with Cons q show ?thesis by simp
  qed
qed simp

lemma futures_sweep:
  "sweep now s = (ps, s') \<Longrightarrow>
     pending_futures s = mset (map (\<lambda>(rid, p). pd_future p) ps) + pending_futures s'"
  by (auto simp: sweep_def pending_futures_def mset_filter simp flip: image_mset_union
      multiset_partition [of "mset (se_pending s)"] intro!: arg_cong [where f = "image_mset _"])

lemma settled_simps [simp]:
  "settled_futures (settle fr s) = add_mset (fst fr) (settled_futures s)"
  "pending_futures (settle fr s) = pending_futures s"
  by (simp_all add: settle_def settled_futures_def pending_futures_def)

definition config_inv :: "('j, 'v) Config \<Rightarrow> bool" where
  "config_inv c \<longleftrightarrow>
     distinct (map fst (se_pending (cf_session c))) \<and>
     all_futures c = mset [0..<cf_futures c] \<and>
     ((\<exists>first. Th_drain first \<in># cf_threads c) \<longrightarrow> se_closed (cf_session c)) \<and>
     (cf_drained c \<longrightarrow> se_closed (cf_session c) \<and> se_pending (cf_session c) = [])"

lemma config_inv_init: "config_inv Config_init"
  by (simp add: config_inv_def Config_init_def session_start_def SessionState_init_def
      all_futures_def balance_def pending_futures_def settled_futures_def)


lemma park_cases:
  assumes "park rid p s = (r, s')"
  shows "(r = Parked_ok \<and> \<not> se_closed s \<and> map_of (se_pending s) rid = None \<and>
      s' = s\<lparr>se_pending := (rid, p) # se_pending s\<rparr>) \<or>
    (r = Parked_closed \<and> se_closed s \<and> s' = s) \<or>
    (r = Parked_duplicate \<and> \<not> se_closed s \<and> map_of (se_pending s) rid \<noteq> None \<and> s' = s)"
  using assms by (auto simp: park_def split: if_splits)

text \<open>What a step of a thread has to preserve.\<close>

lemma all_futures_replace:
  assumes "t \<in># cf_threads c"
    and "balance s + thread_total ts = balance (cf_session c) + thread_futures t"
  shows "all_futures (replace_thread t ts s c) = all_futures c"
proof -
  obtain T where T: "cf_threads c = add_mset t T" using assms(1) by (rule mset_add)
  have "all_futures (replace_thread t ts s c) = (balance s + thread_total ts) + thread_total T"
    by (simp add: all_futures_def T ac_simps)
  also have "\<dots> = all_futures c"
    unfolding assms(2) by (simp add: all_futures_def T ac_simps)
  finally show ?thesis .
qed

lemma config_inv_replace:
  assumes "config_inv c" "t \<in># cf_threads c"
    and "balance s + thread_total ts = balance (cf_session c) + thread_futures t"
    and "distinct (map fst (se_pending (cf_session c))) \<Longrightarrow> distinct (map fst (se_pending s))"
    and "\<And>first. Th_drain first \<notin># ts" and "se_closed (cf_session c) \<Longrightarrow> se_closed s"
    and "se_closed (cf_session c) \<Longrightarrow> se_pending (cf_session c) = [] \<Longrightarrow> se_pending s = []"
  shows "config_inv (replace_thread t ts s c)"
  using assms(1,4-) unfolding config_inv_def all_futures_replace [OF assms(2,3)]
  by (auto dest: in_diffD)

lemma config_inv_session:
  assumes "config_inv c" "balance s = balance (cf_session c)"
    and "distinct (map fst (se_pending (cf_session c))) \<Longrightarrow> distinct (map fst (se_pending s))"
    and "se_closed (cf_session c) \<Longrightarrow> se_closed s"
    and "se_pending (cf_session c) = [] \<Longrightarrow> se_pending s = []"
  shows "config_inv (with_session s c)"
proof -
  have "all_futures (with_session s c) = all_futures c"
    by (simp add: all_futures_def assms(2))
  with assms show ?thesis unfolding config_inv_def by auto
qed

lemma config_inv_add:
  assumes "config_inv c" "balance s + thread_futures t = balance (cf_session c)"
    and "distinct (map fst (se_pending (cf_session c))) \<Longrightarrow> distinct (map fst (se_pending s))"
    and "se_closed (cf_session c) \<Longrightarrow> se_closed s"
    and "se_pending (cf_session c) = [] \<Longrightarrow> se_pending s = []"
    and "\<And>first. t = Th_drain first \<Longrightarrow> se_closed s"
  shows "config_inv (add_thread t (with_session s c))"
proof -
  have "all_futures (add_thread t (with_session s c)) =
      (balance s + thread_futures t) + thread_total (cf_threads c)"
    by (simp add: all_futures_def ac_simps)
  also have "\<dots> = all_futures c" by (simp add: assms(2) all_futures_def)
  finally show ?thesis using assms unfolding config_inv_def by auto
qed

lemma take_pending_Some:
  assumes "take_pending rid s = (Some p, s')" "distinct (map fst (se_pending s))"
  shows "balance s = add_mset (pd_future p) (balance s')" "distinct (map fst (se_pending s'))"
    "se_closed s' = se_closed s" "se_pending s = [] \<Longrightarrow> se_pending s' = []"
  using assms futures_delete [of "se_pending s" rid p]
  by (auto simp: take_pending_def balance_def pending_futures_def settled_futures_def
      intro: distinct_delete)

lemma drain_balance:
  assumes "drain s = (ps, s')"
  shows "balance s = mset (map (\<lambda>(rid, p). pd_future p) ps) + balance s'" "se_pending s' = []"
    "se_closed s' = se_closed s"
  using assms by (auto simp: drain_def balance_def pending_futures_def settled_futures_def)

lemma sweep_balance:
  assumes "sweep now s = (ps, s')"
  shows "balance s = mset (map (\<lambda>(rid, p). pd_future p) ps) + balance s'"
    "distinct (map fst (se_pending s)) \<Longrightarrow> distinct (map fst (se_pending s'))"
    "se_closed s' = se_closed s" "se_pending s = [] \<Longrightarrow> se_pending s' = []"
  using futures_sweep [OF assms] assms
  by (auto simp: sweep_def balance_def settled_futures_def distinct_map_filter)

lemma balance_settle [simp]: "balance (settle fr s) = add_mset (fst fr) (balance s)"
  by (simp add: balance_def)

lemma settle_fields [simp]:
  "se_pending (settle fr s) = se_pending s" "se_closed (settle fr s) = se_closed s"
  by (simp_all add: settle_def)

lemma mark_closed_fields [simp]:
  "se_pending (mark_closed s) = se_pending s" "se_settled (mark_closed s) = se_settled s"
  "se_closed (mark_closed s)" "se_timeout_thread (mark_closed s) = se_timeout_thread s"
  by (simp_all add: mark_closed_def)

lemma set_on_closed_fields [simp]:
  "se_pending (set_on_closed b s) = se_pending s" "se_settled (set_on_closed b s) = se_settled s"
  "se_closed (set_on_closed b s) = se_closed s"
  by (simp_all add: set_on_closed_def)

lemma balance_update [simp]:
  "balance (s\<lparr>se_closed := b\<rparr>) = balance s"
  "balance (s\<lparr>se_timeout_thread := b\<rparr>) = balance s"
  "balance (s\<lparr>se_workers_running := n\<rparr>) = balance s"
  "balance (s\<lparr>se_transport_closes := n\<rparr>) = balance s"
  "balance (s\<lparr>se_next_id := w\<rparr>) = balance s"
  "balance (mark_closed s) = balance s"
  "balance (set_on_closed b s) = balance s"
  by (simp_all add: balance_def pending_futures_def settled_futures_def mark_closed_def
      set_on_closed_def)

lemma config_inv_step:
  assumes "session_step J c c'" "config_inv c"
  shows "config_inv c'"
  using assms
proof (cases rule: session_step.cases)
  case (request rid s convert deadline)
  then show ?thesis using assms(2)
    by (auto simp: config_inv_def next_id_def all_futures_def add_thread_def with_session_def)
next
  case (park_ok rid p s)
  note park = park_cases [OF park_ok(3)]
  show ?thesis unfolding park_ok(1)
    by (rule config_inv_replace [OF assms(2) park_ok(2)])
      (use park in \<open>auto simp: balance_def pending_futures_def settled_futures_def map_of_eq_None_iff\<close>)
next
  case (unpark rid e p s)
  have "distinct (map fst (se_pending (cf_session c)))" using assms(2) by (simp add: config_inv_def)
  note take = take_pending_Some [OF unpark(3) this]
  show ?thesis unfolding unpark(1)
    by (rule config_inv_replace [OF assms(2) unpark(2)]) (use take in \<open>auto simp: rejected_def\<close>)
next
  case (response resp rid p s)
  have "distinct (map fst (se_pending (cf_session c)))" using assms(2) by (simp add: config_inv_def)
  note take = take_pending_Some [OF response(3) this]
  show ?thesis unfolding response(1)
    by (rule config_inv_add [OF assms(2)])
      (use take in \<open>auto simp: response_settlement_def resolved_def rejected_def split: outcome.split\<close>)
next
  case (timeout now ps s)
  note sw = sweep_balance [OF timeout(3)]
  show ?thesis unfolding timeout(1)
    by (rule config_inv_add [OF assms(2)])
      (use sw in auto)
next
  case (transport_closes ps s)
  note dr = drain_balance [OF transport_closes(2)]
  show ?thesis unfolding transport_closes(1)
    by (rule config_inv_add [OF assms(2)])
      (use dr in auto)
next
  case close_begins
  show ?thesis unfolding close_begins(1)
    by (rule config_inv_add [OF assms(2)]) auto
next
  case (close_drains first ps s)
  note dr = drain_balance [OF close_drains(3)]
  have closed: "se_closed (cf_session c)"
    using assms(2) close_drains(2) by (auto simp: config_inv_def)
  have "config_inv (replace_thread (Th_drain first)
      {#settle_thread ps (closed_error J) (Then_wait_workers first)#} s c)"
    by (rule config_inv_replace [OF assms(2) close_drains(2)])
      (use dr in auto)
  with dr closed show ?thesis unfolding close_drains(1)
    by (simp add: config_inv_def all_futures_def)
next
  case (settles fr frs a)
  show ?thesis unfolding settles(1)
    by (rule config_inv_replace [OF assms(2) settles(2)]) auto
next
  case (marks_closed)
  show ?thesis unfolding marks_closed(1)
    by (rule config_inv_replace [OF assms(2) marks_closed(2)]) auto
qed (auto intro!: config_inv_replace config_inv_session [OF assms(2)]
    simp: assms(2) rejected_def worker_done_def set_on_closed_fields dest: park_cases)

lemma config_inv_reachable: "session_reachable J c \<Longrightarrow> config_inv c"
  by (induction rule: session_reachable.induct) (auto intro: config_inv_init config_inv_step)

section \<open>Request ids\<close>

definition id_of :: "nat \<Rightarrow> RequestId" where
  "id_of n = IdInt (of_nat (n + 1))"

text \<open>Ids are given out in step with the promises, and stay with their entry.\<close>

definition ids_inv :: "('j, 'v) Config \<Rightarrow> bool" where
  "ids_inv c \<longleftrightarrow>
     se_next_id (cf_session c) = of_nat (cf_futures c + 1) \<and>
     (\<forall>rid p. (rid, p) \<in> set (se_pending (cf_session c)) \<longrightarrow> rid = id_of (pd_future p)) \<and>
     (\<forall>rid p. Th_park rid p \<in># cf_threads c \<longrightarrow> rid = id_of (pd_future p))"

lemma ids_inv_init: "ids_inv Config_init"
  by (simp add: ids_inv_def Config_init_def session_start_def SessionState_init_def)

lemma next_id_fields:
  "next_id s = (rid, s') \<Longrightarrow> rid = IdInt (se_next_id s) \<and> se_next_id s' = se_next_id s + 1 \<and>
     se_pending s' = se_pending s"
  by (auto simp: next_id_def)

lemma ids_inv_step:
  assumes "session_step J c c'" "ids_inv c"
  shows "ids_inv c'"
  using assms
proof (cases rule: session_step.cases)
  case (request rid s convert deadline)
  with assms(2) next_id_fields [OF request(2)] show ?thesis
    by (auto simp: ids_inv_def id_of_def add_thread_def with_session_def ac_simps)
next
  case (park_ok rid p s)
  with assms(2) park_cases [OF park_ok(3)] show ?thesis
    by (auto simp: ids_inv_def dest: in_diffD)
qed (use assms(2) in \<open>auto simp: ids_inv_def settle_def settle_thread_def take_pending_def drain_def
    sweep_def mark_closed_def worker_done_def set_on_closed_def AList.delete_eq
    dest: in_diffD park_cases\<close>)

lemma ids_inv_reachable: "session_reachable J c \<Longrightarrow> ids_inv c"
  by (induction rule: session_reachable.induct) (auto intro: ids_inv_init ids_inv_step)

lemma id_of_inject:
  assumes "m + 1 < 2 ^ 64" "n + 1 < 2 ^ 64" "id_of m = id_of n"
  shows "m = n"
proof -
  from assms(3) have "(of_nat (m + 1) :: int64) = of_nat (n + 1)"
    by (simp only: id_of_def RequestId.inject)
  moreover have "unat (of_nat (m + 1) :: int64) = m + 1"
    by (rule unat_of_nat_64) (rule assms(1))
  moreover have "unat (of_nat (n + 1) :: int64) = n + 1"
    by (rule unat_of_nat_64) (rule assms(2))
  ultimately have "m + 1 = n + 1" by metis
  then show ?thesis by simp
qed

lemma distinct_count_le_1: "(\<And>x. count (mset xs) x \<le> 1) \<Longrightarrow> distinct xs"
proof (induction xs)
  case (Cons a xs)
  have "count (mset xs) a = 0" using Cons.prems [of a] by simp
  then have "a \<notin> set xs" by (simp add: count_eq_zero_iff)
  moreover have "count (mset xs) x \<le> 1" for x
    by (rule order_trans [OF _ Cons.prems [of x]]) simp
  ultimately show ?case using Cons.IH by simp
qed simp

lemma count_upt_mset: "count (mset [0..<n]) x \<le> 1"
  by (simp add: count_mset_set')

lemma thread_total_member: "t \<in># ts \<Longrightarrow> x \<in># thread_futures t \<Longrightarrow> x \<in># thread_total ts"
  by (auto simp: thread_total_def)

section \<open>Hooks\<close>

definition hook_inv :: "('j, 'v) SessionState \<Rightarrow> bool" where
  "hook_inv s \<longleftrightarrow>
     se_on_closed_calls s = 0 \<or> se_on_closed_calls s = 1 \<and> se_closed_cb_fired s"

lemma hook_inv_step:
  assumes "session_step J c c'" "hook_inv (cf_session c)"
  shows "hook_inv (cf_session c')"
  using assms
  by (cases rule: session_step.cases)
    (auto simp: hook_inv_def next_id_def settle_def take_pending_def drain_def sweep_def
      mark_closed_def worker_done_def set_on_closed_def dest!: park_cases split: if_splits)

lemma hook_inv_init: "hook_inv (cf_session Config_init)"
  by (simp add: hook_inv_def Config_init_def session_start_def SessionState_init_def)

lemma hook_inv_reachable: "session_reachable J c \<Longrightarrow> hook_inv (cf_session c)"
  by (induction rule: session_reachable.induct) (blast intro: hook_inv_init hook_inv_step)+

definition stranded :: "('j, 'v) Config \<Rightarrow> nat \<Rightarrow> bool" where
  "stranded c n \<longleftrightarrow>
     cf_threads c = {#} \<and> \<not> is_open (cf_session c) \<and> \<not> se_timeout_thread (cf_session c) \<and>
     n < cf_futures c \<and> n \<notin> fst ` set (se_settled (cf_session c))"

section \<open>What parsing a frame can throw\<close>

definition throws_plain :: "'j exc + 'a \<Rightarrow> bool" where
  "throws_plain m \<longleftrightarrow>
     (\<forall>e. m = Inl e \<longrightarrow> (\<exists>eo. e = McpError eo) \<or> (\<exists>w. e = JsonException w) \<or> e = Undefined)"

named_theorems plain_intros \<open>computations that throw only library and protocol errors\<close>

lemma throws_plain_Inr [plain_intros]: "throws_plain (Inr x)"
  by (simp add: throws_plain_def)

lemma throws_plain_Error [plain_intros]: "throws_plain (Inl (Error J c m))"
  by (simp add: throws_plain_def Error_def Error3_def)

lemma throws_plain_Undefined [plain_intros]: "throws_plain (Inl Undefined)"
  by (simp add: throws_plain_def)

lemma throws_plain_json_call [plain_intros]: "throws_plain (json_call m)"
  by (cases m) (simp_all add: throws_plain_def)

lemma throws_plain_ebind [plain_intros]:
  "throws_plain m \<Longrightarrow> (\<And>x. throws_plain (f x)) \<Longrightarrow> throws_plain (ebind m f)"
  by (cases m) (simp_all add: throws_plain_def)

lemma throws_plain_emap [plain_intros]: "throws_plain m \<Longrightarrow> throws_plain (emap f m)"
  by (cases m) (simp_all add: throws_plain_def)

lemma throws_plain_if [plain_intros]:
  "throws_plain m \<Longrightarrow> throws_plain m' \<Longrightarrow> throws_plain (if b then m else m')"
  by simp

lemma throws_plain_option [plain_intros]:
  "throws_plain m \<Longrightarrow> (\<And>x. throws_plain (f x)) \<Longrightarrow>
     throws_plain (case v of None \<Rightarrow> m | Some x \<Rightarrow> f x)"
  by (cases v) simp_all

lemma throws_plain_fields [plain_intros]:
  "throws_plain (get_str J j)" "throws_plain (get_i32 J j)" "throws_plain (get_i64 J j)"
  "throws_plain (get_dbl J j)"
  by (simp_all add: get_str_def get_i32_def get_i64_def get_dbl_def throws_plain_json_call)

lemma throws_plain_helpers [plain_intros]:
  assumes "\<And>v. throws_plain (get v)"
  shows "throws_plain (require J get j k)" "throws_plain (at_get J get j k)"
    "throws_plain (take_optional J get j k)"
  unfolding require_def at_get_def take_optional_def by (intro plain_intros assms)+

lemma throws_plain_take_optional_json [plain_intros]: "throws_plain (take_optional_json J j k)"
  unfolding take_optional_json_def by (intro plain_intros)

lemma throws_plain_parse_message: "throws_plain (parse_message J j)"
  unfolding parse_message_def JsonRpcRequest_from_json_def JsonRpcNotification_from_json_def
    JsonRpcResponse_from_json_def ErrorObject_from_json_def check_jsonrpc_def
    RequestId_from_json_def Let_def
  by (intro plain_intros)

lemma classify_frame_Inl: "classify_frame J raw = Inl e \<Longrightarrow> e = Undefined"
  using throws_plain_parse_message [of J]
  by (fastforce simp: classify_frame_def throws_plain_def ebind_eq_Inl_iff
      split: sum.splits exc.splits elim!: ecatch.elims emap.elims)

lemma classify_frame_Some:
  "classify_frame J raw = Inr (Some m) \<Longrightarrow>
     \<exists>j. j_parse J raw = Inr j \<and> parse_message J j = Inr m"
  by (cases "j_parse J raw"; cases "parse_message J (projr (j_parse J raw))")
    (auto simp: classify_frame_def split: exc.splits)

lemma classify_frame_parsed:
  "j_parse J raw = Inr j \<Longrightarrow> parse_message J j = Inr m \<Longrightarrow> classify_frame J raw = Inr (Some m)"
  by (simp add: classify_frame_def)

lemma parse_message_version:
  "parse_message J j = Inr m \<Longrightarrow> j_is_object J j \<and> check_jsonrpc J j = Inr ()"
  by (auto simp: parse_message_def JsonRpcRequest_from_json_def JsonRpcNotification_from_json_def
      JsonRpcResponse_from_json_def Let_def emap_eq_Inr_iff ebind_eq_Inr_iff split: if_splits)

section \<open>Rejecting in turn\<close>

lemma reject_all_fields [simp]:
  "se_pending (reject_all e ps s) = se_pending s" "se_closed (reject_all e ps s) = se_closed s"
  "se_workers_running (reject_all e ps s) = se_workers_running s"
  "se_transport_closes (reject_all e ps s) = se_transport_closes s"
  "se_settled (reject_all e ps s) = se_settled s @ map (\<lambda>(rid, p). rejected e p) ps"
  unfolding reject_all_def
  by (induction ps arbitrary: s) (auto simp: settle_def)

lemma cancel_all_pending_fields [simp]:
  "se_pending (cancel_all_pending e s) = []" "se_closed (cancel_all_pending e s) = se_closed s"
  "se_workers_running (cancel_all_pending e s) = se_workers_running s"
  "se_transport_closes (cancel_all_pending e s) = se_transport_closes s"
  "se_settled (cancel_all_pending e s) = se_settled s @ map (\<lambda>(rid, p). rejected e p) (se_pending s)"
  by (simp_all add: cancel_all_pending_def drain_def)

section \<open>Properties\<close>

text \<open>
  C3: No promise is lost and none is settled twice: in every reachable configuration each promise
  made is either parked in the table, or in the hands of exactly one thread, or settled once, and
  \<open>se_settled\<close> names no promise twice. This holds for all interleavings of requests, responses,
  failing sends, timeouts, the transport's closing and calls of \<open>close\<close>.
\<close>

theorem promises_settled_at_most_once:
  assumes "session_reachable J c"
  shows "all_futures c = mset [0..<cf_futures c] \<and> distinct (map fst (se_settled (cf_session c)))"
proof -
  have all: "all_futures c = mset [0..<cf_futures c]"
    using config_inv_reachable [OF assms] by (simp add: config_inv_def)
  have "count (settled_futures (cf_session c)) x \<le> 1" for x
  proof -
    have "count (settled_futures (cf_session c)) x \<le> count (all_futures c) x"
      by (simp add: all_futures_def balance_def)
    also have "\<dots> \<le> 1" unfolding all by (rule count_upt_mset)
    finally show ?thesis .
  qed
  then have "distinct (map fst (se_settled (cf_session c)))"
    by (intro distinct_count_le_1) (simp only: settled_futures_def)
  with all show ?thesis by simp
qed

theorem promises_settled_at_most_once_witness:
  "all_futures (Config_init :: (jv, jv) Config) = mset [0..<cf_futures (Config_init :: (jv, jv) Config)] \<and>
     distinct (map fst (se_settled (cf_session (Config_init :: (jv, jv) Config))))"
  by (rule promises_settled_at_most_once [of jv_ops]) (rule session_reachable.initial)

text \<open>
  C30: \<open>close\<close> leaves nothing behind: once a call of \<open>close\<close> has cancelled the pending requests, the
  table stays empty whatever else happens, and when no thread has anything left to do every promise
  ever made has been settled, once.
\<close>

theorem close_settles_everything:
  assumes "session_reachable J c" and "cf_drained c"
  shows "se_pending (cf_session c) = [] \<and>
    (cf_threads c = {#} \<longrightarrow> mset (map fst (se_settled (cf_session c))) = mset [0..<cf_futures c])"
  using config_inv_reachable [OF assms(1)] assms(2)
  by (auto simp: config_inv_def all_futures_def balance_def pending_futures_def settled_futures_def)

theorem close_settles_everything_witness:
  "\<exists>c :: (jv, jv) Config. cf_futures c = 1 \<and> se_pending (cf_session c) = [] \<and>
     (cf_threads c = {#} \<longrightarrow> mset (map fst (se_settled (cf_session c))) = mset [0..<cf_futures c])"
proof -
  let ?J = jv_ops
  let ?s = "session_start SessionState_init :: (jv, jv) SessionState"
  let ?p = "\<lparr>pd_future = 0, pd_convert = Inr, pd_deadline = 0\<rparr>"
  obtain c1 :: "(jv, jv) Config" where c1: "session_reachable ?J c1" "cf_futures c1 = 1" "\<not> cf_drained c1"
    using session_reachable.step [OF session_reachable.initial session_step.request
        [where c = Config_init and J = ?J and convert = Inr and deadline = 0, OF surjective_pairing]]
    by (fastforce simp: Config_init_def)
  let ?c2 = "add_thread (Th_drain (\<not> se_closed (cf_session c1)))
    (with_session (cf_session c1\<lparr>se_closed := True\<rparr>) c1)"
  have c2: "session_reachable ?J ?c2"
    by (rule session_reachable.step [OF c1(1)]) (rule session_step.close_begins)
  obtain ps s where d: "drain (cf_session ?c2) = (ps, s)" by fastforce
  let ?c3 = "replace_thread (Th_drain (\<not> se_closed (cf_session c1)))
    {#settle_thread ps (closed_error ?J) (Then_wait_workers (\<not> se_closed (cf_session c1)))#} s ?c2
    \<lparr>cf_drained := True\<rparr>"
  have "session_reachable ?J ?c3"
    by (rule session_reachable.step [OF c2]) (rule session_step.close_drains [OF _ d], simp)
  from close_settles_everything [OF this] c1(2) show ?thesis
    by (intro exI [of _ ?c3]) simp
qed

text \<open>
  The callback for the transport's closing cancels the pending requests before it sets
  \<open>closed_\<close>. A request registered between the two is parked on a session that is closed a moment
  later: the session is not open, the timeout thread has ended, no thread has anything left to do,
  and the promise is not settled.
\<close>

theorem request_lost_at_transport_close:
  fixes convert :: "'j \<Rightarrow> 'j exc + 'v"
  shows "\<exists>c :: ('j, 'v) Config. session_reachable J c \<and> stranded c 0"
proof -
  let ?p = "\<lparr>pd_future = 0, pd_convert = convert, pd_deadline = 30000\<rparr>"
  let ?id = "IdInt 1"
  let ?s = "session_start SessionState_init :: ('j, 'v) SessionState"
  let ?Thm = "Th_settle [] Then_mark_closed :: ('j, 'v) thread"
  define config :: "('j, 'v) SessionState \<Rightarrow> ('j, 'v) thread multiset \<Rightarrow> ('j, 'v) Config"
    where "config = (\<lambda>s ts. \<lparr>cf_session = s, cf_threads = ts, cf_futures = 1, cf_drained = False\<rparr>)"
  let ?s1 = "?s\<lparr>se_next_id := 2\<rparr>"
  let ?s2 = "?s1\<lparr>se_pending := [(?id, ?p)]\<rparr>"
  have start: "se_next_id ?s = 1" "se_pending ?s = []" "\<not> se_closed ?s" "se_settled ?s = []"
    by (simp_all add: session_start_def SessionState_init_def)
  have "session_step J Config_init (config ?s1 {#Th_park ?id ?p#})"
    using session_step.request [of "Config_init :: ('j, 'v) Config" ?id ?s1 J convert 30000] start
    by (simp add: next_id_def Config_init_def config_def add_thread_def with_session_def)
  note r1 = session_reachable.step [OF session_reachable.initial this]
  have "session_step J (config ?s1 {#Th_park ?id ?p#}) (config ?s1 {#?Thm, Th_park ?id ?p#})"
    using session_step.transport_closes [of "config ?s1 {#Th_park ?id ?p#}" "[]" ?s1 J] start
    by (simp add: drain_def config_def add_thread_def with_session_def settle_thread_def)
  note r2 = session_reachable.step [OF r1 this]
  have "session_step J (config ?s1 {#?Thm, Th_park ?id ?p#}) (config ?s2 {#Th_send ?id, ?Thm#})"
    using session_step.park_ok [of ?id ?p "config ?s1 {#?Thm, Th_park ?id ?p#}" ?s2 J] start
    by (simp add: park_def config_def replace_thread_def)
  note r3 = session_reachable.step [OF r2 this]
  have "session_step J (config ?s2 {#Th_send ?id, ?Thm#}) (config ?s2 {#?Thm#})"
    using session_step.send_ok [of ?id "config ?s2 {#Th_send ?id, ?Thm#}" J]
    by (simp add: config_def replace_thread_def)
  note r4 = session_reachable.step [OF r3 this]
  have "session_step J (config ?s2 {#?Thm#}) (config (mark_closed ?s2) {#})"
    using session_step.marks_closed [of "config ?s2 {#?Thm#}" J]
    by (simp add: config_def replace_thread_def)
  note r5 = session_reachable.step [OF r4 this]
  let ?last = "config ((mark_closed ?s2)\<lparr>se_timeout_thread := False\<rparr>) {#}"
  have "session_step J (config (mark_closed ?s2) {#}) ?last"
    using session_step.timeout_exit [of "config (mark_closed ?s2) {#}" J]
    by (simp add: config_def with_session_def)
  note r6 = session_reachable.step [OF r5 this]
  moreover have "stranded ?last 0"
    using start by (simp add: stranded_def config_def is_open_def)
  ultimately show ?thesis by blast
qed

text \<open>
  Request ids are not reused: as long as fewer than \<open>2 ^ 64 - 1\<close> requests were made, the
  "duplicate request id" branch is not taken, and an entry in the table is filed under the id that
  was drawn with its own promise, so a response settles the promise of the request it answers.
\<close>

theorem request_ids_unique:
  assumes "session_reachable J c" and "cf_futures c + 1 < 2 ^ 64" and "Th_park rid p \<in># cf_threads c"
  shows "fst (park rid p (cf_session c)) \<noteq> Parked_duplicate \<and>
    (\<forall>rid' p'. (rid', p') \<in> set (se_pending (cf_session c)) \<longrightarrow> rid' = id_of (pd_future p'))"
proof -
  have ids: "ids_inv c" by (rule ids_inv_reachable [OF assms(1)])
  have all: "all_futures c = mset [0..<cf_futures c]"
    using config_inv_reachable [OF assms(1)] by (simp add: config_inv_def)
  have "map_of (se_pending (cf_session c)) rid = None"
  proof (rule ccontr)
    assume "map_of (se_pending (cf_session c)) rid \<noteq> None"
    then obtain q where q: "(rid, q) \<in> set (se_pending (cf_session c))"
      by (auto dest: map_of_SomeD)
    have in_pending: "pd_future q \<in># pending_futures (cf_session c)"
      using q by (force simp: pending_futures_def)
    have in_thread: "pd_future p \<in># thread_total (cf_threads c)"
      using thread_total_member [OF assms(3), of "pd_future p"] by simp
    have "pd_future q \<in># all_futures c" "pd_future p \<in># all_futures c"
      using in_pending in_thread by (simp_all add: all_futures_def balance_def)
    then have "pd_future q < cf_futures c" "pd_future p < cf_futures c"
      unfolding all by simp_all
    moreover have "id_of (pd_future q) = id_of (pd_future p)"
      using ids q assms(3) unfolding ids_inv_def by metis
    ultimately have same: "pd_future q = pd_future p"
      using assms(2) by (intro id_of_inject) linarith+
    have "1 \<le> count (pending_futures (cf_session c)) (pd_future q)"
      "1 \<le> count (thread_total (cf_threads c)) (pd_future q)"
      using in_pending in_thread same by (simp_all only: count_greater_eq_one_iff)
    then have "2 \<le> count (all_futures c) (pd_future q)"
      unfolding all_futures_def balance_def count_union by linarith
    with count_upt_mset [of "cf_futures c" "pd_future q"] all show False by simp
  qed
  then have "fst (park rid p (cf_session c)) \<noteq> Parked_duplicate" by (simp add: park_def)
  with ids show ?thesis by (simp add: ids_inv_def)
qed

theorem request_ids_unique_witness:
  "\<exists>c :: (jv, jv) Config. \<exists>p. fst (park (IdInt 1) p (cf_session c)) \<noteq> Parked_duplicate \<and>
     (\<forall>rid' p'. (rid', p') \<in> set (se_pending (cf_session c)) \<longrightarrow> rid' = id_of (pd_future p'))"
proof -
  let ?s = "(cf_session Config_init\<lparr>se_next_id := 2\<rparr>) :: (jv, jv) SessionState"
  let ?p = "\<lparr>pd_future = 0, pd_convert = Inr, pd_deadline = 0\<rparr> :: (jv, jv) Pending"
  let ?c = "add_thread (Th_park (IdInt 1) ?p)
    (with_session ?s Config_init\<lparr>cf_futures := 1\<rparr>) :: (jv, jv) Config"
  have "session_step jv_ops Config_init ?c"
    using session_step.request [of Config_init "IdInt 1" ?s jv_ops Inr 0]
    by (simp add: next_id_def Config_init_def session_start_def SessionState_init_def)
  then have "session_reachable jv_ops ?c" by (rule session_reachable.step [OF session_reachable.initial])
  from request_ids_unique [OF this, of "IdInt 1" ?p] show ?thesis by (intro exI [of _ ?c] exI [of _ ?p]) simp
qed

text \<open>
  The \<open>on_closed\<close> hook fires at most once, however often and from wherever the session and its
  transport are closed and whenever the hook is set.
\<close>

theorem on_closed_fires_once:
  assumes "session_reachable J c"
  shows "se_on_closed_calls (cf_session c) \<le> 1"
  using hook_inv_reachable [OF assms] by (auto simp: hook_inv_def)

theorem on_closed_fires_once_witness:
  "se_on_closed_calls (cf_session (Config_init :: (jv, jv) Config)) \<le> 1"
  by (rule on_closed_fires_once [of jv_ops]) (rule session_reachable.initial)

text \<open>
  \<open>close\<close> closes the transport only when it was the call itself that marked the session closed.
  After the peer has closed the connection, \<open>close\<close> empties the table but never calls
  \<open>Transport::close\<close>.
\<close>

theorem close_after_peer_leaves_transport:
  assumes "session_close J transport_fired (on_transport_close J s) = Some s'"
  shows "se_transport_closes s' = se_transport_closes s \<and> se_pending s' = [] \<and> \<not> is_open s'"
  using assms
  by (auto simp: session_close_def on_transport_close_def Let_def is_open_def mark_closed_def
      split: if_splits)

theorem close_after_peer_leaves_transport_witness:
  "\<exists>s' :: (jv, jv) SessionState. session_close jv_ops True (on_transport_close jv_ops (session_start SessionState_init)) = Some s' \<and>
     se_transport_closes s' = se_transport_closes (session_start SessionState_init :: (jv, jv) SessionState) \<and>
     se_pending s' = [] \<and> \<not> is_open s'"
proof -
  obtain s' :: "(jv, jv) SessionState" where
    s': "session_close jv_ops True (on_transport_close jv_ops (session_start SessionState_init)) = Some s'"
    by (simp add: session_close_def on_transport_close_def Let_def session_start_def
        SessionState_init_def mark_closed_def)
  with close_after_peer_leaves_transport [OF s'] show ?thesis by blast
qed

text \<open>
  A response settles exactly the promise filed under its id, with the converted result or with
  the error object as an exception, and removes the entry; every other entry stays. A response
  without an id or for an id that is not in the table changes nothing.
\<close>

theorem response_settles_its_request:
  assumes "distinct (map fst (se_pending s))"
  shows "(case Option.bind (resp_id resp) (map_of (se_pending s)) of
      None \<Rightarrow> handle_response resp s = s
    | Some p \<Rightarrow>
        se_settled (handle_response resp s) = se_settled s @
          [(pd_future p, case resp_outcome resp of Result v \<Rightarrow> pd_convert p v | Failure e \<Rightarrow> Inl (McpError e))] \<and>
        map_of (se_pending (handle_response resp s)) =
          (\<lambda>rid. if Some rid = resp_id resp then None else map_of (se_pending s) rid))"
proof (cases "resp_id resp")
  case (Some rid)
  then show ?thesis
    by (auto simp: handle_response_def take_pending_def settle_def response_settlement_def
        resolved_def rejected_def delete_conv fun_eq_iff split: option.split outcome.split)
qed (simp add: handle_response_def)

theorem response_settles_its_request_witness:
  fixes s :: "(jv, jv) SessionState"
  defines "s \<equiv> SessionState_init\<lparr>se_pending := [(IdInt 1, \<lparr>pd_future = 0, pd_convert = Inr, pd_deadline = 0\<rparr>)]\<rparr>"
  defines "resp \<equiv> \<lparr>resp_id = Some (IdInt 1), resp_outcome = Result VNull\<rparr>"
  shows "(case Option.bind (resp_id resp) (map_of (se_pending s)) of
      None \<Rightarrow> handle_response resp s = s
    | Some p \<Rightarrow>
        se_settled (handle_response resp s) = se_settled s @
          [(pd_future p, case resp_outcome resp of Result v \<Rightarrow> pd_convert p v | Failure e \<Rightarrow> Inl (McpError e))] \<and>
        map_of (se_pending (handle_response resp s)) =
          (\<lambda>rid. if Some rid = resp_id resp then None else map_of (se_pending s) rid))"
  by (rule response_settles_its_request) (simp add: s_def)

text \<open>
  A round of the timeout loop rejects exactly the requests whose deadline has passed, with
  \<open>internal_error\<close> and "request timed out", and keeps the others.
\<close>

theorem timeout_rejects_expired:
  "se_pending (timeout_round J now s) = filter (\<lambda>(rid, p). now < pd_deadline p) (se_pending s) \<and>
   se_settled (timeout_round J now s) = se_settled s @
     map (\<lambda>(rid, p). (pd_future p, Inl (Error J internal_error ''request timed out'')))
       (filter (\<lambda>(rid, p). pd_deadline p \<le> now) (se_pending s))"
  by (simp add: timeout_round_def sweep_def timeout_error_def rejected_def not_le)

text \<open>
  On an open session with an unused id, \<open>register_pending\<close> draws that id and either the frame is
  sent and the promise parked with its deadline, or nothing is sent, the promise is rejected with
  the transport's error and the table is as before.
\<close>

theorem register_pending_outcome:
  assumes "\<not> se_closed s" and "map_of (se_pending s) (IdInt (se_next_id s)) = None"
  shows "register_pending J send dflt method params fut convert timeout now s =
    (let s' = s\<lparr>se_next_id := se_next_id s + 1\<rparr>;
         req = \<lparr>req_id = IdInt (se_next_id s), req_method = method,
                req_params = (if j_is_null J params then None else Some params)\<rparr>;
         p = \<lparr>pd_future = fut, pd_convert = convert,
              pd_deadline = now + (if timeout = 0 then dflt else timeout)\<rparr>
     in case send_message J send (Request req) of
          SendOk str \<Rightarrow> (s'\<lparr>se_pending := (IdInt (se_next_id s), p) # se_pending s\<rparr>, Some str)
        | SendSystemError ec w \<Rightarrow> (s'\<lparr>se_settled := se_settled s @ [(fut, Inl (StdException w))]\<rparr>, None)
        | SendThrew e \<Rightarrow> (s'\<lparr>se_settled := se_settled s @ [(fut, Inl e)]\<rparr>, None))"
proof -
  have "AList.delete (IdInt (se_next_id s)) (se_pending s) = se_pending s"
    using assms(2) by (force simp: AList.delete_eq filter_id_conv map_of_eq_None_iff)
  with assms show ?thesis
    by (simp add: register_pending_def next_id_def park_def params_of_def request_timeout_def
        take_pending_def rejected_def settle_def Let_def split: send_result.split)
qed

theorem register_pending_outcome_witness:
  fixes s :: "(jv, jv) SessionState"
  defines "s \<equiv> session_start SessionState_init"
  shows "register_pending jv_ops (\<lambda>str. Some (Ec_not_connected, ''x'')) 30000 ''ping'' VNull 0 Inr 0 5 s =
    (let s' = s\<lparr>se_next_id := se_next_id s + 1\<rparr>;
         req = \<lparr>req_id = IdInt (se_next_id s), req_method = ''ping'',
                req_params = (if j_is_null jv_ops VNull then None else Some VNull)\<rparr>;
         p = \<lparr>pd_future = 0, pd_convert = Inr, pd_deadline = 5 + (if (0 :: int) = 0 then 30000 else 0)\<rparr>
     in case send_message jv_ops (\<lambda>str. Some (Ec_not_connected, ''x'')) (Request req) of
          SendOk str \<Rightarrow> (s'\<lparr>se_pending := (IdInt (se_next_id s), p) # se_pending s\<rparr>, Some str)
        | SendSystemError ec w \<Rightarrow> (s'\<lparr>se_settled := se_settled s @ [(0, Inl (StdException w))]\<rparr>, None)
        | SendThrew e \<Rightarrow> (s'\<lparr>se_settled := se_settled s @ [(0, Inl e)]\<rparr>, None))"
  by (rule register_pending_outcome) (simp_all add: s_def session_start_def SessionState_init_def)

text \<open>
  A frame that is not JSON, not an object, or does not carry \<open>"jsonrpc": "2.0"\<close> is dropped, and
  no exception leaves the parsing of a frame; what remains is undefined behaviour, which only the
  conversion of an out-of-range number in an id has.
\<close>

theorem frames_checked_before_dispatch:
  assumes "json_lib J"
  shows "case classify_frame J raw of
      Inl e \<Rightarrow> e = Undefined
    | Inr None \<Rightarrow> True
    | Inr (Some m) \<Rightarrow>
        (\<exists>j v. j_parse J raw = Inr j \<and> j_is_object J j \<and> j_find J j ''jsonrpc'' = Some v \<and>
           j_get_string J v = Inr ''2.0'' \<and> parse_message J j = Inr m)"
proof -
  have "\<exists>j v. j_parse J raw = Inr j \<and> j_is_object J j \<and> j_find J j ''jsonrpc'' = Some v \<and>
      j_get_string J v = Inr ''2.0'' \<and> parse_message J j = Inr m"
    if "classify_frame J raw = Inr (Some m)" for m
    using classify_frame_Some [OF that] parse_message_version
      json_lib.check_jsonrpc_Inr_iff [OF assms]
    by (fastforce simp: kJsonrpcVersion_def)
  then show ?thesis by (auto dest: classify_frame_Inl split: sum.split option.split)
qed

theorem frames_checked_before_dispatch_witness:
  "case classify_frame jv_ops ''{ \"jsonrpc\": \"1.0\", \"id\": 1, \"method\": \"ping\"}'' of
      Inl e \<Rightarrow> e = Undefined
    | Inr None \<Rightarrow> True
    | Inr (Some m) \<Rightarrow>
        (\<exists>j v. j_parse jv_ops ''{ \"jsonrpc\": \"1.0\", \"id\": 1, \"method\": \"ping\"}'' = Inr j \<and>
           j_is_object jv_ops j \<and> j_find jv_ops j ''jsonrpc'' = Some v \<and>
           j_get_string jv_ops v = Inr ''2.0'' \<and> parse_message jv_ops j = Inr m)"
  by (rule frames_checked_before_dispatch) (rule jv_json_lib)

text \<open>
  C34: A request whose handler neither throws a \<open>json::exception\<close> nor has undefined behaviour is answered with
  exactly one response, which carries its id and is read back by the peer as written: the handler's value, the
  \<open>mcp::Error\<close> it threw, \<open>internal_error\<close> for any other exception, and \<open>method_not_found\<close> when there is no handler.
\<close>

theorem request_answered:
  assumes "json_lib J"
    and "params = (case req_params req of Some p \<Rightarrow> p | None \<Rightarrow> j_null J)"
    and "\<And>h. lookup_req t (req_method req) = Some h \<Longrightarrow> fst (h params s) \<noteq> Inl Undefined"
    and "\<And>h w. lookup_req t (req_method req) = Some h \<Longrightarrow> fst (h params s) \<noteq> Inl (JsonException w)"
  shows "\<exists>out. fst (handle_request J t req s) =
      Inr \<lparr>resp_id = Some (req_id req), resp_outcome = out\<rparr> \<and>
    parse_message J (serialize_message J
        (Response \<lparr>resp_id = Some (req_id req), resp_outcome = out\<rparr>)) =
      Inr (Response \<lparr>resp_id = Some (req_id req), resp_outcome = out\<rparr>) \<and>
    (case lookup_req t (req_method req) of
       None \<Rightarrow> \<exists>m. out = Failure \<lparr>eo_code = method_not_found, eo_message = m, eo_data = j_null J\<rparr>
     | Some h \<Rightarrow>
         (case fst (h params s) of
            Inr v \<Rightarrow> out = Result v
          | Inl (McpError e) \<Rightarrow> out = Failure e
          | Inl _ \<Rightarrow>
              \<exists>m. out = Failure \<lparr>eo_code = internal_error, eo_message = m, eo_data = j_null J\<rparr>))"
proof -
  have rt: "parse_message J (serialize_message J (Response r)) = Inr (Response r)" for r
    by (rule json_lib.parse_serialize [OF assms(1)]) simp
  show ?thesis
  proof (cases "lookup_req t (req_method req)")
    case None
    then show ?thesis by (simp add: handle_request_def Let_def rt [simplified])
  next
    case (Some h)
    then show ?thesis
      using assms(3,4) [OF Some]
      by (cases "fst (h params s)" rule: sum.exhaust; cases "projl (fst (h params s))")
        (simp_all add: handle_request_def Let_def case_prod_unfold assms(2) [symmetric]
          rt [simplified])
  qed
qed

theorem request_answered_witness:
  fixes t :: "(jv, unit) HandlerTables"
  defines "t \<equiv> set_request_handler ''f'' (Some (\<lambda>p s. (Inl (StdException ''boom''), s))) HandlerTables_init"
  defines "req \<equiv> \<lparr>req_id = IdInt 7, req_method = ''f'', req_params = None\<rparr>"
  shows "\<exists>out. fst (handle_request jv_ops t req ()) =
      Inr \<lparr>resp_id = Some (req_id req), resp_outcome = out\<rparr> \<and>
    parse_message jv_ops (serialize_message jv_ops
        (Response \<lparr>resp_id = Some (req_id req), resp_outcome = out\<rparr>)) =
      Inr (Response \<lparr>resp_id = Some (req_id req), resp_outcome = out\<rparr>) \<and>
    (case lookup_req t (req_method req) of
       None \<Rightarrow> \<exists>m. out = Failure \<lparr>eo_code = method_not_found, eo_message = m, eo_data = j_null jv_ops\<rparr>
     | Some h \<Rightarrow>
         (case fst (h VNull ()) of
            Inr v \<Rightarrow> out = Result v
          | Inl (McpError e) \<Rightarrow> out = Failure e
          | Inl _ \<Rightarrow>
              \<exists>m. out = Failure \<lparr>eo_code = internal_error, eo_message = m, eo_data = j_null jv_ops\<rparr>))"
  by (rule request_answered [OF jv_json_lib])
    (auto simp: t_def req_def lookup_req_def set_request_handler_def HandlerTables_init_def)

text \<open>A handler that throws a \<open>json::exception\<close> is answered with \<open>invalid_params\<close>, and not with an internal error.\<close>

theorem json_exception_invalid_params:
  assumes "lookup_req t (req_method req) = Some h"
    and "fst (h (case req_params req of Some p \<Rightarrow> p | None \<Rightarrow> j_null J) s) = Inl (JsonException w)"
  shows "\<exists>m. fst (handle_request J t req s) =
    Inr \<lparr>resp_id = Some (req_id req),
      resp_outcome = Failure \<lparr>eo_code = invalid_params, eo_message = m, eo_data = j_null J\<rparr>\<rparr>"
  using assms by (simp add: handle_request_def Let_def case_prod_unfold)

end
