(* ===== verification/Server.thy ===== *)
theory Server
  imports Session Task_Store Proto_Core Proto_Resources Proto_Utilities Proto_Sampling
begin

text \<open>
  The server of src/server.cpp: registration, capability negotiation, the request and notification
  handlers with their guards, task-augmented tool calls with the worker that runs them, log and
  progress notifications, and the handler table that \<open>run\<close> installs in the session.

  Application callbacks are functions on an application state \<open>'s\<close>; an empty \<open>std::function\<close> is
  \<open>None\<close>. A handler takes its locks one after another; here it is one function of the server state,
  except for task-augmented calls, whose check of the concurrency limit is also given as a separate
  step.
\<close>

section \<open>State\<close>

type_synonym ('j, 's) ToolHandler = "'j \<Rightarrow> 's \<Rightarrow> ('j exc + 'j CallToolResult) \<times> 's"
type_synonym ('j, 's) ResourceReadHandler = "string \<Rightarrow> 's \<Rightarrow> ('j exc + 'j ReadResourceResult) \<times> 's"
type_synonym ('j, 's) PromptGetHandler = "string_map \<Rightarrow> 's \<Rightarrow> ('j exc + 'j GetPromptResult) \<times> 's"
type_synonym ('j, 's) CompletionHandler = "CompleteRequestParams \<Rightarrow> 's \<Rightarrow> ('j exc + CompletionValues) \<times> 's"
type_synonym ('j, 's) ElicitationCompleteHandler = "string \<Rightarrow> 's \<Rightarrow> ('j exc + unit) \<times> 's"

record ('j, 's) ToolEntry =
  toe_descriptor :: "'j Tool"
  toe_handler :: "('j, 's) ToolHandler option"

record ('j, 's) ResourceEntry =
  ree_descriptor :: "'j Resource"
  ree_handler :: "('j, 's) ResourceReadHandler option"

record ('j, 's) PromptEntry =
  pre_descriptor :: "'j Prompt"
  pre_handler :: "('j, 's) PromptGetHandler option"

text \<open>A detached task worker that has not run yet: the task, the handler and the arguments.\<close>

record ('j, 's) TaskJob =
  job_task :: string
  job_handler :: "('j, 's) ToolHandler option"
  job_args :: 'j

text \<open>
  \<open>sv_session\<close>: whether \<open>session_\<close> is set. \<open>sv_jobs\<close> and \<open>sv_notified\<close> collect what leaves the
  handlers: the workers spawned and the tasks the status listener was called with.
\<close>

record ('j, 's) Server =
  sv_server_info :: "'j Implementation"
  sv_instructions :: "string option"
  sv_page_size :: size_t
  sv_tools :: "(string \<times> ('j, 's) ToolEntry) list"
  sv_resources :: "(string \<times> ('j, 's) ResourceEntry) list"
  sv_resource_templates :: "'j ResourceTemplate list"
  sv_fallback_resource_handler :: "('j, 's) ResourceReadHandler option"
  sv_prompts :: "(string \<times> ('j, 's) PromptEntry) list"
  sv_logging_enabled :: bool
  sv_log_level :: LoggingLevel
  sv_completion_handler :: "('j, 's) CompletionHandler option"
  sv_elicitation_complete_handler :: "('j, 's) ElicitationCompleteHandler option"
  sv_tasks :: "'j TaskStore option"
  sv_tasks_default_ttl_ms :: "int64 option"
  sv_tasks_max_concurrent :: size_t
  sv_session :: bool
  sv_initialized :: bool
  sv_client_capabilities :: "'j ClientCapabilities option"
  sv_stop_requested :: bool
  sv_app :: 's
  sv_jobs :: "('j, 's) TaskJob list"
  sv_notified :: "Task list"

definition Server_init :: "'j Implementation \<Rightarrow> 's \<Rightarrow> ('j, 's) Server" where
  "Server_init info app = \<lparr>sv_server_info = info, sv_instructions = None, sv_page_size = 0,
     sv_tools = [], sv_resources = [], sv_resource_templates = [], sv_fallback_resource_handler = None,
     sv_prompts = [], sv_logging_enabled = False, sv_log_level = Log_info,
     sv_completion_handler = None, sv_elicitation_complete_handler = None, sv_tasks = None,
     sv_tasks_default_ttl_ms = None, sv_tasks_max_concurrent = 0, sv_session = False,
     sv_initialized = False, sv_client_capabilities = None, sv_stop_requested = False,
     sv_app = app, sv_jobs = [], sv_notified = []\<rparr>"

section \<open>Registration\<close>

definition set_instructions :: "string \<Rightarrow> ('j, 's) Server \<Rightarrow> ('j, 's) Server" where
  "set_instructions str sv = sv\<lparr>sv_instructions := Some str\<rparr>"

definition set_page_size :: "size_t \<Rightarrow> ('j, 's) Server \<Rightarrow> ('j, 's) Server" where
  "set_page_size n sv = sv\<lparr>sv_page_size := n\<rparr>"

definition add_tool ::
    "string \<Rightarrow> 'j \<Rightarrow> ('j, 's) ToolHandler option \<Rightarrow> string option \<Rightarrow> string option \<Rightarrow>
     ToolAnnotations option \<Rightarrow> 'j option \<Rightarrow> ('j, 's) Server \<Rightarrow> ('j, 's) Server" where
  "add_tool name input_schema handler title description annotations output_schema sv =
     (let t = \<lparr>tool_name = name, tool_title = title, tool_description = description,
               tool_input_schema = input_schema, tool_output_schema = output_schema,
               tool_annotations = annotations, tool_icons = None, tool_execution = None,
               tool_meta = None\<rparr>
      in sv\<lparr>sv_tools := AList.update name \<lparr>toe_descriptor = t, toe_handler = handler\<rparr> (sv_tools sv)\<rparr>)"

record 'j ToolMetadata =
  tm_icons :: "Icon list option"
  tm_execution :: "ToolExecution option"
  tm_meta :: "'j option"

definition add_tool_meta ::
    "string \<Rightarrow> 'j \<Rightarrow> ('j, 's) ToolHandler option \<Rightarrow> 'j ToolMetadata \<Rightarrow> ('j, 's) Server \<Rightarrow>
     ('j, 's) Server" where
  "add_tool_meta name input_schema handler md sv =
     (let t = \<lparr>tool_name = name, tool_title = None, tool_description = None,
               tool_input_schema = input_schema, tool_output_schema = None,
               tool_annotations = None, tool_icons = tm_icons md,
               tool_execution = tm_execution md, tool_meta = tm_meta md\<rparr>
      in sv\<lparr>sv_tools := AList.update name \<lparr>toe_descriptor = t, toe_handler = handler\<rparr> (sv_tools sv)\<rparr>)"

definition add_resource ::
    "'j Resource \<Rightarrow> ('j, 's) ResourceReadHandler option \<Rightarrow> ('j, 's) Server \<Rightarrow> ('j, 's) Server" where
  "add_resource d h sv =
     sv\<lparr>sv_resources := AList.update (res_uri d) \<lparr>ree_descriptor = d, ree_handler = h\<rparr> (sv_resources sv)\<rparr>"

definition add_resource_template ::
    "'j ResourceTemplate \<Rightarrow> ('j, 's) Server \<Rightarrow> ('j, 's) Server" where
  "add_resource_template d sv = sv\<lparr>sv_resource_templates := sv_resource_templates sv @ [d]\<rparr>"

definition fallback_resource_handler ::
    "('j, 's) ResourceReadHandler option \<Rightarrow> ('j, 's) Server \<Rightarrow> ('j, 's) Server" where
  "fallback_resource_handler h sv = sv\<lparr>sv_fallback_resource_handler := h\<rparr>"

definition add_prompt ::
    "'j Prompt \<Rightarrow> ('j, 's) PromptGetHandler option \<Rightarrow> ('j, 's) Server \<Rightarrow> ('j, 's) Server" where
  "add_prompt d h sv =
     sv\<lparr>sv_prompts := AList.update (prompt_name d) \<lparr>pre_descriptor = d, pre_handler = h\<rparr> (sv_prompts sv)\<rparr>"

definition enable_logging :: "LoggingLevel \<Rightarrow> ('j, 's) Server \<Rightarrow> ('j, 's) Server" where
  "enable_logging level sv = sv\<lparr>sv_logging_enabled := True, sv_log_level := level\<rparr>"

definition enable_completion ::
    "('j, 's) CompletionHandler option \<Rightarrow> ('j, 's) Server \<Rightarrow> ('j, 's) Server" where
  "enable_completion h sv = sv\<lparr>sv_completion_handler := h\<rparr>"

definition set_elicitation_complete_handler ::
    "('j, 's) ElicitationCompleteHandler option \<Rightarrow> ('j, 's) Server \<Rightarrow> ('j, 's) Server" where
  "set_elicitation_complete_handler h sv = sv\<lparr>sv_elicitation_complete_handler := h\<rparr>"

definition enable_tasks ::
    "int64 option \<Rightarrow> size_t \<Rightarrow> ('j, 's) Server \<Rightarrow> ('j, 's) Server" where
  "enable_tasks default_ttl_ms max_concurrent sv =
     sv\<lparr>sv_tasks := (case sv_tasks sv of None \<Rightarrow> Some TaskStore_init | Some ts \<Rightarrow> Some ts),
        sv_tasks_default_ttl_ms := default_ttl_ms,
        sv_tasks_max_concurrent := max_concurrent\<rparr>"

section \<open>Handlers\<close>

text \<open>
  What a handler draws from its environment: the id of a task it may create, the clocks, and the
  task store as a waiting call sees it after its first look.
\<close>

record 'j ServerEnv =
  env_task_id :: string
  env_now :: string
  env_steady :: int
  env_seen :: "'j TaskStore list"

definition not_initialized :: "'j json_ops \<Rightarrow> 'j exc" where
  "not_initialized J = Error J invalid_request ''not initialized''"

definition tasks_not_enabled :: "'j json_ops \<Rightarrow> 'j exc" where
  "tasks_not_enabled J =
     Error J method_not_found ''tasks: server has not enabled the tasks capability''"

text \<open>Calling a callback: it runs on the application state; an empty one throws.\<close>

definition call_back ::
    "('x \<Rightarrow> 's \<Rightarrow> ('j exc + 'a) \<times> 's) option \<Rightarrow> 'x \<Rightarrow> ('j, 's) Server \<Rightarrow>
     ('j exc + 'a) \<times> ('j, 's) Server" where
  "call_back h x sv =
     (case h of
        None \<Rightarrow> (Inl (StdException ''bad_function_call''), sv)
      | Some h \<Rightarrow> (let (r, app) = h x (sv_app sv) in (r, sv\<lparr>sv_app := app\<rparr>)))"

definition server_capabilities :: "'j json_ops \<Rightarrow> ('j, 's) Server \<Rightarrow> 'j ServerCapabilities" where
  "server_capabilities J sv =
     \<lparr>scaps_experimental = None,
      scaps_logging = (if sv_logging_enabled sv then Some (j_object J) else None),
      scaps_completions = (if sv_completion_handler sv \<noteq> None then Some (j_object J) else None),
      scaps_prompts = (if sv_prompts sv \<noteq> [] then Some \<lparr>prompts_list_changed = None\<rparr> else None),
      scaps_resources =
        (if sv_resources sv \<noteq> [] \<or> sv_resource_templates sv \<noteq> [] \<or>
            sv_fallback_resource_handler sv \<noteq> None
         then Some \<lparr>resources_subscribe = None, resources_list_changed = None\<rparr> else None),
      scaps_tools = (if sv_tools sv \<noteq> [] then Some \<lparr>tools_list_changed = None\<rparr> else None),
      scaps_tasks =
        (case sv_tasks sv of
           None \<Rightarrow> None
         | Some ts \<Rightarrow>
             Some \<lparr>tasks_list = Some (j_object J), tasks_cancel = Some (j_object J),
                   tasks_requests =
                     Some \<lparr>tasks_req_tools = Some (j_init J [(''call'', j_object J)]),
                           tasks_req_sampling = None, tasks_req_elicitation = None\<rparr>\<rparr>)\<rparr>"

definition handle_initialize ::
    "'j json_ops \<Rightarrow> 'j \<Rightarrow> ('j, 's) Server \<Rightarrow> ('j exc + 'j) \<times> ('j, 's) Server" where
  "handle_initialize J params sv =
     (case rethrow_as J invalid_params ''invalid initialize params: ''
             (InitializeRequestParams_from_json J params) of
        Inl e \<Rightarrow> (Inl e, sv)
      | Inr parsed \<Rightarrow>
          if sv_initialized sv then (Inl (Error J invalid_request ''already initialized''), sv)
          else
            let sv = sv\<lparr>sv_initialized := True,
                        sv_client_capabilities := Some (init_capabilities parsed)\<rparr>;
                result = \<lparr>initres_protocol_version = kLatestProtocolVersion,
                          initres_capabilities = server_capabilities J sv,
                          initres_server_info = sv_server_info sv,
                          initres_instructions = sv_instructions sv,
                          initres_meta = None\<rparr>
            in (Inr (InitializeResult_to_json J result), sv))"

definition handle_list_tools ::
    "'j json_ops \<Rightarrow> 'j \<Rightarrow> ('j, 's) Server \<Rightarrow> ('j exc + 'j) \<times> ('j, 's) Server" where
  "handle_list_tools J params sv =
     (if \<not> sv_initialized sv then (Inl (not_initialized J), sv)
      else
        (ebind (if j_is_null J params then Inr \<lparr>ltp_cursor = None\<rparr>
                else ListToolsRequestParams_from_json J params) (\<lambda>parsed.
         ebind (list_page J (map (\<lambda>(name, e). toe_descriptor e) (sv_tools sv)) (ltp_cursor parsed)
                  (sv_page_size sv)) (\<lambda>(page, next).
         Inr (ListToolsResult_to_json J
           \<lparr>ltr_tools = page, ltr_next_cursor = next, ltr_meta = None\<rparr>))), sv))"

text \<open>The per-tool policy on task augmentation.\<close>

definition check_task_support ::
    "'j json_ops \<Rightarrow> string \<Rightarrow> TaskSupport option \<Rightarrow> bool \<Rightarrow> 'j exc + unit" where
  "check_task_support J name support has_task =
     (if support = Some Support_required \<and> \<not> has_task
      then Inl (Error J invalid_request
             (''tool \"'' @ name @ ''\" requires task augmentation; pass `task` in params''))
      else if support = Some Support_forbidden \<and> has_task
      then Inl (Error J invalid_request (''tool \"'' @ name @ ''\" forbids task augmentation''))
      else Inr ())"

text \<open>The concurrency limit: \<open>workers_inflight\<close> is converted to \<open>size_t\<close>.\<close>

definition check_concurrency ::
    "'j json_ops \<Rightarrow> size_t \<Rightarrow> 'j TaskStore \<Rightarrow> 'j exc + unit" where
  "check_concurrency J max_concurrent ts =
     (if max_concurrent > 0 \<and> word_of_int (ts_workers_inflight ts) \<ge> max_concurrent
      then Inl (Error J invalid_request
             (''task concurrency limit reached ('' @ dec_string (unat max_concurrent) @ '')''))
      else Inr ())"

text \<open>The effective time to live: the call's, or else the server's default.\<close>

definition effective_ttl :: "TaskAugmentation \<Rightarrow> ('j, 's) Server \<Rightarrow> int64 option" where
  "effective_ttl aug sv =
     (case task_aug_ttl aug of Some t \<Rightarrow> Some t | None \<Rightarrow> sv_tasks_default_ttl_ms sv)"

text \<open>What follows the check: create the task, count the worker, start it, answer.\<close>

definition start_task ::
    "'j json_ops \<Rightarrow> 'j ServerEnv \<Rightarrow> ('j, 's) ToolHandler option \<Rightarrow> 'j \<Rightarrow> TaskAugmentation \<Rightarrow>
     'j TaskStore \<Rightarrow> ('j, 's) Server \<Rightarrow> ('j exc + 'j) \<times> ('j, 's) Server" where
  "start_task J env h args aug ts sv =
     (let (task, ns, ts) = ts_create (env_task_id env) (env_now env) (env_steady env)
                               (effective_ttl aug sv) ts;
          ts = worker_started ts
      in (Inr (CreateTaskResult_to_json J \<lparr>ctres_task = task\<rparr>),
          sv\<lparr>sv_tasks := Some ts, sv_notified := sv_notified sv @ ns,
             sv_jobs := sv_jobs sv @
               [\<lparr>job_task = task_taskId task, job_handler = h, job_args = args\<rparr>]\<rparr>))"

definition handle_call_tool ::
    "'j json_ops \<Rightarrow> 'j ServerEnv \<Rightarrow> 'j \<Rightarrow> ('j, 's) Server \<Rightarrow> ('j exc + 'j) \<times> ('j, 's) Server" where
  "handle_call_tool J env params sv =
     (if \<not> sv_initialized sv then (Inl (not_initialized J), sv)
      else
        case rethrow_as J invalid_params ''invalid tools/call params: ''
               (CallToolRequestParams_from_json J params) of
          Inl e \<Rightarrow> (Inl e, sv)
        | Inr parsed \<Rightarrow>
            (case map_of (sv_tools sv) (ctp_name parsed) of
               None \<Rightarrow>
                 (Inl (Error J method_not_found (''tool not found: '' @ ctp_name parsed)), sv)
             | Some entry \<Rightarrow>
                 let h = toe_handler entry;
                     support = map_option te_task_support (tool_execution (toe_descriptor entry));
                     args = (case ctp_arguments parsed of Some a \<Rightarrow> a | None \<Rightarrow> j_object J)
                 in case check_task_support J (ctp_name parsed) support (ctp_task parsed \<noteq> None) of
                      Inl e \<Rightarrow> (Inl e, sv)
                    | Inr _ \<Rightarrow>
                        (case ctp_task parsed of
                           None \<Rightarrow>
                             (let (r, sv) = call_back h args sv
                              in (emap (CallToolResult_to_json J) r, sv))
                         | Some aug \<Rightarrow>
                             (case sv_tasks sv of
                                None \<Rightarrow>
                                  (Inl (Error J invalid_request
                                     ''tasks/tools/call: server has not enabled the tasks capability''), sv)
                              | Some ts \<Rightarrow>
                                  (case check_concurrency J (sv_tasks_max_concurrent sv) ts of
                                     Inl e \<Rightarrow> (Inl e, sv)
                                   | Inr _ \<Rightarrow> start_task J env h args aug ts sv)))))"

definition handle_list_resources ::
    "'j json_ops \<Rightarrow> 'j \<Rightarrow> ('j, 's) Server \<Rightarrow> ('j exc + 'j) \<times> ('j, 's) Server" where
  "handle_list_resources J params sv =
     (if \<not> sv_initialized sv then (Inl (not_initialized J), sv)
      else
        (ebind (if j_is_null J params then Inr \<lparr>lrp_cursor = None\<rparr>
                else ListResourcesRequestParams_from_json J params) (\<lambda>parsed.
         ebind (list_page J (map (\<lambda>(uri, e). ree_descriptor e) (sv_resources sv)) (lrp_cursor parsed)
                  (sv_page_size sv)) (\<lambda>(page, next).
         Inr (ListResourcesResult_to_json J
           \<lparr>lrr_resources = page, lrr_next_cursor = next, lrr_meta = None\<rparr>))), sv))"

definition handle_list_resource_templates ::
    "'j json_ops \<Rightarrow> 'j \<Rightarrow> ('j, 's) Server \<Rightarrow> ('j exc + 'j) \<times> ('j, 's) Server" where
  "handle_list_resource_templates J params sv =
     (if \<not> sv_initialized sv then (Inl (not_initialized J), sv)
      else
        (ebind (if j_is_null J params then Inr \<lparr>lrtp_cursor = None\<rparr>
                else ListResourceTemplatesRequestParams_from_json J params) (\<lambda>parsed.
         ebind (list_page J (sv_resource_templates sv) (lrtp_cursor parsed) (sv_page_size sv))
           (\<lambda>(page, next).
         Inr (ListResourceTemplatesResult_to_json J
           \<lparr>lrtr_resource_templates = page, lrtr_next_cursor = next, lrtr_meta = None\<rparr>))), sv))"

definition handle_read_resource ::
    "'j json_ops \<Rightarrow> 'j \<Rightarrow> ('j, 's) Server \<Rightarrow> ('j exc + 'j) \<times> ('j, 's) Server" where
  "handle_read_resource J params sv =
     (if \<not> sv_initialized sv then (Inl (not_initialized J), sv)
      else
        case rethrow_as J invalid_params ''invalid resources/read params: ''
               (ReadResourceRequestParams_from_json J params) of
          Inl e \<Rightarrow> (Inl e, sv)
        | Inr parsed \<Rightarrow>
            (case (case map_of (sv_resources sv) (rrp_uri parsed) of
                     Some entry \<Rightarrow> ree_handler entry
                   | None \<Rightarrow> sv_fallback_resource_handler sv) of
               None \<Rightarrow>
                 (Inl (Error J method_not_found (''resource not found: '' @ rrp_uri parsed)), sv)
             | Some h \<Rightarrow>
                 (let (r, sv) = call_back (Some h) (rrp_uri parsed) sv
                  in (emap (ReadResourceResult_to_json J) r, sv))))"

definition handle_list_prompts ::
    "'j json_ops \<Rightarrow> 'j \<Rightarrow> ('j, 's) Server \<Rightarrow> ('j exc + 'j) \<times> ('j, 's) Server" where
  "handle_list_prompts J params sv =
     (if \<not> sv_initialized sv then (Inl (not_initialized J), sv)
      else
        (ebind (if j_is_null J params then Inr \<lparr>lpp_cursor = None\<rparr>
                else ListPromptsRequestParams_from_json J params) (\<lambda>parsed.
         ebind (list_page J (map (\<lambda>(name, e). pre_descriptor e) (sv_prompts sv)) (lpp_cursor parsed)
                  (sv_page_size sv)) (\<lambda>(page, next).
         Inr (ListPromptsResult_to_json J
           \<lparr>lpr_prompts = page, lpr_next_cursor = next, lpr_meta = None\<rparr>))), sv))"

definition handle_get_prompt ::
    "'j json_ops \<Rightarrow> 'j \<Rightarrow> ('j, 's) Server \<Rightarrow> ('j exc + 'j) \<times> ('j, 's) Server" where
  "handle_get_prompt J params sv =
     (if \<not> sv_initialized sv then (Inl (not_initialized J), sv)
      else
        case rethrow_as J invalid_params ''invalid prompts/get params: ''
               (GetPromptRequestParams_from_json J params) of
          Inl e \<Rightarrow> (Inl e, sv)
        | Inr parsed \<Rightarrow>
            (case Option.bind (map_of (sv_prompts sv) (gpp_name parsed)) pre_handler of
               None \<Rightarrow>
                 (Inl (Error J method_not_found (''prompt not found: '' @ gpp_name parsed)), sv)
             | Some h \<Rightarrow>
                 (let args = (case gpp_arguments parsed of Some a \<Rightarrow> a | None \<Rightarrow> []);
                      (r, sv) = call_back (Some h) args sv
                  in (emap (GetPromptResult_to_json J) r, sv))))"

definition handle_ping ::
    "'j json_ops \<Rightarrow> 'j \<Rightarrow> ('j, 's) Server \<Rightarrow> ('j exc + 'j) \<times> ('j, 's) Server" where
  "handle_ping J params sv = (Inr (j_object J), sv)"

definition handle_set_level ::
    "'j json_ops \<Rightarrow> 'j \<Rightarrow> ('j, 's) Server \<Rightarrow> ('j exc + 'j) \<times> ('j, 's) Server" where
  "handle_set_level J params sv =
     (if \<not> sv_logging_enabled sv
      then (Inl (Error J method_not_found ''logging capability is not enabled''), sv)
      else
        case rethrow_as J invalid_params ''invalid logging/setLevel: ''
               (SetLevelRequestParams_from_json J params) of
          Inl e \<Rightarrow> (Inl e, sv)
        | Inr parsed \<Rightarrow> (Inr (j_object J), sv\<lparr>sv_log_level := slp_level parsed\<rparr>))"

definition handle_complete ::
    "'j json_ops \<Rightarrow> 'j \<Rightarrow> ('j, 's) Server \<Rightarrow> ('j exc + 'j) \<times> ('j, 's) Server" where
  "handle_complete J params sv =
     (if \<not> sv_initialized sv then (Inl (not_initialized J), sv)
      else
        case sv_completion_handler sv of
          None \<Rightarrow>
            (Inl (Error J method_not_found ''completion is not enabled on this server''), sv)
        | Some h \<Rightarrow>
            (case rethrow_as J invalid_params ''invalid completion/complete params: ''
                    (CompleteRequestParams_from_json J params) of
               Inl e \<Rightarrow> (Inl e, sv)
             | Inr parsed \<Rightarrow>
                 (let (r, sv) = call_back (Some h) parsed sv
                  in (emap (\<lambda>v. CompleteResult_to_json J \<lparr>cres_completion = v\<rparr>) r, sv))))"

subsection \<open>Tasks\<close>

definition task_not_found :: "'j json_ops \<Rightarrow> string \<Rightarrow> 'j exc" where
  "task_not_found J tid = Error J invalid_request (''task not found: '' @ tid)"

definition handle_get_task ::
    "'j json_ops \<Rightarrow> 'j \<Rightarrow> ('j, 's) Server \<Rightarrow> ('j exc + 'j) \<times> ('j, 's) Server" where
  "handle_get_task J params sv =
     (if \<not> sv_initialized sv then (Inl (not_initialized J), sv)
      else
        case sv_tasks sv of
          None \<Rightarrow> (Inl (tasks_not_enabled J), sv)
        | Some ts \<Rightarrow>
            (ebind (rethrow_as J invalid_params ''invalid tasks/get params: ''
                      (GetTaskRequestParams_from_json J params)) (\<lambda>parsed.
             case ts_get ts (gtp_task_id parsed) of
               None \<Rightarrow> Inl (task_not_found J (gtp_task_id parsed))
             | Some t \<Rightarrow> Inr (Task_to_json J t)), sv))"

definition related_task_key :: string where
  "related_task_key = ''io.modelcontextprotocol/related-task''"

text \<open>The tag put on the result of \<open>tasks/result\<close>; a result that is no object is left alone.\<close>

definition tag_result :: "'j json_ops \<Rightarrow> string \<Rightarrow> 'j \<Rightarrow> 'j" where
  "tag_result J tid v =
     (if j_is_object J v then
        let meta = (case j_find J v ''_meta'' of
                      Some m \<Rightarrow> if j_is_object J m then m else j_object J
                    | None \<Rightarrow> j_object J)
        in j_set J v ''_meta''
             (j_set J meta related_task_key (j_init J [(''taskId'', j_string J tid)]))
      else v)"

text \<open>
  \<open>tasks/result\<close> waits; when it returns, the store is the one it saw last.
\<close>

definition handle_get_task_result ::
    "'j json_ops \<Rightarrow> 'j ServerEnv \<Rightarrow> 'j \<Rightarrow> ('j, 's) Server \<Rightarrow> ('j exc + 'j) \<times> ('j, 's) Server" where
  "handle_get_task_result J env params sv =
     (if \<not> sv_initialized sv then (Inl (not_initialized J), sv)
      else
        case sv_tasks sv of
          None \<Rightarrow> (Inl (tasks_not_enabled J), sv)
        | Some ts \<Rightarrow>
            (case rethrow_as J invalid_params ''invalid tasks/result params: ''
                    (GetTaskResultRequestParams_from_json J params) of
               Inl e \<Rightarrow> (Inl e, sv)
             | Inr parsed \<Rightarrow>
                 (let tid = gtrp_task_id parsed;
                      seen = ts # env_seen env;
                      last_seen = last seen
                  in (ebind (ts_wait_result J tid seen) (\<lambda>v.
                      case v of
                        None \<Rightarrow>
                          (let data = (case ts_get last_seen tid of
                                         Some cur \<Rightarrow> j_set J (j_object J) ''task'' (Task_to_json J cur)
                                       | None \<Rightarrow> j_object J)
                           in Inl (Error3 invalid_request
                                (''task '' @ tid @
                                 '' not yet terminal; re-call tasks/result or poll tasks/get'') data))
                      | Some value \<Rightarrow> Inr (tag_result J tid value)),
                      sv\<lparr>sv_tasks := Some last_seen\<rparr>))))"

definition handle_list_tasks ::
    "'j json_ops \<Rightarrow> 'j \<Rightarrow> ('j, 's) Server \<Rightarrow> ('j exc + 'j) \<times> ('j, 's) Server" where
  "handle_list_tasks J params sv =
     (if \<not> sv_initialized sv then (Inl (not_initialized J), sv)
      else
        case sv_tasks sv of
          None \<Rightarrow> (Inl (tasks_not_enabled J), sv)
        | Some ts \<Rightarrow>
            (ebind (if j_is_null J params then Inr \<lparr>ltkp_cursor = None\<rparr>
                    else rethrow_as J invalid_params ''invalid tasks/list params: ''
                           (ListTasksRequestParams_from_json J params)) (\<lambda>parsed.
             emap (ListTasksResult_to_json J) (ts_list J (ltkp_cursor parsed) (sv_page_size sv) ts)), sv))"

definition handle_cancel_task ::
    "'j json_ops \<Rightarrow> 'j ServerEnv \<Rightarrow> 'j \<Rightarrow> ('j, 's) Server \<Rightarrow> ('j exc + 'j) \<times> ('j, 's) Server" where
  "handle_cancel_task J env params sv =
     (if \<not> sv_initialized sv then (Inl (not_initialized J), sv)
      else
        case sv_tasks sv of
          None \<Rightarrow> (Inl (tasks_not_enabled J), sv)
        | Some ts \<Rightarrow>
            (case rethrow_as J invalid_params ''invalid tasks/cancel params: ''
                    (CancelTaskRequestParams_from_json J params) of
               Inl e \<Rightarrow> (Inl e, sv)
             | Inr parsed \<Rightarrow>
                 (let (t, ns, ts) = ts_cancel (env_now env) (cktp_task_id parsed) ts
                  in (case t of
                        None \<Rightarrow> Inl (task_not_found J (cktp_task_id parsed))
                      | Some t \<Rightarrow> Inr (Task_to_json J t),
                      sv\<lparr>sv_tasks := Some ts, sv_notified := sv_notified sv @ ns\<rparr>))))"

text \<open>
  The body of a task worker's thread. \<open>now\<close> is the clock when it reports. The result says whether
  the thread ended without undefined behaviour.
\<close>

definition run_task_job ::
    "'j json_ops \<Rightarrow> string \<Rightarrow> ('j, 's) TaskJob \<Rightarrow> ('j, 's) Server \<Rightarrow> ('j exc + unit) \<times> ('j, 's) Server" where
  "run_task_job J now job sv =
     (let (r, sv) = call_back (job_handler job) (job_args job) sv
      in case sv_tasks sv of
           None \<Rightarrow> (Inl Undefined, sv)
         | Some ts \<Rightarrow>
             (case (case r of
                      Inr res \<Rightarrow> Inr (ts_complete now (job_task job) (CallToolResult_to_json J res) ts)
                    | Inl (McpError e) \<Rightarrow> Inr (ts_fail now (job_task job) (eo_message e) ts)
                    | Inl (JsonException w) \<Rightarrow> Inr (ts_fail now (job_task job) w ts)
                    | Inl (StdException w) \<Rightarrow> Inr (ts_fail now (job_task job) w ts)
                    | Inl OtherException \<Rightarrow> Inr (ts_fail now (job_task job) ''unknown exception'' ts)
                    | Inl Undefined \<Rightarrow> Inl Undefined) of
                Inl e \<Rightarrow> (Inl e, sv)
              | Inr (ns, ts) \<Rightarrow>
                  (Inr (), sv\<lparr>sv_tasks := Some (worker_finished ts),
                              sv_notified := sv_notified sv @ ns\<rparr>)))"

section \<open>Notifications\<close>

text \<open>
  \<open>notifications/elicitation/complete\<close>: a malformed payload or a throwing handler is logged.
\<close>

definition handle_elicitation_complete ::
    "'j json_ops \<Rightarrow> 'j \<Rightarrow> ('j, 's) Server \<Rightarrow> ('j exc + unit) \<times> ('j, 's) Server" where
  "handle_elicitation_complete J params sv =
     (case sv_elicitation_complete_handler sv of
        None \<Rightarrow> (Inr (), sv)
      | Some h \<Rightarrow>
          if \<not> j_is_object J params then (Inr (), sv)
          else
            (case ElicitationCompleteNotificationParams_from_json J params of
               Inl e \<Rightarrow> (if e = Undefined then Inl Undefined else Inr (), sv)
             | Inr parsed \<Rightarrow>
                 (let (r, sv) = call_back (Some h) (ecn_elicitation_id parsed) sv
                  in (ecatch r (\<lambda>e. if e = Undefined then Inl Undefined else Inr ()), sv))))"

text \<open>\<open>notifications/cancelled\<close> is only logged.\<close>

definition handle_cancelled ::
    "'j json_ops \<Rightarrow> 'j \<Rightarrow> ('j, 's) Server \<Rightarrow> ('j exc + unit) \<times> ('j, 's) Server" where
  "handle_cancelled J params sv =
     (case CancelledNotificationParams_from_json J params of
        Inl e \<Rightarrow> (if e = Undefined then Inl Undefined else Inr (), sv)
      | Inr p \<Rightarrow> (Inr (), sv))"

text \<open>\<open>log\<close>: whether the notification was sent.\<close>

definition server_log ::
    "'j json_ops \<Rightarrow> transport_send \<Rightarrow> LoggingLevel \<Rightarrow> 'j \<Rightarrow> string option \<Rightarrow> ('j, 's) Server \<Rightarrow> bool" where
  "server_log J send level data logger sv =
     (if \<not> sv_logging_enabled sv then False
      else if LoggingLevel_int level < LoggingLevel_int (sv_log_level sv) then False
      else if \<not> sv_session sv then False
      else
        send_notification J send ''notifications/message''
          (LoggingMessageNotificationParams_to_json J
             \<lparr>lmp_level = level, lmp_logger = logger, lmp_data = data\<rparr>) = None)"

definition report_progress ::
    "'j json_ops \<Rightarrow> transport_send \<Rightarrow> ProgressToken \<Rightarrow> double \<Rightarrow> double option \<Rightarrow> string option \<Rightarrow>
     ('j, 's) Server \<Rightarrow> error_code option" where
  "report_progress J send token progress overall msg sv =
     (if \<not> sv_session sv then None
      else
        send_notification J send ''notifications/progress''
          (ProgressNotificationParams_to_json J
             \<lparr>prog_progress_token = token, prog_progress = progress, prog_total = overall,
              prog_message = msg\<rparr>))"

definition notify_elicitation_complete ::
    "'j json_ops \<Rightarrow> transport_send \<Rightarrow> string \<Rightarrow> ('j, 's) Server \<Rightarrow> error_code option" where
  "notify_elicitation_complete J send eid sv =
     (if \<not> sv_session sv then Some Ec_not_connected
      else
        send_notification J send ''notifications/elicitation/complete''
          (ElicitationCompleteNotificationParams_to_json J \<lparr>ecn_elicitation_id = eid\<rparr>))"

section \<open>Requests to the client\<close>

text \<open>
  \<open>sample\<close>, \<open>list_roots\<close> and \<open>elicit\<close>: the session's pending table is another component, so these
  take its state; \<open>None\<close> is the exception "server is not running".
\<close>

definition server_sample ::
    "'j json_ops \<Rightarrow> transport_send \<Rightarrow> int \<Rightarrow> 'j CreateMessageRequestParams \<Rightarrow> nat \<Rightarrow> int \<Rightarrow>
     ('j, 's) Server \<Rightarrow> ('j, 'j CreateMessageResult) SessionState \<Rightarrow>
     'j exc + ('j, 'j CreateMessageResult) SessionState \<times> string option" where
  "server_sample J send dflt params fut now sv s =
     (if \<not> sv_session sv
      then Inl (Error J internal_error ''Server::sample: server is not running'')
      else Inr (register_pending J send dflt ''sampling/createMessage''
                  (CreateMessageRequestParams_to_json J params) fut
                  (CreateMessageResult_from_json J) 0 now s))"

definition server_list_roots ::
    "'j json_ops \<Rightarrow> transport_send \<Rightarrow> int \<Rightarrow> nat \<Rightarrow> int \<Rightarrow> ('j, 's) Server \<Rightarrow>
     ('j, ListRootsResult) SessionState \<Rightarrow> 'j exc + ('j, ListRootsResult) SessionState \<times> string option" where
  "server_list_roots J send dflt fut now sv s =
     (if \<not> sv_session sv
      then Inl (Error J internal_error ''Server::list_roots: server is not running'')
      else Inr (register_pending J send dflt ''roots/list'' (j_null J) fut
                  (ListRootsResult_from_json J) 0 now s))"

definition server_elicit ::
    "'j json_ops \<Rightarrow> transport_send \<Rightarrow> int \<Rightarrow> 'j ElicitRequestParams \<Rightarrow> int \<Rightarrow> nat \<Rightarrow> int \<Rightarrow>
     ('j, 's) Server \<Rightarrow> ('j, 'j ElicitResult) SessionState \<Rightarrow>
     'j exc + ('j, 'j ElicitResult) SessionState \<times> string option" where
  "server_elicit J send dflt params timeout fut now sv s =
     (if \<not> sv_session sv
      then Inl (Error J internal_error ''Server::elicit: server is not running'')
      else Inr (register_pending J send dflt ''elicitation/create''
                  (ElicitRequestParams_to_json J params) fut
                  (ElicitResult_from_json J) timeout now s))"

section \<open>The handler table\<close>

definition server_handlers ::
    "'j json_ops \<Rightarrow> 'j ServerEnv \<Rightarrow> bool \<Rightarrow> ('j, ('j, 's) Server) HandlerTables" where
  "server_handlers J env tasks_enabled =
     (let t = HandlerTables_init;
          t = set_request_handler ''initialize'' (Some (handle_initialize J)) t;
          t = set_request_handler ''tools/list'' (Some (handle_list_tools J)) t;
          t = set_request_handler ''tools/call'' (Some (handle_call_tool J env)) t;
          t = set_request_handler ''resources/list'' (Some (handle_list_resources J)) t;
          t = set_request_handler ''resources/templates/list''
                (Some (handle_list_resource_templates J)) t;
          t = set_request_handler ''resources/read'' (Some (handle_read_resource J)) t;
          t = set_request_handler ''prompts/list'' (Some (handle_list_prompts J)) t;
          t = set_request_handler ''prompts/get'' (Some (handle_get_prompt J)) t;
          t = set_request_handler ''ping'' (Some (handle_ping J)) t;
          t = set_request_handler ''logging/setLevel'' (Some (handle_set_level J)) t;
          t = set_request_handler ''completion/complete'' (Some (handle_complete J)) t;
          t = (if tasks_enabled then
                 let t = set_request_handler ''tasks/get'' (Some (handle_get_task J)) t;
                     t = set_request_handler ''tasks/result'' (Some (handle_get_task_result J env)) t;
                     t = set_request_handler ''tasks/list'' (Some (handle_list_tasks J)) t;
                     t = set_request_handler ''tasks/cancel'' (Some (handle_cancel_task J env)) t
                 in t
               else t);
          t = set_notification_handler ''notifications/elicitation/complete''
                (Some (handle_elicitation_complete J)) t;
          t = set_notification_handler ''notifications/cancelled'' (Some (handle_cancelled J)) t;
          t = set_notification_handler ''notifications/initialized'' (Some (\<lambda>p sv. (Inr (), sv))) t
      in t)"

text \<open>What \<open>run\<close> does to the server before it starts the session, and when it returns.\<close>

definition server_run_begin :: "('j, 's) Server \<Rightarrow> ('j, 's) Server" where
  "server_run_begin sv =
     sv\<lparr>sv_initialized := False, sv_stop_requested := False, sv_session := True,
        sv_tasks := map_option set_status_listener (sv_tasks sv)\<rparr>"

definition server_stop :: "('j, 's) Server \<Rightarrow> ('j, 's) Server" where
  "server_stop sv = sv\<lparr>sv_stop_requested := True\<rparr>"

text \<open>The condition \<open>run\<close> blocks on: \<open>None\<close> when it is still waiting.\<close>

definition server_run_end :: "bool \<Rightarrow> ('j, 's) Server \<Rightarrow> ('j, 's) Server option" where
  "server_run_end session_open sv =
     (if sv_stop_requested sv \<or> \<not> session_open then Some (sv\<lparr>sv_session := False\<rparr>) else None)"

definition server_request ::
    "'j json_ops \<Rightarrow> 'j ServerEnv \<Rightarrow> 'j JsonRpcRequest \<Rightarrow> ('j, 's) Server \<Rightarrow>
     ('j exc + 'j JsonRpcResponse) \<times> ('j, 's) Server" where
  "server_request J env req sv =
     handle_request J (server_handlers J env (sv_tasks sv \<noteq> None)) req sv"

end
