(* ===== verification/Server_Laws.thy ===== *)
theory Server_Laws
  imports Server
begin

text \<open>
  What the server's handlers guarantee: nothing but the handshake works before \<open>initialize\<close>, which
  succeeds once; the advertised capabilities are those that are registered; the guards on tool
  calls; the limit on concurrent tasks and how two calls get past it; listing; logging; the life of
  a task-augmented call from \<open>tools/call\<close> to \<open>tasks/result\<close>.
\<close>

section \<open>The handler table\<close>

lemma lookup_req_set [simp]:
  "lookup_req (set_request_handler m h t) m' = (if m' = m then h else lookup_req t m')"
  by (simp add: lookup_req_def set_request_handler_def update_conv' split: option.split)

lemma lookup_req_set_note [simp]:
  "lookup_req (set_notification_handler m h t) m' = lookup_req t m'"
  by (simp add: lookup_req_def set_notification_handler_def split: option.split)

lemma lookup_req_init [simp]: "lookup_req HandlerTables_init m = None"
  by (simp add: lookup_req_def HandlerTables_init_def)

definition base_methods :: "string list" where
  "base_methods = [''initialize'', ''tools/list'', ''tools/call'', ''resources/list'',
     ''resources/templates/list'', ''resources/read'', ''prompts/list'', ''prompts/get'', ''ping'',
     ''logging/setLevel'', ''completion/complete'']"

definition task_methods :: "string list" where
  "task_methods = [''tasks/get'', ''tasks/result'', ''tasks/list'', ''tasks/cancel'']"

text \<open>The methods that need a completed handshake.\<close>

definition gated_methods :: "string list" where
  "gated_methods = [''tools/list'', ''tools/call'', ''resources/list'', ''resources/templates/list'',
     ''resources/read'', ''prompts/list'', ''prompts/get'', ''completion/complete'',
     ''tasks/get'', ''tasks/result'', ''tasks/list'', ''tasks/cancel'']"

lemma lookup_server_handlers:
  "lookup_req (server_handlers J env b) m =
     (if m = ''initialize'' then Some (handle_initialize J)
      else if m = ''tools/list'' then Some (handle_list_tools J)
      else if m = ''tools/call'' then Some (handle_call_tool J env)
      else if m = ''resources/list'' then Some (handle_list_resources J)
      else if m = ''resources/templates/list'' then Some (handle_list_resource_templates J)
      else if m = ''resources/read'' then Some (handle_read_resource J)
      else if m = ''prompts/list'' then Some (handle_list_prompts J)
      else if m = ''prompts/get'' then Some (handle_get_prompt J)
      else if m = ''ping'' then Some (handle_ping J)
      else if m = ''logging/setLevel'' then Some (handle_set_level J)
      else if m = ''completion/complete'' then Some (handle_complete J)
      else if b \<and> m = ''tasks/get'' then Some (handle_get_task J)
      else if b \<and> m = ''tasks/result'' then Some (handle_get_task_result J env)
      else if b \<and> m = ''tasks/list'' then Some (handle_list_tasks J)
      else if b \<and> m = ''tasks/cancel'' then Some (handle_cancel_task J env)
      else None)"
  by (simp add: server_handlers_def Let_def)

lemma lookup_server_handlers_None:
  "lookup_req (server_handlers J env b) m = None \<longleftrightarrow>
     m \<notin> set base_methods \<and> (b \<longrightarrow> m \<notin> set task_methods)"
  by (simp add: lookup_server_handlers base_methods_def task_methods_def)

lemmas handler_defs =
  handle_initialize_def handle_list_tools_def handle_call_tool_def handle_list_resources_def
  handle_list_resource_templates_def handle_read_resource_def handle_list_prompts_def
  handle_get_prompt_def handle_ping_def handle_set_level_def handle_complete_def
  handle_get_task_def handle_get_task_result_def handle_list_tasks_def handle_cancel_task_def

lemma gated_handler:
  assumes "m \<in> set gated_methods" and "lookup_req (server_handlers J env b) m = Some h"
    and "\<not> sv_initialized sv"
  shows "h params sv = (Inl (not_initialized J), sv)"
  using assms
  by (auto simp: gated_methods_def lookup_server_handlers handler_defs split: if_splits)

section \<open>What a request cannot change\<close>

text \<open>The configuration of a server: everything the registration operations set.\<close>

definition same_config :: "('j, 's) Server \<Rightarrow> ('j, 's) Server \<Rightarrow> bool" where
  "same_config sv sv' \<longleftrightarrow>
     sv_server_info sv' = sv_server_info sv \<and> sv_instructions sv' = sv_instructions sv \<and>
     sv_page_size sv' = sv_page_size sv \<and> sv_tools sv' = sv_tools sv \<and>
     sv_resources sv' = sv_resources sv \<and>
     sv_resource_templates sv' = sv_resource_templates sv \<and>
     sv_fallback_resource_handler sv' = sv_fallback_resource_handler sv \<and>
     sv_prompts sv' = sv_prompts sv \<and> sv_logging_enabled sv' = sv_logging_enabled sv \<and>
     sv_completion_handler sv' = sv_completion_handler sv \<and>
     sv_tasks_default_ttl_ms sv' = sv_tasks_default_ttl_ms sv \<and>
     sv_tasks_max_concurrent sv' = sv_tasks_max_concurrent sv \<and>
     sv_session sv' = sv_session sv \<and> (sv_tasks sv' = None \<longleftrightarrow> sv_tasks sv = None)"

lemma same_config_refl [simp]: "same_config sv sv"
  by (simp add: same_config_def)

lemma same_config_trans: "same_config a b \<Longrightarrow> same_config b c \<Longrightarrow> same_config a c"
  by (simp add: same_config_def)

text \<open>Once initialized, a server stays so with the capabilities it recorded.\<close>

definition keeps_handshake :: "('j, 's) Server \<Rightarrow> ('j, 's) Server \<Rightarrow> bool" where
  "keeps_handshake sv sv' \<longleftrightarrow>
     (sv_initialized sv \<longrightarrow>
        sv_initialized sv' \<and> sv_client_capabilities sv' = sv_client_capabilities sv)"

lemma keeps_handshake_refl [simp]: "keeps_handshake sv sv"
  by (simp add: keeps_handshake_def)

lemma call_back_frame:
  "call_back h x sv = (r, sv') \<Longrightarrow> \<exists>app. sv' = sv\<lparr>sv_app := app\<rparr>"
  by (auto simp: call_back_def split: option.splits prod.splits intro: exI [of _ "sv_app sv"])

definition frame_ok :: "('j, 's) Server \<Rightarrow> ('j, 's) Server \<Rightarrow> bool" where
  "frame_ok sv sv' \<longleftrightarrow> same_config sv sv' \<and> keeps_handshake sv sv'"

lemma frame_ok_refl [simp]: "frame_ok sv sv"
  by (simp add: frame_ok_def)

lemma frame_ok_updates [simp]:
  "frame_ok sv (sv\<lparr>sv_app := app\<rparr>)"
  "frame_ok sv (sv\<lparr>sv_log_level := l\<rparr>)"
  "sv_tasks sv \<noteq> None \<Longrightarrow> frame_ok sv (sv\<lparr>sv_tasks := Some ts\<rparr>)"
  "sv_tasks sv \<noteq> None \<Longrightarrow> frame_ok sv (sv\<lparr>sv_tasks := Some ts, sv_notified := ns\<rparr>)"
  "sv_tasks sv \<noteq> None \<Longrightarrow>
     frame_ok sv (sv\<lparr>sv_tasks := Some ts, sv_notified := ns, sv_jobs := js\<rparr>)"
  "\<not> sv_initialized sv \<Longrightarrow>
     frame_ok sv (sv\<lparr>sv_initialized := True, sv_client_capabilities := c\<rparr>)"
  by (simp_all add: frame_ok_def same_config_def keeps_handshake_def)

lemma frame_ok_call_back [simp]: "frame_ok sv (snd (call_back h x sv))"
  by (metis call_back_frame frame_ok_updates(1) prod.collapse)

lemma frame_ok_start_task:
  "sv_tasks sv \<noteq> None \<Longrightarrow> frame_ok sv (snd (start_task J env h args aug ts sv))"
  by (simp add: start_task_def Let_def case_prod_unfold)

lemma frame_ok_simple:
  "frame_ok sv (snd (handle_initialize J p sv))"
  "frame_ok sv (snd (handle_list_tools J p sv))"
  "frame_ok sv (snd (handle_list_resources J p sv))"
  "frame_ok sv (snd (handle_list_resource_templates J p sv))"
  "frame_ok sv (snd (handle_list_prompts J p sv))"
  "frame_ok sv (snd (handle_ping J p sv))"
  "frame_ok sv (snd (handle_set_level J p sv))"
  "frame_ok sv (snd (handle_get_task J p sv))"
  "frame_ok sv (snd (handle_list_tasks J p sv))"
  by (simp_all add: handler_defs Let_def split: sum.split option.split)

lemma frame_ok_callbacks:
  "frame_ok sv (snd (handle_read_resource J p sv))"
  "frame_ok sv (snd (handle_get_prompt J p sv))"
  "frame_ok sv (snd (handle_complete J p sv))"
  by (simp_all add: handler_defs Let_def case_prod_unfold split: sum.split option.split)

lemma frame_ok_tasks:
  "frame_ok sv (snd (handle_get_task_result J env p sv))"
  "frame_ok sv (snd (handle_cancel_task J env p sv))"
  by (auto simp: handler_defs Let_def case_prod_unfold split: sum.split option.split)

lemma frame_ok_call_tool: "frame_ok sv (snd (handle_call_tool J env p sv))"
  by (auto simp: handle_call_tool_def Let_def case_prod_unfold frame_ok_start_task
      split: sum.split option.split)

lemmas frame_ok_handlers =
  frame_ok_simple frame_ok_callbacks frame_ok_tasks frame_ok_call_tool

lemma handle_request_state:
  "snd (handle_request J t req s) =
     (case lookup_req t (req_method req) of
        None \<Rightarrow> s
      | Some h \<Rightarrow> snd (h (case req_params req of Some p \<Rightarrow> p | None \<Rightarrow> j_null J) s))"
  by (simp add: handle_request_def Let_def case_prod_unfold split: option.split)

lemma frame_ok_request: "frame_ok sv (snd (server_request J env req sv))"
  by (simp add: server_request_def handle_request_state lookup_server_handlers frame_ok_handlers
      split: option.split)

definition serve_all ::
    "'j json_ops \<Rightarrow> ('j ServerEnv \<times> 'j JsonRpcRequest) list \<Rightarrow> ('j, 's) Server \<Rightarrow> ('j, 's) Server" where
  "serve_all J reqs sv = fold (\<lambda>(env, req) sv. snd (server_request J env req sv)) reqs sv"

lemma frame_ok_trans: "frame_ok a b \<Longrightarrow> frame_ok b c \<Longrightarrow> frame_ok a c"
  by (auto simp: frame_ok_def keeps_handshake_def dest: same_config_trans)

lemma frame_ok_serve_all: "frame_ok sv (serve_all J reqs sv)"
proof (induction reqs arbitrary: sv)
  case (Cons r reqs)
  obtain env req where r: "r = (env, req)" by fastforce
  have "serve_all J (r # reqs) sv = serve_all J reqs (snd (server_request J env req sv))"
    by (simp add: serve_all_def r)
  with Cons.IH frame_ok_request show ?case by (metis frame_ok_trans)
qed (simp add: serve_all_def)

section \<open>Capabilities\<close>

lemma raw_wf_if [simp]: "raw_wf J (if b then Some v else None) \<longleftrightarrow> (b \<longrightarrow> \<not> j_is_null J v)"
  by simp

context json_lib
begin

lemma server_capabilities_wf: "ServerCapabilities_wf J (server_capabilities J sv)"
  by (auto simp: ServerCapabilities_wf_def server_capabilities_def TasksCapability_wf_def
      TasksRequestsCapability_wf_def split: option.split)

lemma initialize_result_rt:
  assumes "Implementation_wf J info"
  shows "InitializeResult_from_json J (InitializeResult_to_json J
      \<lparr>initres_protocol_version = v, initres_capabilities = server_capabilities J sv,
       initres_server_info = info, initres_instructions = i, initres_meta = None\<rparr>) =
    Inr \<lparr>initres_protocol_version = v, initres_capabilities = server_capabilities J sv,
       initres_server_info = info, initres_instructions = i, initres_meta = None\<rparr>"
  by (rule InitializeResult.dec_enc)
    (simp add: InitializeResult_wf_def server_capabilities_wf assms)

end

lemma list_page_subset:
  "list_page J items cursor ps = Inr (page, next) \<Longrightarrow> set page \<subseteq> set items"
  by (auto simp: list_page_def paginate_def iterator_range_def Let_def ebind_eq_Inr_iff
      emap_eq_Inr_iff split: if_splits dest: in_set_takeD in_set_dropD)

text \<open>A client's view of the list methods: it sends a cursor and decodes the page.\<close>

definition fetch_tools ::
    "'j json_ops \<Rightarrow> ('j, 's) Server \<Rightarrow> string option \<Rightarrow> 'j exc + 'j Tool list \<times> string option" where
  "fetch_tools J sv cursor =
     ebind (fst (handle_list_tools J (ListToolsRequestParams_to_json J \<lparr>ltp_cursor = cursor\<rparr>) sv)) (\<lambda>v.
     emap (\<lambda>r. (ltr_tools r, ltr_next_cursor r)) (ListToolsResult_from_json J v))"

definition fetch_resources ::
    "'j json_ops \<Rightarrow> ('j, 's) Server \<Rightarrow> string option \<Rightarrow> 'j exc + 'j Resource list \<times> string option" where
  "fetch_resources J sv cursor =
     ebind (fst (handle_list_resources J (ListResourcesRequestParams_to_json J \<lparr>lrp_cursor = cursor\<rparr>) sv)) (\<lambda>v.
     emap (\<lambda>r. (lrr_resources r, lrr_next_cursor r)) (ListResourcesResult_from_json J v))"

definition fetch_prompts ::
    "'j json_ops \<Rightarrow> ('j, 's) Server \<Rightarrow> string option \<Rightarrow> 'j exc + 'j Prompt list \<times> string option" where
  "fetch_prompts J sv cursor =
     ebind (fst (handle_list_prompts J (ListPromptsRequestParams_to_json J \<lparr>lpp_cursor = cursor\<rparr>) sv)) (\<lambda>v.
     emap (\<lambda>r. (lpr_prompts r, lpr_next_cursor r)) (ListPromptsResult_from_json J v))"

definition tool_descriptors :: "('j, 's) Server \<Rightarrow> 'j Tool list" where
  "tool_descriptors sv = map (\<lambda>(name, e). toe_descriptor e) (sv_tools sv)"

definition resource_descriptors :: "('j, 's) Server \<Rightarrow> 'j Resource list" where
  "resource_descriptors sv = map (\<lambda>(uri, e). ree_descriptor e) (sv_resources sv)"

definition prompt_descriptors :: "('j, 's) Server \<Rightarrow> 'j Prompt list" where
  "prompt_descriptors sv = map (\<lambda>(name, e). pre_descriptor e) (sv_prompts sv)"

context json_lib
begin

lemma fetch_tools_page:
  assumes "sv_initialized sv" "list_all (Tool_wf J) (tool_descriptors sv)"
  shows "fetch_tools J sv cursor = list_page J (tool_descriptors sv) cursor (sv_page_size sv)"
proof (cases "list_page J (tool_descriptors sv) cursor (sv_page_size sv)")
  case (Inr p)
  obtain page nxt where p: "p = (page, nxt)" by fastforce
  have "ListToolsResult_wf J \<lparr>ltr_tools = page, ltr_next_cursor = nxt, ltr_meta = None\<rparr>"
    using list_page_subset [OF Inr [unfolded p]] assms(2)
    by (auto simp: ListToolsResult_wf_def list_all_iff)
  with Inr p assms(1) show ?thesis
    by (simp add: fetch_tools_def handle_list_tools_def tool_descriptors_def
        ListToolsRequestParams.dec_enc ListToolsResult.dec_enc)
qed (use assms(1) in \<open>simp add: fetch_tools_def handle_list_tools_def tool_descriptors_def
    ListToolsRequestParams.dec_enc\<close>)

lemma fetch_resources_page:
  assumes "sv_initialized sv" "list_all (Resource_wf J) (resource_descriptors sv)"
  shows "fetch_resources J sv cursor = list_page J (resource_descriptors sv) cursor (sv_page_size sv)"
proof (cases "list_page J (resource_descriptors sv) cursor (sv_page_size sv)")
  case (Inr p)
  obtain page nxt where p: "p = (page, nxt)" by fastforce
  have "ListResourcesResult_wf J \<lparr>lrr_resources = page, lrr_next_cursor = nxt, lrr_meta = None\<rparr>"
    using list_page_subset [OF Inr [unfolded p]] assms(2)
    by (auto simp: ListResourcesResult_wf_def list_all_iff)
  with Inr p assms(1) show ?thesis
    by (simp add: fetch_resources_def handle_list_resources_def resource_descriptors_def
        ListResourcesRequestParams.dec_enc ListResourcesResult.dec_enc)
qed (use assms(1) in \<open>simp add: fetch_resources_def handle_list_resources_def
    resource_descriptors_def ListResourcesRequestParams.dec_enc\<close>)

lemma fetch_prompts_page:
  assumes "sv_initialized sv" "list_all (Prompt_wf J) (prompt_descriptors sv)"
  shows "fetch_prompts J sv cursor = list_page J (prompt_descriptors sv) cursor (sv_page_size sv)"
proof (cases "list_page J (prompt_descriptors sv) cursor (sv_page_size sv)")
  case (Inr p)
  obtain page nxt where p: "p = (page, nxt)" by fastforce
  have "ListPromptsResult_wf J \<lparr>lpr_prompts = page, lpr_next_cursor = nxt, lpr_meta = None\<rparr>"
    using list_page_subset [OF Inr [unfolded p]] assms(2)
    by (auto simp: ListPromptsResult_wf_def list_all_iff)
  with Inr p assms(1) show ?thesis
    by (simp add: fetch_prompts_def handle_list_prompts_def prompt_descriptors_def
        ListPromptsRequestParams.dec_enc ListPromptsResult.dec_enc)
qed (use assms(1) in \<open>simp add: fetch_prompts_def handle_list_prompts_def
    prompt_descriptors_def ListPromptsRequestParams.dec_enc\<close>)

end

section \<open>Concurrent tasks\<close>

text \<open>
  The server with its task workers, one handler at a time. A call of \<open>tasks/result\<close> that waits
  changes nothing in the store, so it is a step of its own at the moment it returns.
\<close>

inductive server_step ::
    "'j json_ops \<Rightarrow> ('j, 's) Server \<Rightarrow> ('j, 's) Server \<Rightarrow> bool" for J :: "'j json_ops" where
  request: "env_seen env = [] \<Longrightarrow> server_step J sv (snd (server_request J env req sv))"
| worker: "job \<in> set (sv_jobs sv) \<Longrightarrow> run_task_job J now job sv = (Inr (), sv') \<Longrightarrow>
    server_step J sv (sv'\<lparr>sv_jobs := remove1 job (sv_jobs sv')\<rparr>)"

inductive server_reachable ::
    "'j json_ops \<Rightarrow> ('j, 's) Server \<Rightarrow> ('j, 's) Server \<Rightarrow> bool" for J :: "'j json_ops" and sv0 where
  start: "server_reachable J sv0 sv0"
| step: "server_reachable J sv0 sv \<Longrightarrow> server_step J sv sv' \<Longrightarrow> server_reachable J sv0 sv'"

text \<open>Every worker that was counted is a job that has not ended.\<close>

definition workers_inv :: "('j, 's) Server \<Rightarrow> bool" where
  "workers_inv sv \<longleftrightarrow>
     (case sv_tasks sv of
        None \<Rightarrow> sv_jobs sv = []
      | Some ts \<Rightarrow>
          ts_workers_inflight ts = int (length (sv_jobs sv)) \<and>
          (0 < sv_tasks_max_concurrent sv \<longrightarrow>
             length (sv_jobs sv) \<le> unat (sv_tasks_max_concurrent sv)))"

lemma workers_inflight_ops [simp]:
  "ts_workers_inflight (snd (snd (ts_create tid now st ttl ts))) = ts_workers_inflight ts"
  "ts_workers_inflight (snd (ts_complete now tid r ts)) = ts_workers_inflight ts"
  "ts_workers_inflight (snd (ts_fail now tid m ts)) = ts_workers_inflight ts"
  "ts_workers_inflight (snd (snd (ts_cancel now tid ts))) = ts_workers_inflight ts"
  "ts_workers_inflight (worker_started ts) = ts_workers_inflight ts + 1"
  "ts_workers_inflight (worker_finished ts) = ts_workers_inflight ts - 1"
  by (auto simp: ts_create_def ts_complete_def ts_fail_def ts_cancel_def Let_def worker_started_def
      worker_finished_def split: option.split)

lemma check_concurrency_ok:
  assumes "check_concurrency J limit ts = Inr ()" "ts_workers_inflight ts = int n" "0 < limit"
    and "n \<le> unat limit"
  shows "n < unat limit"
proof (rule ccontr)
  assume "\<not> n < unat limit"
  with assms(4) have "n = unat limit" by simp
  then have "(word_of_int (int n) :: size_t) = limit" by simp
  with assms(1-3) show False by (simp add: check_concurrency_def)
qed

lemma workers_inv_start_task:
  assumes inv: "workers_inv sv" and ts: "sv_tasks sv = Some ts"
    and check: "check_concurrency J (sv_tasks_max_concurrent sv) ts = Inr ()"
  shows "workers_inv (snd (start_task J env h args aug ts sv))"
proof -
  have "0 < sv_tasks_max_concurrent sv \<Longrightarrow>
      length (sv_jobs sv) < unat (sv_tasks_max_concurrent sv)"
    using check_concurrency_ok [OF check] inv ts by (simp add: workers_inv_def)
  with inv ts show ?thesis
    by (auto simp: workers_inv_def start_task_def Let_def case_prod_unfold)
qed

lemma workers_inv_app [simp]:
  "workers_inv (sv\<lparr>sv_app := app\<rparr>) \<longleftrightarrow> workers_inv sv"
  "workers_inv (sv\<lparr>sv_log_level := l\<rparr>) \<longleftrightarrow> workers_inv sv"
  "workers_inv (sv\<lparr>sv_initialized := b, sv_client_capabilities := c\<rparr>) \<longleftrightarrow> workers_inv sv"
  by (simp_all add: workers_inv_def split: option.split)

lemma workers_inv_call_back [simp]: "workers_inv (snd (call_back h x sv)) \<longleftrightarrow> workers_inv sv"
  by (metis call_back_frame workers_inv_app(1) prod.collapse)

lemma workers_inv_call_tool:
  assumes "workers_inv sv"
  shows "workers_inv (snd (handle_call_tool J env p sv))"
  using assms
  by (auto simp: handle_call_tool_def Let_def case_prod_unfold workers_inv_start_task
      split: sum.split option.split)

lemma workers_inv_simple:
  assumes "workers_inv sv"
  shows "workers_inv (snd (handle_initialize J p sv))"
    "workers_inv (snd (handle_list_tools J p sv))"
    "workers_inv (snd (handle_list_resources J p sv))"
    "workers_inv (snd (handle_list_resource_templates J p sv))"
    "workers_inv (snd (handle_list_prompts J p sv))"
    "workers_inv (snd (handle_ping J p sv))"
    "workers_inv (snd (handle_set_level J p sv))"
    "workers_inv (snd (handle_get_task J p sv))"
    "workers_inv (snd (handle_list_tasks J p sv))"
    "workers_inv (snd (handle_read_resource J p sv))"
    "workers_inv (snd (handle_get_prompt J p sv))"
    "workers_inv (snd (handle_complete J p sv))"
  using assms
  by (simp_all add: handler_defs Let_def case_prod_unfold split: sum.split option.split)

lemma workers_inv_tasks:
  assumes "workers_inv sv"
  shows "env_seen env = [] \<Longrightarrow> workers_inv (snd (handle_get_task_result J env p sv))"
    and "workers_inv (snd (handle_cancel_task J env p sv))"
  using assms
  by (auto simp: handler_defs Let_def case_prod_unfold workers_inv_def
      split: sum.split option.splits)

lemma workers_inv_request:
  "workers_inv sv \<Longrightarrow> env_seen env = [] \<Longrightarrow> workers_inv (snd (server_request J env req sv))"
  by (simp add: server_request_def handle_request_state lookup_server_handlers workers_inv_simple
      workers_inv_tasks workers_inv_call_tool split: option.split)

lemma run_task_job_state:
  assumes "run_task_job J now job sv = (Inr (), sv')" "sv_tasks sv = Some ts"
  shows "\<exists>ts'. sv_tasks sv' = Some ts' \<and> ts_workers_inflight ts' = ts_workers_inflight ts - 1 \<and>
    sv_jobs sv' = sv_jobs sv \<and> same_config sv sv'"
proof -
  obtain r sv1 where cb: "call_back (job_handler job) (job_args job) sv = (r, sv1)" by fastforce
  from call_back_frame [OF cb] obtain app where sv1: "sv1 = sv\<lparr>sv_app := app\<rparr>" by blast
  show ?thesis
    using assms cb
    by (auto simp: run_task_job_def sv1 same_config_def case_prod_unfold
        split: sum.splits exc.splits)
qed

lemma workers_inv_step:
  assumes "server_step J sv sv'" "workers_inv sv"
  shows "workers_inv sv'"
  using assms
proof (cases rule: server_step.cases)
  case (request env req)
  with assms(2) show ?thesis by (simp add: workers_inv_request)
next
  case (worker job now sv1)
  then obtain ts where ts: "sv_tasks sv = Some ts"
    using assms(2) by (cases "sv_tasks sv") (auto simp: workers_inv_def)
  from run_task_job_state [OF worker(3) ts] obtain ts' where
    ts': "sv_tasks sv1 = Some ts'" "ts_workers_inflight ts' = ts_workers_inflight ts - 1"
    "sv_jobs sv1 = sv_jobs sv" "sv_tasks_max_concurrent sv1 = sv_tasks_max_concurrent sv"
    by (auto simp: same_config_def)
  have pos: "0 < length (sv_jobs sv)" using worker(2) by auto
  then have len: "int (length (remove1 job (sv_jobs sv))) = int (length (sv_jobs sv)) - 1"
    using worker(2) by (simp add: length_remove1 of_nat_diff Suc_le_eq)
  have less: "length (remove1 job (sv_jobs sv)) \<le> length (sv_jobs sv)"
    by (simp add: length_remove1)
  show ?thesis
    using assms(2) ts ts' len unfolding worker(1)
    by (auto simp: workers_inv_def intro: order_trans [OF less])
qed

section \<open>Two calls past the limit\<close>

text \<open>
  The same calls with the check of the limit and the start of the worker as two steps of the thread
  that serves the request, as in the code: \<open>workers_inflight\<close> takes and releases its lock before
  \<open>create\<close> and \<open>worker_started\<close> take theirs. The multiset holds the calls past the check.
\<close>

record ('j, 's) PassedCall =
  pc_env :: "'j ServerEnv"
  pc_handler :: "('j, 's) ToolHandler option"
  pc_args :: 'j
  pc_task :: TaskAugmentation

inductive call_step ::
    "'j json_ops \<Rightarrow> ('j, 's) Server \<times> ('j, 's) PassedCall multiset \<Rightarrow>
     ('j, 's) Server \<times> ('j, 's) PassedCall multiset \<Rightarrow> bool" for J :: "'j json_ops" where
  checks: "sv_tasks sv = Some ts \<Longrightarrow>
      check_concurrency J (sv_tasks_max_concurrent sv) ts = Inr () \<Longrightarrow>
    call_step J (sv, P) (sv, add_mset c P)"
| starts: "sv_tasks sv = Some ts \<Longrightarrow>
    call_step J (sv, add_mset c P)
      (snd (start_task J (pc_env c) (pc_handler c) (pc_args c) (pc_task c) ts sv), P)"

definition over_limit :: "('j, 's) Server \<Rightarrow> bool" where
  "over_limit sv \<longleftrightarrow>
     (case sv_tasks sv of
        None \<Rightarrow> False
      | Some ts \<Rightarrow> int (unat (sv_tasks_max_concurrent sv)) < ts_workers_inflight ts)"

section \<open>The result of a task\<close>

lemma start_task_eq:
  fixes aug :: TaskAugmentation and sv :: "('j, 's) Server" and ts :: "'j TaskStore"
    and env :: "'j ServerEnv"
  assumes "find_entry ts (env_task_id env) = None"
  defines "e \<equiv> new_entry (env_task_id env) (env_now env) (env_steady env) (effective_ttl aug sv)"
  shows "start_task J env h args aug ts sv =
    (Inr (CreateTaskResult_to_json J \<lparr>ctres_task = en_task e\<rparr>),
     sv\<lparr>sv_tasks := Some (worker_started (snd (snd (ts_create (env_task_id env) (env_now env)
          (env_steady env) (effective_ttl aug sv) ts)))),
        sv_notified := sv_notified sv @ notify ts (en_task e),
        sv_jobs := sv_jobs sv @ [\<lparr>job_task = env_task_id env, job_handler = h, job_args = args\<rparr>]\<rparr>)"
  using assms(1) unfolding e_def
  by (simp add: start_task_def Let_def ts_create_def new_entry_def notify_def)

context json_lib
begin

lemma tag_result_fields:
  assumes "j_is_object J v"
  shows "j_is_object J (tag_result J tid v)"
    and "k \<noteq> ''_meta'' \<Longrightarrow> j_find J (tag_result J tid v) k = j_find J v k"
    and "\<exists>meta tag. j_find J (tag_result J tid v) ''_meta'' = Some meta \<and> j_is_object J meta \<and>
      j_find J meta related_task_key = Some tag \<and>
      j_find J tag ''taskId'' = Some (j_string J tid) \<and>
      (\<forall>m k. j_find J v ''_meta'' = Some m \<longrightarrow> j_is_object J m \<longrightarrow> k \<noteq> related_task_key \<longrightarrow>
         j_find J meta k = j_find J m k)"
  using assms by (auto simp: tag_result_def Let_def split: option.split)

end

lemma find_entry_workers [simp]:
  "find_entry (worker_started s) tid = find_entry s tid"
  "find_entry (worker_finished s) tid = find_entry s tid"
  by (simp_all add: find_entry_def worker_started_def worker_finished_def)

text \<open>A task that has just been created takes the worker's result.\<close>

lemma complete_fresh_task:
  assumes "find_entry s tid = Some (new_entry tid t0 steady ttl)"
  shows "\<exists>s'. snd (ts_complete now tid r s) = s' \<and>
    ts_wait_result J tid [worker_finished s'] = Inr (Some r)"
  using assms
  by (simp add: ts_complete_def Let_def new_entry_def wait_over_def wait_outcome_def)

text \<open>What a worker stores for each way a tool handler can end, and what its reader gets.\<close>

fun exc_text :: "'j exc \<Rightarrow> string" where
  "exc_text (McpError e) = eo_message e"
| "exc_text (JsonException w) = w"
| "exc_text (StdException w) = w"
| "exc_text OtherException = ''unknown exception''"
| "exc_text Undefined = []"

fun job_value :: "'j json_ops \<Rightarrow> 'j exc + 'j CallToolResult \<Rightarrow> 'j exc + 'j" where
  "job_value J (Inr res) = Inr (CallToolResult_to_json J res)"
| "job_value J (Inl e) = Inl (Error J internal_error (''task failed: '' @ exc_text e))"

fun report_job ::
    "'j json_ops \<Rightarrow> string \<Rightarrow> string \<Rightarrow> 'j exc + 'j CallToolResult \<Rightarrow> 'j TaskStore \<Rightarrow>
     Task list \<times> 'j TaskStore" where
  "report_job J now tid (Inr res) s = ts_complete now tid (CallToolResult_to_json J res) s"
| "report_job J now tid (Inl e) s = ts_fail now tid (exc_text e) s"

lemma run_task_job_reports:
  assumes "sv_tasks sv = Some s" and "h args (sv_app sv) = (r, app)" and "r \<noteq> Inl Undefined"
  shows "run_task_job J now \<lparr>job_task = tid, job_handler = Some h, job_args = args\<rparr> sv =
    (Inr (), sv\<lparr>sv_app := app, sv_tasks := Some (worker_finished (snd (report_job J now tid r s))),
                sv_notified := sv_notified sv @ fst (report_job J now tid r s)\<rparr>)"
  using assms
  by (cases r; cases "projl r")
    (auto simp: run_task_job_def call_back_def case_prod_unfold Let_def split: exc.splits)

lemma fresh_job_reported:
  assumes "find_entry s tid = Some (new_entry tid t0 steady ttl)"
  shows "wait_over tid (worker_finished (snd (report_job J now tid r s)))"
    and "wait_outcome J tid (worker_finished (snd (report_job J now tid r s))) = job_value J r"
  using assms
  by (cases r; simp add: ts_complete_def ts_fail_def Let_def new_entry_def wait_over_def
      wait_outcome_def)+

lemma find_created:
  "find_entry s tid = None \<Longrightarrow>
     find_entry (snd (snd (ts_create tid t0 steady ttl s))) tid = Some (new_entry tid t0 steady ttl)"
  by (simp add: ts_create_def Let_def find_entry_def map_add_def)

context json_lib
begin

lemma get_task_result_now:
  assumes "sv_initialized sv" "sv_tasks sv = Some ts" "env_seen env = []" "wait_over tid ts"
  shows "fst (handle_get_task_result J env (GetTaskResultRequestParams_to_json J \<lparr>gtrp_task_id = tid\<rparr>) sv) =
    emap (tag_result J tid) (wait_outcome J tid ts)"
  using assms
  by (cases "wait_outcome J tid ts")
    (simp_all add: handle_get_task_result_def GetTaskResultRequestParams.dec_enc Let_def rethrow_as_def)

lemma set_level_handled:
  "handle_set_level J (SetLevelRequestParams_to_json J \<lparr>slp_level = l\<rparr>) sv =
    (if sv_logging_enabled sv then (Inr (j_object J), sv\<lparr>sv_log_level := l\<rparr>)
     else (Inl (Error J method_not_found ''logging capability is not enabled''), sv))"
  by (simp add: handle_set_level_def SetLevelRequestParams.dec_enc rethrow_as_def)

end

section \<open>An example server\<close>

text \<open>A server with one tool, which returns no content, and task support with a limit of one.\<close>

definition example_info :: "jv Implementation" where
  "example_info = \<lparr>impl_name = ''calc'', impl_title = None, impl_version = ''1'',
     impl_description = None, impl_website_url = None, impl_icons = None, impl_meta = None\<rparr>"

definition example_result :: "jv CallToolResult" where
  "example_result = \<lparr>ctr_content = [], ctr_structured_content = None, ctr_is_error = None,
     ctr_meta = None\<rparr>"

definition example_handler :: "(jv, unit) ToolHandler" where
  "example_handler args app = (Inr example_result, app)"

definition example_server :: "(jv, unit) Server" where
  "example_server =
     (enable_tasks None 1
       (add_tool ''add'' (VObject []) (Some example_handler) None None None None
         (enable_logging Log_warning (Server_init example_info ()))))\<lparr>sv_initialized := True, sv_session := True\<rparr>"

definition example_env :: "jv ServerEnv" where
  "example_env = \<lparr>env_task_id = ''t1'', env_now = ''now'', env_steady = 0, env_seen = []\<rparr>"

lemma example_server_fields [simp]:
  "sv_initialized example_server" "sv_session example_server" "sv_logging_enabled example_server"
  "sv_log_level example_server = Log_warning" "sv_jobs example_server = []"
  "sv_tasks example_server = Some TaskStore_init" "sv_tasks_max_concurrent example_server = 1"
  "sv_page_size example_server = 0" "sv_app example_server = ()"
  "map_of (sv_tools example_server) ''add'' = Some
     \<lparr>toe_descriptor = \<lparr>tool_name = ''add'', tool_title = None, tool_description = None,
        tool_input_schema = VObject [], tool_output_schema = None, tool_annotations = None,
        tool_icons = None, tool_execution = None, tool_meta = None\<rparr>,
      toe_handler = Some example_handler\<rparr>"
  by (simp_all add: example_server_def enable_tasks_def add_tool_def enable_logging_def
      Server_init_def)

definition example_call :: jv where
  "example_call = VObject [(''name'', VString ''add''), (''task'', VObject [])]"

lemma example_call_parsed [simp]:
  "CallToolRequestParams_from_json jv_ops example_call =
     Inr \<lparr>ctp_name = ''add'', ctp_arguments = None, ctp_task = Some \<lparr>task_aug_ttl = None\<rparr>\<rparr>"
  by (simp add: example_call_def CallToolRequestParams_from_json_def TaskAugmentation_from_json_def
      require_def take_optional_def take_optional_json_def at_get_def get_str_def)

definition example_args :: jv where
  "example_args = VObject [(''a'', VUInt 2)]"

definition example_task_call :: jv where
  "example_task_call = VObject [(''name'', VString ''add''), (''arguments'', example_args), (''task'', VObject [])]"

lemma example_task_call_parsed [simp]:
  "CallToolRequestParams_from_json jv_ops example_task_call =
     Inr \<lparr>ctp_name = ''add'', ctp_arguments = Some example_args, ctp_task = Some \<lparr>task_aug_ttl = None\<rparr>\<rparr>"
  by (simp add: example_task_call_def example_args_def CallToolRequestParams_from_json_def TaskAugmentation_from_json_def
      require_def take_optional_def take_optional_json_def at_get_def get_str_def)

section \<open>Properties\<close>

text \<open>
  C16: Before \<open>initialize\<close> has succeeded, every tools, resources, prompts, completion and tasks
  request is answered with \<open>invalid_request\<close> "not initialized" and changes nothing: no handler of
  the application runs and no task is created.
\<close>

theorem nothing_before_initialize:
  fixes sv :: "('j, 's) Server"
  assumes "\<not> sv_initialized sv" and "req_method req \<in> set gated_methods"
    and "req_method req \<in> set task_methods \<longrightarrow> sv_tasks sv \<noteq> None"
  shows "server_request J env req sv =
    (Inr \<lparr>resp_id = Some (req_id req),
          resp_outcome = Failure \<lparr>eo_code = invalid_request, eo_message = ''not initialized'',
                                  eo_data = j_null J\<rparr>\<rparr>, sv)"
proof -
  let ?t = "server_handlers J env (sv_tasks sv \<noteq> None) :: ('j, ('j, 's) Server) HandlerTables"
  have "lookup_req ?t (req_method req) \<noteq> None"
    using assms(2,3) unfolding lookup_server_handlers_None
    by (auto simp: gated_methods_def base_methods_def task_methods_def)
  then obtain h where h: "lookup_req ?t (req_method req) = Some h"
    by blast
  from gated_handler [OF assms(2) h assms(1)] h show ?thesis
    by (simp add: server_request_def handle_request_def Let_def not_initialized_def Error_def
        Error3_def)
qed

theorem nothing_before_initialize_witness:
  "server_request jv_ops example_env
      \<lparr>req_id = IdInt 1, req_method = ''tools/call'', req_params = Some example_call\<rparr>
      (Server_init example_info ()) =
    (Inr \<lparr>resp_id = Some (req_id \<lparr>req_id = IdInt 1, req_method = ''tools/call'', req_params = Some example_call\<rparr>),
          resp_outcome = Failure \<lparr>eo_code = invalid_request, eo_message = ''not initialized'',
                                  eo_data = j_null jv_ops\<rparr>\<rparr>, Server_init example_info ())"
  by (rule nothing_before_initialize) (simp_all add: Server_init_def gated_methods_def task_methods_def)

text \<open>
  C15: \<open>initialize\<close> succeeds at most once: it succeeds only on a server that is not initialized, with
  params that decode, and then records the client's capabilities. From then on no sequence of
  requests undoes the handshake, changes the recorded capabilities or the server's configuration, or
  makes another \<open>initialize\<close> succeed.
\<close>

theorem initialize_once:
  "(case handle_initialize J params sv of
      (Inl e, sv') \<Rightarrow> sv' = sv
    | (Inr v, sv') \<Rightarrow> \<not> sv_initialized sv \<and> sv_initialized sv' \<and>
        (\<exists>p. InitializeRequestParams_from_json J params = Inr p \<and>
             sv_client_capabilities sv' = Some (init_capabilities p))) \<and>
   (let sv' = serve_all J reqs sv
    in same_config sv sv' \<and>
       (sv_initialized sv \<longrightarrow>
          sv_initialized sv' \<and> sv_client_capabilities sv' = sv_client_capabilities sv \<and>
          (\<exists>e. handle_initialize J params sv' = (Inl e, sv'))))"
proof -
  have first: "case handle_initialize J params sv of
      (Inl e, sv') \<Rightarrow> sv' = sv
    | (Inr v, sv') \<Rightarrow> \<not> sv_initialized sv \<and> sv_initialized sv' \<and>
        (\<exists>p. InitializeRequestParams_from_json J params = Inr p \<and>
             sv_client_capabilities sv' = Some (init_capabilities p))"
    by (auto simp: handle_initialize_def Let_def rethrow_as_def ecatch_eq_Inr_iff split: sum.split)
  have again: "sv_initialized sv1 \<Longrightarrow> \<exists>e. handle_initialize J params sv1 = (Inl e, sv1)" for sv1
    by (auto simp: handle_initialize_def split: sum.split)
  show ?thesis unfolding Let_def
    using frame_ok_serve_all [of sv J reqs] first again [of "serve_all J reqs sv"]
    by (simp add: frame_ok_def keeps_handshake_def)
qed

theorem initialize_once_witness:
  "(case handle_initialize jv_ops VNull example_server of
      (Inl e, sv') \<Rightarrow> sv' = example_server
    | (Inr v, sv') \<Rightarrow> \<not> sv_initialized example_server \<and> sv_initialized sv' \<and>
        (\<exists>p. InitializeRequestParams_from_json jv_ops VNull = Inr p \<and>
             sv_client_capabilities sv' = Some (init_capabilities p))) \<and>
   (let sv' = serve_all jv_ops [(example_env, \<lparr>req_id = IdInt 1, req_method = ''tools/call'',
          req_params = Some example_call\<rparr>)] example_server
    in same_config example_server sv' \<and>
       (sv_initialized example_server \<longrightarrow>
          sv_initialized sv' \<and> sv_client_capabilities sv' = sv_client_capabilities example_server \<and>
          (\<exists>e. handle_initialize jv_ops VNull sv' = (Inl e, sv'))))"
  by (rule initialize_once)

text \<open>
  C39: The client can decode the answer to \<open>initialize\<close> and reads from it the latest protocol version,
  the server's info and instructions, and a capability exactly for what is registered: tools,
  prompts, resources (or templates, or a fallback), logging, completions and tasks.
\<close>

theorem capabilities_truthful:
  assumes "json_lib J" and "Implementation_wf J (sv_server_info sv)"
    and "fst (handle_initialize J params sv) = Inr v"
  shows "\<exists>r. InitializeResult_from_json J v = Inr r \<and>
    initres_protocol_version r = ''2025-11-25'' \<and> initres_server_info r = sv_server_info sv \<and>
    initres_instructions r = sv_instructions sv \<and>
    (scaps_tools (initres_capabilities r) \<noteq> None \<longleftrightarrow> sv_tools sv \<noteq> []) \<and>
    (scaps_prompts (initres_capabilities r) \<noteq> None \<longleftrightarrow> sv_prompts sv \<noteq> []) \<and>
    (scaps_resources (initres_capabilities r) \<noteq> None \<longleftrightarrow>
       sv_resources sv \<noteq> [] \<or> sv_resource_templates sv \<noteq> [] \<or> sv_fallback_resource_handler sv \<noteq> None) \<and>
    (scaps_logging (initres_capabilities r) \<noteq> None \<longleftrightarrow> sv_logging_enabled sv) \<and>
    (scaps_completions (initres_capabilities r) \<noteq> None \<longleftrightarrow> sv_completion_handler sv \<noteq> None) \<and>
    (scaps_tasks (initres_capabilities r) \<noteq> None \<longleftrightarrow> sv_tasks sv \<noteq> None)"
proof -
  obtain c where v: "v = InitializeResult_to_json J
      \<lparr>initres_protocol_version = kLatestProtocolVersion,
       initres_capabilities = server_capabilities J (sv\<lparr>sv_initialized := True, sv_client_capabilities := c\<rparr>),
       initres_server_info = sv_server_info sv, initres_instructions = sv_instructions sv,
       initres_meta = None\<rparr>"
    using assms(3) by (auto simp: handle_initialize_def Let_def split: sum.splits if_splits)
  show ?thesis
    unfolding v json_lib.initialize_result_rt [OF assms(1,2)]
    by (intro exI conjI, rule refl)
      (simp_all add: server_capabilities_def kLatestProtocolVersion_def split: option.split)
qed

definition example_initialize :: jv where
  "example_initialize = VObject
     [(''protocolVersion'', VString ''2025-06-18''), (''capabilities'', VObject []),
      (''clientInfo'', VObject [(''name'', VString ''c''), (''version'', VString ''0'')])]"

theorem capabilities_truthful_witness:
  "\<exists>r. InitializeResult_from_json jv_ops
         (projr (fst (handle_initialize jv_ops example_initialize (Server_init example_info ())))) = Inr r \<and>
    initres_protocol_version r = ''2025-11-25'' \<and>
    initres_server_info r = sv_server_info (Server_init example_info ()) \<and>
    initres_instructions r = sv_instructions (Server_init example_info ()) \<and>
    (scaps_tools (initres_capabilities r) \<noteq> None \<longleftrightarrow> sv_tools (Server_init example_info ()) \<noteq> []) \<and>
    (scaps_prompts (initres_capabilities r) \<noteq> None \<longleftrightarrow> sv_prompts (Server_init example_info ()) \<noteq> []) \<and>
    (scaps_resources (initres_capabilities r) \<noteq> None \<longleftrightarrow>
       sv_resources (Server_init example_info ()) \<noteq> [] \<or>
       sv_resource_templates (Server_init example_info ()) \<noteq> [] \<or>
       sv_fallback_resource_handler (Server_init example_info ()) \<noteq> None) \<and>
    (scaps_logging (initres_capabilities r) \<noteq> None \<longleftrightarrow> sv_logging_enabled (Server_init example_info ())) \<and>
    (scaps_completions (initres_capabilities r) \<noteq> None \<longleftrightarrow>
       sv_completion_handler (Server_init example_info ()) \<noteq> None) \<and>
    (scaps_tasks (initres_capabilities r) \<noteq> None \<longleftrightarrow> sv_tasks (Server_init example_info ()) \<noteq> None)"
proof (rule capabilities_truthful [OF jv_json_lib])
  show "Implementation_wf jv_ops (sv_server_info (Server_init example_info ()))"
    by (simp add: Implementation_wf_def Server_init_def example_info_def)
  show "fst (handle_initialize jv_ops example_initialize (Server_init example_info ())) =
      Inr (projr (fst (handle_initialize jv_ops example_initialize (Server_init example_info ()))))"
    by (simp add: handle_initialize_def example_initialize_def InitializeRequestParams_from_json_def
        ClientCapabilities_from_json_def Implementation_from_json_def require_def at_get_def
        take_optional_def take_optional_json_def take_if_array_def get_str_def rethrow_as_def Let_def
        Server_init_def)
qed

text \<open>
  C11: The guards of \<open>tools/call\<close>: a tool handler runs, or a task is created, only when the handshake
  is done, the params decode, the tool is registered, its \<open>taskSupport\<close> allows this kind of call,
  and, for a task, tasks are enabled and fewer workers are in flight than the limit. Every other call
  is an error that leaves the server as it was.
\<close>

theorem tool_call_guards:
  assumes "handle_call_tool J env params sv = (r, sv')" and "sv' \<noteq> sv \<or> (\<exists>v. r = Inr v)"
  shows "sv_initialized sv \<and>
    (\<exists>parsed entry.
       CallToolRequestParams_from_json J params = Inr parsed \<and>
       map_of (sv_tools sv) (ctp_name parsed) = Some entry \<and>
       (let support = map_option te_task_support (tool_execution (toe_descriptor entry))
        in case ctp_task parsed of
             None \<Rightarrow> support \<noteq> Some Support_required
           | Some aug \<Rightarrow>
               support \<noteq> Some Support_forbidden \<and>
               (\<exists>ts. sv_tasks sv = Some ts \<and>
                  check_concurrency J (sv_tasks_max_concurrent sv) ts = Inr ())))"
  using assms
  by (auto simp: handle_call_tool_def Let_def check_task_support_def rethrow_as_def ecatch_eq_Inr_iff
      split: if_splits sum.splits option.splits)

theorem tool_call_guards_witness:
  "sv_initialized example_server \<and>
    (\<exists>parsed entry.
       CallToolRequestParams_from_json jv_ops example_call = Inr parsed \<and>
       map_of (sv_tools example_server) (ctp_name parsed) = Some entry \<and>
       (let support = map_option te_task_support (tool_execution (toe_descriptor entry))
        in case ctp_task parsed of
             None \<Rightarrow> support \<noteq> Some Support_required
           | Some aug \<Rightarrow>
               support \<noteq> Some Support_forbidden \<and>
               (\<exists>ts. sv_tasks example_server = Some ts \<and>
                  check_concurrency jv_ops (sv_tasks_max_concurrent example_server) ts = Inr ())))"
proof (rule tool_call_guards [OF surjective_pairing])
  show "snd (handle_call_tool jv_ops example_env example_call example_server) \<noteq> example_server \<or>
      (\<exists>v. fst (handle_call_tool jv_ops example_env example_call example_server) = Inr v)"
    by (simp add: handle_call_tool_def rethrow_as_def check_task_support_def check_concurrency_def
        TaskStore_init_def start_task_def ts_create_def Let_def case_prod_unfold)
qed

text \<open>
  C36: When requests are served one at a time, the number of task workers in flight is the number of
  workers that were started and have not ended, and never exceeds a configured limit.
\<close>

theorem task_limit_serial:
  assumes "server_reachable J sv0 sv" and "workers_inv sv0"
  shows "case sv_tasks sv of
      None \<Rightarrow> sv_jobs sv = []
    | Some ts \<Rightarrow>
        ts_workers_inflight ts = int (length (sv_jobs sv)) \<and>
        (0 < sv_tasks_max_concurrent sv \<longrightarrow>
           length (sv_jobs sv) \<le> unat (sv_tasks_max_concurrent sv))"
proof -
  have "workers_inv sv"
    using assms by (induction rule: server_reachable.induct) (auto intro: workers_inv_step)
  then show ?thesis by (simp add: workers_inv_def split: option.splits)
qed

theorem task_limit_serial_witness:
  "case sv_tasks example_server of
      None \<Rightarrow> sv_jobs example_server = []
    | Some ts \<Rightarrow>
        ts_workers_inflight ts = int (length (sv_jobs example_server)) \<and>
        (0 < sv_tasks_max_concurrent example_server \<longrightarrow>
           length (sv_jobs example_server) \<le> unat (sv_tasks_max_concurrent example_server))"
  by (rule task_limit_serial [OF server_reachable.start [of jv_ops]])
    (simp add: workers_inv_def TaskStore_init_def)

text \<open>
  The limit does not hold between threads: two task calls that are served at the same time both
  pass the check before either has counted its worker, and with a limit of one two workers run.
\<close>

theorem task_limit_race:
  "\<exists>sv' P. (call_step jv_ops)\<^sup>*\<^sup>* (example_server, {#}) (sv', P) \<and> over_limit sv'"
proof -
  let ?c = "\<lparr>pc_env = example_env, pc_handler = Some example_handler, pc_args = VObject [],
    pc_task = \<lparr>task_aug_ttl = None\<rparr>\<rparr> :: (jv, unit) PassedCall"
  let ?start = "\<lambda>ts sv. snd (start_task jv_ops (pc_env ?c) (pc_handler ?c) (pc_args ?c) (pc_task ?c) ts sv)"
  let ?s1 = "?start TaskStore_init example_server"
  have ok: "check_concurrency jv_ops 1 TaskStore_init = Inr ()"
    by (simp add: check_concurrency_def TaskStore_init_def)
  have "call_step jv_ops (example_server, {#}) (example_server, {#?c#})"
    by (rule call_step.checks [of _ TaskStore_init]) (simp_all add: ok)
  moreover have "call_step jv_ops (example_server, {#?c#}) (example_server, {#?c, ?c#})"
    by (rule call_step.checks [of _ TaskStore_init]) (simp_all add: ok)
  moreover have "call_step jv_ops (example_server, {#?c, ?c#}) (?s1, {#?c#})"
    by (rule call_step.starts) simp
  moreover obtain ts1 where ts1: "sv_tasks ?s1 = Some ts1" "ts_workers_inflight ts1 = 1"
    by (simp add: start_task_def Let_def case_prod_unfold TaskStore_init_def)
  moreover have "call_step jv_ops (?s1, {#?c#}) (?start ts1 ?s1, {#})"
    by (rule call_step.starts) (rule ts1(1))
  ultimately have "(call_step jv_ops)\<^sup>*\<^sup>* (example_server, {#}) (?start ts1 ?s1, {#})"
    by (meson rtranclp.rtrancl_into_rtrancl rtranclp.rtrancl_refl)
  moreover have "over_limit (?start ts1 ?s1)"
    using ts1 by (simp add: over_limit_def start_task_def Let_def case_prod_unfold)
  ultimately show ?thesis by blast
qed

text \<open>
  C31: A client that follows the cursors of \<open>tools/list\<close>, \<open>resources/list\<close> or \<open>prompts/list\<close> decodes
  every page and gets every registered descriptor exactly once, within one request per item and one
  more, as long as nothing is registered meanwhile and the page size does not make the offset wrap.
\<close>

theorem lists_complete:
  assumes "json_lib J" and "sv_initialized sv"
    and "list_all (Tool_wf J) (tool_descriptors sv)"
    and "list_all (Resource_wf J) (resource_descriptors sv)"
    and "list_all (Prompt_wf J) (prompt_descriptors sv)"
    and "length (sv_tools sv) + unat (sv_page_size sv) < 2 ^ 64"
    and "length (sv_resources sv) + unat (sv_page_size sv) < 2 ^ 64"
    and "length (sv_prompts sv) + unat (sv_page_size sv) < 2 ^ 64"
  shows "(\<exists>pages. follow (fetch_tools J sv) (length (sv_tools sv) + 1) None = Some (Inr pages) \<and>
            concat pages = tool_descriptors sv) \<and>
    (\<exists>pages. follow (fetch_resources J sv) (length (sv_resources sv) + 1) None = Some (Inr pages) \<and>
            concat pages = resource_descriptors sv) \<and>
    (\<exists>pages. follow (fetch_prompts J sv) (length (sv_prompts sv) + 1) None = Some (Inr pages) \<and>
            concat pages = prompt_descriptors sv)"
proof -
  have len: "length (tool_descriptors sv) = length (sv_tools sv)"
    "length (resource_descriptors sv) = length (sv_resources sv)"
    "length (prompt_descriptors sv) = length (sv_prompts sv)"
    by (simp_all add: tool_descriptors_def resource_descriptors_def prompt_descriptors_def)
  have "fetch_tools J sv = (\<lambda>c. list_page J (tool_descriptors sv) c (sv_page_size sv))"
    "fetch_resources J sv = (\<lambda>c. list_page J (resource_descriptors sv) c (sv_page_size sv))"
    "fetch_prompts J sv = (\<lambda>c. list_page J (prompt_descriptors sv) c (sv_page_size sv))"
    using json_lib.fetch_tools_page [OF assms(1,2,3)] json_lib.fetch_resources_page [OF assms(1,2,4)]
      json_lib.fetch_prompts_page [OF assms(1,2,5)] by (intro ext; simp)+
  with follow_list_page [of "tool_descriptors sv" "sv_page_size sv" 0 None "length (sv_tools sv) + 1" J]
    follow_list_page [of "resource_descriptors sv" "sv_page_size sv" 0 None "length (sv_resources sv) + 1" J]
    follow_list_page [of "prompt_descriptors sv" "sv_page_size sv" 0 None "length (sv_prompts sv) + 1" J]
    assms(6-8)
  show ?thesis by (auto simp: len)
qed

theorem lists_complete_witness:
  "(\<exists>pages. follow (fetch_tools jv_ops example_server) (length (sv_tools example_server) + 1) None = Some (Inr pages) \<and>
            concat pages = tool_descriptors example_server) \<and>
    (\<exists>pages. follow (fetch_resources jv_ops example_server) (length (sv_resources example_server) + 1) None = Some (Inr pages) \<and>
            concat pages = resource_descriptors example_server) \<and>
    (\<exists>pages. follow (fetch_prompts jv_ops example_server) (length (sv_prompts example_server) + 1) None = Some (Inr pages) \<and>
            concat pages = prompt_descriptors example_server)"
  by (rule lists_complete [OF jv_json_lib])
    (simp_all add: tool_descriptors_def resource_descriptors_def prompt_descriptors_def Tool_wf_def
      example_server_def Server_init_def enable_tasks_def add_tool_def enable_logging_def)

text \<open>
  C2: The life of a task-augmented call that gives arguments: \<open>tools/call\<close> answers at once with a working task under the
  minted id and the effective time to live; its worker then runs the tool's handler once on
  those arguments and ends; and a following \<open>tasks/result\<close> answers with the tool's result, tagged
  with the task, or with an error that carries the message the handler failed with.
\<close>

theorem task_call_delivers:
  fixes sv :: "('j, 's) Server"
  assumes "json_lib J" and "sv_initialized sv"
    and parsed: "CallToolRequestParams_from_json J params = Inr parsed" "ctp_task parsed = Some aug"
      "ctp_arguments parsed = Some args"
    and entry: "map_of (sv_tools sv) (ctp_name parsed) = Some entry" "toe_handler entry = Some h"
      "map_option te_task_support (tool_execution (toe_descriptor entry)) \<noteq> Some Support_forbidden"
    and store: "sv_tasks sv = Some ts" "find_entry ts (env_task_id env) = None"
      "check_concurrency J (sv_tasks_max_concurrent sv) ts = Inr ()"
    and handler: "h args (sv_app sv) = (r, app)"
      "r \<noteq> Inl Undefined"
    and call: "handle_call_tool J env params sv = (answer, sv1)"
    and worker: "run_task_job J now (last (sv_jobs sv1)) sv1 = (ended, sv2)"
    and env': "env_seen env' = []"
  shows "\<exists>t. answer = Inr (CreateTaskResult_to_json J \<lparr>ctres_task = t\<rparr>) \<and>
    task_taskId t = env_task_id env \<and> task_status t = Task_working \<and> task_ttl t = effective_ttl aug sv \<and>
    ended = Inr () \<and> sv_app sv1 = sv_app sv \<and> sv_app sv2 = app \<and>
    fst (handle_get_task_result J env'
           (GetTaskResultRequestParams_to_json J \<lparr>gtrp_task_id = task_taskId t\<rparr>) sv2) =
      emap (tag_result J (env_task_id env)) (job_value J r)"
proof -
  let ?e = "new_entry (env_task_id env) (env_now env) (env_steady env) (effective_ttl aug sv) :: 'j Entry"
  let ?s = "worker_started (snd (snd (ts_create (env_task_id env) (env_now env) (env_steady env)
              (effective_ttl aug sv) ts)))"
  have start: "handle_call_tool J env params sv = start_task J env (Some h) args aug ts sv"
    using assms(2) parsed entry store
    by (auto simp: handle_call_tool_def rethrow_as_def Let_def check_task_support_def)
  note eqs = start_task_eq [OF store(2), where J = J and h = "Some h" and args = args
      and aug = aug and sv = sv]
  have sv1: "sv_tasks sv1 = Some ?s" "sv_app sv1 = sv_app sv" "sv_initialized sv1"
    "last (sv_jobs sv1) = \<lparr>job_task = env_task_id env, job_handler = Some h, job_args = args\<rparr>"
    "answer = Inr (CreateTaskResult_to_json J \<lparr>ctres_task = en_task ?e\<rparr>)"
    using call assms(2) unfolding start using eqs by (auto simp: new_entry_def)
  have "h args (sv_app sv1) = (r, app)" using handler(1) by (simp add: sv1)
  from run_task_job_reports [where h = h and args = args and J = J and now = now
      and tid = "env_task_id env", OF sv1(1) this handler(2)] worker
  have sv2: "ended = Inr ()" "sv_app sv2 = app" "sv_initialized sv2"
    "sv_tasks sv2 = Some (worker_finished (snd (report_job J now (env_task_id env) r ?s)))"
    by (auto simp: sv1)
  have "find_entry ?s (env_task_id env) = Some ?e"
    by (simp add: find_created [OF store(2)])
  note rep = fresh_job_reported [OF this, where J = J and now = now and r = r]
  have "fst (handle_get_task_result J env'
      (GetTaskResultRequestParams_to_json J \<lparr>gtrp_task_id = env_task_id env\<rparr>) sv2) =
    emap (tag_result J (env_task_id env)) (job_value J r)"
    using json_lib.get_task_result_now [OF assms(1) sv2(3,4) env' rep(1)] rep(2) by simp
  with sv1 sv2 show ?thesis by (auto simp: new_entry_def)
qed

theorem task_call_delivers_witness:
  "\<exists>t. fst (handle_call_tool jv_ops example_env example_task_call example_server) =
      Inr (CreateTaskResult_to_json jv_ops \<lparr>ctres_task = t\<rparr>) \<and>
    task_taskId t = env_task_id example_env \<and> task_status t = Task_working \<and>
    task_ttl t = effective_ttl \<lparr>task_aug_ttl = None\<rparr> example_server \<and>
    (let sv1 = snd (handle_call_tool jv_ops example_env example_task_call example_server);
         (ended, sv2) = run_task_job jv_ops ''later'' (last (sv_jobs sv1)) sv1
     in ended = Inr () \<and>
        fst (handle_get_task_result jv_ops example_env
               (GetTaskResultRequestParams_to_json jv_ops \<lparr>gtrp_task_id = task_taskId t\<rparr>) sv2) =
          emap (tag_result jv_ops ''t1'') (job_value jv_ops (Inr example_result)))"
proof -
  let ?call = "handle_call_tool jv_ops example_env example_task_call example_server"
  let ?run = "run_task_job jv_ops ''later'' (last (sv_jobs (snd ?call))) (snd ?call)"
  have "find_entry (TaskStore_init :: jv TaskStore) ''t1'' = None"
    by (simp add: find_entry_def TaskStore_init_def)
  moreover have "env_task_id example_env = ''t1''" "env_seen example_env = []"
    by (simp_all add: example_env_def)
  ultimately show ?thesis
    using task_call_delivers [OF jv_json_lib, of example_server example_task_call
        "\<lparr>ctp_name = ''add'', ctp_arguments = Some example_args, ctp_task = Some \<lparr>task_aug_ttl = None\<rparr>\<rparr>"
        "\<lparr>task_aug_ttl = None\<rparr>" example_args _ example_handler TaskStore_init example_env "Inr example_result" "()"
        "fst ?call" "snd ?call" "''later''" "fst ?run" "snd ?run" example_env]
    by (simp add: example_handler_def check_concurrency_def TaskStore_init_def case_prod_unfold
        Let_def)
qed

text \<open>
  \<open>log\<close> sends a message exactly when logging is enabled, the level is at or above the threshold,
  a session is running and the transport takes the frame; and \<open>logging/setLevel\<close> with level \<open>l\<close> from
  the client makes \<open>l\<close> the threshold, before or after the handshake.
\<close>

theorem log_threshold:
  fixes sv :: "('j, 's) Server"
  assumes "json_lib J"
  shows "(server_log J send level data logger sv \<longleftrightarrow>
      sv_logging_enabled sv \<and> LoggingLevel_int (sv_log_level sv) \<le> LoggingLevel_int level \<and>
      sv_session sv \<and>
      send_notification J send ''notifications/message''
        (LoggingMessageNotificationParams_to_json J
           \<lparr>lmp_level = level, lmp_logger = logger, lmp_data = data\<rparr>) = None) \<and>
    handle_set_level J (SetLevelRequestParams_to_json J \<lparr>slp_level = l\<rparr>) sv =
      (if sv_logging_enabled sv then (Inr (j_object J), sv\<lparr>sv_log_level := l\<rparr>)
       else (Inl (Error J method_not_found ''logging capability is not enabled''), sv))"
  using json_lib.set_level_handled [OF assms, of l sv] by (auto simp: server_log_def)

theorem log_threshold_witness:
  "(server_log jv_ops (\<lambda>frame. None) Log_error (VString ''disk full'') None example_server \<longleftrightarrow>
      sv_logging_enabled example_server \<and> LoggingLevel_int (sv_log_level example_server) \<le> LoggingLevel_int Log_error \<and>
      sv_session example_server \<and>
      send_notification jv_ops (\<lambda>frame. None) ''notifications/message''
        (LoggingMessageNotificationParams_to_json jv_ops
           \<lparr>lmp_level = Log_error, lmp_logger = None, lmp_data = VString ''disk full''\<rparr>) = None) \<and>
   handle_set_level jv_ops (SetLevelRequestParams_to_json jv_ops \<lparr>slp_level = Log_debug\<rparr>) example_server =
      (if sv_logging_enabled example_server then (Inr (j_object jv_ops), example_server\<lparr>sv_log_level := Log_debug\<rparr>)
       else (Inl (Error jv_ops method_not_found ''logging capability is not enabled''), example_server))"
  by (rule log_threshold [OF jv_json_lib])

text \<open>
  A request for a method the server has no handler for is answered with \<open>method_not_found\<close> and
  changes nothing; the methods with a handler are the eleven base methods and, when tasks are
  enabled, the four task methods.
\<close>

theorem unknown_method_not_found:
  fixes sv :: "('j, 's) Server"
  assumes "req_method req \<notin> set base_methods"
    and "sv_tasks sv = None \<or> req_method req \<notin> set task_methods"
  shows "server_request J env req sv =
    (Inr \<lparr>resp_id = Some (req_id req),
          resp_outcome = Failure \<lparr>eo_code = method_not_found,
             eo_message = ''method not found: '' @ req_method req, eo_data = j_null J\<rparr>\<rparr>, sv)"
proof -
  have "lookup_req (server_handlers J env (sv_tasks sv \<noteq> None) :: ('j, ('j, 's) Server) HandlerTables)
      (req_method req) = None"
    using assms by (auto simp: lookup_server_handlers_None)
  then show ?thesis by (simp add: server_request_def handle_request_def Let_def)
qed

theorem unknown_method_not_found_witness:
  "server_request jv_ops example_env
      \<lparr>req_id = IdInt 1, req_method = ''tools/remove'', req_params = None\<rparr> example_server =
    (Inr \<lparr>resp_id = Some (IdInt 1),
          resp_outcome = Failure \<lparr>eo_code = method_not_found,
             eo_message = ''method not found: tools/remove'', eo_data = VNull\<rparr>\<rparr>, example_server)"
  using unknown_method_not_found [of "\<lparr>req_id = IdInt 1, req_method = ''tools/remove'', req_params = None\<rparr>"
      example_server jv_ops example_env]
  by (simp add: base_methods_def task_methods_def)

text \<open>
  Running the server again forgets the handshake but not what the last client declared: after a
  session in which \<open>initialize\<close> succeeded and any requests were served, the next \<open>run\<close> starts with
  the capabilities of the earlier client still recorded, before any client has said anything.
\<close>

theorem run_keeps_old_capabilities:
  assumes "handle_initialize J params sv = (Inr v, sv1)"
    and "server_run_end session_open (serve_all J reqs sv1) = Some sv2"
  shows "\<not> sv_initialized (server_run_begin sv2) \<and>
    (\<exists>p. InitializeRequestParams_from_json J params = Inr p \<and>
         sv_client_capabilities (server_run_begin sv2) = Some (init_capabilities p))"
proof -
  have "sv_initialized sv1 \<and> (\<exists>p. InitializeRequestParams_from_json J params = Inr p \<and>
      sv_client_capabilities sv1 = Some (init_capabilities p))"
    using assms(1)
    by (auto simp: handle_initialize_def Let_def rethrow_as_def ecatch_eq_Inr_iff
        split: sum.splits if_splits)
  with frame_ok_serve_all [of sv1 J reqs] assms(2) show ?thesis
    by (auto simp: frame_ok_def keeps_handshake_def server_run_end_def server_run_begin_def
        split: if_splits)
qed

end
