(* ===== verification/Wire.thy ===== *)
theory Wire
  imports Session
begin

text \<open>
  Two sessions that talk over a transport. The interface of a transport is the locale
  \<open>frame_channel\<close>: frames that are sent one after another come out of the peer's reader as they were.
  The stdio transport is an instance. Over any such channel, a batch of requests that one session
  registers and the other serves in any order settles each promise with the answer to its own
  request.
\<close>

section \<open>Reading\<close>

text \<open>Either side hands the frames its transport delivers to \<open>handle_frame\<close>.\<close>

fun receive_frames ::
    "'j json_ops \<Rightarrow> ('j, 's) HandlerTables \<Rightarrow> string list \<Rightarrow> ('j, 'v) SessionState \<Rightarrow> 's \<Rightarrow>
     ('j exc + 'j JsonRpcRequest list) \<times> ('j, 'v) SessionState \<times> 's" where
  "receive_frames J t [] s app = (Inr [], s, app)"
| "receive_frames J t (f # fs) s app =
     (case handle_frame J t f s app of
        (Inl e, s, app) \<Rightarrow> (Inl e, s, app)
      | (Inr q, s, app) \<Rightarrow>
          (let (rs, s, app) = receive_frames J t fs s app
           in (emap (\<lambda>rs. case q of None \<Rightarrow> rs | Some r \<Rightarrow> r # rs) rs, s, app)))"

section \<open>The transport as a channel\<close>

text \<open>
  \<open>sent f out\<close>: a successful send of \<open>f\<close> put the bytes \<open>out\<close> on the wire. \<open>deliver\<close> maps the chunks a
  reader gets to the messages it hands up, for frames that are \<open>sendable\<close>.
\<close>

locale frame_channel =
  fixes sendable :: "string \<Rightarrow> bool" and sent :: "string \<Rightarrow> string \<Rightarrow> bool"
    and deliver :: "string list \<Rightarrow> string list"
  assumes delivers: "list_all2 sent fs outs \<Longrightarrow> list_all sendable fs \<Longrightarrow> concat chunks = concat outs \<Longrightarrow>
    deliver chunks = fs"
begin

text \<open>A session that reads from the channel handles exactly the frames that were sent.\<close>

lemma receive_sent:
  "list_all2 sent fs outs \<Longrightarrow> list_all sendable fs \<Longrightarrow> concat chunks = concat outs \<Longrightarrow>
     receive_frames J t (deliver chunks) s app = receive_frames J t fs s app"
  by (simp add: delivers)

end

definition stdio_sendable :: "size_t \<Rightarrow> string \<Rightarrow> bool" where
  "stdio_sendable m f \<longleftrightarrow> f \<noteq> [] \<and> last f \<noteq> CHR 0x0D \<and> length f \<le> unat m"

definition stdio_sent :: "string \<Rightarrow> string \<Rightarrow> bool" where
  "stdio_sent f out \<longleftrightarrow> (\<exists>errno rs. stdio_send True errno rs f = (out, Sent))"

definition stdio_deliver :: "size_t \<Rightarrow> string list \<Rightarrow> string list" where
  "stdio_deliver m chunks = messages (fst (read_loop m False [] (map quiet_iteration chunks)))"

lemma stdio_delivers:
  assumes "list_all2 stdio_sent fs outs" "list_all (stdio_sendable m) fs" "concat chunks = concat outs"
  shows "stdio_deliver m chunks = fs"
proof -
  have "list_all (good_frame m) fs \<and> outs = map (\<lambda>f. f @ [CHR 0x0A]) fs"
    using assms(1,2)
    by (induction fs outs rule: list_all2_induct)
      (auto simp: stdio_sent_def stdio_sendable_def dest: good_frame_of_send)
  with assms(3) feed_frames [of m fs]
  have "feed m [] (concat chunks) = (fs, Some [])" by simp
  from read_loop_chunks [OF this, of False] show ?thesis
    by (simp add: stdio_deliver_def comp_def)
qed

interpretation stdio: frame_channel "stdio_sendable m" stdio_sent "stdio_deliver m" for m
  by unfold_locales (rule stdio_delivers)

section \<open>A batch of requests\<close>

text \<open>What the peer's session makes of a message that is sent to it as text.\<close>

definition over_text :: "'j json_ops \<Rightarrow> 'j JsonRpcMessage \<Rightarrow> 'j JsonRpcMessage option" where
  "over_text J m =
     (case j_dump J (serialize_message J m) of
        Inl w \<Rightarrow> None
      | Inr str \<Rightarrow> (case classify_frame J str of Inr (Some m') \<Rightarrow> Some m' | _ \<Rightarrow> None))"

record ('j, 'v) Call =
  cl_method :: string
  cl_params :: 'j
  cl_future :: nat
  cl_convert :: "'j \<Rightarrow> 'j exc + 'v"
  cl_timeout :: int

text \<open>The calling side registers its calls one after another on a transport that takes them all.\<close>

fun send_calls ::
    "'j json_ops \<Rightarrow> int \<Rightarrow> int \<Rightarrow> ('j, 'v) Call list \<Rightarrow> ('j, 'v) SessionState \<Rightarrow>
     ('j, 'v) SessionState \<times> string list" where
  "send_calls J dflt now [] s = (s, [])"
| "send_calls J dflt now (c # cs) s =
     (let (s, f) = register_pending J (\<lambda>_. None) dflt (cl_method c) (cl_params c) (cl_future c)
                     (cl_convert c) (cl_timeout c) now s;
          (s, fs) = send_calls J dflt now cs s
      in (s, (case f of None \<Rightarrow> fs | Some f \<Rightarrow> f # fs)))"

text \<open>
  The serving side's workers, in the order in which they run: each response with the frames that
  \<open>serve_request\<close> sent for it.
\<close>

fun serve_requests ::
    "'j json_ops \<Rightarrow> ('j, 's) HandlerTables \<Rightarrow> 'j JsonRpcRequest list \<Rightarrow> 's \<Rightarrow>
     ('j exc + ('j JsonRpcResponse \<times> string list) list) \<times> 's" where
  "serve_requests J t [] app = (Inr [], app)"
| "serve_requests J t (r # rs) app =
     (case handle_request J t r app of
        (Inl e, app') \<Rightarrow> (Inl e, app')
      | (Inr resp, app') \<Rightarrow>
          (let (rest, app'') = serve_requests J t rs app'
           in (ebind (fst (serve_request J t (\<lambda>_. None) r app)) (\<lambda>fs.
               emap (\<lambda>rest. (resp, fs) # rest) rest), app'')))"

section \<open>The calling side\<close>

definition numbered :: "int64 \<Rightarrow> 'a list \<Rightarrow> (int64 \<times> 'a) list" where
  "numbered n cs = zip (map (\<lambda>k. n + of_nat k) [0..<length cs]) cs"

lemma numbered_simps [simp]:
  "numbered n [] = []"
  "numbered n (c # cs) = (n, c) # numbered (n + 1) cs"
proof -
  have "map (\<lambda>k. n + of_nat k) [0..<Suc (length cs)] =
      n # map (\<lambda>k. (n + 1) + of_nat k) [0..<length cs]"
    unfolding map_upt_Suc by (simp add: add.assoc)
  then show "numbered n (c # cs) = (n, c) # numbered (n + 1) cs"
    by (simp add: numbered_def del: upt_Suc)
qed (simp add: numbered_def)

lemma length_numbered [simp]: "length (numbered n cs) = length cs"
  by (simp add: numbered_def)

lemma map_snd_numbered [simp]: "map snd (numbered n cs) = cs"
  by (simp add: numbered_def)

lemma distinct_numbered:
  assumes "length cs \<le> 2 ^ 64"
  shows "distinct (map fst (numbered n cs))"
proof -
  have "inj_on (\<lambda>k. n + of_nat k) (set [0..<length cs])"
  proof (rule inj_onI)
    fix i j assume "i \<in> set [0..<length cs]" "j \<in> set [0..<length cs]"
      and "n + of_nat i = n + (of_nat j :: int64)"
    then have "of_nat i = (of_nat j :: int64)" "i < 2 ^ 64" "j < 2 ^ 64"
      using assms by auto
    then show "i = j" using unat_of_nat_64 by metis
  qed
  then show ?thesis by (simp add: numbered_def distinct_map)
qed

definition call_request :: "'j json_ops \<Rightarrow> int64 \<times> ('j, 'v) Call \<Rightarrow> 'j JsonRpcRequest" where
  "call_request J ic =
     \<lparr>req_id = IdInt (fst ic), req_method = cl_method (snd ic),
      req_params = params_of J (cl_params (snd ic))\<rparr>"

definition call_pending :: "int \<Rightarrow> int \<Rightarrow> ('j, 'v) Call \<Rightarrow> ('j, 'v) Pending" where
  "call_pending dflt now c =
     \<lparr>pd_future = cl_future c, pd_convert = cl_convert c,
      pd_deadline = now + request_timeout dflt (cl_timeout c)\<rparr>"

definition call_entry :: "int \<Rightarrow> int \<Rightarrow> int64 \<times> ('j, 'v) Call \<Rightarrow> RequestId \<times> ('j, 'v) Pending" where
  "call_entry dflt now ic = (IdInt (fst ic), call_pending dflt now (snd ic))"

text \<open>The text of each message.\<close>

definition texts :: "'j json_ops \<Rightarrow> 'j JsonRpcMessage list \<Rightarrow> string list \<Rightarrow> bool" where
  "texts J ms fs \<longleftrightarrow> list_all2 (\<lambda>m f. j_dump J (serialize_message J m) = Inr f) ms fs"

lemma register_parked:
  assumes "\<not> se_closed s" "map_of (se_pending s) (IdInt (se_next_id s)) = None"
    and "register_pending J (\<lambda>_. None) dflt (cl_method c) (cl_params c) (cl_future c)
           (cl_convert c) (cl_timeout c) now s = (s', Some f)"
  shows "s' = s\<lparr>se_next_id := se_next_id s + 1,
      se_pending := call_entry dflt now (se_next_id s, c) # se_pending s\<rparr>"
    and "j_dump J (serialize_message J (Request (call_request J (se_next_id s, c)))) = Inr f"
  using assms
  by (auto simp: register_pending_def next_id_def park_def take_pending_def send_message_def Let_def
      call_entry_def call_pending_def call_request_def split: sum.splits option.splits)

lemma length_send_calls: "length (snd (send_calls J dflt now cs s)) \<le> length cs"
proof (induction cs arbitrary: s)
  case (Cons c cs)
  then show ?case by (auto simp: Let_def case_prod_unfold split: option.split intro: le_SucI)
qed simp

lemma send_calls_parked:
  assumes "\<not> se_closed s" "distinct (map fst (numbered (se_next_id s) cs))"
    and "\<forall>i \<in> set (map fst (numbered (se_next_id s) cs)). map_of (se_pending s) (IdInt i) = None"
    and "send_calls J dflt now cs s = (s', fs)" "length fs = length cs"
  shows "se_pending s' = rev (map (call_entry dflt now) (numbered (se_next_id s) cs)) @ se_pending s \<and>
    se_settled s' = se_settled s \<and> se_closed s' = se_closed s \<and>
    texts J (map (\<lambda>ic. Request (call_request J ic)) (numbered (se_next_id s) cs)) fs"
  using assms
proof (induction cs arbitrary: s s' fs)
  case (Cons c cs)
  obtain s1 f where reg: "register_pending J (\<lambda>_. None) dflt (cl_method c) (cl_params c) (cl_future c)
      (cl_convert c) (cl_timeout c) now s = (s1, f)" by fastforce
  obtain s2 gs where rest: "send_calls J dflt now cs s1 = (s2, gs)" by fastforce
  have le: "length gs \<le> length cs" using length_send_calls [of J dflt now cs s1] rest by simp
  from Cons.prems(4,5) reg rest le obtain f' where f: "f = Some f'" "fs = f' # gs" "s' = s2"
    by (auto simp: Let_def split: option.splits)
  note parked = register_parked [OF Cons.prems(1) _ reg [unfolded f(1)]]
  have s1: "s1 = s\<lparr>se_next_id := se_next_id s + 1,
      se_pending := call_entry dflt now (se_next_id s, c) # se_pending s\<rparr>"
    using Cons.prems(3) by (intro parked) simp
  have "j_dump J (serialize_message J (Request (call_request J (se_next_id s, c)))) = Inr f'"
    using Cons.prems(3) by (intro parked) simp
  moreover have "se_pending s2 = rev (map (call_entry dflt now) (numbered (se_next_id s1) cs)) @ se_pending s1 \<and>
      se_settled s2 = se_settled s1 \<and> se_closed s2 = se_closed s1 \<and>
      texts J (map (\<lambda>ic. Request (call_request J ic)) (numbered (se_next_id s1) cs)) gs"
    using Cons.prems rest f by (intro Cons.IH) (auto simp: s1 call_entry_def dest: image_eqI [where f = fst, rotated])
  ultimately show ?case by (simp add: s1 f texts_def)
qed (simp add: texts_def)

section \<open>The serving side\<close>

lemma over_text_Some:
  "j_dump J (serialize_message J m) = Inr f \<Longrightarrow> over_text J m = Some m' \<Longrightarrow>
     classify_frame J f = Inr (Some m')"
  by (auto simp: over_text_def split: sum.splits option.splits)

lemma receive_requests:
  assumes "list_all2 (\<lambda>f r. classify_frame J f = Inr (Some (Request r))) fs rs"
  shows "\<exists>n. receive_frames J t fs s app = (Inr rs, s\<lparr>se_workers_running := n\<rparr>, app)"
  using assms
proof (induction fs rs arbitrary: s rule: list_all2_induct)
  case Nil
  show ?case by (simp add: exI [of _ "se_workers_running s"])
next
  case (Cons f fs r rs)
  from Cons.IH [of "s\<lparr>se_workers_running := se_workers_running s + 1\<rparr>"] Cons.hyps(1)
  show ?case by (auto simp: handle_frame_def)
qed

lemma receive_responses:
  assumes "list_all2 (\<lambda>f r. classify_frame J f = Inr (Some (Response r))) fs rs"
  shows "receive_frames J t fs s app = (Inr [], fold handle_response rs s, app)"
  using assms
  by (induction fs rs arbitrary: s rule: list_all2_induct) (simp_all add: handle_frame_def)

definition answers_to ::
    "'j json_ops \<Rightarrow> ('j, 's) HandlerTables \<Rightarrow> 'j JsonRpcRequest \<Rightarrow> 'j JsonRpcResponse \<Rightarrow> bool" where
  "answers_to J t req resp \<longleftrightarrow> (\<exists>app. fst (handle_request J t req app) = Inr resp)"

lemma answers_to_id: "answers_to J t req resp \<Longrightarrow> resp_id resp = Some (req_id req)"
  by (auto simp: answers_to_def handle_request_def Let_def case_prod_unfold emap_eq_Inr_iff
      split: option.splits)

definition answered ::
    "'j json_ops \<Rightarrow> ('j, 's) HandlerTables \<Rightarrow> 'j JsonRpcRequest \<Rightarrow> 'j JsonRpcResponse \<times> string list \<Rightarrow> bool" where
  "answered J t r a \<longleftrightarrow> answers_to J t r (fst a) \<and>
     (snd a = [] \<or> (\<exists>f. snd a = [f] \<and> j_dump J (serialize_message J (Response (fst a))) = Inr f))"

lemma serve_request_answered:
  assumes "handle_request J t r app = (Inr resp, app')"
  shows "\<exists>fs. serve_request J t (\<lambda>_. None) r app = (Inr fs, app') \<and> answered J t r (resp, fs)"
  using assms
  by (auto simp: serve_request_def send_message_def answered_def answers_to_def
      intro: exI [of _ app] split: sum.splits)

lemma serve_requests_spec:
  "serve_requests J t rs app = (Inr trace, app') \<Longrightarrow> list_all2 (answered J t) rs trace"
proof (induction rs arbitrary: app app' trace)
  case (Cons r rs)
  obtain resp app1 where h: "handle_request J t r app = (Inr resp, app1)"
    using Cons.prems by (auto split: sum.splits prod.splits)
  from serve_request_answered [OF h] obtain fs where
    fs: "fst (serve_request J t (\<lambda>_. None) r app) = Inr fs" "answered J t r (resp, fs)" by auto
  obtain rest app2 where rest: "serve_requests J t rs app1 = (rest, app2)" by fastforce
  from Cons.prems h fs rest obtain tr where "rest = Inr tr" "trace = (resp, fs) # tr"
    by (auto simp: emap_eq_Inr_iff)
  with Cons.IH rest fs show ?case by simp
qed simp

section \<open>Settling\<close>

definition waits_for :: "(RequestId \<times> ('j, 'v) Pending) list \<Rightarrow> 'j JsonRpcResponse \<Rightarrow> bool" where
  "waits_for ps r \<longleftrightarrow> (\<exists>rid. resp_id r = Some rid \<and> rid \<in> dom (map_of ps))"

lemma fold_handle_response:
  assumes "distinct (map resp_id rs)" "\<forall>r \<in> set rs. waits_for (se_pending s) r"
  shows "se_settled (fold handle_response rs s) = se_settled s @
      map (\<lambda>r. response_settlement r (the (map_of (se_pending s) (the (resp_id r))))) rs \<and>
    se_pending (fold handle_response rs s) =
      filter (\<lambda>(rid, p). Some rid \<notin> resp_id ` set rs) (se_pending s)"
  using assms
proof (induction rs arbitrary: s)
  case (Cons r rs)
  from Cons.prems(2) obtain rid where rid: "resp_id r = Some rid" "rid \<in> dom (map_of (se_pending s))"
    by (auto simp: waits_for_def)
  then obtain p where p: "map_of (se_pending s) rid = Some p"
    by auto
  let ?s = "handle_response r s"
  have s: "se_settled ?s = se_settled s @ [response_settlement r p]"
    "se_pending ?s = AList.delete rid (se_pending s)"
    using rid p by (simp_all add: handle_response_def take_pending_def settle_def)
  have other: "r' \<in> set rs \<Longrightarrow> resp_id r' \<noteq> Some rid" for r'
    using Cons.prems(1) rid(1) by (auto simp: image_iff)
  have waits: "waits_for (se_pending ?s) r'"
    and same: "map_of (se_pending ?s) (the (resp_id r')) = map_of (se_pending s) (the (resp_id r'))"
    if "r' \<in> set rs" for r'
  proof -
    from Cons.prems(2) that obtain rid' where
      rid': "resp_id r' = Some rid'" "rid' \<in> dom (map_of (se_pending s))" by (auto simp: waits_for_def)
    with other [OF that] have "rid' \<noteq> rid" by simp
    with rid' show "waits_for (se_pending ?s) r'"
      "map_of (se_pending ?s) (the (resp_id r')) = map_of (se_pending s) (the (resp_id r'))"
      by (auto simp: s waits_for_def delete_conv')
  qed
  have IH: "se_settled (fold handle_response rs ?s) = se_settled ?s @
      map (\<lambda>r. response_settlement r (the (map_of (se_pending ?s) (the (resp_id r))))) rs \<and>
    se_pending (fold handle_response rs ?s) =
      filter (\<lambda>(rid, p). Some rid \<notin> resp_id ` set rs) (se_pending ?s)"
    using Cons.prems(1) waits by (intro Cons.IH) simp_all
  have "filter (\<lambda>(rid, p). Some rid \<notin> resp_id ` set rs) (AList.delete rid (se_pending s)) =
      filter (\<lambda>(rid, p). Some rid \<notin> resp_id ` set (r # rs)) (se_pending s)"
    by (auto simp: AList.delete_eq rid intro!: filter_cong)
  with IH same show ?case by (simp add: s rid p)
qed (simp add: filter_True)

section \<open>The batch\<close>

text \<open>
  A message arrives when it can be written as text and the peer reads from that text a message of
  the same kind with the same id. Its payload may change on the way, as a float that is no number
  becomes null.
\<close>

definition request_arrives ::
    "'j json_ops \<Rightarrow> int64 \<times> ('j, 'v) Call \<Rightarrow> 'j JsonRpcRequest \<Rightarrow> bool" where
  "request_arrives J ic r \<longleftrightarrow>
     over_text J (Request (call_request J ic)) = Some (Request r) \<and> req_id r = IdInt (fst ic)"

definition response_arrives ::
    "'j json_ops \<Rightarrow> 'j JsonRpcResponse \<times> string list \<Rightarrow> 'j JsonRpcResponse \<Rightarrow> bool" where
  "response_arrives J a r \<longleftrightarrow>
     snd a \<noteq> [] \<and> over_text J (Response (fst a)) = Some (Response r) \<and> resp_id r = resp_id (fst a)"

lemma list_all2_choice: "\<forall>x \<in> set xs. \<exists>y. P x y \<Longrightarrow> \<exists>ys. list_all2 P xs ys"
  by (induction xs) (auto intro: list_all2_Cons1 [THEN iffD2])

lemma list_all2_right: "list_all2 P xs ys \<Longrightarrow> y \<in> set ys \<Longrightarrow> \<exists>x \<in> set xs. P x y"
  by (induction rule: list_all2_induct) auto

lemma list_all2_map_eq:
  "list_all2 P xs ys \<Longrightarrow> (\<And>x y. P x y \<Longrightarrow> f x = g y) \<Longrightarrow> map g ys = map f xs"
  by (induction rule: list_all2_induct) auto

lemma requests_received:
  assumes "texts J (map (\<lambda>ic. Request (call_request J ic)) nc) fs" "list_all2 (request_arrives J) nc rs"
  shows "list_all2 (\<lambda>f r. classify_frame J f = Inr (Some (Request r))) fs rs"
  using assms(2,1)
proof (induction nc rs arbitrary: fs rule: list_all2_induct)
  case (Cons ic nc r rs)
  then show ?case
    by (cases fs) (auto simp: texts_def request_arrives_def intro: over_text_Some [rotated])
qed (simp add: texts_def)

lemma responses_received:
  assumes "list_all2 (answered J t) order trace" "list_all2 (response_arrives J) trace rs"
  shows "list_all2 (\<lambda>f r. classify_frame J f = Inr (Some (Response r))) (concat (map snd trace)) rs"
  using assms(2,1)
proof (induction trace rs arbitrary: order rule: list_all2_induct)
  case (Cons a trace r rs)
  then obtain q qs where order: "order = q # qs" "answered J t q a" "list_all2 (answered J t) qs trace"
    by (auto simp: list_all2_Cons2)
  from order(2) Cons.hyps(1) obtain f where
    f: "snd a = [f]" "j_dump J (serialize_message J (Response (fst a))) = Inr f"
    by (auto simp: answered_def response_arrives_def)
  with Cons.hyps(1) have "classify_frame J f = Inr (Some (Response r))"
    by (intro over_text_Some) (auto simp: response_arrives_def)
  with Cons.IH [OF order(3)] f show ?case by simp
qed simp

lemma map_of_calls:
  assumes "distinct (map fst nc)" "ic \<in> set nc"
  shows "map_of (rev (map (call_entry dflt now) nc)) (IdInt (fst ic)) = Some (call_pending dflt now (snd ic))"
proof -
  have "distinct (map fst (rev (map (call_entry dflt now) nc)))"
    using assms(1) by (simp add: rev_map comp_def call_entry_def distinct_map inj_on_def)
  moreover have "(IdInt (fst ic), call_pending dflt now (snd ic)) \<in> set (rev (map (call_entry dflt now) nc))"
    using assms(2) by (force simp: call_entry_def)
  ultimately show ?thesis by (rule map_of_is_SomeI)
qed

text \<open>What the batch leaves behind on the calling side.\<close>

definition settled_by_answers ::
    "'j json_ops \<Rightarrow> ('j, 's) HandlerTables \<Rightarrow> int \<Rightarrow> int \<Rightarrow> ('j, 'v) Call list \<Rightarrow>
     ('j, 'v) SessionState \<Rightarrow> ('j, 'v) SessionState \<Rightarrow> bool" where
  "settled_by_answers J t dflt now calls cs cs2 \<longleftrightarrow>
     se_pending cs2 = [] \<and>
     mset (map fst (se_settled cs2)) = mset (map fst (se_settled cs)) + mset (map cl_future calls) \<and>
     (\<forall>ic \<in> set (numbered (se_next_id cs) calls). \<exists>req resp resp'.
        over_text J (Request (call_request J ic)) = Some (Request req) \<and> answers_to J t req resp \<and>
        over_text J (Response resp) = Some (Response resp') \<and>
        response_settlement resp' (call_pending dflt now (snd ic)) \<in> set (se_settled cs2))"

lemma settlement_future [simp]: "fst (response_settlement r p) = pd_future p"
  by (simp add: response_settlement_def resolved_def rejected_def split: outcome.split)

lemma response_ids:
  assumes "list_all2 (answered J t) order trace" "list_all2 (response_arrives J) trace rs"
  shows "map resp_id rs = map (\<lambda>q. Some (req_id q)) order"
proof -
  have "answered J t q a \<Longrightarrow> Some (req_id q) = resp_id (fst a)" for q a
    using answers_to_id [of J t q "fst a"] by (simp add: answered_def)
  with list_all2_map_eq [OF assms(1), of "\<lambda>q. Some (req_id q)" "\<lambda>a. resp_id (fst a)"]
    list_all2_map_eq [OF assms(2), of "\<lambda>a. resp_id (fst a)" resp_id]
  show ?thesis by (simp add: response_arrives_def)
qed

lemma answer_found:
  assumes ans: "list_all2 (answered J t) order trace" and rs: "list_all2 (response_arrives J) trace rs"
    and reqs: "list_all2 (request_arrives J) nc reqs" "set order \<subseteq> set reqs"
    and ic: "distinct (map fst nc)" "ic \<in> set nc"
    and r: "r \<in> set rs" "resp_id r = Some (IdInt (fst ic))"
  shows "\<exists>q resp. request_arrives J ic q \<and> answers_to J t q resp \<and>
    over_text J (Response resp) = Some (Response r)"
proof -
  from rs r(1) obtain a where a: "a \<in> set trace" "response_arrives J a r"
    using list_all2_right by metis
  from ans a(1) obtain q where q: "q \<in> set order" "answered J t q a"
    using list_all2_right by metis
  with reqs obtain ic' where ic': "ic' \<in> set nc" "request_arrives J ic' q"
    using list_all2_right by (metis subsetD)
  have "resp_id (fst a) = Some (req_id q)"
    using q(2) by (auto simp: answered_def intro: answers_to_id)
  with a(2) r(2) ic'(2) have "fst ic' = fst ic"
    by (simp add: response_arrives_def request_arrives_def)
  with ic ic'(1) have "ic' = ic" by (auto simp: distinct_map dest: inj_onD)
  with a(2) q(2) ic'(2) show ?thesis
    by (auto simp: response_arrives_def answered_def)
qed

text \<open>The numbers of the promises that the responses settle.\<close>

lemma settled_futures:
  fixes dflt now :: int
  assumes "distinct (map fst nc)" "map resp_id rs = map (\<lambda>q. Some (req_id q)) order"
    and perm: "mset (map req_id order) = mset (map (\<lambda>ic. IdInt (fst ic)) nc)"
  defines "P \<equiv> rev (map (call_entry dflt now) nc)"
  shows "mset (map (\<lambda>r. pd_future (the (map_of P (the (resp_id r))))) rs) =
    mset (map cl_future (map snd nc))"
proof -
  let ?F = "\<lambda>rid. pd_future (the (map_of P rid))"
  have "map (\<lambda>r. ?F (the (resp_id r))) rs = map (?F \<circ> the) (map resp_id rs)" by simp
  also have "\<dots> = map ?F (map req_id order)" unfolding assms(2) by simp
  finally have "mset (map (\<lambda>r. ?F (the (resp_id r))) rs) = image_mset ?F (mset (map req_id order))"
    by (simp only: mset_map)
  also have "\<dots> = mset (map (\<lambda>ic. ?F (IdInt (fst ic))) nc)"
    unfolding perm by (simp add: image_mset.compositionality comp_def)
  also have "map (\<lambda>ic. ?F (IdInt (fst ic))) nc = map (\<lambda>ic. cl_future (snd ic)) nc"
    unfolding P_def
    by (rule map_cong [OF refl]) (simp add: map_of_calls [OF assms(1)] call_pending_def)
  finally show ?thesis by (simp add: comp_def)
qed

lemma response_id_set:
  assumes "map resp_id rs = map (\<lambda>q. Some (req_id q)) order"
    and "mset (map req_id order) = mset (map (\<lambda>ic. IdInt (fst ic)) nc)"
  shows "resp_id ` set rs = (\<lambda>ic. Some (IdInt (fst ic))) ` set nc"
proof -
  have "resp_id ` set rs = Some ` (req_id ` set order)"
    using arg_cong [OF assms(1), of set] by (simp add: image_image)
  also have "req_id ` set order = (\<lambda>ic. IdInt (fst ic)) ` set nc"
    using mset_eq_setD [OF assms(2)] by simp
  finally show ?thesis by (simp add: image_image)
qed

lemma responses_settle:
  assumes dist: "distinct (map fst nc)" and rids: "map resp_id rs = map (\<lambda>q. Some (req_id q)) order"
    and perm: "mset (map req_id order) = mset (map (\<lambda>ic. IdInt (fst ic)) nc)"
    and cs1: "se_pending cs1 = rev (map (call_entry dflt now) nc)"
  shows "se_pending (fold handle_response rs cs1) = []"
    and "mset (map fst (se_settled (fold handle_response rs cs1))) =
      mset (map fst (se_settled cs1)) + mset (map cl_future (map snd nc))"
    and "r \<in> set rs \<Longrightarrow> ic \<in> set nc \<Longrightarrow> resp_id r = Some (IdInt (fst ic)) \<Longrightarrow>
      response_settlement r (call_pending dflt now (snd ic)) \<in> set (se_settled (fold handle_response rs cs1))"
proof -
  have "distinct (map (\<lambda>ic. IdInt (fst ic)) nc)"
    using dist by (auto simp: distinct_map inj_on_def)
  then have "distinct (map req_id order)"
    using mset_eq_imp_distinct_iff [OF perm] by simp
  then have dr: "distinct (map resp_id rs)"
    unfolding rids by (auto simp: distinct_map inj_on_def)
  have entry: "map_of (se_pending cs1) (IdInt (fst ic)) = Some (call_pending dflt now (snd ic))"
    if "ic \<in> set nc" for ic
    unfolding cs1 by (rule map_of_calls [OF dist that])
  note respset = response_id_set [OF rids perm]
  have "waits_for (se_pending cs1) r" if "r \<in> set rs" for r
  proof -
    have "resp_id r \<in> (\<lambda>ic. Some (IdInt (fst ic))) ` set nc"
      unfolding respset [symmetric] using that by (rule imageI)
    then obtain ic where "ic \<in> set nc" "resp_id r = Some (IdInt (fst ic))" by (rule imageE)
    with entry [OF this(1)] show ?thesis by (auto simp: waits_for_def)
  qed
  then have settled: "se_settled (fold handle_response rs cs1) = se_settled cs1 @
      map (\<lambda>r. response_settlement r (the (map_of (se_pending cs1) (the (resp_id r))))) rs \<and>
    se_pending (fold handle_response rs cs1) =
      filter (\<lambda>(rid, p). Some rid \<notin> resp_id ` set rs) (se_pending cs1)"
    by (intro fold_handle_response dr) simp
  have "Some (fst e) \<in> resp_id ` set rs" if "e \<in> set (se_pending cs1)" for e
    using that unfolding respset cs1 by (force simp: call_entry_def)
  with settled show "se_pending (fold handle_response rs cs1) = []"
    by (auto simp: filter_empty_conv)
  show "mset (map fst (se_settled (fold handle_response rs cs1))) =
      mset (map fst (se_settled cs1)) + mset (map cl_future (map snd nc))"
    using settled settled_futures [OF dist rids perm, of dflt now] by (simp add: cs1 comp_def)
  show "response_settlement r (call_pending dflt now (snd ic)) \<in>
      set (se_settled (fold handle_response rs cs1))"
    if "r \<in> set rs" "ic \<in> set nc" "resp_id r = Some (IdInt (fst ic))"
    using conjunct1 [OF settled] entry [OF that(2)] that(1,3)
    by (metis (no_types, lifting) UnCI image_eqI list.set_map option.sel set_append)
qed

lemma batch_settled:
  assumes "\<not> se_closed cs" "se_pending cs = []" "length calls \<le> 2 ^ 64"
    and send: "send_calls J dflt now calls cs = (cs1, frames)" "length frames = length calls"
    and got: "receive_frames J t frames ss app = (Inr got, ss1, app1)" "mset order = mset got"
    and serve: "serve_requests J t order app1 = (Inr trace, app2)"
    and ret: "receive_frames J ct (concat (map snd trace)) cs1 capp = (Inr [], cs2, capp')"
    and arrive: "\<forall>ic \<in> set (numbered (se_next_id cs) calls). \<exists>r. request_arrives J ic r"
      "\<forall>a \<in> set trace. \<exists>r. response_arrives J a r"
  shows "settled_by_answers J t dflt now calls cs cs2"
proof -
  let ?nc = "numbered (se_next_id cs) calls"
  have dist: "distinct (map fst ?nc)" by (rule distinct_numbered [OF assms(3)])
  have parked: "se_pending cs1 = rev (map (call_entry dflt now) ?nc)" "se_settled cs1 = se_settled cs"
    "texts J (map (\<lambda>ic. Request (call_request J ic)) ?nc) frames"
    using send_calls_parked [OF assms(1) dist _ send] assms(2) by auto
  obtain reqs where reqs: "list_all2 (request_arrives J) ?nc reqs"
    using list_all2_choice [OF arrive(1)] by blast
  obtain rs where rs: "list_all2 (response_arrives J) trace rs"
    using list_all2_choice [OF arrive(2)] by blast
  note ans = serve_requests_spec [OF serve]
  note rids = response_ids [OF ans rs]
  have "got = reqs"
    using receive_requests [OF requests_received [OF parked(3) reqs], of t ss app] got(1) by auto
  with got(2) have order: "mset order = mset reqs" "set order \<subseteq> set reqs"
    using mset_eq_setD [OF got(2)] by simp_all
  have "map req_id reqs = map (\<lambda>ic. IdInt (fst ic)) ?nc"
    using list_all2_map_eq [OF reqs, of "\<lambda>ic. IdInt (fst ic)" req_id] by (simp add: request_arrives_def)
  then have perm: "mset (map req_id order) = mset (map (\<lambda>ic. IdInt (fst ic)) ?nc)"
    by (metis order(1) mset_map)
  note fin = responses_settle [OF dist rids perm parked(1)]
  have cs2: "cs2 = fold handle_response rs cs1"
    using receive_responses [OF responses_received [OF ans rs], of ct cs1 capp] ret by simp
  have "\<exists>req resp resp'. over_text J (Request (call_request J ic)) = Some (Request req) \<and>
      answers_to J t req resp \<and> over_text J (Response resp) = Some (Response resp') \<and>
      response_settlement resp' (call_pending dflt now (snd ic)) \<in> set (se_settled cs2)"
    if ic: "ic \<in> set ?nc" for ic
  proof -
    from ic response_id_set [OF rids perm] have "Some (IdInt (fst ic)) \<in> resp_id ` set rs" by blast
    then obtain r where r: "r \<in> set rs" "resp_id r = Some (IdInt (fst ic))" by auto
    from answer_found [OF ans rs reqs order(2) dist ic r] fin(3) [OF r(1) ic r(2)] show ?thesis
      by (auto simp: request_arrives_def cs2)
  qed
  with fin(1,2) show ?thesis
    by (simp add: settled_by_answers_def cs2 parked(2))
qed

lemma stdio_sent_whole:
  assumes "f \<noteq> []" "CHR 0x0A \<notin> set f"
  shows "stdio_sent f (f @ [CHR 0x0A])"
proof -
  from assms(1) obtain c data where "f = c # data" by (cases f) auto
  then have "stdio_send True 0 [Wrote (length f), Wrote 1] f = (f @ [CHR 0x0A], Sent)"
    using assms(2) by (simp add: stdio_send_def)
  then show ?thesis unfolding stdio_sent_def by blast
qed

section \<open>An example\<close>

text \<open>Two calls, answered in the opposite order by a handler that counts its calls.\<close>

definition wire_calls :: "(jv, jv) Call list" where
  "wire_calls =
     [\<lparr>cl_method = ''a'', cl_params = VNull, cl_future = 0, cl_convert = Inr, cl_timeout = 0\<rparr>,
      \<lparr>cl_method = ''b'', cl_params = VArray [], cl_future = 1, cl_convert = Inr, cl_timeout = 0\<rparr>]"

definition wire_tables :: "(jv, nat) HandlerTables" where
  "wire_tables =
     set_fallback_request_handler (Some (\<lambda>p n. (Inr (VBool (n = 0)), n + 1))) HandlerTables_init"

definition wire_session :: "(jv, jv) SessionState" where
  "wire_session = session_start SessionState_init"

definition wire_requests :: "jv JsonRpcRequest list" where
  "wire_requests =
     [\<lparr>req_id = IdInt 1, req_method = ''a'', req_params = None\<rparr>,
      \<lparr>req_id = IdInt 2, req_method = ''b'', req_params = Some (VArray [])\<rparr>]"

definition wire_sent :: "(jv, jv) SessionState \<times> string list" where
  "wire_sent = send_calls jv_ops 30000 0 wire_calls wire_session"

definition wire_trace :: "(jv JsonRpcResponse \<times> string list) list" where
  "wire_trace = projr (fst (serve_requests jv_ops wire_tables (rev wire_requests) 0))"

definition wire_returned :: "(jv, jv) SessionState" where
  "wire_returned =
     fst (snd (receive_frames jv_ops wire_tables (concat (map snd wire_trace)) (fst wire_sent) (0 :: nat)))"

definition wire_app :: nat where
  "wire_app =
     snd (snd (receive_frames jv_ops wire_tables (concat (map snd wire_trace)) (fst wire_sent) 0))"

definition wire_server_session :: "(jv, jv) SessionState" where
  "wire_server_session = fst (snd (receive_frames jv_ops wire_tables (snd wire_sent) wire_session (0 :: nat)))"

definition one_line :: "string \<Rightarrow> bool" where
  "one_line f \<longleftrightarrow> f \<noteq> [] \<and> CHR 0x0A \<notin> set f"

lemma stdio_sent_lines:
  "list_all one_line fs \<Longrightarrow> list_all2 stdio_sent fs (map (\<lambda>f. f @ [CHR 0x0A]) fs)"
  by (induction fs) (auto simp: one_line_def intro: stdio_sent_whole)

lemma wire_computed:
  "length (snd wire_sent) = 2"
  "list_all one_line (snd wire_sent)" "list_all one_line (concat (map snd wire_trace))"
  "list_all (stdio_sendable 4096) (snd wire_sent)"
  "list_all (stdio_sendable 4096) (concat (map snd wire_trace))"
  "fst (receive_frames jv_ops wire_tables (snd wire_sent) wire_session (0 :: nat)) = Inr wire_requests"
  "snd (snd (receive_frames jv_ops wire_tables (snd wire_sent) wire_session (0 :: nat))) = 0"
  "\<not> sum.isl (fst (serve_requests jv_ops wire_tables (rev wire_requests) 0))"
  "fst (receive_frames jv_ops wire_tables (concat (map snd wire_trace)) (fst wire_sent) (0 :: nat)) = Inr []"
  by code_simp+

lemma wire_runs:
  "receive_frames jv_ops wire_tables (snd wire_sent) wire_session 0 =
     (Inr wire_requests, wire_server_session, 0)"
  "serve_requests jv_ops wire_tables (rev wire_requests) 0 =
     (Inr wire_trace, snd (serve_requests jv_ops wire_tables (rev wire_requests) 0))"
  "receive_frames jv_ops wire_tables (concat (map snd wire_trace)) (fst wire_sent) 0 =
     (Inr [], wire_returned, wire_app)"
  using wire_computed(6-9)
  by (simp_all add: prod_eq_iff wire_server_session_def wire_returned_def wire_app_def wire_trace_def)

lemma wire_delivered:
  "stdio_deliver 4096 [concat (map (\<lambda>f. f @ [CHR 0x0A]) (snd wire_sent))] = snd wire_sent"
  "stdio_deliver 4096 [concat (map (\<lambda>f. f @ [CHR 0x0A]) (concat (map snd wire_trace)))] =
     concat (map snd wire_trace)"
  using stdio.delivers [OF stdio_sent_lines [OF wire_computed(2)] wire_computed(4)]
    stdio.delivers [OF stdio_sent_lines [OF wire_computed(3)] wire_computed(5)]
  by simp_all

lemma request_arrives_iff:
  "(\<exists>r. request_arrives J ic r) \<longleftrightarrow>
     (case over_text J (Request (call_request J ic)) of
        Some (Request r) \<Rightarrow> req_id r = IdInt (fst ic)
      | _ \<Rightarrow> False)"
  by (auto simp: request_arrives_def split: option.split JsonRpcMessage.split)

lemma response_arrives_iff:
  "(\<exists>r. response_arrives J a r) \<longleftrightarrow> snd a \<noteq> [] \<and>
     (case over_text J (Response (fst a)) of
        Some (Response r) \<Rightarrow> resp_id r = resp_id (fst a)
      | _ \<Rightarrow> False)"
  by (auto simp: response_arrives_def split: option.split JsonRpcMessage.split)

lemma wire_arrives:
  "\<forall>ic \<in> set (numbered (se_next_id wire_session) wire_calls). \<exists>r. request_arrives jv_ops ic r"
  "\<forall>a \<in> set wire_trace. \<exists>r. response_arrives jv_ops a r"
  unfolding request_arrives_iff response_arrives_iff by code_simp+

section \<open>Properties\<close>

text \<open>
  C1: Requests over stdio reach their promises. One session registers any number of calls, the
  frames go over a pipe in arbitrary pieces, the other session serves the requests in any order on
  worker threads, and the responses come back over another pipe: then nothing is pending any more,
  every call's promise has been settled exactly once, and with the answer that the handler gave to
  that very call.
\<close>

theorem batch_over_stdio:
  assumes "\<not> se_closed cs" "se_pending cs = []" "length calls \<le> 2 ^ 64"
    and "send_calls J dflt now calls cs = (cs1, frames)" "length frames = length calls"
    and "list_all2 stdio_sent frames outs" "list_all (stdio_sendable m) frames"
      "concat chunks = concat outs"
    and "receive_frames J t (stdio_deliver m chunks) ss app = (Inr got, ss1, app1)"
    and "mset order = mset got" "serve_requests J t order app1 = (Inr trace, app2)"
    and "list_all2 stdio_sent (concat (map snd trace)) outs'"
      "list_all (stdio_sendable m') (concat (map snd trace))" "concat chunks' = concat outs'"
    and "receive_frames J ct (stdio_deliver m' chunks') cs1 capp = (Inr [], cs2, capp')"
    and "\<forall>ic \<in> set (numbered (se_next_id cs) calls). \<exists>r. request_arrives J ic r"
      "\<forall>a \<in> set trace. \<exists>r. response_arrives J a r"
  shows "settled_by_answers J t dflt now calls cs cs2"
  by (rule batch_settled [OF assms(1-5) assms(9) [unfolded stdio.receive_sent [OF assms(6-8)]]
        assms(10,11) assms(15) [unfolded stdio.receive_sent [OF assms(12-14)]] assms(16,17)])

theorem batch_over_stdio_witness:
  "settled_by_answers jv_ops wire_tables 30000 0 wire_calls wire_session wire_returned"
proof (rule batch_over_stdio)
  show "\<not> se_closed wire_session" "se_pending wire_session = []"
    by (simp_all add: wire_session_def session_start_def SessionState_init_def)
  show "length wire_calls \<le> 2 ^ 64" by (simp add: wire_calls_def)
  show "send_calls jv_ops 30000 0 wire_calls wire_session = (fst wire_sent, snd wire_sent)"
    by (simp add: wire_sent_def)
  show "length (snd wire_sent) = length wire_calls"
    using wire_computed(1) by (simp add: wire_calls_def)
  show "list_all2 stdio_sent (snd wire_sent) (map (\<lambda>f. f @ [CHR 0x0A]) (snd wire_sent))"
    by (rule stdio_sent_lines [OF wire_computed(2)])
  show "concat [concat (map (\<lambda>f. f @ [CHR 0x0A]) (snd wire_sent))] =
      concat (map (\<lambda>f. f @ [CHR 0x0A]) (snd wire_sent))" by simp
  show "list_all2 stdio_sent (concat (map snd wire_trace))
      (map (\<lambda>f. f @ [CHR 0x0A]) (concat (map snd wire_trace)))"
    by (rule stdio_sent_lines [OF wire_computed(3)])
  show "concat [concat (map (\<lambda>f. f @ [CHR 0x0A]) (concat (map snd wire_trace)))] =
      concat (map (\<lambda>f. f @ [CHR 0x0A]) (concat (map snd wire_trace)))" by simp
  show "receive_frames jv_ops wire_tables
      (stdio_deliver 4096 [concat (map (\<lambda>f. f @ [CHR 0x0A]) (snd wire_sent))]) wire_session 0 =
    (Inr wire_requests, wire_server_session, 0)"
    unfolding wire_delivered by (rule wire_runs)
  show "mset (rev wire_requests) = mset wire_requests" by simp
  show "receive_frames jv_ops wire_tables
      (stdio_deliver 4096 [concat (map (\<lambda>f. f @ [CHR 0x0A]) (concat (map snd wire_trace)))])
      (fst wire_sent) 0 = (Inr [], wire_returned, wire_app)"
    unfolding wire_delivered by (rule wire_runs)
qed (rule wire_computed wire_arrives wire_runs)+

end
