(* ===== verification/Sse.thy ===== *)
theory Sse
  imports Wire
begin

text \<open>
  Server-sent events, the framing of the HTTP transport's server-to-client stream: the writer in the
  GET handler of src/http_server_host.cpp and the reader \<open>drain_sse\<close> of
  src/http_client_transport.cpp. The reader's buffer is a string, its callback a list of events.

  Lemmas: how \<open>drain_sse\<close> treats a buffer that arrives in pieces, and that together with the writer it
  is a channel in the sense of \<open>frame_channel\<close>.
\<close>

section \<open>Reading\<close>

text \<open>\<open>std::stoi\<close>: white space, a sign, digits, anything; \<open>None\<close> when it throws.\<close>

definition stoi :: "string \<Rightarrow> int option" where
  "stoi s =
     (let s = dropWhile (\<lambda>c. c \<in> {CHR '' '', CHR 0x09, CHR 0x0A, CHR 0x0B, CHR 0x0C, CHR 0x0D}) s;
          neg = (s \<noteq> [] \<and> hd s = CHR ''-'');
          s = (if s \<noteq> [] \<and> hd s \<in> {CHR ''-'', CHR ''+''} then tl s else s);
          ds = takeWhile is_digit s;
          n = (if neg then - int (dec_value ds) else int (dec_value ds))
      in if ds = [] \<or> n < - (2 ^ 31) \<or> 2 ^ 31 \<le> n then None else Some n)"

record SseEvent =
  se_data :: string
  se_id :: "string option"
  se_retry_ms :: "int option"

definition SseEvent_init :: SseEvent where
  "SseEvent_init = \<lparr>se_data = [], se_id = None, se_retry_ms = None\<rparr>"

text \<open>The first complete event of the buffer and what follows its terminator.\<close>

fun split_event :: "string \<Rightarrow> (string \<times> string) option" where
  "split_event (c1 # c2 # s) =
     (if c1 = CHR 0x0A \<and> c2 = CHR 0x0A then Some ([], s)
      else if c1 = CHR 0x0D \<and> c2 = CHR 0x0A \<and> take 2 s = [CHR 0x0D, CHR 0x0A] then Some ([], drop 2 s)
      else map_option (\<lambda>(event, rest). (c1 # event, rest)) (split_event (c2 # s)))"
| "split_event [c1] = None"
| "split_event [] = None"

text \<open>The lines of an event, with the empty one after a final line feed.\<close>

fun event_lines :: "string \<Rightarrow> string list" where
  "event_lines [] = [[]]"
| "event_lines (c # s) =
     (if c = CHR 0x0A then [] # event_lines s
      else (case event_lines s of l # ls \<Rightarrow> (c # l) # ls | [] \<Rightarrow> [[c]]))"

definition strip_last_cr :: "string \<Rightarrow> string" where
  "strip_last_cr line = (if line \<noteq> [] \<and> last line = CHR 0x0D then butlast line else line)"

definition sse_line :: "string \<Rightarrow> SseEvent \<Rightarrow> SseEvent" where
  "sse_line line se =
     (let line = strip_last_cr line
      in if line = [] \<or> hd line = CHR '':'' then se
         else
           let field = takeWhile (\<lambda>c. c \<noteq> CHR '':'') line;
               value' = drop 1 (dropWhile (\<lambda>c. c \<noteq> CHR '':'') line);
               value' = (if value' \<noteq> [] \<and> hd value' = CHR '' '' then tl value' else value')
           in if field = ''data''
              then se\<lparr>se_data := (if se_data se \<noteq> [] then se_data se @ [CHR 0x0A] else se_data se) @ value'\<rparr>
              else if field = ''id'' then se\<lparr>se_id := Some value'\<rparr>
              else if field = ''retry'' then
                (case stoi value' of
                   Some v \<Rightarrow> if v \<ge> 0 then se\<lparr>se_retry_ms := Some v\<rparr> else se
                 | None \<Rightarrow> se)
              else se)"

definition parse_event :: "string \<Rightarrow> SseEvent" where
  "parse_event event = fold sse_line (event_lines event) SseEvent_init"

definition event_counts :: "SseEvent \<Rightarrow> bool" where
  "event_counts se \<longleftrightarrow> se_data se \<noteq> [] \<or> se_id se \<noteq> None \<or> se_retry_ms se \<noteq> None"

lemma split_event_shorter: "split_event s = Some (event, rest) \<Longrightarrow> length rest < length s"
  by (induction s arbitrary: event rest rule: split_event.induct)
    (auto split: if_splits)

function drain_sse :: "string \<Rightarrow> SseEvent list \<times> string" where
  "drain_sse buf =
     (case split_event buf of
        None \<Rightarrow> ([], buf)
      | Some (event, rest) \<Rightarrow>
          (let se = parse_event event;
               (ses, buf') = drain_sse rest
           in (if event_counts se then se # ses else ses, buf')))"
  by pat_completeness auto

termination
  by (relation "measure length") (auto dest: split_event_shorter)

declare drain_sse.simps [simp del]

section \<open>In pieces\<close>

lemma split_event_append:
  "split_event s = Some (event, rest) \<Longrightarrow> split_event (s @ t) = Some (event, rest @ t)"
proof (induction s arbitrary: event rest rule: split_event.induct)
  case (1 c1 c2 s)
  show ?case
  proof (cases "c1 = CHR 0x0D \<and> c2 = CHR 0x0A \<and> length s < 2")
    case True
    with 1 show ?thesis
      by (cases s) (auto split: if_splits)
  next
    case False
    with 1 show ?thesis by (auto split: if_splits)
  qed
qed auto

lemma drain_sse_append:
  "drain_sse (s @ t) =
     (let (ses, buf) = drain_sse s; (ses', buf') = drain_sse (buf @ t) in (ses @ ses', buf'))"
proof (induction s rule: drain_sse.induct)
  case (1 s)
  show ?case
  proof (cases "split_event s")
    case None
    then show ?thesis by (simp add: drain_sse.simps [of s])
  next
    case (Some er)
    obtain event rest where er: "er = (event, rest)" by fastforce
    from 1 [OF Some er [symmetric] refl] show ?thesis
      by (simp add: drain_sse.simps [of s] drain_sse.simps [of "s @ t"]
          split_event_append [OF Some [unfolded er]] Some er Let_def case_prod_unfold)
  qed
qed

text \<open>The events of a stream do not depend on the chunks it arrives in.\<close>

fun drain_chunks :: "string \<Rightarrow> string list \<Rightarrow> SseEvent list \<times> string" where
  "drain_chunks buf [] = ([], buf)"
| "drain_chunks buf (chunk # chunks) =
     (let (ses, buf) = drain_sse (buf @ chunk); (ses', buf') = drain_chunks buf chunks
      in (ses @ ses', buf'))"

definition drained :: "string \<Rightarrow> bool" where
  "drained buf \<longleftrightarrow> split_event buf = None"

lemma drained_rest: "drained (snd (drain_sse s))"
proof (induction s rule: drain_sse.induct)
  case (1 s)
  then show ?case
    by (auto simp: drain_sse.simps [of s] drained_def Let_def case_prod_unfold split: option.split)
qed

lemma drain_chunks_concat:
  "drained buf \<Longrightarrow> drain_chunks buf chunks = drain_sse (buf @ concat chunks)"
proof (induction chunks arbitrary: buf)
  case Nil
  then show ?case by (simp add: drain_sse.simps [of buf] drained_def)
next
  case (Cons c cs)
  have "drained (snd (drain_sse (buf @ c)))" by (rule drained_rest)
  from Cons.IH [OF this] show ?case
    by (simp add: drain_sse_append [of "buf @ c", simplified] Let_def case_prod_unfold)
qed

section \<open>Writing\<close>

text \<open>
  One call of the GET handler's content provider: a frame of the queue, or the keepalive comment when
  none came within the fifteen seconds.
\<close>

definition sse_write :: "string option \<Rightarrow> string" where
  "sse_write frame =
     (case frame of
        None \<Rightarrow> [CHR '':'', CHR 0x0A, CHR 0x0A]
      | Some f \<Rightarrow> ''data: '' @ f @ [CHR 0x0A, CHR 0x0A])"

text \<open>The messages a client's callback hands up: the events that carry data.\<close>

definition sse_messages :: "SseEvent list \<Rightarrow> string list" where
  "sse_messages ses = filter (\<lambda>d. d \<noteq> []) (map se_data ses)"

text \<open>The frames among the provider's calls.\<close>

fun somes :: "'a option list \<Rightarrow> 'a list" where
  "somes [] = []"
| "somes (None # xs) = somes xs"
| "somes (Some x # xs) = x # somes xs"

lemma somes_append [simp]: "somes (xs @ ys) = somes xs @ somes ys"
  by (induction xs rule: somes.induct) simp_all

lemma set_somes: "x \<in> set (somes xs) \<longleftrightarrow> Some x \<in> set xs"
  by (induction xs rule: somes.induct) auto

definition sse_sendable :: "string \<Rightarrow> bool" where
  "sse_sendable f \<longleftrightarrow> f \<noteq> [] \<and> CHR 0x0A \<notin> set f \<and> last f \<noteq> CHR 0x0D"

lemma split_event_terminated:
  "CHR 0x0A \<notin> set p \<Longrightarrow> split_event (p @ CHR 0x0A # CHR 0x0A # s) = Some (p, s)"
proof (induction p)
  case Nil
  then show ?case by simp
next
  case (Cons c p)
  then show ?case by (cases p) auto
qed

lemma event_lines_single: "CHR 0x0A \<notin> set p \<Longrightarrow> event_lines p = [p]"
  by (induction p) auto

lemma parse_comment: "parse_event [CHR '':''] = SseEvent_init"
  by (simp add: parse_event_def event_lines_single sse_line_def strip_last_cr_def)

lemma parse_data:
  "sse_sendable f \<Longrightarrow> parse_event (''data: '' @ f) = SseEvent_init\<lparr>se_data := f\<rparr>"
  by (simp add: parse_event_def event_lines_single sse_sendable_def sse_line_def strip_last_cr_def
      SseEvent_init_def)

lemma drain_written:
  "drain_sse (sse_write frame @ s) =
     (let (ses, buf) = drain_sse s
      in (case frame of None \<Rightarrow> ses | Some f \<Rightarrow> SseEvent_init\<lparr>se_data := f\<rparr> # ses, buf))"
  if "\<And>f. frame = Some f \<Longrightarrow> sse_sendable f"
proof (cases frame)
  case None
  then show ?thesis
    using split_event_terminated [of "[CHR '':'']" s]
    by (subst drain_sse.simps)
      (simp add: sse_write_def parse_comment event_counts_def SseEvent_init_def Let_def
        case_prod_unfold)
next
  case (Some f)
  with that have f: "sse_sendable f" by simp
  have "split_event (sse_write frame @ s) = Some (''data: '' @ f, s)"
    using split_event_terminated [of "''data: '' @ f" s] f Some
    by (simp add: sse_write_def sse_sendable_def)
  then show ?thesis
    using parse_data [OF f] f Some
    by (subst drain_sse.simps)
      (simp add: event_counts_def SseEvent_init_def sse_sendable_def Let_def case_prod_unfold)
qed

lemma drain_writes:
  "(\<And>f. Some f \<in> set frames \<Longrightarrow> sse_sendable f) \<Longrightarrow>
     drain_sse (concat (map sse_write frames)) =
       (map (\<lambda>f. SseEvent_init\<lparr>se_data := f\<rparr>) (somes frames), [])"
  by (induction frames)
    (auto simp: drain_sse.simps [of "[]"] drain_written Let_def
      split: option.splits)

lemma sse_messages_frames:
  "list_all sse_sendable fs \<Longrightarrow> sse_messages (map (\<lambda>f. SseEvent_init\<lparr>se_data := f\<rparr>) fs) = fs"
  by (induction fs) (auto simp: sse_messages_def sse_sendable_def)

lemma sse_stream:
  assumes "concat chunks = concat (map sse_write frames)"
    and "\<And>f. Some f \<in> set frames \<Longrightarrow> sse_sendable f"
  shows "drain_chunks [] chunks =
    (map (\<lambda>f. SseEvent_init\<lparr>se_data := f\<rparr>) (somes frames), [])"
  using drain_writes [OF assms(2)] by (simp add: drain_chunks_concat drained_def assms(1))

text \<open>
  C26: The server-sent-event stream of the HTTP transport is lossless. Whatever chunks the network cuts the stream
  into and however many keepalive comments the server writes between frames, the client's reader gets one event per
  frame, in order, with the frame as its data, no id and no retry hint, and keeps nothing back. Frames are single
  lines, as the compact \<open>dump\<close> of the library writes them.
\<close>

theorem sse_roundtrip:
  assumes "concat chunks = concat (map sse_write frames)"
    and "\<And>f. Some f \<in> set frames \<Longrightarrow> sse_sendable f"
  shows "drain_chunks [] chunks =
    (map (\<lambda>f. SseEvent_init\<lparr>se_data := f\<rparr>) (somes frames), [])"
  by (rule sse_stream [OF assms])

lemma sse_roundtrip_witness:
  "map se_data (fst (drain_chunks [] [''dat'', ''a: {}'', [CHR 0x0A], CHR 0x0A # '':'', [CHR 0x0A, CHR 0x0A] @ ''data: [1]'' @ [CHR 0x0A, CHR 0x0A]]))
     = [''{}'', ''[1]'']"
  by (subst sse_roundtrip [where frames = "[Some ''{}'', None, Some ''[1]'']"])
    (auto simp: sse_write_def sse_sendable_def)

section \<open>The stream as a channel\<close>

text \<open>A frame reaches the wire after any number of keepalives.\<close>

definition sse_sent :: "string \<Rightarrow> string \<Rightarrow> bool" where
  "sse_sent f out \<longleftrightarrow> (\<exists>n. out = concat (map sse_write (replicate n None @ [Some f])))"

definition sse_deliver :: "string list \<Rightarrow> string list" where
  "sse_deliver chunks = sse_messages (fst (drain_chunks [] chunks))"

lemma sse_sent_frames:
  "list_all2 sse_sent fs outs \<Longrightarrow>
     \<exists>frames. concat outs = concat (map sse_write frames) \<and> somes frames = fs"
proof (induction rule: list_all2_induct)
  case Nil
  then show ?case by (intro exI [of _ "[]"]) simp
next
  case (Cons f fs out outs)
  from Cons.IH obtain frames where
    frames: "concat outs = concat (map sse_write frames)" "somes frames = fs"
    by blast
  from Cons.hyps(1) obtain n where "out = concat (map sse_write (replicate n None @ [Some f]))"
    by (auto simp: sse_sent_def)
  moreover have "somes (replicate n None @ [Some f] @ frames) = f # fs"
    using frames(2) by (induction n) simp_all
  ultimately show ?case
    using frames(1)
    by (intro exI [of _ "replicate n None @ [Some f] @ frames"] conjI) (simp, assumption)
qed

lemma sse_delivers:
  assumes "list_all2 sse_sent fs outs" "list_all sse_sendable fs" "concat chunks = concat outs"
  shows "sse_deliver chunks = fs"
proof -
  from sse_sent_frames [OF assms(1)] obtain frames where
    frames: "concat outs = concat (map sse_write frames)" "somes frames = fs"
    by blast
  have "sse_sendable f" if "Some f \<in> set frames" for f
    using that assms(2) frames(2) set_somes [of f frames] by (auto simp: list_all_iff)
  then have "drain_sse (concat (map sse_write frames)) =
      (map (\<lambda>f. SseEvent_init\<lparr>se_data := f\<rparr>) fs, [])"
    using drain_writes [of frames] frames(2) by simp
  then show ?thesis
    using assms(2,3) frames(1)
    by (simp add: sse_deliver_def drain_chunks_concat drained_def sse_messages_frames)
qed

interpretation sse: frame_channel sse_sendable sse_sent sse_deliver
  by unfold_locales (rule sse_delivers)

end
