(* ===== verification/Http_Transport.thy ===== *)
theory Http_Transport
  imports Sse
begin

text \<open>
  \<open>HttpSessionTransport\<close> of src/http_server_host.cpp: the transport of one HTTP session. A POST that
  carries a request parks a promise under the id of the request; the response that the session sends
  settles it. Every other outbound frame waits in a queue for the GET stream. Inbound frames are
  buffered until \<open>start\<close>.

  The operations are written as the critical sections they consist of, composed once without
  interference (\<open>deliver\<close>, \<open>hs_send\<close>, \<open>hs_start\<close>, \<open>hs_close\<close>) and once as the steps of
  interleaved threads (\<open>hs_step\<close>).

  Lemmas: promises and frames are conserved by every step, answers reach the POST that asked, the
  GET stream keeps the order of the queue.
\<close>

section \<open>State\<close>

text \<open>What the future of a POST becomes ready with.\<close>

datatype reply = Reply string | Session_closed | Broken_promise

text \<open>
  \<open>hs_promises\<close> counts the promises made, \<open>hs_settled\<close> logs how they were settled and
  \<open>hs_handed\<close> the calls of \<open>on_message_\<close>. \<open>hs_lost\<close> are frames that \<open>start\<close> took from the buffer
  while no callback was set.
\<close>

record HttpSessionTransport =
  hs_closed :: bool
  hs_started :: bool
  hs_on_message :: bool
  hs_buffered :: "string list"
  hs_handed :: "string list"
  hs_lost :: "string list"
  hs_pending :: "(string \<times> nat) list"
  hs_promises :: nat
  hs_settled :: "(nat \<times> reply) list"
  hs_get_queue :: "string list"
  hs_get_active :: bool
  hs_on_close :: bool
  hs_on_close_calls :: nat

definition HttpSessionTransport_init :: HttpSessionTransport where
  "HttpSessionTransport_init = \<lparr>hs_closed = False, hs_started = False, hs_on_message = False,
     hs_buffered = [], hs_handed = [], hs_lost = [], hs_pending = [], hs_promises = 0,
     hs_settled = [], hs_get_queue = [], hs_get_active = False, hs_on_close = False,
     hs_on_close_calls = 0\<rparr>"

section \<open>Critical sections\<close>

definition canonical_id :: "'j json_ops \<Rightarrow> 'j \<Rightarrow> string" where
  "canonical_id J v =
     (if j_is_string J v then ''s:'' @ (case j_get_string J v of Inr s \<Rightarrow> s | Inl w \<Rightarrow> [])
      else if j_is_number_integer J v \<or> j_is_number_unsigned J v
      then ''i:'' @ (case j_get_int64 J v of Inr i \<Rightarrow> int_string (sint i) | Inl w \<Rightarrow> [])
      else [])"

text \<open>\<open>contains(''id'') && !j[''id''].is_null()\<close>, with the id.\<close>

definition frame_id :: "'j json_ops \<Rightarrow> 'j \<Rightarrow> 'j option" where
  "frame_id J j =
     (case j_find J j ''id'' of
        None \<Rightarrow> None
      | Some v \<Rightarrow> if j_is_null J v then None else Some v)"

definition settle_promise :: "nat \<Rightarrow> reply \<Rightarrow> HttpSessionTransport \<Rightarrow> HttpSessionTransport" where
  "settle_promise n r t = t\<lparr>hs_settled := hs_settled t @ [(n, r)]\<rparr>"

text \<open>
  A new promise, parked under \<open>key\<close>. \<open>emplace\<close> keeps an entry that is there; the new promise is
  then destroyed, which breaks it.
\<close>

definition park_reply :: "string \<Rightarrow> HttpSessionTransport \<Rightarrow> nat \<times> HttpSessionTransport" where
  "park_reply key t =
     (let n = hs_promises t; t = t\<lparr>hs_promises := n + 1\<rparr>
      in (n, if map_of (hs_pending t) key = None
             then t\<lparr>hs_pending := (key, n) # hs_pending t\<rparr>
             else settle_promise n Broken_promise t))"

text \<open>The end of \<open>deliver_request_or_notification\<close>, under \<open>buffered_mu_\<close>.\<close>

definition hand_up :: "string \<Rightarrow> HttpSessionTransport \<Rightarrow> HttpSessionTransport" where
  "hand_up raw t =
     (if hs_started t \<and> hs_on_message t then t\<lparr>hs_handed := hs_handed t @ [raw]\<rparr>
      else t\<lparr>hs_buffered := hs_buffered t @ [raw]\<rparr>)"

definition take_awaiter :: "string \<Rightarrow> HttpSessionTransport \<Rightarrow> nat option \<times> HttpSessionTransport" where
  "take_awaiter key t =
     (map_of (hs_pending t) key, t\<lparr>hs_pending := AList.delete key (hs_pending t)\<rparr>)"

definition enqueue_get :: "string \<Rightarrow> HttpSessionTransport \<Rightarrow> HttpSessionTransport" where
  "enqueue_get frame t = t\<lparr>hs_get_queue := hs_get_queue t @ [frame]\<rparr>"

definition open_gate :: "HttpSessionTransport \<Rightarrow> string list \<times> HttpSessionTransport" where
  "open_gate t = (hs_buffered t, t\<lparr>hs_started := True, hs_buffered := []\<rparr>)"

definition drain_pending :: "HttpSessionTransport \<Rightarrow> nat list \<times> HttpSessionTransport" where
  "drain_pending t = (map snd (hs_pending t), t\<lparr>hs_pending := []\<rparr>)"

definition fire_on_close :: "HttpSessionTransport \<Rightarrow> HttpSessionTransport" where
  "fire_on_close t =
     t\<lparr>hs_on_close_calls := hs_on_close_calls t + (if hs_on_close t then 1 else 0)\<rparr>"

section \<open>Operations\<close>

definition hs_set_on_message :: "HttpSessionTransport \<Rightarrow> HttpSessionTransport" where
  "hs_set_on_message t = t\<lparr>hs_on_message := True\<rparr>"

definition hs_set_on_close :: "HttpSessionTransport \<Rightarrow> HttpSessionTransport" where
  "hs_set_on_close t = t\<lparr>hs_on_close := True\<rparr>"

definition hs_start :: "HttpSessionTransport \<Rightarrow> HttpSessionTransport" where
  "hs_start t =
     (let (taken, t) = open_gate t
      in if hs_on_message t then t\<lparr>hs_handed := hs_handed t @ taken\<rparr>
         else t\<lparr>hs_lost := hs_lost t @ taken\<rparr>)"

definition hs_close :: "HttpSessionTransport \<Rightarrow> HttpSessionTransport" where
  "hs_close t =
     (if hs_closed t then t
      else
        let (drained, t) = drain_pending (t\<lparr>hs_closed := True\<rparr>);
            t = fold (\<lambda>n. settle_promise n Session_closed) drained t
        in fire_on_close t)"

definition hs_is_open :: "HttpSessionTransport \<Rightarrow> bool" where
  "hs_is_open t \<longleftrightarrow> \<not> hs_closed t"

definition hs_send ::
    "'j json_ops \<Rightarrow> string \<Rightarrow> HttpSessionTransport \<Rightarrow> error_code option \<times> HttpSessionTransport" where
  "hs_send J frame t =
     (if hs_closed t then (Some Ec_not_connected, t)
      else
        case j_parse J frame of
          Inl w \<Rightarrow> (Some Ec_invalid_argument, t)
        | Inr j \<Rightarrow>
            (case (frame_id J j, j_contains J j ''method'') of
               (Some v, False) \<Rightarrow>
                 (case take_awaiter (canonical_id J v) t of
                    (None, t') \<Rightarrow> (Some Ec_invalid_argument, t)
                  | (Some awaiter, t) \<Rightarrow> (None, settle_promise awaiter (Reply frame) t))
             | _ \<Rightarrow> (None, enqueue_get frame t)))"

text \<open>The key under which the POST of this body waits, if it carries a request.\<close>

definition request_key :: "'j json_ops \<Rightarrow> string \<Rightarrow> string option" where
  "request_key J raw =
     (case j_parse J raw of
        Inl w \<Rightarrow> None
      | Inr j \<Rightarrow>
          (case (frame_id J j, j_contains J j ''method'') of
             (Some v, True) \<Rightarrow> Some (canonical_id J v)
           | _ \<Rightarrow> None))"

text \<open>
  \<open>deliver_request_or_notification\<close>: the promise of the reply, if the frame is a request. A body
  that is not JSON is not handed up.
\<close>

definition deliver ::
    "'j json_ops \<Rightarrow> string \<Rightarrow> HttpSessionTransport \<Rightarrow> nat option \<times> HttpSessionTransport" where
  "deliver J raw t =
     (case j_parse J raw of
        Inl w \<Rightarrow> (None, t)
      | Inr j \<Rightarrow>
          (case request_key J raw of
             None \<Rightarrow> (None, hand_up raw t)
           | Some key \<Rightarrow> (let (n, t) = park_reply key t in (Some n, hand_up raw t))))"

definition enter_get_stream :: "HttpSessionTransport \<Rightarrow> HttpSessionTransport" where
  "enter_get_stream t = t\<lparr>hs_get_active := True\<rparr>"

definition leave_get_stream :: "HttpSessionTransport \<Rightarrow> HttpSessionTransport" where
  "leave_get_stream t = t\<lparr>hs_get_active := False\<rparr>"

text \<open>What \<open>wait_get_frame\<close> returns once it stops waiting, by a frame, the close or the time.\<close>

definition wait_get_frame :: "HttpSessionTransport \<Rightarrow> string option \<times> HttpSessionTransport" where
  "wait_get_frame t =
     (case hs_get_queue t of
        [] \<Rightarrow> (None, t)
      | out # queue \<Rightarrow> (Some out, t\<lparr>hs_get_queue := queue\<rparr>))"

section \<open>Interleaved threads\<close>

text \<open>
  What a thread still has to do: hand up the frame it parked a promise for, settle the awaiter it
  took, fail the promises it drained, hand up the frames it took from the buffer.
\<close>

datatype http_thread = Hand string | Answer nat string | Fail "nat list" | Hand_all "string list"

text \<open>\<open>hc_accepted\<close>: the frames that POST bodies brought (not part of the program).\<close>

record HttpConfig =
  hc_transport :: HttpSessionTransport
  hc_threads :: "http_thread multiset"
  hc_accepted :: "string list"

definition HttpConfig_init :: HttpConfig where
  "HttpConfig_init =
     \<lparr>hc_transport = HttpSessionTransport_init, hc_threads = {#}, hc_accepted = []\<rparr>"

definition become :: "http_thread multiset \<Rightarrow> http_thread multiset \<Rightarrow> HttpSessionTransport \<Rightarrow> HttpConfig \<Rightarrow> HttpConfig"
  where "become ts ts' t c = c\<lparr>hc_transport := t, hc_threads := hc_threads c - ts + ts'\<rparr>"

inductive hs_step :: "HttpConfig \<Rightarrow> HttpConfig \<Rightarrow> bool" where
  sets_on_message: "hs_step c (become {#} {#} (hs_set_on_message (hc_transport c)) c)"
| sets_on_close: "hs_step c (become {#} {#} (hs_set_on_close (hc_transport c)) c)"
| post_request: "park_reply key (hc_transport c) = (n, t) \<Longrightarrow>
    hs_step c (become {#} {#Hand raw#} t c\<lparr>hc_accepted := hc_accepted c @ [raw]\<rparr>)"
| post_other:
    "hs_step c (become {#} {#Hand raw#} (hc_transport c) c\<lparr>hc_accepted := hc_accepted c @ [raw]\<rparr>)"
| hands: "Hand raw \<in># hc_threads c \<Longrightarrow>
    hs_step c (become {#Hand raw#} {#} (hand_up raw (hc_transport c)) c)"
| takes: "take_awaiter key (hc_transport c) = (Some n, t) \<Longrightarrow>
    hs_step c (become {#} {#Answer n frame#} t c)"
| answers: "Answer n frame \<in># hc_threads c \<Longrightarrow>
    hs_step c (become {#Answer n frame#} {#} (settle_promise n (Reply frame) (hc_transport c)) c)"
| enqueues: "hs_step c (become {#} {#} (enqueue_get frame (hc_transport c)) c)"
| gets: "wait_get_frame (hc_transport c) = (frame, t) \<Longrightarrow> hs_step c (become {#} {#} t c)"
| enters: "hs_step c (become {#} {#} (enter_get_stream (hc_transport c)) c)"
| leaves: "hs_step c (become {#} {#} (leave_get_stream (hc_transport c)) c)"
| opens: "open_gate (hc_transport c) = (taken, t) \<Longrightarrow> hs_on_message t \<Longrightarrow>
    hs_step c (become {#} {#Hand_all taken#} t c)"
| opens_unheard: "open_gate (hc_transport c) = (taken, t) \<Longrightarrow> \<not> hs_on_message t \<Longrightarrow>
    hs_step c (become {#} {#} (t\<lparr>hs_lost := hs_lost t @ taken\<rparr>) c)"
| hands_next: "Hand_all (raw # taken) \<in># hc_threads c \<Longrightarrow>
    hs_step c (become {#Hand_all (raw # taken)#} {#Hand_all taken#}
      ((hc_transport c)\<lparr>hs_handed := hs_handed (hc_transport c) @ [raw]\<rparr>) c)"
| closes: "\<not> hs_closed (hc_transport c) \<Longrightarrow>
    drain_pending ((hc_transport c)\<lparr>hs_closed := True\<rparr>) = (ns, t) \<Longrightarrow>
    hs_step c (become {#} {#Fail ns#} t c)"
| fails: "Fail (n # ns) \<in># hc_threads c \<Longrightarrow>
    hs_step c (become {#Fail (n # ns)#} {#Fail ns#} (settle_promise n Session_closed (hc_transport c)) c)"
| closed: "Fail [] \<in># hc_threads c \<Longrightarrow>
    hs_step c (become {#Fail []#} {#} (fire_on_close (hc_transport c)) c)"

inductive hs_reachable :: "HttpConfig \<Rightarrow> bool" where
  initial: "hs_reachable HttpConfig_init"
| step: "hs_reachable c \<Longrightarrow> hs_step c c' \<Longrightarrow> hs_reachable c'"

section \<open>Conservation\<close>

fun thread_promises :: "http_thread \<Rightarrow> nat multiset" where
  "thread_promises (Hand raw) = {#}"
| "thread_promises (Answer n frame) = {#n#}"
| "thread_promises (Fail ns) = mset ns"
| "thread_promises (Hand_all raws) = {#}"

fun thread_frames :: "http_thread \<Rightarrow> string multiset" where
  "thread_frames (Hand raw) = {#raw#}"
| "thread_frames (Answer n frame) = {#}"
| "thread_frames (Fail ns) = {#}"
| "thread_frames (Hand_all raws) = mset raws"

definition over_threads :: "(http_thread \<Rightarrow> 'a multiset) \<Rightarrow> http_thread multiset \<Rightarrow> 'a multiset" where
  "over_threads f ts = \<Sum>\<^sub># (image_mset f ts)"

definition promises_of :: "HttpSessionTransport \<Rightarrow> nat multiset" where
  "promises_of t = mset (map snd (hs_pending t)) + mset (map fst (hs_settled t))"

definition frames_of :: "HttpSessionTransport \<Rightarrow> string multiset" where
  "frames_of t = mset (hs_handed t) + mset (hs_buffered t) + mset (hs_lost t)"

definition hs_inv :: "HttpConfig \<Rightarrow> bool" where
  "hs_inv c \<longleftrightarrow>
     distinct (map fst (hs_pending (hc_transport c))) \<and>
     promises_of (hc_transport c) + over_threads thread_promises (hc_threads c) =
       mset [0..<hs_promises (hc_transport c)] \<and>
     frames_of (hc_transport c) + over_threads thread_frames (hc_threads c) = mset (hc_accepted c)"

lemma over_threads_simps [simp]:
  "over_threads f {#} = {#}"
  "over_threads f (add_mset x ts) = f x + over_threads f ts"
  "over_threads f (ts + ts') = over_threads f ts + over_threads f ts'"
  by (simp_all add: over_threads_def)

lemma over_threads_minus:
  "x \<in># ts \<Longrightarrow> over_threads f ts = f x + over_threads f (ts - {#x#})"
  by (metis insert_DiffM over_threads_simps(2))

lemma become_simps [simp]:
  "hc_transport (become ts ts' t c) = t"
  "hc_threads (become ts ts' t c) = hc_threads c - ts + ts'"
  "hc_accepted (become ts ts' t c) = hc_accepted c"
  by (simp_all add: become_def)

lemmas hs_sections =
  hs_set_on_message_def hs_set_on_close_def hand_up_def enqueue_get_def enter_get_stream_def
  leave_get_stream_def fire_on_close_def settle_promise_def open_gate_def drain_pending_def

lemma mset_delete:
  "distinct (map fst ps) \<Longrightarrow> map_of ps k = Some n \<Longrightarrow>
     mset (map snd ps) = add_mset n (mset (map snd (AList.delete k ps)))"
proof (induction ps)
  case (Cons q ps)
  obtain k' v where q: "q = (k', v)" by fastforce
  show ?case
  proof (cases "k' = k")
    case True
    with Cons.prems q have "AList.delete k ps = ps"
      by (auto simp: AList.delete_eq filter_id_conv rev_image_eqI)
    with True Cons.prems q show ?thesis by simp
  next
    case False
    with Cons q show ?thesis by simp
  qed
qed simp

lemma hs_inv_step: "hs_step c c' \<Longrightarrow> hs_inv c \<Longrightarrow> hs_inv c'"
proof (induction rule: hs_step.induct)
  case (takes key c n t frame)
  then show ?case
    using mset_delete [of "hs_pending (hc_transport c)" key n]
    by (auto simp: hs_inv_def take_awaiter_def promises_of_def frames_of_def distinct_delete)
next
  case (gets c frame t)
  then show ?case
    by (auto simp: hs_inv_def wait_get_frame_def promises_of_def frames_of_def split: list.splits)
next
  case (post_request key c n t raw)
  then show ?case
    by (auto simp: hs_inv_def park_reply_def Let_def promises_of_def frames_of_def
        settle_promise_def map_of_eq_None_iff atLeast0_lessThan_Suc split: if_splits)
qed (auto simp: hs_inv_def promises_of_def frames_of_def hs_sections over_threads_minus ac_simps)

lemma hs_inv_reachable: "hs_reachable c \<Longrightarrow> hs_inv c"
proof (induction rule: hs_reachable.induct)
  case initial
  show ?case
    by (simp add: hs_inv_def HttpConfig_init_def HttpSessionTransport_init_def promises_of_def
        frames_of_def)
qed (rule hs_inv_step)

section \<open>Answers\<close>

fun deliver_all ::
    "'j json_ops \<Rightarrow> string list \<Rightarrow> HttpSessionTransport \<Rightarrow> nat option list \<times> HttpSessionTransport" where
  "deliver_all J [] t = ([], t)"
| "deliver_all J (raw # raws) t =
     (let (n, t) = deliver J raw t; (ns, t) = deliver_all J raws t in (n # ns, t))"

fun send_all ::
    "'j json_ops \<Rightarrow> string list \<Rightarrow> HttpSessionTransport \<Rightarrow> error_code option list \<times> HttpSessionTransport" where
  "send_all J [] t = ([], t)"
| "send_all J (f # fs) t =
     (let (ec, t) = hs_send J f t; (ecs, t) = send_all J fs t in (ec # ecs, t))"

text \<open>The id of a request body is a string or an integer, not a float that happens to be integral.\<close>

definition exact_id :: "'j json_ops \<Rightarrow> string \<Rightarrow> bool" where
  "exact_id J raw \<longleftrightarrow>
     (case j_parse J raw of
        Inl w \<Rightarrow> True
      | Inr j \<Rightarrow> (case j_find J j ''id'' of None \<Rightarrow> True | Some v \<Rightarrow> \<not> j_is_number_float J v))"

text \<open>The text of a response still shows its id and no method once it is parsed again.\<close>

definition keeps_id :: "'j json_ops \<Rightarrow> 'j JsonRpcResponse \<Rightarrow> string \<Rightarrow> bool" where
  "keeps_id J resp f \<longleftrightarrow>
     (\<exists>rid j v. resp_id resp = Some rid \<and> j_parse J f = Inr j \<and> frame_id J j = Some v \<and>
        \<not> j_contains J j ''method'' \<and> canonical_id J v = RequestId_canonical rid)"

context json_lib
begin

lemma canonical_id_from_json:
  assumes "RequestId_from_json J v = Inr rid" "\<not> j_is_number_float J v"
  shows "canonical_id J v = RequestId_canonical rid" "\<not> j_is_null J v"
proof -
  from assms consider s where "j_is_string J v" "j_get_string J v = Inr s" "rid = IdString s"
    | i where "j_is_number_integer J v" "\<not> j_is_string J v" "j_get_int64 J v = Inr i" "rid = IdInt i"
    by (auto simp: RequestId_from_json_def emap_eq_Inr_iff get_str_def get_i64_def
        split: if_splits elim!: json_call.elims)
  then show "canonical_id J v = RequestId_canonical rid" "\<not> j_is_null J v"
    using string_kind [of v] integer_kind [of v] by (cases; auto simp: canonical_id_def)+
qed

lemma request_classified:
  assumes "classify_frame J raw = Inr (Some (Request r))"
  obtains j v where "j_parse J raw = Inr j" "j_contains J j ''method''" "j_find J j ''id'' = Some v"
    "RequestId_from_json J v = Inr (req_id r)"
proof -
  from assms obtain j where j: "j_parse J raw = Inr j" "parse_message J j = Inr (Request r)"
    by (auto simp: classify_frame_def emap_eq_Inr_iff split: sum.splits exc.splits elim!: ecatch.elims)
  then have m: "j_contains J j ''method''" and r: "JsonRpcRequest_from_json J j = Inr r"
    by (auto simp: parse_message_def Let_def emap_eq_Inr_iff split: if_splits)
  from r obtain v where v: "j_at J j ''id'' = Inr v" "RequestId_from_json J v = Inr (req_id r)"
    by (auto simp: JsonRpcRequest_from_json_def at_get_def ebind_eq_Inr_iff elim!: json_call.elims)
  then have "j_find J j ''id'' = Some v"
    using at_found [of j "''id''"] at_missing [of j "''id''"] by (cases "j_find J j ''id''") auto
  with j(1) m v(2) show thesis by (intro that)
qed

lemma request_key_classified:
  assumes "classify_frame J raw = Inr (Some (Request r))" "exact_id J raw"
  shows "request_key J raw = Some (RequestId_canonical (req_id r))" "\<exists>j. j_parse J raw = Inr j"
proof -
  from assms(1) obtain j v where j: "j_parse J raw = Inr j" "j_contains J j ''method''"
    "j_find J j ''id'' = Some v" "RequestId_from_json J v = Inr (req_id r)"
    by (rule request_classified)
  then show "request_key J raw = Some (RequestId_canonical (req_id r))"
    using canonical_id_from_json [OF j(4)] assms(2)
    by (simp add: request_key_def frame_id_def exact_id_def)
  show "\<exists>j. j_parse J raw = Inr j" using j by blast
qed

lemma request_key_float:
  assumes "classify_frame J raw = Inr (Some (Request r))" "\<not> exact_id J raw"
  shows "request_key J raw = Some []" "\<exists>j. j_parse J raw = Inr j"
proof -
  from assms(1) obtain j v where j: "j_parse J raw = Inr j" "j_contains J j ''method''"
    "j_find J j ''id'' = Some v" "RequestId_from_json J v = Inr (req_id r)"
    by (rule request_classified)
  with assms(2) have "j_is_number_float J v" by (simp add: exact_id_def)
  from float_kind [OF this] show "request_key J raw = Some []"
    using j by (simp add: request_key_def frame_id_def canonical_id_def)
  show "\<exists>j. j_parse J raw = Inr j" using j by blast
qed

end

text \<open>Posts whose keys are new and distinct.\<close>

lemma deliver_parks:
  assumes "request_key J raw = Some key" "j_parse J raw = Inr j"
    and "map_of (hs_pending t) key = None" "hs_started t" "hs_on_message t"
  shows "deliver J raw t = (Some (hs_promises t),
    t\<lparr>hs_promises := hs_promises t + 1, hs_pending := (key, hs_promises t) # hs_pending t,
      hs_handed := hs_handed t @ [raw]\<rparr>)"
  using assms by (simp add: deliver_def park_reply_def hand_up_def Let_def)

lemma deliver_all_parks:
  assumes "list_all2 (\<lambda>raw key. request_key J raw = Some key \<and> (\<exists>j. j_parse J raw = Inr j)) raws keys"
    and "distinct (keys @ map fst (hs_pending t))" "hs_started t" "hs_on_message t"
  shows "deliver_all J raws t =
    (map Some [hs_promises t..<hs_promises t + length keys],
     t\<lparr>hs_promises := hs_promises t + length keys,
       hs_pending := rev (zip keys [hs_promises t..<hs_promises t + length keys]) @ hs_pending t,
       hs_handed := hs_handed t @ raws\<rparr>)"
  using assms
proof (induction raws keys arbitrary: t rule: list_all2_induct)
  case (Cons raw raws key keys)
  then obtain j where "j_parse J raw = Inr j" by blast
  moreover have "map_of (hs_pending t) key = None"
    using Cons.prems by (auto simp: map_of_eq_None_iff)
  ultimately have d: "deliver J raw t = (Some (hs_promises t),
    t\<lparr>hs_promises := hs_promises t + 1, hs_pending := (key, hs_promises t) # hs_pending t,
      hs_handed := hs_handed t @ [raw]\<rparr>)"
    using Cons by (intro deliver_parks) auto
  show ?case
    using Cons.prems by (simp add: d upt_conv_Cons Cons.IH del: upt_Suc)
qed simp

text \<open>Responses whose keys wait.\<close>

lemma send_answers:
  assumes "j_parse J f = Inr j" "frame_id J j = Some v" "\<not> j_contains J j ''method''"
    and "map_of (hs_pending t) (canonical_id J v) = Some n" "\<not> hs_closed t"
  shows "hs_send J f t = (None,
    t\<lparr>hs_pending := AList.delete (canonical_id J v) (hs_pending t),
      hs_settled := hs_settled t @ [(n, Reply f)]\<rparr>)"
  using assms by (simp add: hs_send_def take_awaiter_def settle_promise_def)

definition answer_key :: "'j JsonRpcResponse \<Rightarrow> string" where
  "answer_key resp = RequestId_canonical (the (resp_id resp))"

lemma send_all_answers:
  assumes "list_all2 (keeps_id J) resps fs" "distinct (map answer_key resps)"
    and "set (map answer_key resps) \<subseteq> dom (map_of (hs_pending t))" "\<not> hs_closed t"
  shows "send_all J fs t = (map (\<lambda>_. None) fs,
    t\<lparr>hs_pending := filter (\<lambda>(k, n). k \<notin> set (map answer_key resps)) (hs_pending t),
      hs_settled := hs_settled t @
        map (\<lambda>(resp, f). (the (map_of (hs_pending t) (answer_key resp)), Reply f)) (zip resps fs)\<rparr>)"
  using assms
proof (induction resps fs arbitrary: t rule: list_all2_induct)
  case Nil
  then show ?case by simp
next
  case (Cons resp resps f fs)
  obtain n where n: "map_of (hs_pending t) (answer_key resp) = Some n" using Cons.prems by auto
  from Cons.hyps(1) obtain j v where
    "j_parse J f = Inr j" "frame_id J j = Some v" "\<not> j_contains J j ''method''"
    and v: "canonical_id J v = answer_key resp"
    by (auto simp: keeps_id_def answer_key_def)
  from send_answers [OF this(1-3)] n Cons.prems(3)
  have s: "hs_send J f t = (None,
      t\<lparr>hs_pending := AList.delete (answer_key resp) (hs_pending t),
        hs_settled := hs_settled t @ [(n, Reply f)]\<rparr>)"
    by (simp add: v)
  have keys: "map_of (AList.delete (answer_key resp) (hs_pending t)) (answer_key r) =
      map_of (hs_pending t) (answer_key r)" if "r \<in> set resps" for r
  proof -
    have "answer_key r \<noteq> answer_key resp"
      using that Cons.prems(1) by (auto simp: image_iff dest: bspec)
    then show ?thesis by (simp add: AList.delete_conv')
  qed
  have dom: "set (map answer_key resps) \<subseteq> dom (map_of (AList.delete (answer_key resp) (hs_pending t)))"
  proof
    fix k assume "k \<in> set (map answer_key resps)"
    then obtain r where "r \<in> set resps" "k = answer_key r" by auto
    then show "k \<in> dom (map_of (AList.delete (answer_key resp) (hs_pending t)))"
      using keys Cons.prems(2) by (auto simp: domIff)
  qed
  have later: "map (\<lambda>(r, f). (the (map_of (AList.delete (answer_key resp) (hs_pending t)) (answer_key r)), Reply f)) (zip resps fs) =
      map (\<lambda>(r, f). (the (map_of (hs_pending t) (answer_key r)), Reply f)) (zip resps fs)"
    using keys by (auto dest: set_zip_leftD)
  have left: "filter (\<lambda>(k, n). k \<notin> set (map answer_key resps)) (AList.delete (answer_key resp) (hs_pending t)) =
      filter (\<lambda>(k, n). k \<notin> set (map answer_key (resp # resps))) (hs_pending t)"
    by (auto simp: AList.delete_eq intro!: filter_cong)
  have IH: "send_all J fs (t\<lparr>hs_pending := AList.delete (answer_key resp) (hs_pending t),
        hs_settled := hs_settled t @ [(n, Reply f)]\<rparr>) = (map (\<lambda>_. None) fs,
    t\<lparr>hs_pending := filter (\<lambda>(k, n). k \<notin> set (map answer_key (resp # resps))) (hs_pending t),
      hs_settled := (hs_settled t @ [(n, Reply f)]) @
        map (\<lambda>(r, f). (the (map_of (hs_pending t) (answer_key r)), Reply f)) (zip resps fs)\<rparr>)"
    using Cons.prems dom left later by (subst Cons.IH) simp_all
  then show ?case by (simp add: s n)
qed

section \<open>Posts and their replies\<close>

text \<open>
  \<open>replies\<close>: every post's promise is settled, with the text of the response that the session
  gave to the request of that post.
\<close>

definition replies ::
    "'j json_ops \<Rightarrow> ('j, 's) HandlerTables \<Rightarrow> ('j JsonRpcResponse \<times> string list) list \<Rightarrow>
     (nat \<times> reply) list \<Rightarrow> nat option \<Rightarrow> 'j JsonRpcRequest \<Rightarrow> bool" where
  "replies J tbl trace settled n r \<longleftrightarrow>
     (\<exists>m resp f. n = Some m \<and> answers_to J tbl r resp \<and> (resp, [f]) \<in> set trace \<and>
        (m, Reply f) \<in> set settled)"

lemma RequestId_canonical_injI [simp]: "inj_on RequestId_canonical A"
  by (simp add: inj_on_def)

definition key_of :: "'j JsonRpcRequest \<Rightarrow> string" where
  "key_of r = RequestId_canonical (req_id r)"

lemma trace_keys:
  "list_all2 (answered J tbl) order trace \<Longrightarrow> map answer_key (map fst trace) = map key_of order"
  by (induction rule: list_all2_induct)
    (auto simp: answer_key_def key_of_def answered_def dest: answers_to_id)

lemma replies_by_key:
  assumes "list_all2 (answered J tbl) order trace" "\<forall>a \<in> set trace. \<exists>f. snd a = [f]"
    and "set order = set rs" "distinct (map key_of rs)" "length ms = length rs"
  shows "list_all2 (replies J tbl trace
      (map (\<lambda>a. (the (map_of (zip (map key_of rs) ms) (answer_key (fst a))), Reply (hd (snd a)))) trace))
    (map Some ms) rs"
proof (rule list_all2_all_nthI)
  fix k assume "k < length (map Some ms)"
  then have k: "k < length rs" using assms(5) by simp
  with assms(3) obtain i where i: "i < length order" "order ! i = rs ! k"
    by (metis in_set_conv_nth nth_mem)
  with assms(1) have a: "i < length trace" "answered J tbl (rs ! k) (trace ! i)"
    by (auto simp: list_all2_conv_all_nth)
  then obtain f where f: "snd (trace ! i) = [f]" "trace ! i \<in> set trace"
    using assms(2) nth_mem by blast
  have "answer_key (fst (trace ! i)) = key_of (rs ! k)"
    using arg_cong [OF trace_keys [OF assms(1)], of "\<lambda>xs. xs ! i"] a(1) i by simp
  then have "map_of (zip (map key_of rs) ms) (answer_key (fst (trace ! i))) = Some (ms ! k)"
    using map_of_zip_nth [of "map key_of rs" ms k] assms(4,5) k by simp
  then have "(ms ! k, Reply f) \<in> set (map (\<lambda>a. (the (map_of (zip (map key_of rs) ms)
      (answer_key (fst a))), Reply (hd (snd a)))) trace)"
    using f by (auto intro!: rev_image_eqI [of "trace ! i"])
  moreover have "(fst (trace ! i), [f]) \<in> set trace" using f by (metis prod.collapse)
  ultimately show "replies J tbl trace (map (\<lambda>a. (the (map_of (zip (map key_of rs) ms)
      (answer_key (fst a))), Reply (hd (snd a)))) trace) (map Some ms ! k) (rs ! k)"
    using a(2) k assms(5) unfolding replies_def answered_def by auto
qed (use assms(5) in simp)

lemma batch_answered:
  assumes "list_all2 (\<lambda>raw r. request_key J raw = Some (key_of r) \<and> (\<exists>j. j_parse J raw = Inr j)) raws rs"
    and "distinct (map req_id rs)" "hs_started t" "hs_on_message t" "\<not> hs_closed t" "hs_pending t = []"
    and "deliver_all J raws t = (ns, t1)"
    and "mset order = mset rs" "list_all2 (answered J tbl) order trace"
    and "list_all2 (keeps_id J) (map fst trace) (concat (map snd trace))"
      "\<forall>a \<in> set trace. \<exists>f. snd a = [f]"
    and "send_all J (concat (map snd trace)) t1 = (ecs, t2)"
  shows "hs_handed t1 = hs_handed t @ raws \<and> list_all (\<lambda>ec. ec = None) ecs \<and> hs_pending t2 = [] \<and>
    (\<exists>answers. hs_settled t2 = hs_settled t @ answers \<and> length answers = length rs \<and>
      list_all2 (replies J tbl trace answers) ns rs)"
proof -
  define keys where "keys = map key_of rs"
  define ms where "ms = [hs_promises t..<hs_promises t + length rs]"
  have keys: "distinct keys" "length ms = length rs" "length keys = length rs"
    using assms(2) by (simp_all add: keys_def key_of_def ms_def distinct_map comp_inj_on_iff inj_on_def)
  have "list_all2 (\<lambda>raw k. request_key J raw = Some k \<and> (\<exists>j. j_parse J raw = Inr j)) raws keys"
    using assms(1) by (simp add: keys_def list_all2_map2)
  from deliver_all_parks [OF this] keys assms(3-7)
  have ns: "ns = map Some ms" and t1: "t1 = t\<lparr>hs_promises := hs_promises t + length rs,
      hs_pending := rev (zip keys ms), hs_handed := hs_handed t @ raws\<rparr>"
    by (simp_all add: keys_def ms_def)
  have pending: "map_of (hs_pending t1) = map_of (zip keys ms)"
    using keys by (simp add: t1 map_of_inject_set flip: rev_map)
  have "mset (map key_of order) = mset keys" using assms(8) by (simp add: keys_def)
  from mset_eq_imp_distinct_iff [OF this] keys(1) mset_eq_setD [OF assms(8)]
  have order: "set order = set rs" "distinct (map key_of order)" by simp_all
  have key_set: "set (map answer_key (map fst trace)) = set keys"
    unfolding trace_keys [OF assms(9)] using order(1) by (simp add: keys_def)
  define answers where "answers = map (\<lambda>(resp, f). (the (map_of (hs_pending t1) (answer_key resp)), Reply f))
      (zip (map fst trace) (concat (map snd trace)))"
  have sent: "ecs = map (\<lambda>_. None) (concat (map snd trace))" "t2 = t1\<lparr>hs_pending :=
      filter (\<lambda>(k, n). k \<notin> set keys) (hs_pending t1), hs_settled := hs_settled t1 @ answers\<rparr>"
    using send_all_answers [OF assms(10), of t1] assms(5,12) keys order(2) trace_keys [OF assms(9)] pending
    unfolding key_set answers_def by (simp_all add: t1)
  have "concat (map snd trace) = map (\<lambda>a. hd (snd a)) trace"
    using assms(11) by (induction trace) auto
  then have answers: "answers =
      map (\<lambda>a. (the (map_of (zip keys ms) (answer_key (fst a))), Reply (hd (snd a)))) trace"
    unfolding answers_def pending by (simp add: zip_map_map zip_same_conv_map)
  moreover have "length answers = length rs"
    using mset_eq_length [OF assms(8)] list_all2_lengthD [OF assms(9)] by (simp add: answers)
  moreover have "hs_pending t2 = []"
    using sent(2) by (auto simp: t1 filter_empty_conv dest: set_zip_leftD)
  moreover have "list_all2 (replies J tbl trace answers) ns rs"
    using replies_by_key [OF assms(9,11) order(1) _ keys(2)] keys(1) answers ns
    by (simp add: keys_def)
  ultimately show ?thesis using sent by (auto simp: t1 list_all_iff)
qed

section \<open>The GET stream\<close>

text \<open>
  The content provider of the GET handler: what it writes, and whether it wants to be called again.
  \<open>writable\<close> and \<open>wrote\<close> are what the sink says before and after.
\<close>

definition provide ::
    "bool \<Rightarrow> bool \<Rightarrow> HttpSessionTransport \<Rightarrow> (string \<times> bool) \<times> HttpSessionTransport" where
  "provide writable wrote t =
     (if hs_closed t \<or> \<not> writable then (([], False), t)
      else
        let (frame, t) = wait_get_frame t
        in (if wrote then (sse_write frame, True) else ([], False), t))"

text \<open>Frames that the session sends while the stream is open, and calls of the provider.\<close>

datatype get_event = Push string | Pull

fun get_stream ::
    "'j json_ops \<Rightarrow> get_event list \<Rightarrow> HttpSessionTransport \<Rightarrow> string list \<times> HttpSessionTransport" where
  "get_stream J [] t = ([], t)"
| "get_stream J (Push f # es) t = get_stream J es (snd (hs_send J f t))"
| "get_stream J (Pull # es) t =
     (let ((out, go), t) = provide True True t; (outs, t) = get_stream J es t in (out # outs, t))"

fun pushed :: "get_event list \<Rightarrow> string list" where
  "pushed [] = []"
| "pushed (Push f # es) = f # pushed es"
| "pushed (Pull # es) = pushed es"

text \<open>A frame that is no response: it has no id, or it has a method.\<close>

definition server_initiated :: "'j json_ops \<Rightarrow> string \<Rightarrow> bool" where
  "server_initiated J f \<longleftrightarrow>
     (case j_parse J f of
        Inl w \<Rightarrow> False
      | Inr j \<Rightarrow> frame_id J j = None \<or> j_contains J j ''method'')"

lemma send_server_initiated:
  "server_initiated J f \<Longrightarrow> \<not> hs_closed t \<Longrightarrow> hs_send J f t = (None, enqueue_get f t)"
  by (auto simp: server_initiated_def hs_send_def split: sum.splits option.splits bool.splits)

text \<open>Without the wire: the frames written, followed by what is left in the queue.\<close>

lemma get_stream_frames:
  assumes "\<not> hs_closed t" "list_all (server_initiated J) (pushed es)" "get_stream J es t = (outs, t')"
  shows "\<exists>frames. concat outs = concat (map sse_write frames) \<and>
    somes frames @ hs_get_queue t' = hs_get_queue t @ pushed es"
  using assms
proof (induction J es t arbitrary: outs t' rule: get_stream.induct)
  case (1 J t)
  then show ?case by (intro exI [of _ "[]"]) simp
next
  case (2 J f es t)
  then show ?case by (simp add: send_server_initiated enqueue_get_def)
next
  case (3 J es t)
  obtain frame t1 where w: "wait_get_frame t = (frame, t1)" by fastforce
  with 3 obtain outs1 where rest: "get_stream J es t1 = (outs1, t')" "outs = sse_write frame # outs1"
    by (auto simp: provide_def Let_def split: prod.splits)
  from w have q: "hs_closed t1 = hs_closed t"
      "(case frame of None \<Rightarrow> [] | Some f \<Rightarrow> [f]) @ hs_get_queue t1 = hs_get_queue t"
    by (auto simp: wait_get_frame_def split: list.splits)
  have p: "provide True True t = ((sse_write frame, True), t1)"
    using 3 w by (simp add: provide_def)
  have "\<not> hs_closed t1" "list_all (server_initiated J) (pushed es)" using 3(2,3) q(1) by simp_all
  from 3(1) [OF p [symmetric] refl refl this rest(1)] obtain frames where
    "concat outs1 = concat (map sse_write frames)"
    "somes frames @ hs_get_queue t' = hs_get_queue t1 @ pushed es"
    by blast
  then show ?case
    using rest(2) q(2)
    by (intro exI [of _ "frame # frames"]) (auto split: option.splits)
qed

lemma distinct_part:
  assumes "mset xs + N = mset [0..<n]"
  shows "distinct xs"
proof (rule distinct_count_le_1)
  fix x
  have "count (mset xs) x \<le> count (mset xs + N) x" by simp
  also have "\<dots> \<le> 1" unfolding assms by (rule count_upt_mset)
  finally show "count (mset xs) x \<le> 1" .
qed

section \<open>Properties\<close>

text \<open>
  C9: However POSTs, responses, the GET stream, \<open>start\<close> and \<open>close\<close> interleave, the transport of an
  HTTP session settles no promise twice, and it neither loses nor repeats a frame of a POST: once no thread has
  anything left to do, the frames that were handed to the session, that are still buffered and that \<open>start\<close>
  took while no callback was set are together the frames that were accepted, and every promise made is waiting
  or settled, exactly once.
\<close>

theorem http_frames_and_promises:
  assumes "hs_reachable c"
  shows "distinct (map fst (hs_settled (hc_transport c))) \<and>
    (hc_threads c = {#} \<longrightarrow>
       mset (hs_handed (hc_transport c)) + mset (hs_buffered (hc_transport c)) +
         mset (hs_lost (hc_transport c)) = mset (hc_accepted c) \<and>
       mset (map snd (hs_pending (hc_transport c))) + mset (map fst (hs_settled (hc_transport c))) =
         mset [0..<hs_promises (hc_transport c)])"
proof (intro conjI impI)
  note inv = hs_inv_reachable [OF assms, unfolded hs_inv_def promises_of_def frames_of_def]
  show "distinct (map fst (hs_settled (hc_transport c)))"
    using inv
    by (intro distinct_part [where N = "mset (map snd (hs_pending (hc_transport c))) +
        over_threads thread_promises (hc_threads c)"]) (simp add: ac_simps)
  assume "hc_threads c = {#}"
  with inv show "mset (hs_handed (hc_transport c)) + mset (hs_buffered (hc_transport c)) +
         mset (hs_lost (hc_transport c)) = mset (hc_accepted c)"
    and "mset (map snd (hs_pending (hc_transport c))) + mset (map fst (hs_settled (hc_transport c))) =
         mset [0..<hs_promises (hc_transport c)]" by simp_all
qed

lemma http_frames_and_promises_witness:
  "distinct (map fst (hs_settled (hc_transport HttpConfig_init)))"
  using http_frames_and_promises [OF hs_reachable.initial] by simp

text \<open>
  C8: Requests over HTTP come back on their own POST. However many request bodies with different ids
  arrive before any is answered, and in whatever order the session's workers serve them: the session is handed
  every body, in order; every response it sends finds the promise of the POST whose request it answers, and
  settles it with its own text, exactly once; nobody is left waiting. The ids have to be strings or integers,
  and the text of a response has to read back with the id it was written with.
\<close>

theorem batch_over_http:
  assumes "json_lib J"
    and "list_all2 (\<lambda>raw r. classify_frame J raw = Inr (Some (Request r))) raws rs"
      "list_all (exact_id J) raws" "distinct (map req_id rs)"
    and "hs_started t" "hs_on_message t" "\<not> hs_closed t" "hs_pending t = []"
    and "deliver_all J raws t = (ns, t1)"
    and "mset order = mset rs" "serve_requests J tbl order app = (Inr trace, app')"
    and "\<forall>(resp, fs) \<in> set trace. \<exists>f. fs = [f] \<and> keeps_id J resp f"
    and "send_all J (concat (map snd trace)) t1 = (ecs, t2)"
  shows "hs_handed t1 = hs_handed t @ raws \<and> list_all (\<lambda>ec. ec = None) ecs \<and> hs_pending t2 = [] \<and>
    (\<exists>answers. hs_settled t2 = hs_settled t @ answers \<and> length answers = length rs \<and>
      list_all2 (replies J tbl trace answers) ns rs)"
proof (rule batch_answered [OF _ assms(4-10) serve_requests_spec [OF assms(11)] _ _ assms(13)])
  show "list_all2 (\<lambda>raw r. request_key J raw = Some (key_of r) \<and> (\<exists>j. j_parse J raw = Inr j)) raws rs"
    using assms(2,3) json_lib.request_key_classified [OF assms(1)]
    by (induction rule: list_all2_induct) (auto simp: key_of_def)
  show "list_all2 (keeps_id J) (map fst trace) (concat (map snd trace))"
    using assms(12) by (induction trace) fastforce+
  show "\<forall>a \<in> set trace. \<exists>f. snd a = [f]" using assms(12) by fastforce
qed

definition http_open :: HttpSessionTransport where
  "http_open = hs_start (hs_set_on_message HttpSessionTransport_init)"

lemma http_open_fields:
  "hs_started http_open" "hs_on_message http_open" "\<not> hs_closed http_open"
  "hs_pending http_open = []"
  by code_simp+

definition http_posted :: "nat option list \<times> HttpSessionTransport" where
  "http_posted = deliver_all jv_ops (snd wire_sent) http_open"

definition http_served :: "error_code option list \<times> HttpSessionTransport" where
  "http_served = send_all jv_ops (concat (map snd wire_trace)) (snd http_posted)"

lemma http_bodies:
  "list_all2 (\<lambda>raw r. classify_frame jv_ops raw = Inr (Some (Request r))) (snd wire_sent) wire_requests"
  "list_all (exact_id jv_ops) (snd wire_sent)"
  by code_simp+

lemma keeps_id_iff:
  "keeps_id J resp f \<longleftrightarrow>
     (case (resp_id resp, j_parse J f) of
        (Some rid, Inr j) \<Rightarrow>
          (case frame_id J j of
             Some v \<Rightarrow> \<not> j_contains J j ''method'' \<and> canonical_id J v = RequestId_canonical rid
           | None \<Rightarrow> False)
      | _ \<Rightarrow> False)"
  by (auto simp: keeps_id_def split: option.split sum.split)

lemma http_responses:
  "list_all (\<lambda>a. snd a = [hd (snd a)] \<and> keeps_id jv_ops (fst a) (hd (snd a))) wire_trace"
  unfolding keeps_id_iff by code_simp

theorem batch_over_http_witness:
  "hs_handed (snd http_posted) = hs_handed http_open @ snd wire_sent \<and>
     list_all (\<lambda>ec. ec = None) (fst http_served) \<and> hs_pending (snd http_served) = [] \<and>
     (\<exists>answers. hs_settled (snd http_served) = hs_settled http_open @ answers \<and>
        length answers = length wire_requests \<and>
        list_all2 (replies jv_ops wire_tables wire_trace answers) (fst http_posted) wire_requests)"
proof (rule batch_over_http [OF jv_json_lib http_bodies _ http_open_fields])
  show "distinct (map req_id wire_requests)" by (simp add: wire_requests_def)
  show "deliver_all jv_ops (snd wire_sent) http_open = (fst http_posted, snd http_posted)"
    by (simp add: http_posted_def)
  show "mset (rev wire_requests) = mset wire_requests" by simp
  show "\<forall>(resp, fs) \<in> set wire_trace. \<exists>f. fs = [f] \<and> keeps_id jv_ops resp f"
    unfolding case_prod_beta using http_responses unfolding list_all_iff by blast
  show "send_all jv_ops (concat (map snd wire_trace)) (snd http_posted) = (fst http_served, snd http_served)"
    by (simp add: http_served_def)
qed (rule wire_runs)

text \<open>
  Server-initiated traffic arrives in order: whatever frames are sent and whenever the provider is
  called, the client's reader gets one event per frame that has left the queue.
\<close>

lemma get_stream_events:
  assumes "\<not> hs_closed t" "list_all (server_initiated J) (pushed es)"
    and "list_all sse_sendable (hs_get_queue t @ pushed es)"
    and "get_stream J es t = (outs, t')" "concat chunks = concat outs"
  shows "\<exists>fs. fs @ hs_get_queue t' = hs_get_queue t @ pushed es \<and> list_all sse_sendable fs \<and>
    drain_chunks [] chunks = (map (\<lambda>f. SseEvent_init\<lparr>se_data := f\<rparr>) fs, [])"
proof -
  from get_stream_frames [OF assms(1,2,4)] obtain frames where frames:
    "concat outs = concat (map sse_write frames)"
    "somes frames @ hs_get_queue t' = hs_get_queue t @ pushed es" by blast
  have all: "list_all sse_sendable (somes frames @ hs_get_queue t')"
    unfolding frames(2) by (rule assms(3))
  then have fs: "list_all sse_sendable (somes frames)" unfolding list_all_append by blast
  then have "sse_sendable f" if "Some f \<in> set frames" for f
    using that set_somes [of f frames] by (simp add: list_all_iff)
  with sse_stream [OF assms(5) [unfolded frames(1)]] show ?thesis
    using frames(2) fs by blast
qed

definition http_events :: "get_event list" where
  "http_events = [Pull, Push ''{}'', Push ''[1]'', Pull]"

text \<open>
  A request whose id is an integral float gets no answer. The session takes the id \<open>1.0\<close> as the integer
  1 and answers under it, but the transport has parked the POST under the empty key: the response is refused as
  an invalid argument, and the promise of the POST stays pending until the POST gives up.
\<close>

theorem float_id_unanswered:
  assumes "json_lib J" "classify_frame J raw = Inr (Some (Request r))" "\<not> exact_id J raw"
    and "hs_pending t = []" "\<not> hs_closed t" "deliver J raw t = (n, t1)"
    and "resp_id resp = Some (req_id r)" "keeps_id J resp f"
  shows "hs_send J f t1 = (Some Ec_invalid_argument, t1) \<and> n = Some (hs_promises t) \<and>
    map_of (hs_pending t1) [] = Some (hs_promises t)"
proof -
  note key = json_lib.request_key_float [OF assms(1-3)]
  from key assms(4,6) have t1: "n = Some (hs_promises t)" "hs_pending t1 = [([], hs_promises t)]"
    "hs_closed t1 = hs_closed t"
    by (auto simp: deliver_def park_reply_def hand_up_def Let_def split: if_splits)
  have "RequestId_canonical (req_id r) \<noteq> []" by (cases "req_id r") simp_all
  then have "hs_send J f t1 = (Some Ec_invalid_argument, t1)"
    using assms(5,7,8) t1 by (auto simp: keeps_id_def hs_send_def take_awaiter_def)
  with t1 show ?thesis by simp
qed

definition float_body :: string where
  "float_body = ''{\"jsonrpc\":\"2.0\",\"id\":1.0,\"method\":\"a\"}''"

definition float_answer :: string where
  "float_answer = ''{\"jsonrpc\":\"2.0\",\"id\":1,\"result\":{}}''"

lemma float_computed:
  "classify_frame jv_ops float_body =
     Inr (Some (Request \<lparr>req_id = IdInt 1, req_method = ''a'', req_params = None\<rparr>))"
  "\<not> exact_id jv_ops float_body"
  "keeps_id jv_ops \<lparr>resp_id = Some (IdInt 1), resp_outcome = Result (VObject [])\<rparr> float_answer"
  unfolding keeps_id_iff by code_simp+

theorem float_id_unanswered_witness:
  "hs_send jv_ops float_answer (snd (deliver jv_ops float_body http_open)) =
     (Some Ec_invalid_argument, snd (deliver jv_ops float_body http_open)) \<and>
   fst (deliver jv_ops float_body http_open) = Some (hs_promises http_open) \<and>
   map_of (hs_pending (snd (deliver jv_ops float_body http_open))) [] = Some (hs_promises http_open)"
  by (rule float_id_unanswered [OF jv_json_lib float_computed(1,2) http_open_fields(4,3)
        prod.collapse [symmetric] _ float_computed(3)]) simp

section \<open>Behaviours\<close>

text \<open>
  A second POST with the id of one in flight gets a broken promise at once, although the session
  serves its request too.
\<close>

theorem duplicate_id_breaks_promise:
  "fst (deliver_all jv_ops [hd (snd wire_sent), hd (snd wire_sent)] http_open) = [Some 0, Some 1] \<and>
   hs_settled (snd (deliver_all jv_ops [hd (snd wire_sent), hd (snd wire_sent)] http_open)) =
     [(1, Broken_promise)] \<and>
   length (hs_handed (snd (deliver_all jv_ops [hd (snd wire_sent), hd (snd wire_sent)] http_open))) = 2"
  by code_simp

text \<open>
  \<open>start\<close> hands up the frames it took from the buffer after it has let go of the lock: a frame
  that arrives meanwhile overtakes them.
\<close>

theorem start_lets_frames_overtake:
  "\<exists>c. hs_reachable c \<and> hc_accepted c = [a, b] \<and> hs_handed (hc_transport c) = [b, a]"
proof -
  let ?t = "hs_set_on_message HttpSessionTransport_init"
  note go = hs_reachable.step
  note fields = become_def hand_up_def hs_set_on_message_def open_gate_def
    HttpSessionTransport_init_def HttpConfig_init_def
  let ?c1 = "become {#} {#} ?t HttpConfig_init"
  have 1: "hs_reachable ?c1"
    using go [OF hs_reachable.initial hs_step.sets_on_message]
    by (simp add: HttpConfig_init_def)
  let ?c2 = "become {#} {#Hand a#} ?t ?c1\<lparr>hc_accepted := [a]\<rparr>"
  have 2: "hs_reachable ?c2"
    using go [OF 1 hs_step.post_other [of _ a]] by (simp add: HttpConfig_init_def become_def)
  let ?c3 = "become {#Hand a#} {#} (?t\<lparr>hs_buffered := [a]\<rparr>) ?c2"
  have 3: "hs_reachable ?c3"
    using go [OF 2 hs_step.hands [of a]] by (simp add: fields)
  let ?c4 = "become {#} {#Hand_all [a]#} (?t\<lparr>hs_started := True\<rparr>) ?c3"
  have 4: "hs_reachable ?c4"
    using go [OF 3 hs_step.opens [of _ "[a]"]] by (simp add: fields)
  let ?c5 = "become {#} {#Hand b#} (?t\<lparr>hs_started := True\<rparr>) ?c4\<lparr>hc_accepted := [a, b]\<rparr>"
  have 5: "hs_reachable ?c5"
    using go [OF 4 hs_step.post_other [of _ b]] by (simp add: fields)
  let ?c6 = "become {#Hand b#} {#} (?t\<lparr>hs_started := True, hs_handed := [b]\<rparr>) ?c5"
  have 6: "hs_reachable ?c6"
    using go [OF 5 hs_step.hands [of b]] by (simp add: fields)
  let ?c7 = "become {#Hand_all [a]#} {#Hand_all []#} (?t\<lparr>hs_started := True, hs_handed := [b, a]\<rparr>) ?c6"
  have "hs_reachable ?c7"
    using go [OF 6 hs_step.hands_next [of a "[]"]] by (simp add: fields)
  then show ?thesis by (intro exI [of _ ?c7]) (simp add: fields)
qed

text \<open>A frame whose write fails is gone, the rest of the queue is kept for the next stream.\<close>

theorem failed_write_loses_frame:
  "\<not> hs_closed t \<Longrightarrow> hs_get_queue t = f # fs \<Longrightarrow>
     provide True False t = (([], False), t\<lparr>hs_get_queue := fs\<rparr>)"
  by (simp add: provide_def wait_get_frame_def)

end
