(* ===== verification/Http_Auth.thy ===== *)
theory Http_Auth
  imports Http_Transport
begin

text \<open>
  The gates that a request passes before the HTTP host looks at it, from src/http_server_host.cpp: the
  origin allowlist, the protocol version header, bearer authorization with its challenges, CORS, and
  the checks of \<open>start\<close> on the options that are spliced into headers.

  cpp-httplib is a parameter: a request is what its interface shows of it, for each header name the
  values of the headers of that name.

  Lemmas: challenges read back as the parameters they were built from, so nothing is smuggled into a
  header; exactly which requests are let through.
\<close>

section \<open>Requests, responses, options\<close>

record HttpRequest =
  hq_header :: "string \<Rightarrow> string list"
  hq_body :: string

text \<open>
  \<open>hr_status\<close> is \<open>None\<close> until the handler sets it (the library then answers 200); \<open>hr_content\<close> is
  what \<open>set_content\<close> was given, body and content type.
\<close>

record HttpResponse =
  hr_status :: "int option"
  hr_headers :: "(string \<times> string) list"
  hr_content :: "(string \<times> string) option"

definition HttpResponse_init :: HttpResponse where
  "HttpResponse_init = \<lparr>hr_status = None, hr_headers = [], hr_content = None\<rparr>"

definition set_status :: "int \<Rightarrow> HttpResponse \<Rightarrow> HttpResponse" where
  "set_status n res = res\<lparr>hr_status := Some n\<rparr>"

definition set_header :: "string \<Rightarrow> string \<Rightarrow> HttpResponse \<Rightarrow> HttpResponse" where
  "set_header k v res = res\<lparr>hr_headers := hr_headers res @ [(k, v)]\<rparr>"

definition set_content :: "string \<Rightarrow> string \<Rightarrow> HttpResponse \<Rightarrow> HttpResponse" where
  "set_content body ty res = res\<lparr>hr_content := Some (body, ty)\<rparr>"

text \<open>\<open>headers.find(name)\<close>\<close>

definition find_header :: "HttpRequest \<Rightarrow> string \<Rightarrow> string option" where
  "find_header req name = (case hq_header req name of [] \<Rightarrow> None | v # vs \<Rightarrow> Some v)"

datatype BearerStatus = Allow | Invalid_token | Insufficient_scope

record BearerOutcome =
  bo_status :: BearerStatus
  bo_required_scopes :: string

text \<open>The port to bind is an \<open>int\<close>, the metadata document its dump, the hook whether it is set.\<close>

record HostOptions =
  op_host :: string
  op_port :: int
  op_path :: string
  op_allowed_origins :: "string list"
  op_bearer_validator :: "(string \<Rightarrow> BearerOutcome) option"
  op_auth_realm :: string
  op_resource_metadata :: "string option"
  op_resource_metadata_url :: string
  op_allow_insecure_http :: bool
  op_enable_cors_preflight :: bool
  op_on_session_closed :: bool

definition HostOptions_init :: HostOptions where
  "HostOptions_init = \<lparr>op_host = ''127.0.0.1'', op_port = 0, op_path = ''/mcp'',
     op_allowed_origins = [], op_bearer_validator = None, op_auth_realm = ''mcp'',
     op_resource_metadata = None, op_resource_metadata_url = [], op_allow_insecure_http = False,
     op_enable_cors_preflight = True, op_on_session_closed = False\<rparr>"

section \<open>Origins\<close>

definition origin_allowed :: "HttpRequest \<Rightarrow> string list \<Rightarrow> bool" where
  "origin_allowed req allow =
     (case find_header req ''Origin'' of
        None \<Rightarrow> True
      | Some origin \<Rightarrow>
          if allow = [] then False else list_ex (\<lambda>a. a = ''*'' \<or> a = origin) allow)"

fun first_origin :: "string \<Rightarrow> string list \<Rightarrow> string" where
  "first_origin origin [] = []"
| "first_origin origin (a # allow) =
     (if a = ''*'' then ''*'' else if a = origin then origin else first_origin origin allow)"

definition resolve_cors_origin :: "HttpRequest \<Rightarrow> string list \<Rightarrow> string" where
  "resolve_cors_origin req allow =
     (case find_header req ''Origin'' of
        None \<Rightarrow> []
      | Some origin \<Rightarrow> if origin = [] then [] else first_origin origin allow)"

section \<open>Bearer authorization\<close>

definition valid_quoted_param :: "string \<Rightarrow> bool" where
  "valid_quoted_param s =
     list_all (\<lambda>c. \<not> (c = CHR 0x22 \<or> c = CHR 0x5C \<or> c = CHR 0x0D \<or> c = CHR 0x0A \<or> (of_char c :: nat) < 0x20)) s"

definition build_bearer_challenge :: "string \<Rightarrow> string \<Rightarrow> string \<Rightarrow> string \<Rightarrow> string" where
  "build_bearer_challenge realm metadata_url error_code scope =
     (let out = ''Bearer realm=\"'' @ realm @ ''\"'';
          out = (if error_code \<noteq> [] then out @ '', error=\"'' @ error_code @ ''\"'' else out);
          out = (if scope \<noteq> [] then out @ '', scope=\"'' @ scope @ ''\"'' else out);
          out = (if metadata_url \<noteq> [] then out @ '', resource_metadata=\"'' @ metadata_url @ ''\"'' else out)
      in out)"

definition ascii_lower :: "char \<Rightarrow> char" where
  "ascii_lower c =
     (if 65 \<le> (of_char c :: nat) \<and> (of_char c :: nat) \<le> 90 then char_of ((of_char c :: nat) + 32) else c)"

definition starts_with_bearer_ci :: "string \<Rightarrow> bool" where
  "starts_with_bearer_ci s =
     (if length s < 7 then False
      else if map ascii_lower (take 6 s) \<noteq> map ascii_lower ''Bearer'' then False
      else s ! 6 \<in> {CHR '' '', CHR 0x09})"

definition is_ows :: "char \<Rightarrow> bool" where
  "is_ows c \<longleftrightarrow> c = CHR '' '' \<or> c = CHR 0x09"

definition trim_ows :: "string \<Rightarrow> string" where
  "trim_ows s = rev (dropWhile is_ows (rev (dropWhile is_ows s)))"

definition valid_protocol_version_header :: "string \<Rightarrow> bool" where
  "valid_protocol_version_header v \<longleftrightarrow>
     v = ''2025-03-26'' \<or> v = ''2025-06-18'' \<or> v = ''2025-11-25''"

text \<open>A refusal with a challenge.\<close>

definition challenge ::
    "HostOptions \<Rightarrow> int \<Rightarrow> string \<Rightarrow> string \<Rightarrow> string \<Rightarrow> HttpResponse \<Rightarrow> HttpResponse" where
  "challenge opts status error_code scope body res =
     set_content body ''text/plain''
       (set_header ''WWW-Authenticate''
         (build_bearer_challenge (op_auth_realm opts) (op_resource_metadata_url opts) error_code scope)
         (set_status status res))"

definition authorize :: "HttpRequest \<Rightarrow> HttpResponse \<Rightarrow> HostOptions \<Rightarrow> bool \<times> HttpResponse" where
  "authorize req res opts =
     (case op_bearer_validator opts of
        None \<Rightarrow> (True, res)
      | Some validator \<Rightarrow>
          (case hq_header req ''Authorization'' of
             [] \<Rightarrow> (False, challenge opts 401 ''invalid_request'' [] ''missing Authorization header'' res)
           | [hdr] \<Rightarrow>
               if \<not> starts_with_bearer_ci hdr
               then (False, challenge opts 401 ''invalid_request'' [] ''expected Bearer scheme'' res)
               else
                 let token = trim_ows (drop 7 hdr)
                 in if token = []
                    then (False, challenge opts 401 ''invalid_request'' [] ''empty bearer token'' res)
                    else
                      let outcome = validator token
                      in (case bo_status outcome of
                            Allow \<Rightarrow> (True, res)
                          | Invalid_token \<Rightarrow>
                              (False, challenge opts 401 ''invalid_token'' [] ''invalid bearer token'' res)
                          | Insufficient_scope \<Rightarrow>
                              (False, challenge opts 403 ''insufficient_scope''
                                 (if valid_quoted_param (bo_required_scopes outcome)
                                  then bo_required_scopes outcome else [])
                                 ''insufficient scope'' res))
           | _ \<Rightarrow> (False, set_content ''multiple Authorization headers'' ''text/plain'' (set_status 400 res))))"

section \<open>The checks of start\<close>

definition is_loopback :: "string \<Rightarrow> bool" where
  "is_loopback host \<longleftrightarrow> host = ''127.0.0.1'' \<or> host = ''::1'' \<or> host = ''localhost''"

datatype start_error = Bad_realm | Bad_metadata_url | Bad_path | Insecure_bearer | Bind_failed

definition start_check :: "HostOptions \<Rightarrow> start_error option" where
  "start_check opts =
     (if \<not> valid_quoted_param (op_auth_realm opts) then Some Bad_realm
      else if \<not> valid_quoted_param (op_resource_metadata_url opts) then Some Bad_metadata_url
      else if op_path opts = [] \<or> hd (op_path opts) \<noteq> CHR ''/'' then Some Bad_path
      else if op_bearer_validator opts \<noteq> None \<and> \<not> is_loopback (op_host opts) \<and> \<not> op_allow_insecure_http opts
      then Some Insecure_bearer
      else None)"

section \<open>Reading a challenge\<close>

text \<open>
  A reader for \<open>Bearer name="value", name="value"\<close>, which knows no escapes: what a client's parser of
  the quoted strings of RFC 7235 makes of a value without backslashes.
\<close>

function read_params :: "string \<Rightarrow> (string \<times> string) list option" where
  "read_params s =
     (let name = takeWhile (\<lambda>c. c \<noteq> CHR ''='') s;
          t = dropWhile (\<lambda>c. c \<noteq> CHR ''='') s
      in if take 2 t \<noteq> [CHR ''='', CHR 0x22] then None
         else
           let v = takeWhile (\<lambda>c. c \<noteq> CHR 0x22) (drop 2 t);
               u = dropWhile (\<lambda>c. c \<noteq> CHR 0x22) (drop 2 t)
           in if u = [CHR 0x22] then Some [(name, v)]
              else if take 3 u = [CHR 0x22, CHR '','', CHR '' '']
              then map_option (\<lambda>ps. (name, v) # ps) (read_params (drop 3 u))
              else None)"
  by pat_completeness auto

termination
proof (relation "measure length")
  fix s t u v name :: string
  assume t: "t = dropWhile (\<lambda>c. c \<noteq> CHR ''='') s" and "u = dropWhile (\<lambda>c. c \<noteq> CHR 0x22) (drop 2 t)"
    and u: "take 3 u = [CHR 0x22, CHR '','', CHR '' '']"
  then have "length u \<le> length s"
    using length_dropWhile_le [of _ "drop 2 t"] length_dropWhile_le [of _ s] by (metis (no_types, lifting)
        diff_le_self le_trans length_drop)
  moreover have "0 < length u" using u by (cases u) auto
  ultimately show "(drop 3 u, s) \<in> measure length" unfolding in_measure length_drop by arith
qed simp

declare read_params.simps [simp del]

definition read_challenge :: "string \<Rightarrow> (string \<times> string) list option" where
  "read_challenge s = (if take 7 s = ''Bearer '' then read_params (drop 7 s) else None)"

definition param :: "string \<times> string \<Rightarrow> string" where
  "param p = fst p @ ''=\"'' @ snd p @ ''\"''"

fun params_text :: "(string \<times> string) list \<Rightarrow> string" where
  "params_text [] = []"
| "params_text [p] = param p"
| "params_text (p # q # ps) = param p @ '', '' @ params_text (q # ps)"

definition readable :: "string \<times> string \<Rightarrow> bool" where
  "readable p \<longleftrightarrow> CHR ''='' \<notin> set (fst p) \<and> CHR 0x22 \<notin> set (snd p)"

lemma span_at:
  "c \<notin> set xs \<Longrightarrow> takeWhile (\<lambda>x. x \<noteq> c) (xs @ c # ys) = xs"
  "c \<notin> set xs \<Longrightarrow> dropWhile (\<lambda>x. x \<noteq> c) (xs @ c # ys) = c # ys"
  by (induction xs) auto

lemma read_params_text:
  "ps \<noteq> [] \<Longrightarrow> list_all readable ps \<Longrightarrow> read_params (params_text ps) = Some ps"
proof (induction ps rule: params_text.induct)
  case (2 p)
  then show ?case
    using span_at [of "CHR ''=''" "fst p"] span_at [of "CHR 0x22" "snd p" "[]"]
    by (subst read_params.simps) (simp add: param_def readable_def Let_def)
next
  case (3 p q ps)
  then show ?case
    using span_at [of "CHR ''=''" "fst p"] span_at [of "CHR 0x22" "snd p"]
    by (subst read_params.simps) (simp add: param_def readable_def Let_def)
qed simp

text \<open>The parameters of a challenge: empty ones are left out, the realm is always there.\<close>

definition challenge_params :: "string \<Rightarrow> string \<Rightarrow> string \<Rightarrow> string \<Rightarrow> (string \<times> string) list" where
  "challenge_params realm metadata_url error_code scope =
     (''realm'', realm) #
     filter (\<lambda>(k, v). v \<noteq> [])
       [(''error'', error_code), (''scope'', scope), (''resource_metadata'', metadata_url)]"

lemma build_bearer_challenge_text:
  "build_bearer_challenge realm url error_code scope =
     ''Bearer '' @ params_text (challenge_params realm url error_code scope)"
  by (simp add: build_bearer_challenge_def challenge_params_def param_def)

lemma valid_quoted_param_no_quote: "valid_quoted_param s \<Longrightarrow> CHR 0x22 \<notin> set s"
  by (auto simp: valid_quoted_param_def list_all_iff)

lemma read_built_challenge:
  assumes "valid_quoted_param realm" "valid_quoted_param url" "valid_quoted_param error_code"
    "valid_quoted_param scope"
  shows "read_challenge (build_bearer_challenge realm url error_code scope) =
    Some (challenge_params realm url error_code scope)"
  using assms [THEN valid_quoted_param_no_quote]
  unfolding build_bearer_challenge_text read_challenge_def
  by (simp, intro read_params_text) (auto simp: challenge_params_def readable_def)

lemma valid_quoted_param_append [simp]:
  "valid_quoted_param [] "
  "valid_quoted_param (s @ t) \<longleftrightarrow> valid_quoted_param s \<and> valid_quoted_param t"
  by (simp_all add: valid_quoted_param_def)

text \<open>No control character below the space, so no line break, gets into a header; 0x7F is not looked for.\<close>

definition printable :: "string \<Rightarrow> bool" where
  "printable s \<longleftrightarrow> (\<forall>c\<in>set s. 0x20 \<le> (of_char c :: nat))"

lemma printable_built:
  assumes "valid_quoted_param realm" "valid_quoted_param url" "valid_quoted_param error_code"
    "valid_quoted_param scope"
  shows "printable (build_bearer_challenge realm url error_code scope)"
proof -
  have "\<forall>c\<in>set s. 0x20 \<le> (of_char c :: nat)" if "valid_quoted_param s" for s
    using that by (auto simp: valid_quoted_param_def list_all_iff not_less)
  from assms [THEN this] show ?thesis
    by (auto simp: printable_def build_bearer_challenge_def Let_def)
qed

lemma delete_character_built:
  "CHR 0x7F \<in> set (build_bearer_challenge realm url error_code scope) \<Longrightarrow>
     CHR 0x7F \<in> set realm \<union> set url \<union> set error_code \<union> set scope"
  by (auto simp: build_bearer_challenge_def Let_def split: if_splits)

section \<open>Tokens\<close>

text \<open>
  What \<open>authorize\<close> looks for: the scheme in any case, a separator, the token between optional white
  space.
\<close>

definition bearer_token :: "string \<Rightarrow> string \<Rightarrow> bool" where
  "bearer_token hdr token \<longleftrightarrow>
     (\<exists>scheme sep pre post. hdr = scheme @ [sep] @ pre @ token @ post \<and>
        map ascii_lower scheme = ''bearer'' \<and> is_ows sep \<and> list_all is_ows pre \<and> list_all is_ows post \<and>
        token \<noteq> [] \<and> \<not> is_ows (hd token) \<and> \<not> is_ows (last token))"

lemma bearer_tokenI:
  "hdr = scheme @ [sep] @ pre @ token @ post \<Longrightarrow> map ascii_lower scheme = ''bearer'' \<Longrightarrow> is_ows sep \<Longrightarrow>
     list_all is_ows pre \<Longrightarrow> list_all is_ows post \<Longrightarrow> token \<noteq> [] \<Longrightarrow> \<not> is_ows (hd token) \<Longrightarrow>
     \<not> is_ows (last token) \<Longrightarrow> bearer_token hdr token"
  unfolding bearer_token_def by (intro exI conjI)

lemma lower_bearer: "map ascii_lower ''Bearer'' = ''bearer''"
  by code_simp

lemma dropWhile_all: "list_all P xs \<Longrightarrow> dropWhile P (xs @ ys) = dropWhile P ys"
  by (induction xs) auto

lemma dropWhile_hd: "xs \<noteq> [] \<Longrightarrow> \<not> P (hd xs) \<Longrightarrow> dropWhile P xs = xs"
  by (cases xs) auto

lemma trim_ows_token:
  assumes "list_all is_ows pre" "list_all is_ows post" "token \<noteq> []" "\<not> is_ows (hd token)"
    "\<not> is_ows (last token)"
  shows "trim_ows (pre @ token @ post) = token"
  using assms
  by (simp add: trim_ows_def dropWhile_all dropWhile_hd hd_rev list_all_rev)

lemma trim_ows_split:
  assumes "trim_ows s \<noteq> []"
  shows "\<exists>pre post. s = pre @ trim_ows s @ post \<and> list_all is_ows pre \<and> list_all is_ows post \<and>
    \<not> is_ows (hd (trim_ows s)) \<and> \<not> is_ows (last (trim_ows s))"
proof -
  define t where "t = dropWhile is_ows s"
  have s: "s = takeWhile is_ows s @ t" by (simp add: t_def)
  have t: "t = trim_ows s @ rev (takeWhile is_ows (rev t))"
    unfolding trim_ows_def t_def [symmetric]
    by (metis rev_append rev_rev_ident takeWhile_dropWhile_id)
  have "list_all is_ows (takeWhile is_ows s)" "list_all is_ows (rev (takeWhile is_ows (rev t)))"
    by (auto simp: list_all_iff dest: set_takeWhileD)
  moreover have "\<not> is_ows (last (trim_ows s))"
    using assms hd_dropWhile [of is_ows "rev t"] by (simp add: trim_ows_def t_def last_rev)
  moreover have "\<not> is_ows (hd (trim_ows s))"
  proof -
    have "t \<noteq> []" using assms t by auto
    then have "\<not> is_ows (hd t)" unfolding t_def by (rule hd_dropWhile)
    moreover have "hd t = hd (trim_ows s)" using t assms by (metis hd_append)
    ultimately show ?thesis by simp
  qed
  ultimately show ?thesis using s t by metis
qed

lemma bearer_token_iff:
  "bearer_token hdr token \<longleftrightarrow>
     starts_with_bearer_ci hdr \<and> trim_ows (drop 7 hdr) = token \<and> token \<noteq> []"
proof
  assume "bearer_token hdr token"
  then obtain scheme sep pre post where
    h: "hdr = scheme @ [sep] @ pre @ token @ post" "map ascii_lower scheme = ''bearer''" "is_ows sep"
    and tok: "list_all is_ows pre" "list_all is_ows post" "token \<noteq> []" "\<not> is_ows (hd token)"
      "\<not> is_ows (last token)"
    unfolding bearer_token_def by (elim exE conjE) (rule that)
  have len: "length scheme = 6" using arg_cong [OF h(2), of length] by simp
  have "starts_with_bearer_ci hdr"
    using h len lower_bearer by (auto simp: starts_with_bearer_ci_def is_ows_def nth_append)
  moreover have "drop 7 hdr = pre @ token @ post" using len by (simp add: h(1))
  ultimately show "starts_with_bearer_ci hdr \<and> trim_ows (drop 7 hdr) = token \<and> token \<noteq> []"
    using trim_ows_token [OF tok] tok(3) by simp
next
  assume a: "starts_with_bearer_ci hdr \<and> trim_ows (drop 7 hdr) = token \<and> token \<noteq> []"
  then obtain pre post where p: "drop 7 hdr = pre @ token @ post" "list_all is_ows pre"
    "list_all is_ows post" "\<not> is_ows (hd token)" "\<not> is_ows (last token)"
    using trim_ows_split [of "drop 7 hdr"] by auto
  have s: "7 \<le> length hdr" "map ascii_lower (take 6 hdr) = ''bearer''" "is_ows (hdr ! 6)"
    using a lower_bearer by (auto simp: starts_with_bearer_ci_def is_ows_def split: if_splits)
  have "hdr = take 6 hdr @ [hdr ! 6] @ drop 7 hdr"
    using s(1) id_take_nth_drop [of 6 hdr] by simp
  with p(1) have "hdr = take 6 hdr @ [hdr ! 6] @ pre @ token @ post" by simp
  from this s(2,3) p(2,3) conjunct2 [OF conjunct2 [OF a]] p(4,5)
  show "bearer_token hdr token" by (rule bearer_tokenI)
qed

definition challenged :: "HostOptions \<Rightarrow> HttpResponse \<Rightarrow> HttpResponse \<Rightarrow> bool" where
  "challenged opts res res' \<longleftrightarrow>
     (\<exists>status error_code scope body. res' = challenge opts status error_code scope body res \<and>
        status \<in> {401, 403} \<and> valid_quoted_param scope \<and>
        error_code \<in> {''invalid_request'', ''invalid_token'', ''insufficient_scope''})"

lemma challengedI [intro!]:
  "status \<in> {401, 403} \<Longrightarrow> valid_quoted_param scope \<Longrightarrow> error_code \<in> {''invalid_request'', ''invalid_token'', ''insufficient_scope''} \<Longrightarrow>
     challenged opts res (challenge opts status error_code scope body res)"
  unfolding challenged_def by blast

lemma authorize_refuses:
  "authorize req res opts = (False, res') \<Longrightarrow>
     res' = set_content ''multiple Authorization headers'' ''text/plain'' (set_status 400 res) \<or>
     challenged opts res res'"
  by (auto simp: authorize_def Let_def split: option.splits list.splits if_splits BearerStatus.splits)

section \<open>Properties\<close>

text \<open>
  C27: Bearer authorization lets a request through exactly when it should: no validator is configured, or the
  request has one single \<open>Authorization\<close> header, which holds the bearer scheme in any case and a token that
  the validator allows. A request that is refused gets a status of 400, 401 or 403 and keeps the headers
  that were set before; one that passes leaves the response alone.
\<close>

theorem authorize_exact:
  "fst (authorize req res opts) =
     (case op_bearer_validator opts of
        None \<Rightarrow> True
      | Some validator \<Rightarrow>
          (\<exists>hdr token. hq_header req ''Authorization'' = [hdr] \<and> bearer_token hdr token \<and>
             bo_status (validator token) = Allow)) \<and>
   (if fst (authorize req res opts) then snd (authorize req res opts) = res
    else hr_status (snd (authorize req res opts)) \<in> {Some 400, Some 401, Some 403} \<and>
      (\<exists>hs. hr_headers (snd (authorize req res opts)) = hr_headers res @ hs))"
  by (auto simp: authorize_def bearer_token_iff challenge_def set_status_def set_header_def
      set_content_def Let_def split: option.split list.split BearerStatus.split)

text \<open>
  C38: A refused token is answered with its own challenge, and nothing is smuggled into it. On a host that has
  started, when the one \<open>Authorization\<close> header holds a bearer token that the validator does not allow: an invalid
  token gives status 401 and the error \<open>invalid_token\<close> without a scope, an insufficient scope gives 403, the error
  \<open>insufficient_scope\<close> and the scopes that the validator asks for, left out when they are empty or hold a character
  that a quoted string cannot. One \<open>WWW-Authenticate\<close> header is added; its value reads back as the configured
  realm, that error, those scopes and the configured metadata URL, in this order and nothing else. It holds no
  character below the space, and 0x7F only if the realm, the URL or the scopes do.
\<close>

theorem challenge_readable:
  assumes "start_check opts = None" "op_bearer_validator opts = Some validator"
    and "hq_header req ''Authorization'' = [hdr]" "bearer_token hdr token" "bo_status (validator token) \<noteq> Allow"
  shows "\<exists>v body. authorize req res opts =
      (False, res\<lparr>hr_status := Some (if bo_status (validator token) = Invalid_token then 401 else 403),
         hr_headers := hr_headers res @ [(''WWW-Authenticate'', v)], hr_content := Some (body, ''text/plain'')\<rparr>) \<and>
    read_challenge v = Some
      ((''realm'', op_auth_realm opts) #
       (if bo_status (validator token) = Invalid_token then [(''error'', ''invalid_token'')]
        else (''error'', ''insufficient_scope'') #
          (if bo_required_scopes (validator token) \<noteq> [] \<and> valid_quoted_param (bo_required_scopes (validator token))
           then [(''scope'', bo_required_scopes (validator token))] else [])) @
       (if op_resource_metadata_url opts = [] then [] else [(''resource_metadata'', op_resource_metadata_url opts)])) \<and>
    (\<forall>c\<in>set v. 0x20 \<le> (of_char c :: nat)) \<and>
    (CHR 0x7F \<in> set v \<longrightarrow> CHR 0x7F \<in>
       set (op_auth_realm opts) \<union> set (op_resource_metadata_url opts) \<union> set (bo_required_scopes (validator token)))"
proof -
  let ?invalid = "bo_status (validator token) = Invalid_token"
  let ?code = "if ?invalid then ''invalid_token'' else ''insufficient_scope''"
  let ?scope = "if \<not> ?invalid \<and> valid_quoted_param (bo_required_scopes (validator token))
    then bo_required_scopes (validator token) else []"
  let ?v = "build_bearer_challenge (op_auth_realm opts) (op_resource_metadata_url opts) ?code ?scope"
  have ok: "valid_quoted_param (op_auth_realm opts)" "valid_quoted_param (op_resource_metadata_url opts)"
    using assms(1) by (auto simp: start_check_def split: if_splits)
  have codes: "valid_quoted_param ?code" "CHR 0x7F \<notin> set ?code"
    by (simp_all add: valid_quoted_param_def)
  have scope: "valid_quoted_param ?scope" by simp
  have refused: "\<exists>body. authorize req res opts =
      (False, res\<lparr>hr_status := Some (if ?invalid then 401 else 403),
         hr_headers := hr_headers res @ [(''WWW-Authenticate'', ?v)], hr_content := Some (body, ''text/plain'')\<rparr>)"
    using assms(2-5)
    by (cases "bo_status (validator token)")
      (auto simp: authorize_def bearer_token_iff challenge_def set_status_def set_header_def set_content_def Let_def)
  moreover have "read_challenge ?v = Some
      ((''realm'', op_auth_realm opts) #
       (if ?invalid then [(''error'', ''invalid_token'')]
        else (''error'', ''insufficient_scope'') #
          (if bo_required_scopes (validator token) \<noteq> [] \<and> valid_quoted_param (bo_required_scopes (validator token))
           then [(''scope'', bo_required_scopes (validator token))] else [])) @
       (if op_resource_metadata_url opts = [] then [] else [(''resource_metadata'', op_resource_metadata_url opts)]))"
    unfolding read_built_challenge [OF ok codes(1) scope] by (auto simp: challenge_params_def)
  moreover have "\<forall>c\<in>set ?v. 0x20 \<le> (of_char c :: nat)"
    using printable_built [OF ok codes(1) scope] unfolding printable_def .
  moreover have "CHR 0x7F \<in> set ?v \<longrightarrow> CHR 0x7F \<in>
       set (op_auth_realm opts) \<union> set (op_resource_metadata_url opts) \<union> set (bo_required_scopes (validator token))"
    using delete_character_built [of "op_auth_realm opts" "op_resource_metadata_url opts" ?code ?scope] codes(2)
    by (auto split: if_splits)
  ultimately show ?thesis by blast
qed

definition example_opts :: HostOptions where
  "example_opts = HostOptions_init\<lparr>op_bearer_validator :=
     Some (\<lambda>t. \<lparr>bo_status = (if t = ''t'' then Insufficient_scope else Invalid_token),
                bo_required_scopes = ''read write''\<rparr>),
     op_resource_metadata_url := ''http://h/meta''\<rparr>"

definition example_req :: HttpRequest where
  "example_req = \<lparr>hq_header = (\<lambda>n. if n = ''Authorization'' then [''bEARER  t ''] else []), hq_body = []\<rparr>"

lemma challenge_readable_witness:
  "\<exists>v body. authorize example_req HttpResponse_init example_opts =
      (False, HttpResponse_init\<lparr>hr_status := Some 403,
         hr_headers := [(''WWW-Authenticate'', v)], hr_content := Some (body, ''text/plain'')\<rparr>) \<and>
    read_challenge v = Some
      [(''realm'', ''mcp''), (''error'', ''insufficient_scope''), (''scope'', ''read write''),
       (''resource_metadata'', ''http://h/meta'')]"
proof -
  have "start_check example_opts = None"
    by (simp add: start_check_def example_opts_def HostOptions_init_def valid_quoted_param_def is_loopback_def)
  moreover have "bearer_token ''bEARER  t '' ''t''" unfolding bearer_token_iff by code_simp
  moreover have "valid_quoted_param ''read write''" by code_simp
  ultimately show ?thesis
    using challenge_readable [of example_opts
        "\<lambda>t. \<lparr>bo_status = (if t = ''t'' then Insufficient_scope else Invalid_token), bo_required_scopes = ''read write''\<rparr>"
        example_req "''bEARER  t ''" "''t''" HttpResponse_init]
    by (auto simp: example_opts_def example_req_def HostOptions_init_def HttpResponse_init_def)
qed

section \<open>Behaviours\<close>

text \<open>A preflight is answered exactly for the origins that the other verbs let through.\<close>

lemma first_origin_found:
  "origin \<noteq> [] \<Longrightarrow> first_origin origin allow \<noteq> [] \<longleftrightarrow> list_ex (\<lambda>a. a = ''*'' \<or> a = origin) allow"
  by (induction allow) auto

lemma cors_agrees:
  "resolve_cors_origin req allow \<noteq> [] \<longleftrightarrow>
     (\<exists>origin. find_header req ''Origin'' = Some origin \<and> origin \<noteq> [] \<and> origin_allowed req allow)"
  by (auto simp: resolve_cors_origin_def origin_allowed_def first_origin_found split: option.split)

text \<open>The wildcard is advertised only when it comes before the origin in the list.\<close>

theorem cors_origin_before_wildcard:
  "find_header req ''Origin'' = Some origin \<Longrightarrow> origin \<noteq> [] \<Longrightarrow>
     resolve_cors_origin req [origin, ''*''] = origin"
  by (simp add: resolve_cors_origin_def)

text \<open>Without a token, or with another scheme, the error is \<open>invalid_request\<close>, not \<open>invalid_token\<close>.\<close>

theorem missing_token_invalid_request:
  assumes "op_bearer_validator opts = Some validator"
    and "hq_header req ''Authorization'' = [] \<or> (\<exists>hdr. hq_header req ''Authorization'' = [hdr] \<and> \<not> starts_with_bearer_ci hdr)"
  shows "\<exists>body. authorize req res opts = (False, challenge opts 401 ''invalid_request'' [] body res)"
  using assms by (auto simp: authorize_def)

text \<open>One control character passes the check on quoted parameters.\<close>

theorem delete_character_accepted: "valid_quoted_param [CHR 0x7F]"
  by code_simp

end
