(* ===== verification/Http_Host.thy ===== *)
theory Http_Host
  imports Http_Auth Task_Store
begin

text \<open>
  \<open>HttpServerHost\<close> of src/http_server_host.cpp: the session map, the handlers for POST, GET, DELETE and
  OPTIONS, the metadata document, \<open>start\<close> and \<open>stop\<close>.

  A session's context is a number into the list of all contexts ever made, the way the handlers
  share it by \<open>shared_ptr\<close>; the \<open>Server\<close> it holds acts through the context's transport. A POST
  either has its response at once or waits for the promise of its transport (\<open>Awaits\<close>, finished by
  \<open>post_finish\<close>).

  Lemmas: each session is torn down once and in the documented order under every interleaving of the
  handlers with \<open>stop\<close>, a POST reaches its own session only, its response is the session's.
\<close>

section \<open>State\<close>

record SessionContext =
  cx_id :: string
  cx_transport :: HttpSessionTransport
  cx_running :: bool

text \<open>
  \<open>ho_log\<close> records, newest first, the calls of the hook \<open>on_session_closed\<close>, of \<open>transport->close()\<close> and
  of \<open>run_thread.join()\<close> (not part of the program).
\<close>

datatype teardown_event = Hook nat | Closed nat | Joined nat

record HostState =
  ho_started :: bool
  ho_stopping :: bool
  ho_listening :: bool
  ho_port :: int
  ho_sessions :: "(string \<times> nat) list"
  ho_contexts :: "SessionContext list"
  ho_log :: "teardown_event list"

definition HostState_init :: HostState where
  "HostState_init = \<lparr>ho_started = False, ho_stopping = False, ho_listening = False, ho_port = 0,
     ho_sessions = [], ho_contexts = [], ho_log = []\<rparr>"

definition active_sessions :: "HostState \<Rightarrow> nat" where
  "active_sessions h = length (ho_sessions h)"

definition transport_of :: "nat \<Rightarrow> HostState \<Rightarrow> HttpSessionTransport" where
  "transport_of n h = cx_transport (ho_contexts h ! n)"

definition set_transport :: "nat \<Rightarrow> HttpSessionTransport \<Rightarrow> HostState \<Rightarrow> HostState" where
  "set_transport n t h =
     h\<lparr>ho_contexts := (ho_contexts h)[n := (ho_contexts h ! n)\<lparr>cx_transport := t\<rparr>]\<rparr>"

text \<open>The two draws of the generator are the arguments.\<close>

definition make_session_id :: "uint64 \<Rightarrow> uint64 \<Rightarrow> string" where
  "make_session_id a b = hex_string (unat a) @ hex_string (unat b)"

definition plain :: "int \<Rightarrow> string \<Rightarrow> HttpResponse \<Rightarrow> HttpResponse" where
  "plain status body res = set_content body ''text/plain'' (set_status status res)"

section \<open>POST\<close>

fun contains_text :: "string \<Rightarrow> string \<Rightarrow> bool" where
  "contains_text p [] \<longleftrightarrow> p = []"
| "contains_text p (c # s) \<longleftrightarrow> take (length p) (c # s) = p \<or> contains_text p s"

definition is_initialize_body :: "string \<Rightarrow> bool" where
  "is_initialize_body body \<longleftrightarrow> contains_text ''\"initialize\"'' body"

definition post_gate :: "HostOptions \<Rightarrow> HttpRequest \<Rightarrow> bool \<times> HttpResponse" where
  "post_gate opts req =
     (if \<not> origin_allowed req (op_allowed_origins opts)
      then (False, plain 403 ''Origin not allowed'' HttpResponse_init)
      else
        case find_header req ''MCP-Protocol-Version'' of
          Some v \<Rightarrow>
            if \<not> valid_protocol_version_header v
            then (False, plain 400 (''unsupported MCP-Protocol-Version: '' @ v) HttpResponse_init)
            else authorize req HttpResponse_init opts
        | None \<Rightarrow> authorize req HttpResponse_init opts)"

definition post_sid :: "string \<Rightarrow> HttpRequest \<Rightarrow> string" where
  "post_sid fresh req =
     (let sid = (case find_header req ''Mcp-Session-Id'' of Some v \<Rightarrow> v | None \<Rightarrow> [])
      in if sid = [] \<and> is_initialize_body (hq_body req) then fresh else sid)"

text \<open>Under \<open>sessions_mu\<close>: the context of a session, made for an initialize request.\<close>

definition new_context :: "string \<Rightarrow> SessionContext" where
  "new_context sid = \<lparr>cx_id = sid, cx_transport = HttpSessionTransport_init, cx_running = True\<rparr>"

definition resolve_session :: "string \<Rightarrow> bool \<Rightarrow> HostState \<Rightarrow> nat option \<times> HostState" where
  "resolve_session sid initialize h =
     (if sid = [] then (None, h)
      else
        case map_of (ho_sessions h) sid of
          Some n \<Rightarrow> (Some n, h)
        | None \<Rightarrow>
            if initialize
            then (Some (length (ho_contexts h)),
                  h\<lparr>ho_sessions := (sid, length (ho_contexts h)) # ho_sessions h,
                    ho_contexts := ho_contexts h @ [new_context sid]\<rparr>)
            else (None, h))"

datatype post = Replied HttpResponse | Awaits HttpResponse nat nat

definition post_deliver :: "'j json_ops \<Rightarrow> HttpRequest \<Rightarrow> nat \<Rightarrow> HostState \<Rightarrow> post \<times> HostState" where
  "post_deliver J req n h =
     (let res = set_header ''Mcp-Session-Id'' (cx_id (ho_contexts h ! n)) HttpResponse_init;
          (reply, t) = deliver J (hq_body req) (transport_of n h);
          h = set_transport n t h
      in case reply of
           None \<Rightarrow> (Replied (set_status 202 res), h)
         | Some p \<Rightarrow> (Awaits res n p, h))"

definition handle_post ::
    "'j json_ops \<Rightarrow> HostOptions \<Rightarrow> string \<Rightarrow> HttpRequest \<Rightarrow> HostState \<Rightarrow> post \<times> HostState" where
  "handle_post J opts fresh req h =
     (case post_gate opts req of
        (False, res) \<Rightarrow> (Replied res, h)
      | (True, res) \<Rightarrow>
          (let sid = post_sid fresh req
           in case resolve_session sid (is_initialize_body (hq_body req)) h of
                (None, h) \<Rightarrow>
                  (Replied (if sid \<noteq> [] then plain 404 ''unknown or expired session id'' res
                            else plain 400 ''missing session id; send initialize first'' res), h)
              | (Some n, h) \<Rightarrow> post_deliver J req n h))"

text \<open>
  The rest of a POST that waits: \<open>None\<close> when the thirty seconds are over. \<open>broken\<close> is the \<open>what()\<close>
  of the library's \<open>future_error\<close>.
\<close>

definition post_finish :: "string \<Rightarrow> reply option \<Rightarrow> HttpResponse \<Rightarrow> HttpResponse" where
  "post_finish broken r res =
     (case r of
        None \<Rightarrow> plain 504 ''handler timed out'' res
      | Some (Reply body) \<Rightarrow> set_content body ''application/json'' res
      | Some Session_closed \<Rightarrow> plain 500 (''handler error: '' @ ''session closed'') res
      | Some Broken_promise \<Rightarrow> plain 500 (''handler error: '' @ broken) res)"

section \<open>GET\<close>

text \<open>The response, and the context whose stream is opened.\<close>

definition handle_get ::
    "HostOptions \<Rightarrow> HttpRequest \<Rightarrow> HostState \<Rightarrow> (HttpResponse \<times> nat option) \<times> HostState" where
  "handle_get opts req h =
     (if \<not> origin_allowed req (op_allowed_origins opts)
      then ((plain 403 ''Origin not allowed'' HttpResponse_init, None), h)
      else
        case authorize req HttpResponse_init opts of
          (False, res) \<Rightarrow> ((res, None), h)
        | (True, res) \<Rightarrow>
            (case find_header req ''Mcp-Session-Id'' of
               None \<Rightarrow> ((set_status 405 res, None), h)
             | Some sid \<Rightarrow>
                 if sid = [] then ((set_status 405 res, None), h)
                 else
                   case map_of (ho_sessions h) sid of
                     None \<Rightarrow> ((set_status 404 res, None), h)
                   | Some n \<Rightarrow> ((res, Some n), set_transport n (enter_get_stream (transport_of n h)) h)))"

text \<open>The content provider and the releaser that the handler registers.\<close>

definition stream_step :: "nat \<Rightarrow> bool \<Rightarrow> bool \<Rightarrow> HostState \<Rightarrow> (string \<times> bool) \<times> HostState" where
  "stream_step n writable wrote h =
     (let (out, t) = provide writable wrote (transport_of n h) in (out, set_transport n t h))"

definition stream_done :: "nat \<Rightarrow> HostState \<Rightarrow> HostState" where
  "stream_done n h = set_transport n (leave_get_stream (transport_of n h)) h"

section \<open>DELETE\<close>

definition extract_session :: "string \<Rightarrow> HostState \<Rightarrow> nat option \<times> HostState" where
  "extract_session sid h =
     (map_of (ho_sessions h) sid, h\<lparr>ho_sessions := AList.delete sid (ho_sessions h)\<rparr>)"

text \<open>Exceptions of the hook are contained.\<close>

definition invoke_session_closed :: "HostOptions \<Rightarrow> nat \<Rightarrow> HostState \<Rightarrow> HostState" where
  "invoke_session_closed opts n h =
     (if op_on_session_closed opts then h\<lparr>ho_log := Hook n # ho_log h\<rparr> else h)"

definition close_transport :: "nat \<Rightarrow> HostState \<Rightarrow> HostState" where
  "close_transport n h =
     (let h = set_transport n (hs_close (transport_of n h)) h in h\<lparr>ho_log := Closed n # ho_log h\<rparr>)"

definition join_run :: "nat \<Rightarrow> HostState \<Rightarrow> HostState" where
  "join_run n h =
     h\<lparr>ho_contexts := (ho_contexts h)[n := (ho_contexts h ! n)\<lparr>cx_running := False\<rparr>],
       ho_log := Joined n # ho_log h\<rparr>"

definition handle_delete :: "HostOptions \<Rightarrow> HttpRequest \<Rightarrow> HostState \<Rightarrow> HttpResponse \<times> HostState" where
  "handle_delete opts req h =
     (if \<not> origin_allowed req (op_allowed_origins opts)
      then (plain 403 ''Origin not allowed'' HttpResponse_init, h)
      else
        case authorize req HttpResponse_init opts of
          (False, res) \<Rightarrow> (res, h)
        | (True, res) \<Rightarrow>
            (case find_header req ''Mcp-Session-Id'' of
               None \<Rightarrow> (set_status 400 res, h)
             | Some sid \<Rightarrow>
                 (set_status 204 res,
                  case extract_session sid h of
                    (None, h') \<Rightarrow> h
                  | (Some n, h) \<Rightarrow> join_run n (close_transport n (invoke_session_closed opts n h)))))"

section \<open>OPTIONS and the metadata document\<close>

definition handle_options :: "HostOptions \<Rightarrow> HttpRequest \<Rightarrow> HttpResponse" where
  "handle_options opts req =
     (let acao = resolve_cors_origin req (op_allowed_origins opts)
      in if acao = [] then set_status 403 HttpResponse_init
         else
           set_status 204
            (set_header ''Access-Control-Max-Age'' ''600''
            (set_header ''Access-Control-Expose-Headers'' ''Mcp-Session-Id, WWW-Authenticate''
            (set_header ''Access-Control-Allow-Headers''
               (''Authorization, Content-Type, Mcp-Session-Id, '' @
                ''MCP-Protocol-Version, Last-Event-ID, Accept'')
            (set_header ''Access-Control-Allow-Methods'' ''GET, POST, DELETE, OPTIONS''
            (set_header ''Access-Control-Allow-Origin'' acao HttpResponse_init))))))"

definition metadata_response :: "string \<Rightarrow> HttpResponse" where
  "metadata_response body =
     set_content body ''application/json''
      (set_header ''Cache-Control'' ''public, max-age=3600''
      (set_header ''Access-Control-Allow-Origin'' ''*'' HttpResponse_init))"

text \<open>The routes that \<open>start\<close> registers.\<close>

datatype route = Route_post string | Route_get string | Route_delete string | Route_options string
  | Route_metadata string string

definition routes :: "HostOptions \<Rightarrow> route list" where
  "routes opts =
     [Route_post (op_path opts), Route_get (op_path opts), Route_delete (op_path opts)] @
     (if op_enable_cors_preflight opts then [Route_options (op_path opts)] else []) @
     (case op_resource_metadata opts of
        None \<Rightarrow> []
      | Some body \<Rightarrow>
          Route_metadata ''/.well-known/oauth-protected-resource'' body #
          (if length (op_path opts) > 1
           then [Route_metadata (''/.well-known/oauth-protected-resource'' @ op_path opts) body] else []))"

section \<open>start and stop\<close>

text \<open>\<open>bound\<close>: the port that the library bound, if it could.\<close>

definition host_start :: "HostOptions \<Rightarrow> int option \<Rightarrow> HostState \<Rightarrow> start_error option \<times> HostState" where
  "host_start opts bound h =
     (if ho_started h then (None, h)
      else
        case start_check opts of
          Some e \<Rightarrow> (Some e, h)
        | None \<Rightarrow>
            (case bound of
               None \<Rightarrow> (Some Bind_failed, h)
             | Some p \<Rightarrow>
                 (None, h\<lparr>ho_started := True, ho_listening := True,
                          ho_port := (if op_port opts \<noteq> 0 then op_port opts else p)\<rparr>)))"

definition drain_sessions :: "HostState \<Rightarrow> nat list \<times> HostState" where
  "drain_sessions h = (map snd (ho_sessions h), h\<lparr>ho_sessions := []\<rparr>)"

definition stop_listener :: "HostState \<Rightarrow> HostState" where
  "stop_listener h = h\<lparr>ho_listening := False\<rparr>"

definition host_stop :: "HostOptions \<Rightarrow> HostState \<Rightarrow> HostState" where
  "host_stop opts h =
     (if ho_stopping h then h
      else
        let h = h\<lparr>ho_stopping := True\<rparr>
        in if \<not> ho_started h then h
           else
             let (drained, h) = drain_sessions h;
                 h = fold (invoke_session_closed opts) drained h;
                 h = fold close_transport drained h;
                 h = stop_listener h
             in fold join_run drained h)"

section \<open>Interleaved handlers\<close>

text \<open>
  A DELETE or a \<open>stop\<close> in progress: the contexts whose hook is still to be called, whose transport is
  still to be closed, whether the listener is still to be stopped, the run threads still to be
  joined. The phases come one after another.
\<close>

datatype teardown = Teardown "nat list" "nat list" bool "nat list"

record HostConfig =
  hf_host :: HostState
  hf_threads :: "teardown multiset"

definition HostConfig_init :: HostConfig where
  "HostConfig_init = \<lparr>hf_host = HostState_init, hf_threads = {#}\<rparr>"

definition turn :: "teardown multiset \<Rightarrow> teardown multiset \<Rightarrow> HostState \<Rightarrow> HostConfig \<Rightarrow> HostConfig" where
  "turn ts ts' h c = \<lparr>hf_host = h, hf_threads = hf_threads c - ts + ts'\<rparr>"

text \<open>
  \<open>moves\<close> stands for whatever a session's \<open>Server\<close>, a POST or a GET stream do to the transport of
  one context.
\<close>

inductive host_step :: "HostOptions \<Rightarrow> HostConfig \<Rightarrow> HostConfig \<Rightarrow> bool" for opts :: HostOptions where
  starts: "host_start opts bound (hf_host c) = (e, h) \<Longrightarrow> host_step opts c (turn {#} {#} h c)"
| resolves: "ho_listening (hf_host c) \<Longrightarrow> resolve_session sid initialize (hf_host c) = (r, h) \<Longrightarrow>
    host_step opts c (turn {#} {#} h c)"
| moves: "n < length (ho_contexts (hf_host c)) \<Longrightarrow>
    host_step opts c (turn {#} {#} (set_transport n t (hf_host c)) c)"
| deletes: "ho_listening (hf_host c) \<Longrightarrow> extract_session sid (hf_host c) = (Some n, h) \<Longrightarrow>
    host_step opts c (turn {#} {#Teardown [n] [n] False [n]#} h c)"
| stops_unstarted: "\<not> ho_started (hf_host c) \<Longrightarrow>
    host_step opts c (turn {#} {#} ((hf_host c)\<lparr>ho_stopping := True\<rparr>) c)"
| stops: "\<not> ho_stopping (hf_host c) \<Longrightarrow> ho_started (hf_host c) \<Longrightarrow>
    drain_sessions ((hf_host c)\<lparr>ho_stopping := True\<rparr>) = (ns, h) \<Longrightarrow>
    host_step opts c (turn {#} {#Teardown ns ns True ns#} h c)"
| hooks: "Teardown (n # hs) cs l js \<in># hf_threads c \<Longrightarrow>
    host_step opts c (turn {#Teardown (n # hs) cs l js#} {#Teardown hs cs l js#}
      (invoke_session_closed opts n (hf_host c)) c)"
| closes: "Teardown [] (n # cs) l js \<in># hf_threads c \<Longrightarrow>
    host_step opts c (turn {#Teardown [] (n # cs) l js#} {#Teardown [] cs l js#}
      (close_transport n (hf_host c)) c)"
| unlistens: "Teardown [] [] True js \<in># hf_threads c \<Longrightarrow>
    host_step opts c (turn {#Teardown [] [] True js#} {#Teardown [] [] False js#}
      (stop_listener (hf_host c)) c)"
| joins: "Teardown [] [] False (n # js) \<in># hf_threads c \<Longrightarrow>
    host_step opts c (turn {#Teardown [] [] False (n # js)#} {#Teardown [] [] False js#}
      (join_run n (hf_host c)) c)"
| ends: "Teardown [] [] False [] \<in># hf_threads c \<Longrightarrow>
    host_step opts c (turn {#Teardown [] [] False []#} {#} (hf_host c) c)"

inductive host_reachable :: "HostOptions \<Rightarrow> HostConfig \<Rightarrow> bool" for opts :: HostOptions where
  initial: "host_reachable opts HostConfig_init"
| step: "host_reachable opts c \<Longrightarrow> host_step opts c c' \<Longrightarrow> host_reachable opts c'"

section \<open>Teardown\<close>

fun hook_of :: "teardown_event \<Rightarrow> nat option" where
  "hook_of (Hook n) = Some n" | "hook_of (Closed n) = None" | "hook_of (Joined n) = None"

fun closed_of :: "teardown_event \<Rightarrow> nat option" where
  "closed_of (Hook n) = None" | "closed_of (Closed n) = Some n" | "closed_of (Joined n) = None"

fun joined_of :: "teardown_event \<Rightarrow> nat option" where
  "joined_of (Hook n) = None" | "joined_of (Closed n) = None" | "joined_of (Joined n) = Some n"

text \<open>The contexts an event of the log happened to.\<close>

definition logged :: "(teardown_event \<Rightarrow> nat option) \<Rightarrow> HostState \<Rightarrow> nat list" where
  "logged f h = somes (map f (ho_log h))"

text \<open>In a log, newest first: no transport is closed before its hook, no thread joined before that.\<close>

fun in_order :: "teardown_event list \<Rightarrow> bool" where
  "in_order [] \<longleftrightarrow> True"
| "in_order (Hook n # evs) \<longleftrightarrow> in_order evs"
| "in_order (Closed n # evs) \<longleftrightarrow> Hook n \<in> set evs \<and> in_order evs"
| "in_order (Joined n # evs) \<longleftrightarrow> Closed n \<in> set evs \<and> in_order evs"

fun hooks_left :: "teardown \<Rightarrow> nat list" where "hooks_left (Teardown hs cs l js) = hs"
fun closes_left :: "teardown \<Rightarrow> nat list" where "closes_left (Teardown hs cs l js) = cs"
fun joins_left :: "teardown \<Rightarrow> nat list" where "joins_left (Teardown hs cs l js) = js"

definition accounted ::
    "(teardown \<Rightarrow> nat list) \<Rightarrow> (teardown_event \<Rightarrow> nat option) \<Rightarrow> HostConfig \<Rightarrow> bool" where
  "accounted left f c \<longleftrightarrow>
     mset (map snd (ho_sessions (hf_host c))) + \<Sum>\<^sub># (image_mset (\<lambda>t. mset (left t)) (hf_threads c)) +
       mset (logged f (hf_host c)) = mset [0..<length (ho_contexts (hf_host c))]"

fun thread_ok :: "teardown_event list \<Rightarrow> teardown \<Rightarrow> bool" where
  "thread_ok evs (Teardown hs cs l js) \<longleftrightarrow>
     (\<forall>n \<in> set cs. n \<in> set hs \<or> Hook n \<in> set evs) \<and>
     (\<forall>n \<in> set js. n \<in> set cs \<or> Closed n \<in> set evs)"

definition host_inv :: "HostConfig \<Rightarrow> bool" where
  "host_inv c \<longleftrightarrow>
     distinct (map fst (ho_sessions (hf_host c))) \<and>
     accounted hooks_left hook_of c \<and> accounted closes_left closed_of c \<and>
     accounted joins_left joined_of c \<and>
     in_order (ho_log (hf_host c)) \<and> (\<forall>t \<in># hf_threads c. thread_ok (ho_log (hf_host c)) t)"

lemma turn_simps [simp]:
  "hf_host (turn ts ts' h c) = h" "hf_threads (turn ts ts' h c) = hf_threads c - ts + ts'"
  by (simp_all add: turn_def)

lemma set_transport_simps [simp]:
  "ho_sessions (set_transport n t h) = ho_sessions h" "ho_log (set_transport n t h) = ho_log h"
  "length (ho_contexts (set_transport n t h)) = length (ho_contexts h)"
  "ho_started (set_transport n t h) = ho_started h" "ho_stopping (set_transport n t h) = ho_stopping h"
  "ho_listening (set_transport n t h) = ho_listening h"
  by (simp_all add: set_transport_def)

lemma sum_mset_remove:
  "t \<in># ts \<Longrightarrow> \<Sum>\<^sub># (image_mset f ts) = f t + \<Sum>\<^sub># (image_mset f (ts - {#t#}))"
  by (metis image_mset_add_mset insert_DiffM sum_mset.insert)

lemma thread_ok_later: "thread_ok evs t \<Longrightarrow> thread_ok (e # evs) t"
  by (cases t) auto

lemma threads_ok_later:
  "\<forall>t \<in># ts. thread_ok evs t \<Longrightarrow> t \<in># ts - ts' \<Longrightarrow> thread_ok (e # evs) t"
  by (meson in_diffD thread_ok_later)

lemmas host_sections =
  invoke_session_closed_def close_transport_def join_run_def stop_listener_def drain_sessions_def
  extract_session_def logged_def accounted_def

lemma thread_at:
  "host_inv c \<Longrightarrow> t \<in># hf_threads c \<Longrightarrow> thread_ok (ho_log (hf_host c)) t"
  by (simp add: host_inv_def)

lemma host_inv_step:
  assumes "op_on_session_closed opts" "host_step opts c c'" "host_inv c"
  shows "host_inv c'"
  using assms(2,3)
proof (induction rule: host_step.induct)
  case (starts bound c e h)
  then show ?case
    by (auto simp: host_inv_def host_start_def accounted_def logged_def split: if_splits option.splits)
next
  case (resolves c sid initialize r h)
  then show ?case
    by (auto simp: host_inv_def resolve_session_def accounted_def logged_def map_of_eq_None_iff atLeast0_lessThan_Suc
        split: if_splits option.splits)
next
  case (deletes c sid n h)
  then show ?case
    using mset_delete [of "ho_sessions (hf_host c)" sid n]
    by (auto simp: host_inv_def host_sections distinct_delete)
next
  case (hooks n hs cs l js c)
  from thread_at [OF hooks(2,1)] hooks show ?case
    using assms(1) by (auto simp: host_inv_def host_sections sum_mset_remove threads_ok_later)
next
  case (closes n cs l js c)
  from thread_at [OF closes(2,1)] closes show ?case
    by (auto simp: host_inv_def host_sections Let_def sum_mset_remove threads_ok_later)
next
  case (unlistens js c)
  from thread_at [OF unlistens(2,1)] unlistens show ?case
    by (auto simp: host_inv_def host_sections sum_mset_remove dest: in_diffD)
next
  case (joins n js c)
  from thread_at [OF joins(2,1)] joins show ?case
    by (auto simp: host_inv_def host_sections sum_mset_remove threads_ok_later)
qed (auto simp: host_inv_def host_sections sum_mset_remove dest: in_diffD)

lemma host_inv_reachable:
  assumes "op_on_session_closed opts" "host_reachable opts c"
  shows "host_inv c"
  using assms(2)
proof (induction rule: host_reachable.induct)
  case initial
  show ?case
    by (simp add: host_inv_def HostConfig_init_def HostState_init_def accounted_def logged_def)
qed (rule host_inv_step [OF assms(1)])

lemma set_somes_map: "n \<in> set (somes (map f evs)) \<longleftrightarrow> (\<exists>e \<in> set evs. f e = Some n)"
  by (auto simp: set_somes intro: rev_image_eqI)

lemma logged_iff:
  "n \<in> set (logged hook_of h) \<longleftrightarrow> Hook n \<in> set (ho_log h)"
  "n \<in> set (logged closed_of h) \<longleftrightarrow> Closed n \<in> set (ho_log h)"
  "n \<in> set (logged joined_of h) \<longleftrightarrow> Joined n \<in> set (ho_log h)"
  unfolding logged_def set_somes_map
  by (auto elim!: hook_of.elims closed_of.elims joined_of.elims
      intro: bexI [of _ "Hook n"] bexI [of _ "Closed n"] bexI [of _ "Joined n"])

lemma accounted_once:
  assumes "accounted left f c"
  shows "distinct (logged f (hf_host c))"
    and "set (map snd (ho_sessions (hf_host c))) \<inter> set (logged f (hf_host c)) = {}"
    and "hf_threads c = {#} \<Longrightarrow> {0..<length (ho_contexts (hf_host c))} =
      set (map snd (ho_sessions (hf_host c))) \<union> set (logged f (hf_host c))"
proof -
  have all: "mset (logged f (hf_host c) @ map snd (ho_sessions (hf_host c))) +
      \<Sum>\<^sub># (image_mset (\<lambda>t. mset (left t)) (hf_threads c)) = mset [0..<length (ho_contexts (hf_host c))]"
    using assms unfolding accounted_def by (simp only: mset_append ac_simps)
  from distinct_part [OF all] show "distinct (logged f (hf_host c))"
    and "set (map snd (ho_sessions (hf_host c))) \<inter> set (logged f (hf_host c)) = {}" by auto
  assume "hf_threads c = {#}"
  with all have "mset (logged f (hf_host c) @ map snd (ho_sessions (hf_host c))) =
      mset [0..<length (ho_contexts (hf_host c))]" by simp
  from mset_eq_setD [OF this] show "{0..<length (ho_contexts (hf_host c))} =
      set (map snd (ho_sessions (hf_host c))) \<union> set (logged f (hf_host c))" by auto
qed

section \<open>A POST\<close>

lemma gate_statuses:
  assumes "post_gate opts req = (False, res)"
  shows "hr_status res \<in> {Some 400, Some 401, Some 403}"
proof -
  have "hr_status res \<in> {Some 400, Some 401, Some 403}" if "authorize req HttpResponse_init opts = (False, res)"
    using authorize_refuses [OF that]
    by (auto simp: challenged_def challenge_def set_status_def set_content_def set_header_def)
  with assms show ?thesis
    by (auto simp: post_gate_def plain_def set_status_def set_content_def split: if_splits option.splits)
qed

lemma origin_refused_iff:
  "\<not> origin_allowed req allow \<longleftrightarrow>
     (\<exists>origin. find_header req ''Origin'' = Some origin \<and> origin \<notin> set allow \<and> ''*'' \<notin> set allow)"
  by (auto simp: origin_allowed_def list_ex_iff split: option.split)

lemma authorize_status:
  assumes "\<not> fst (authorize req res opts)"
  shows "hr_status (snd (authorize req res opts)) =
    Some (if 2 \<le> length (hq_header req ''Authorization'') then 400
      else if \<exists>validator hdr token. op_bearer_validator opts = Some validator \<and> hq_header req ''Authorization'' = [hdr] \<and>
          bearer_token hdr token \<and> bo_status (validator token) = Insufficient_scope
      then 403 else 401)"
  using assms
  by (auto simp: authorize_def bearer_token_iff Let_def challenge_def set_status_def set_header_def set_content_def
      split: option.splits list.splits BearerStatus.splits if_splits)

lemma authorize_refused_iff:
  "\<not> fst (authorize req res opts) \<longleftrightarrow> op_bearer_validator opts \<noteq> None \<and>
     \<not> (\<exists>validator hdr token. op_bearer_validator opts = Some validator \<and> hq_header req ''Authorization'' = [hdr] \<and>
        bearer_token hdr token \<and> bo_status (validator token) = Allow)"
  by (auto simp: authorize_def bearer_token_iff Let_def split: option.split list.split BearerStatus.split)

definition foreign_origin :: "HostOptions \<Rightarrow> HttpRequest \<Rightarrow> bool" where
  "foreign_origin opts req \<longleftrightarrow> (\<exists>origin. find_header req ''Origin'' = Some origin \<and>
     origin \<notin> set (op_allowed_origins opts) \<and> ''*'' \<notin> set (op_allowed_origins opts))"

definition foreign_version :: "HttpRequest \<Rightarrow> bool" where
  "foreign_version req \<longleftrightarrow> (\<exists>v. find_header req ''MCP-Protocol-Version'' = Some v \<and>
     v \<notin> {''2025-03-26'', ''2025-06-18'', ''2025-11-25''})"

lemma gate_cases:
  "foreign_origin opts req \<Longrightarrow> post_gate opts req = (False, plain 403 ''Origin not allowed'' HttpResponse_init)"
  "\<not> foreign_origin opts req \<Longrightarrow> foreign_version req \<Longrightarrow>
     \<exists>body. post_gate opts req = (False, plain 400 body HttpResponse_init)"
  "\<not> foreign_origin opts req \<Longrightarrow> \<not> foreign_version req \<Longrightarrow> post_gate opts req = authorize req HttpResponse_init opts"
  by (auto simp: post_gate_def foreign_origin_def foreign_version_def origin_refused_iff [symmetric]
      valid_protocol_version_header_def split: option.split)

lemma gate_passes:
  "post_gate opts req = (True, res) \<Longrightarrow> res = HttpResponse_init"
  by (auto simp: post_gate_def authorize_def Let_def split: if_splits option.splits list.splits
      BearerStatus.splits)

lemma post_deliver_status:
  "post_deliver J req n h = (Replied res, h') \<Longrightarrow>
     hr_status res = Some 202 \<and> request_key J (hq_body req) = None"
  by (auto simp: post_deliver_def deliver_def request_key_def set_status_def Let_def
      split: sum.splits option.splits bool.splits prod.splits)

lemma post_deliver_awaits:
  "post_deliver J req n h = (Awaits res m p, h') \<Longrightarrow>
     m = n \<and> res = set_header ''Mcp-Session-Id'' (cx_id (ho_contexts h ! n)) HttpResponse_init \<and>
     deliver J (hq_body req) (transport_of n h) = (Some p, snd (deliver J (hq_body req) (transport_of n h))) \<and>
     h' = set_transport n (snd (deliver J (hq_body req) (transport_of n h))) h"
  by (auto simp: post_deliver_def Let_def split: prod.splits option.splits)

lemma post_deliver_sessions [simp]:
  "ho_sessions (snd (post_deliver J req n h)) = ho_sessions h"
  by (simp add: post_deliver_def Let_def split: prod.split option.split)

lemma post_deliver_other:
  "m \<noteq> n \<Longrightarrow> ho_contexts (snd (post_deliver J req n h)) ! m = ho_contexts h ! m"
  by (simp add: post_deliver_def Let_def set_transport_def split: prod.split option.split)

text \<open>The context a POST is delivered to: one that is there, or the one it makes.\<close>

lemma resolve_session_cases:
  assumes "resolve_session sid initialize h = (r, h1)"
  shows "(r = None \<and> h1 = h \<and> (sid = [] \<or> map_of (ho_sessions h) sid = None \<and> \<not> initialize)) \<or>
    (\<exists>n. r = Some n \<and> h1 = h \<and> sid \<noteq> [] \<and> map_of (ho_sessions h) sid = Some n) \<or>
    (r = Some (length (ho_contexts h)) \<and> sid \<noteq> [] \<and> map_of (ho_sessions h) sid = None \<and> initialize \<and>
      h1 = h\<lparr>ho_sessions := (sid, length (ho_contexts h)) # ho_sessions h,
             ho_contexts := ho_contexts h @ [new_context sid]\<rparr>)"
  using assms by (auto simp: resolve_session_def split: if_splits option.splits)

lemma handle_post_cases:
  assumes "handle_post J opts fresh req h = (r, h')"
  shows "(\<exists>res. post_gate opts req = (False, res) \<and> r = Replied res \<and> h' = h) \<or>
    (fst (post_gate opts req) \<and> post_sid fresh req = [] \<and> h' = h \<and>
      r = Replied (plain 400 ''missing session id; send initialize first'' HttpResponse_init)) \<or>
    (fst (post_gate opts req) \<and> post_sid fresh req \<noteq> [] \<and> h' = h \<and>
      map_of (ho_sessions h) (post_sid fresh req) = None \<and> \<not> is_initialize_body (hq_body req) \<and>
      r = Replied (plain 404 ''unknown or expired session id'' HttpResponse_init)) \<or>
    (\<exists>n. fst (post_gate opts req) \<and> post_sid fresh req \<noteq> [] \<and>
      map_of (ho_sessions h) (post_sid fresh req) = Some n \<and> post_deliver J req n h = (r, h')) \<or>
    (fst (post_gate opts req) \<and> post_sid fresh req \<noteq> [] \<and>
      map_of (ho_sessions h) (post_sid fresh req) = None \<and> is_initialize_body (hq_body req) \<and>
      post_deliver J req (length (ho_contexts h))
        (h\<lparr>ho_sessions := (post_sid fresh req, length (ho_contexts h)) # ho_sessions h,
           ho_contexts := ho_contexts h @ [new_context (post_sid fresh req)]\<rparr>) = (r, h'))"
proof (cases "post_gate opts req")
  case (Pair ok res)
  show ?thesis
  proof (cases ok)
    case False
    with Pair assms show ?thesis by (simp add: handle_post_def)
  next
    case True
    obtain q h1 where q: "resolve_session (post_sid fresh req) (is_initialize_body (hq_body req)) h = (q, h1)"
      by fastforce
    have "res = HttpResponse_init" using gate_passes [of opts req res] Pair True by simp
    with assms Pair True q have post: "(case q of
        None \<Rightarrow> (Replied (if post_sid fresh req \<noteq> [] then plain 404 ''unknown or expired session id'' HttpResponse_init
           else plain 400 ''missing session id; send initialize first'' HttpResponse_init), h1)
      | Some n \<Rightarrow> post_deliver J req n h1) = (r, h')"
      by (simp add: handle_post_def split: option.split)
    from resolve_session_cases [OF q] show ?thesis
      using post Pair True by (elim disjE conjE exE) (simp_all split: if_splits)
  qed
qed

section \<open>Properties\<close>

text \<open>
  C14: Every session is torn down at most once, in order. For every interleaving of requests, DELETEs, \<open>start\<close>
  and \<open>stop\<close>: the hook of a session is called at most once, its transport is closed by the host at most once
  and its thread joined at most once; the hook comes before the close and the close before the join; a session
  that is still in the map has had none of this. When no teardown is under way, every session ever made is either
  still in the map or has had all three.
\<close>

theorem sessions_torn_down_once:
  assumes "op_on_session_closed opts" "host_reachable opts c"
  shows "distinct (logged hook_of (hf_host c)) \<and> distinct (logged closed_of (hf_host c)) \<and>
    distinct (logged joined_of (hf_host c)) \<and> in_order (ho_log (hf_host c)) \<and>
    set (map snd (ho_sessions (hf_host c))) \<inter> set (logged hook_of (hf_host c)) = {} \<and>
    (hf_threads c = {#} \<longrightarrow>
       (\<forall>n < length (ho_contexts (hf_host c)). n \<in> set (map snd (ho_sessions (hf_host c))) \<or>
          {Hook n, Closed n, Joined n} \<subseteq> set (ho_log (hf_host c))))"
proof -
  note inv = host_inv_reachable [OF assms, unfolded host_inv_def]
  note once = accounted_once [of hooks_left hook_of c] accounted_once [of closes_left closed_of c]
    accounted_once [of joins_left joined_of c]
  from inv once(1,2,4,7) have "distinct (logged hook_of (hf_host c))"
    "distinct (logged closed_of (hf_host c))" "distinct (logged joined_of (hf_host c))"
    "in_order (ho_log (hf_host c))"
    "set (map snd (ho_sessions (hf_host c))) \<inter> set (logged hook_of (hf_host c)) = {}" by blast+
  moreover have "n \<in> set (map snd (ho_sessions (hf_host c))) \<or>
      {Hook n, Closed n, Joined n} \<subseteq> set (ho_log (hf_host c))"
    if "hf_threads c = {#}" "n < length (ho_contexts (hf_host c))" for n
  proof -
    from that(2) have "n \<in> {0..<length (ho_contexts (hf_host c))}" by simp
    with inv once(3) [OF _ that(1)] once(6) [OF _ that(1)] once(9) [OF _ that(1)] have
      "n \<in> set (map snd (ho_sessions (hf_host c))) \<union> set (logged hook_of (hf_host c))"
      "n \<in> set (map snd (ho_sessions (hf_host c))) \<union> set (logged closed_of (hf_host c))"
      "n \<in> set (map snd (ho_sessions (hf_host c))) \<union> set (logged joined_of (hf_host c))"
      by (simp_all only:)
    then show ?thesis unfolding Un_iff logged_iff by blast
  qed
  ultimately show ?thesis by blast
qed

text \<open>A run in which a POST slips in between the drain and the end of the listener.\<close>

definition racing_opts :: HostOptions where
  "racing_opts = HostOptions_init\<lparr>op_on_session_closed := True\<rparr>"

definition raced_host :: HostState where
  "raced_host = HostState_init\<lparr>ho_started := True, ho_stopping := True, ho_port := 4711,
     ho_sessions := [(''s'', 0)], ho_contexts := [new_context ''s'']\<rparr>"

definition raced :: HostConfig where
  "raced = \<lparr>hf_host = raced_host, hf_threads = {#}\<rparr>"

lemma raced_reachable: "host_reachable racing_opts raced"
proof -
  note go = host_reachable.step [where opts = racing_opts]
  note fields = turn_def HostConfig_init_def HostState_init_def drain_sessions_def resolve_session_def
    stop_listener_def raced_host_def
  have ok: "start_check racing_opts = None"
    by (simp add: start_check_def racing_opts_def HostOptions_init_def valid_quoted_param_def)
  have port: "op_port racing_opts = 0" by (simp add: racing_opts_def HostOptions_init_def)
  let ?h1 = "HostState_init\<lparr>ho_started := True, ho_listening := True, ho_port := 4711\<rparr>"
  have 1: "host_reachable racing_opts \<lparr>hf_host = ?h1, hf_threads = {#}\<rparr>"
    using go [OF host_reachable.initial host_step.starts [of racing_opts "Some 4711"]]
    by (simp add: host_start_def ok port fields)
  let ?t = "Teardown [] [] True []"
  have 2: "host_reachable racing_opts \<lparr>hf_host = ?h1\<lparr>ho_stopping := True\<rparr>, hf_threads = {#?t#}\<rparr>"
    using go [OF 1 host_step.stops] by (simp add: fields)
  have 3: "host_reachable racing_opts \<lparr>hf_host = raced_host\<lparr>ho_listening := True\<rparr>, hf_threads = {#?t#}\<rparr>"
    using go [OF 2 host_step.resolves [of _ "''s''" True]] by (simp add: fields)
  have 4: "host_reachable racing_opts \<lparr>hf_host = raced_host, hf_threads = {#Teardown [] [] False []#}\<rparr>"
    using go [OF 3 host_step.unlistens [of "[]"]] by (simp add: fields)
  show ?thesis
    using go [OF 4 host_step.ends] by (simp add: fields raced_def)
qed

lemma sessions_torn_down_once_witness:
  "distinct (logged hook_of (hf_host raced)) \<and> distinct (logged closed_of (hf_host raced)) \<and>
    distinct (logged joined_of (hf_host raced)) \<and> in_order (ho_log (hf_host raced)) \<and>
    set (map snd (ho_sessions (hf_host raced))) \<inter> set (logged hook_of (hf_host raced)) = {}"
  using sessions_torn_down_once [OF _ raced_reachable] by (simp add: racing_opts_def)

text \<open>
  C35: The status of a POST that is answered at once, for each reason, in the order in which they are looked at. A
  request with an \<open>Origin\<close> that is not allowed gets 403; one with an \<open>MCP-Protocol-Version\<close> that is not one of the three
  gets 400; when tokens are validated, one with several \<open>Authorization\<close> headers gets 400, one whose token lacks a
  scope 403, and any other without an allowed bearer token 401; one that names no session and is no initialize
  request gets 400; one that names a session that the host does not know and is no initialize request gets 404;
  and 202 is left for a body that went to a session and carries no request. A refusal leaves the host as it was.
\<close>

theorem post_status:
  assumes "handle_post J opts fresh req h = (Replied res, h')" "fresh \<noteq> []"
  shows "let named = (case find_header req ''Mcp-Session-Id'' of None \<Rightarrow> [] | Some v \<Rightarrow> v);
      tokens = hq_header req ''Authorization'';
      judged = (\<lambda>verdict. \<exists>validator hdr token. op_bearer_validator opts = Some validator \<and> tokens = [hdr] \<and>
        bearer_token hdr token \<and> bo_status (validator token) = verdict)
    in if foreign_origin opts req
      then hr_status res = Some 403 \<and> hr_content res = Some (''Origin not allowed'', ''text/plain'') \<and> h' = h
      else if foreign_version req
      then hr_status res = Some 400 \<and> hr_headers res = [] \<and> h' = h
      else if op_bearer_validator opts \<noteq> None \<and> \<not> judged Allow
      then hr_status res = Some (if 2 \<le> length tokens then 400 else if judged Insufficient_scope then 403 else 401) \<and>
        h' = h
      else if named = [] \<and> \<not> is_initialize_body (hq_body req) then hr_status res = Some 400 \<and> h' = h
      else if named \<noteq> [] \<and> map_of (ho_sessions h) named = None \<and> \<not> is_initialize_body (hq_body req)
      then hr_status res = Some 404 \<and> h' = h
      else hr_status res = Some 202 \<and> request_key J (hq_body req) = None"
proof -
  note refused = handle_post_cases [OF assms(1)]
  consider (origin) "foreign_origin opts req" | (version) "\<not> foreign_origin opts req" "foreign_version req"
    | (token) "\<not> foreign_origin opts req" "\<not> foreign_version req" "\<not> fst (authorize req HttpResponse_init opts)"
    | (passed) "\<not> foreign_origin opts req" "\<not> foreign_version req" "fst (authorize req HttpResponse_init opts)"
    by blast
  then show ?thesis
  proof cases
    case origin
    with gate_cases(1) have "post_gate opts req = (False, plain 403 ''Origin not allowed'' HttpResponse_init)" by simp
    with refused have "res = plain 403 ''Origin not allowed'' HttpResponse_init" "h' = h" by auto
    with origin show ?thesis by (simp add: plain_def set_status_def set_content_def Let_def)
  next
    case version
    with gate_cases(2) obtain body where "post_gate opts req = (False, plain 400 body HttpResponse_init)" by blast
    with refused have "res = plain 400 body HttpResponse_init" "h' = h" by auto
    with version show ?thesis
      by (simp only: Let_def if_True if_False plain_def set_status_def set_content_def HttpResponse_init_def) simp
  next
    case token
    with gate_cases(3) have "post_gate opts req = authorize req HttpResponse_init opts" by simp
    with token(3) refused have "res = snd (authorize req HttpResponse_init opts)" "h' = h" by auto
    with token authorize_status [OF token(3)] authorize_refused_iff [of req HttpResponse_init opts] show ?thesis
      by (simp only: Let_def if_True if_False simp_thms)
  next
    case passed
    with gate_cases(3) have "fst (post_gate opts req)" by simp
    with refused assms(2) have "if post_sid fresh req = [] then hr_status res = Some 400 \<and> h' = h
      else if map_of (ho_sessions h) (post_sid fresh req) = None \<and> \<not> is_initialize_body (hq_body req)
      then hr_status res = Some 404 \<and> h' = h
      else hr_status res = Some 202 \<and> request_key J (hq_body req) = None"
      by (auto simp: plain_def set_status_def set_content_def dest: post_deliver_status)
    with passed assms(2) authorize_refused_iff [of req HttpResponse_init opts] show ?thesis
      by (simp only: Let_def if_True if_False simp_thms post_sid_def) (auto split: if_splits)
  qed
qed

definition unknown_req :: HttpRequest where
  "unknown_req = \<lparr>hq_header = (\<lambda>n. if n = ''Mcp-Session-Id'' then [''x''] else []), hq_body = ''{}''\<rparr>"

lemma post_status_witness:
  "map_of (ho_sessions raced_host) ''x'' = None \<and>
   hr_status (plain 404 ''unknown or expired session id'' HttpResponse_init) = Some 404"
proof -
  have p: "handle_post jv_ops racing_opts ''s'' unknown_req raced_host =
      (Replied (plain 404 ''unknown or expired session id'' HttpResponse_init), raced_host)"
    by (simp add: handle_post_def post_gate_def post_sid_def unknown_req_def origin_allowed_def
        find_header_def authorize_def racing_opts_def HostOptions_init_def is_initialize_body_def
        resolve_session_def raced_host_def HostState_init_def)
  have "\<not> is_initialize_body (hq_body unknown_req)" "map_of (ho_sessions raced_host) ''x'' = None"
    "op_bearer_validator racing_opts = None"
    by (simp_all add: unknown_req_def is_initialize_body_def raced_host_def racing_opts_def HostOptions_init_def)
  with post_status [OF p] show ?thesis by (simp add: unknown_req_def find_header_def foreign_origin_def foreign_version_def)
qed

text \<open>
  Sessions are isolated. A POST changes at most one context, the one its session id names in the map (or
  the one it creates for an initialize request under an id that is not in use), and the map keeps every other entry.
\<close>

theorem post_isolation:
  assumes "handle_post J opts fresh req h = (r, h')"
  shows "(\<forall>m < length (ho_contexts h). map_of (ho_sessions h) (post_sid fresh req) \<noteq> Some m \<longrightarrow>
      ho_contexts h' ! m = ho_contexts h ! m) \<and>
    (ho_sessions h' = ho_sessions h \<or>
     map_of (ho_sessions h) (post_sid fresh req) = None \<and> is_initialize_body (hq_body req) \<and>
       ho_sessions h' = (post_sid fresh req, length (ho_contexts h)) # ho_sessions h)"
proof -
  have same: "ho_contexts h' ! m = ho_contexts h0 ! m" if "post_deliver J req n h0 = (r, h')" "m \<noteq> n" for n m h0
    using post_deliver_other [OF that(2), of J req h0] that(1) by simp
  have kept: "ho_sessions h' = ho_sessions h0" if "post_deliver J req n h0 = (r, h')" for n h0
    using post_deliver_sessions [of J req n h0] that by simp
  from handle_post_cases [OF assms] show ?thesis
  proof (elim disjE exE conjE)
    fix n
    assume "map_of (ho_sessions h) (post_sid fresh req) = Some n" and known: "post_deliver J req n h = (r, h')"
    with same [OF known] kept [OF known] show ?thesis by simp
  next
    assume "map_of (ho_sessions h) (post_sid fresh req) = None" "is_initialize_body (hq_body req)"
      and new: "post_deliver J req (length (ho_contexts h))
        (h\<lparr>ho_sessions := (post_sid fresh req, length (ho_contexts h)) # ho_sessions h,
           ho_contexts := ho_contexts h @ [new_context (post_sid fresh req)]\<rparr>) = (r, h')"
    with same [OF new] kept [OF new] show ?thesis by (simp add: nth_append)
  qed simp_all
qed

lemma post_isolation_witness:
  "ho_sessions (snd (handle_post jv_ops racing_opts [] unknown_req raced_host)) = ho_sessions raced_host \<or>
     map_of (ho_sessions raced_host) (post_sid [] unknown_req) = None \<and>
     is_initialize_body (hq_body unknown_req) \<and>
     ho_sessions (snd (handle_post jv_ops racing_opts [] unknown_req raced_host)) =
       (post_sid [] unknown_req, length (ho_contexts raced_host)) # ho_sessions raced_host"
  using post_isolation [of jv_ops racing_opts "[]" unknown_req raced_host] by (metis prod.collapse)

text \<open>
  The transport of the context that a POST is delivered to, before it: a new context is at the end
  of the list. \<open>attached\<close>: what the session's \<open>run\<close> makes of a transport that is not started yet.
\<close>

definition transport_before :: "string \<Rightarrow> HttpRequest \<Rightarrow> nat \<Rightarrow> HostState \<Rightarrow> HttpSessionTransport" where
  "transport_before fresh req n h =
     cx_transport ((ho_contexts h @ [new_context (post_sid fresh req)]) ! n)"

definition attached :: "HttpSessionTransport \<Rightarrow> HttpSessionTransport" where
  "attached t = (if hs_started t then t else hs_start (hs_set_on_message t))"

lemma post_awaits:
  assumes "handle_post J opts fresh req h = (Awaits res n p, h')"
    and "\<forall>m \<in> set (map snd (ho_sessions h)). m < length (ho_contexts h)"
  shows "deliver J (hq_body req) (transport_before fresh req n h) = (Some p, transport_of n h')"
    and "res = set_header ''Mcp-Session-Id'' (cx_id (ho_contexts h' ! n)) HttpResponse_init"
proof -
  have found: "deliver J (hq_body req) (transport_of m h0) = (Some p, transport_of n h') \<and> m = n \<and>
      res = set_header ''Mcp-Session-Id'' (cx_id (ho_contexts h' ! n)) HttpResponse_init"
    if "post_deliver J req m h0 = (Awaits res n p, h')" "m < length (ho_contexts h0)" for m h0
    using post_deliver_awaits [OF that(1)] that(2)
    by (auto simp: transport_of_def set_transport_def prod_eq_iff)
  from handle_post_cases [OF assms(1)]
  have "deliver J (hq_body req) (transport_before fresh req n h) = (Some p, transport_of n h') \<and>
      res = set_header ''Mcp-Session-Id'' (cx_id (ho_contexts h' ! n)) HttpResponse_init"
  proof (elim disjE exE conjE)
    fix m assume m: "map_of (ho_sessions h) (post_sid fresh req) = Some m"
      and known: "post_deliver J req m h = (Awaits res n p, h')"
    from assms(2) map_of_SomeD [OF m] have "m < length (ho_contexts h)" by fastforce
    with found [OF known this] show ?thesis
      by (auto simp: transport_before_def transport_of_def nth_append)
  next
    assume new: "post_deliver J req (length (ho_contexts h))
        (h\<lparr>ho_sessions := (post_sid fresh req, length (ho_contexts h)) # ho_sessions h,
           ho_contexts := ho_contexts h @ [new_context (post_sid fresh req)]\<rparr>) = (Awaits res n p, h')"
    from found [OF new] show ?thesis
      by (auto simp: transport_before_def transport_of_def)
  qed simp_all
  then show "deliver J (hq_body req) (transport_before fresh req n h) = (Some p, transport_of n h')"
    and "res = set_header ''Mcp-Session-Id'' (cx_id (ho_contexts h' ! n)) HttpResponse_init" by simp_all
qed

text \<open>A parked body is handed up at once, or when the session attaches.\<close>

lemma attached_deliver:
  assumes "request_key J raw = Some key" "j_parse J raw = Inr j" "map_of (hs_pending t) key = None"
    and "hs_started t \<longrightarrow> hs_on_message t" "\<not> hs_started t \<longrightarrow> hs_buffered t = []"
    and "deliver J raw t = (n, t1)"
  shows "n = Some (hs_promises t) \<and> hs_handed (attached t1) = hs_handed t @ [raw] \<and>
    map_of (hs_pending (attached t1)) key = Some (hs_promises t) \<and>
    hs_settled (attached t1) = hs_settled t \<and> hs_closed (attached t1) = hs_closed t"
  using assms
  by (auto simp: deliver_def park_reply_def hand_up_def Let_def attached_def hs_start_def
      hs_set_on_message_def open_gate_def split: if_splits)

text \<open>
  C29: A POST with a request is answered with the response of its session, when the id of the request is an integer
  or a string (\<open>exact_id\<close>), no other request of the session with that id is in flight, the session is not closed,
  the text of the response keeps the id, and it comes within the thirty seconds. Whether for a session that runs
  or as the first one, for which the session is still starting, the body is handed to that session; when the
  session then sends its response to the request, the POST is answered with that text as \<open>application/json\<close>, with
  status 200 and the session's id in \<open>Mcp-Session-Id\<close>.
\<close>

theorem post_answered:
  assumes "json_lib J"
    and "handle_post J opts fresh req h = (Awaits res n p, h1)"
      "\<forall>m \<in> set (map snd (ho_sessions h)). m < length (ho_contexts h)"
    and "transport_before fresh req n h = t" "hs_started t \<longrightarrow> hs_on_message t"
      "\<not> hs_started t \<longrightarrow> hs_buffered t = []" "\<not> hs_closed t"
      "map_of (hs_pending t) (key_of r) = None" "hs_promises t \<notin> fst ` set (hs_settled t)"
    and "classify_frame J (hq_body req) = Inr (Some (Request r))" "exact_id J (hq_body req)"
    and "handle_request J tbl r app = (Inr resp, app')"
      "j_dump J (serialize_message J (Response resp)) = Inr f" "keeps_id J resp f"
    and "hs_send J f (attached (transport_of n h1)) = (ec, t2)"
  shows "hs_handed (attached (transport_of n h1)) = hs_handed t @ [hq_body req] \<and> ec = None \<and>
    post_finish broken (map_of (hs_settled t2) p) res =
      \<lparr>hr_status = None, hr_headers = [(''Mcp-Session-Id'', cx_id (ho_contexts h1 ! n))],
       hr_content = Some (f, ''application/json'')\<rparr>"
proof -
  note key = json_lib.request_key_classified [OF assms(1,10,11), folded key_of_def]
  from key(2) obtain j where j: "j_parse J (hq_body req) = Inr j" by blast
  note d = post_awaits [OF assms(2,3), unfolded assms(4)]
  note a = attached_deliver [OF key(1) j assms(8,5,6) d(1)]
  have "answers_to J tbl r resp" using assms(12) by (auto simp: answers_to_def intro: exI [of _ app])
  then have id: "resp_id resp = Some (req_id r)" by (rule answers_to_id)
  from assms(14) obtain k v where
    "j_parse J f = Inr k" "frame_id J k = Some v" "\<not> j_contains J k ''method''"
    "canonical_id J v = key_of r"
    by (auto simp: keeps_id_def id key_of_def)
  from send_answers [OF this(1-3), of "attached (transport_of n h1)"] this(4) a assms(7,15)
  have "ec = None" "hs_settled t2 = hs_settled t @ [(p, Reply f)]" "p = hs_promises t" by auto
  moreover from this(2,3) assms(9) have "map_of (hs_settled t2) p = Some (Reply f)"
    by (simp add: map_add_Some_iff map_of_eq_None_iff)
  ultimately show ?thesis
    using a by (simp add: post_finish_def d(2) set_header_def set_content_def HttpResponse_init_def)
qed

definition first_req :: HttpRequest where
  "first_req = \<lparr>hq_header = (\<lambda>n. []),
     hq_body = ''{\"jsonrpc\":\"2.0\",\"id\":7,\"method\":\"initialize\"}''\<rparr>"

definition first_request :: "jv JsonRpcRequest" where
  "first_request = \<lparr>req_id = IdInt 7, req_method = ''initialize'', req_params = None\<rparr>"

definition first_response :: "jv JsonRpcResponse" where
  "first_response = \<lparr>resp_id = Some (IdInt 7), resp_outcome = Result (VBool True)\<rparr>"

definition first_text :: string where
  "first_text = projr (j_dump jv_ops (serialize_message jv_ops (Response first_response)))"

definition first_host :: HostState where
  "first_host = snd (handle_post jv_ops HostOptions_init ''s'' first_req HostState_init)"

definition first_transport :: HttpSessionTransport where
  "first_transport = snd (hs_send jv_ops first_text (attached (transport_of 0 first_host)))"

lemma first_computed:
  "fst (handle_post jv_ops HostOptions_init ''s'' first_req HostState_init) =
     Awaits (set_header ''Mcp-Session-Id'' ''s'' HttpResponse_init) 0 0"
  "transport_before ''s'' first_req 0 HostState_init = HttpSessionTransport_init"
  "classify_frame jv_ops (hq_body first_req) = Inr (Some (Request first_request))"
  "exact_id jv_ops (hq_body first_req)"
  "j_dump jv_ops (serialize_message jv_ops (Response first_response)) = Inr first_text"
  "keeps_id jv_ops first_response first_text"
  unfolding keeps_id_iff by code_simp+

theorem post_answered_witness:
  "hs_handed (attached (transport_of 0 first_host)) =
     hs_handed HttpSessionTransport_init @ [hq_body first_req] \<and>
   fst (hs_send jv_ops first_text (attached (transport_of 0 first_host))) = None \<and>
   post_finish [] (map_of (hs_settled first_transport) 0)
     (set_header ''Mcp-Session-Id'' ''s'' HttpResponse_init) =
     \<lparr>hr_status = None, hr_headers = [(''Mcp-Session-Id'', cx_id (ho_contexts first_host ! 0))],
      hr_content = Some (first_text, ''application/json'')\<rparr>"
proof (rule post_answered [OF jv_json_lib _ _ first_computed(2)])
  show "handle_post jv_ops HostOptions_init ''s'' first_req HostState_init =
      (Awaits (set_header ''Mcp-Session-Id'' ''s'' HttpResponse_init) 0 0, first_host)"
    by (simp add: prod_eq_iff first_computed(1) first_host_def)
  show "handle_request jv_ops wire_tables first_request 0 =
      (Inr first_response, snd (handle_request jv_ops wire_tables first_request 0))"
    by (simp add: handle_request_def wire_tables_def set_fallback_request_handler_def lookup_req_def
        HandlerTables_init_def first_request_def first_response_def)
  show "hs_send jv_ops first_text (attached (transport_of 0 first_host)) =
      (fst (hs_send jv_ops first_text (attached (transport_of 0 first_host))), first_transport)"
    by (simp add: first_transport_def)
  show "j_dump jv_ops (serialize_message jv_ops (Response first_response)) = Inr first_text"
    by (rule first_computed)
qed (simp_all add: first_computed HostState_init_def HttpSessionTransport_init_def)

section \<open>Behaviours\<close>

text \<open>
  A POST that arrives after \<open>stop\<close> has drained the map and before the listener has stopped makes a
  session that nobody tears down.
\<close>

theorem stop_misses_late_session:
  "\<exists>c. host_reachable racing_opts c \<and> ho_stopping (hf_host c) \<and> \<not> ho_listening (hf_host c) \<and>
     hf_threads c = {#} \<and> ho_sessions (hf_host c) = [(''s'', 0)] \<and> ho_log (hf_host c) = []"
  using raced_reachable
  by (intro exI [of _ raced]) (simp add: raced_def raced_host_def HostState_init_def)

text \<open>A \<open>stop\<close> before \<open>start\<close> uses up the only \<open>stop\<close> there is.\<close>

theorem early_stop_disables_stop:
  assumes "start_check opts = None"
  shows "host_stop opts (snd (host_start opts (Some p) (host_stop opts HostState_init))) =
    snd (host_start opts (Some p) (host_stop opts HostState_init)) \<and>
    ho_listening (snd (host_start opts (Some p) (host_stop opts HostState_init)))"
  using assms by (simp add: host_stop_def host_start_def HostState_init_def)

text \<open>GET and DELETE do not look at the protocol version.\<close>

definition with_version :: "string \<Rightarrow> HttpRequest \<Rightarrow> HttpRequest" where
  "with_version v req = req\<lparr>hq_header := (hq_header req)(''MCP-Protocol-Version'' := [v])\<rparr>"

lemma with_version_other [simp]:
  "name \<noteq> ''MCP-Protocol-Version'' \<Longrightarrow> hq_header (with_version v req) name = hq_header req name"
  "name \<noteq> ''MCP-Protocol-Version'' \<Longrightarrow> find_header (with_version v req) name = find_header req name"
  by (simp_all add: with_version_def find_header_def)

lemma gates_ignore_version [simp]:
  "authorize (with_version v req) res opts = authorize req res opts"
  "origin_allowed (with_version v req) allow = origin_allowed req allow"
  by (simp_all add: authorize_def origin_allowed_def split: option.split)

theorem get_ignores_version: "handle_get opts (with_version v req) h = handle_get opts req h"
  by (simp add: handle_get_def split: prod.split bool.split)

theorem delete_ignores_version: "handle_delete opts (with_version v req) h = handle_delete opts req h"
  by (simp add: handle_delete_def split: prod.split bool.split)

text \<open>Without padding, different draws give the same session id.\<close>

theorem session_ids_collide:
  "make_session_id 0x1 0x23 = make_session_id 0x12 0x3 \<and> make_session_id 0 0 = ''00''"
  by code_simp

end
