(* ===== verification/Http_Client.thy ===== *)
theory Http_Client
  imports Http_Host "HOL-Library.Signed_Division"
begin

text \<open>
  \<open>HttpClientTransport\<close> of src/http_client_transport.cpp: the client's end of the HTTP transport. Frames
  wait in a queue, a worker posts each on a thread of its own, and a second thread keeps the GET
  stream open. What the library's client returns is an argument: \<open>None\<close> when there is no response.

  Lemmas: what each response does; one alert per batch of authorization failures; which loops end and
  how long they wait; no frame is lost before \<open>close\<close>; a POST to the host comes back as the message
  the session sent.
\<close>

section \<open>URLs\<close>

fun split_text :: "string \<Rightarrow> string \<Rightarrow> (string \<times> string) option" where
  "split_text p [] = (if p = [] then Some ([], []) else None)"
| "split_text p (c # s) =
     (if take (length p) (c # s) = p then Some ([], drop (length p) (c # s))
      else map_option (\<lambda>(before, rest). (c # before, rest)) (split_text p s))"

text \<open>\<open>None\<close> is the \<open>std::invalid_argument\<close> for a URL without a scheme.\<close>

definition split_url :: "string \<Rightarrow> (string \<times> string) option" where
  "split_url url =
     (case split_text ''://'' url of
        None \<Rightarrow> None
      | Some (scheme, rest) \<Rightarrow>
          (case dropWhile (\<lambda>c. c \<noteq> CHR ''/'') rest of
             [] \<Rightarrow> Some (url, ''/'')
           | path \<Rightarrow> Some (scheme @ ''://'' @ takeWhile (\<lambda>c. c \<noteq> CHR ''/'') rest, path)))"

section \<open>State\<close>

text \<open>The callbacks are whether they are set, the two timeouts milliseconds.\<close>

record ClientOptions =
  co_url :: string
  co_protocol_version :: string
  co_session_id :: "string option"
  co_connect_timeout :: int
  co_request_timeout :: int
  co_extra_headers :: "(string \<times> string) list"
  co_open_get_stream :: bool
  co_access_token :: "string option"
  co_on_unauthorized :: bool

definition ClientOptions_init :: "string \<Rightarrow> ClientOptions" where
  "ClientOptions_init url = \<lparr>co_url = url, co_protocol_version = ''2025-11-25'', co_session_id = None,
     co_connect_timeout = 10000, co_request_timeout = 30000, co_extra_headers = [],
     co_open_get_stream = True, co_access_token = None, co_on_unauthorized = False\<rparr>"

text \<open>
  \<open>ct_worker\<close> and \<open>ct_get\<close>: whether the two threads run. The last four fields log the calls of
  \<open>on_message_\<close>, \<open>on_error_\<close>, \<open>on_unauthorized\<close> and \<open>on_close_\<close>.
\<close>

record HttpClientTransport =
  ct_base :: string
  ct_path :: string
  ct_started :: bool
  ct_closed :: bool
  ct_close_fired :: bool
  ct_out :: "string list"
  ct_worker :: bool
  ct_get :: bool
  ct_session_id :: "string option"
  ct_last_event_id :: string
  ct_next_retry_ms :: "int option"
  ct_access_token :: string
  ct_auth_callback_armed :: bool
  ct_on_message :: bool
  ct_on_error :: bool
  ct_on_close :: bool
  ct_messages :: "string list"
  ct_errors :: "error_code list"
  ct_alerts :: "(int \<times> string) list"
  ct_on_close_calls :: nat

definition client_new :: "ClientOptions \<Rightarrow> HttpClientTransport option" where
  "client_new opts =
     (case split_url (co_url opts) of
        None \<Rightarrow> None
      | Some (base, path) \<Rightarrow> Some \<lparr>ct_base = base, ct_path = path, ct_started = False, ct_closed = False,
          ct_close_fired = False, ct_out = [], ct_worker = False, ct_get = False,
          ct_session_id = co_session_id opts, ct_last_event_id = [], ct_next_retry_ms = None,
          ct_access_token = (case co_access_token opts of Some t \<Rightarrow> t | None \<Rightarrow> []),
          ct_auth_callback_armed = True, ct_on_message = False, ct_on_error = False,
          ct_on_close = False, ct_messages = [], ct_errors = [], ct_alerts = [],
          ct_on_close_calls = 0\<rparr>)"

text \<open>The seconds and microseconds that a timeout is handed to the library as.\<close>

definition timeout_parts :: "int \<Rightarrow> int \<times> int" where
  "timeout_parts ms = (ms sdiv 1000, (ms smod 1000) * 1000)"

definition client_on_message :: "HttpClientTransport \<Rightarrow> HttpClientTransport" where
  "client_on_message t = t\<lparr>ct_on_message := True\<rparr>"

definition client_on_error :: "HttpClientTransport \<Rightarrow> HttpClientTransport" where
  "client_on_error t = t\<lparr>ct_on_error := True\<rparr>"

definition client_on_close :: "HttpClientTransport \<Rightarrow> HttpClientTransport" where
  "client_on_close t = t\<lparr>ct_on_close := True\<rparr>"

definition client_is_open :: "HttpClientTransport \<Rightarrow> bool" where
  "client_is_open t \<longleftrightarrow> ct_started t \<and> \<not> ct_closed t"

definition set_access_token :: "string \<Rightarrow> HttpClientTransport \<Rightarrow> HttpClientTransport" where
  "set_access_token token t = t\<lparr>ct_access_token := token\<rparr>"

section \<open>Callbacks\<close>

text \<open>Exceptions of the callbacks are logged.\<close>

definition deliver_frame :: "string \<Rightarrow> HttpClientTransport \<Rightarrow> HttpClientTransport" where
  "deliver_frame raw t = (if ct_on_message t then t\<lparr>ct_messages := ct_messages t @ [raw]\<rparr> else t)"

definition deliver_error :: "error_code \<Rightarrow> HttpClientTransport \<Rightarrow> HttpClientTransport" where
  "deliver_error ec t = (if ct_on_error t then t\<lparr>ct_errors := ct_errors t @ [ec]\<rparr> else t)"

definition fire_close :: "HttpClientTransport \<Rightarrow> HttpClientTransport" where
  "fire_close t =
     (if ct_close_fired t then t
      else t\<lparr>ct_close_fired := True,
             ct_on_close_calls := ct_on_close_calls t + (if ct_on_close t then 1 else 0)\<rparr>)"

definition alert :: "int \<Rightarrow> string option \<Rightarrow> HttpClientTransport \<Rightarrow> HttpClientTransport" where
  "alert status www t =
     t\<lparr>ct_alerts := ct_alerts t @ [(status, case www of Some c \<Rightarrow> c | None \<Rightarrow> [])]\<rparr>"

section \<open>Responses to a POST\<close>

text \<open>\<open>hp_header\<close> is \<open>headers.find\<close>.\<close>

record HttpReply =
  hp_status :: int
  hp_header :: "string \<Rightarrow> string option"
  hp_body :: string

definition auth_header :: "HttpClientTransport \<Rightarrow> (string \<times> string) list" where
  "auth_header t =
     (if ct_access_token t \<noteq> [] then [(''Authorization'', ''Bearer '' @ ct_access_token t)] else [])"

definition post_headers :: "ClientOptions \<Rightarrow> HttpClientTransport \<Rightarrow> (string \<times> string) list" where
  "post_headers opts t =
     [(''Accept'', ''application/json, text/event-stream''),
      (''MCP-Protocol-Version'', co_protocol_version opts)] @
     (case ct_session_id t of Some sid \<Rightarrow> [(''Mcp-Session-Id'', sid)] | None \<Rightarrow> []) @
     auth_header t @ co_extra_headers opts"

definition capture_session :: "HttpReply \<Rightarrow> HttpClientTransport \<Rightarrow> HttpClientTransport" where
  "capture_session r t =
     (case hp_header r ''Mcp-Session-Id'' of
        None \<Rightarrow> t
      | Some sid \<Rightarrow> if sid \<noteq> [] then t\<lparr>ct_session_id := Some sid\<rparr> else t)"

text \<open>The compare-and-exchange on \<open>auth_callback_armed_\<close>, and the callback.\<close>

definition unauthorized :: "ClientOptions \<Rightarrow> HttpReply \<Rightarrow> HttpClientTransport \<Rightarrow> HttpClientTransport" where
  "unauthorized opts r t =
     (if co_on_unauthorized opts \<and> ct_auth_callback_armed t
      then alert (hp_status r) (hp_header r ''WWW-Authenticate'') (t\<lparr>ct_auth_callback_armed := False\<rparr>)
      else t)"

definition note_event_id :: "SseEvent \<Rightarrow> HttpClientTransport \<Rightarrow> HttpClientTransport" where
  "note_event_id se t =
     (case se_id se of
        None \<Rightarrow> t
      | Some i \<Rightarrow> if i \<noteq> [] then t\<lparr>ct_last_event_id := i\<rparr> else t)"

definition deliver_data :: "SseEvent \<Rightarrow> HttpClientTransport \<Rightarrow> HttpClientTransport" where
  "deliver_data se t = (if se_data se \<noteq> [] then deliver_frame (se_data se) t else t)"

definition post_event :: "SseEvent \<Rightarrow> HttpClientTransport \<Rightarrow> HttpClientTransport" where
  "post_event se t = deliver_data se (note_event_id se t)"

definition deliver_body :: "HttpReply \<Rightarrow> HttpClientTransport \<Rightarrow> HttpClientTransport" where
  "deliver_body r t =
     (let ct = (case hp_header r ''Content-Type'' of Some c \<Rightarrow> c | None \<Rightarrow> [])
      in if contains_text ''text/event-stream'' ct
         then fold post_event (fst (drain_sse (hp_body r))) t
         else deliver_frame (hp_body r) t)"

text \<open>\<open>process_send\<close> from the response on.\<close>

definition process_reply :: "ClientOptions \<Rightarrow> HttpReply option \<Rightarrow> HttpClientTransport \<Rightarrow> HttpClientTransport" where
  "process_reply opts res t =
     (case res of
        None \<Rightarrow> deliver_error Ec_io_error t
      | Some r \<Rightarrow>
          (let t = capture_session r t
           in if hp_status r = 202 then t\<lparr>ct_auth_callback_armed := True\<rparr>
              else if hp_status r = 401 \<or> hp_status r = 403
              then deliver_error Ec_permission_denied (unauthorized opts r t)
              else if hp_status r < 200 \<or> hp_status r \<ge> 300 then deliver_error Ec_protocol_error t
              else deliver_body r (t\<lparr>ct_auth_callback_armed := True\<rparr>)))"

section \<open>The GET stream\<close>

definition get_headers :: "ClientOptions \<Rightarrow> string \<Rightarrow> HttpClientTransport \<Rightarrow> (string \<times> string) list" where
  "get_headers opts sid t =
     [(''Accept'', ''text/event-stream''), (''MCP-Protocol-Version'', co_protocol_version opts),
      (''Mcp-Session-Id'', sid)] @
     auth_header t @
     (if ct_last_event_id t \<noteq> [] then [(''Last-Event-ID'', ct_last_event_id t)] else []) @
     co_extra_headers opts"

definition note_retry :: "SseEvent \<Rightarrow> HttpClientTransport \<Rightarrow> HttpClientTransport" where
  "note_retry se t = (case se_retry_ms se of None \<Rightarrow> t | Some v \<Rightarrow> t\<lparr>ct_next_retry_ms := Some v\<rparr>)"

definition get_event :: "SseEvent \<Rightarrow> HttpClientTransport \<Rightarrow> HttpClientTransport" where
  "get_event se t = deliver_data se (note_retry se (note_event_id se t))"

text \<open>The content receiver: the buffer, and whether the download goes on.\<close>

definition receive_chunk :: "string \<Rightarrow> string \<Rightarrow> HttpClientTransport \<Rightarrow> bool \<times> string \<times> HttpClientTransport" where
  "receive_chunk chunk buf t =
     (if ct_closed t then (False, buf, t)
      else
        let (ses, buf) = drain_sse (buf @ chunk)
        in (True, buf, fold get_event ses t))"

fun receive_chunks :: "string list \<Rightarrow> string \<Rightarrow> HttpClientTransport \<Rightarrow> string \<times> HttpClientTransport" where
  "receive_chunks [] buf t = (buf, t)"
| "receive_chunks (chunk # chunks) buf t =
     (case receive_chunk chunk buf t of
        (False, buf, t) \<Rightarrow> (buf, t)
      | (True, buf, t) \<Rightarrow> receive_chunks chunks buf t)"

definition retry_delay :: "int option \<Rightarrow> int" where
  "retry_delay next =
     (case next of
        None \<Rightarrow> 200
      | Some v \<Rightarrow> let v = (if v < 50 then 50 else v); v = (if v > 60000 then 60000 else v) in v)"

text \<open>
  What follows a GET that has ended with \<open>res\<close>: the delay before the next one, or \<open>None\<close> when the
  thread returns.
\<close>

definition after_get ::
    "ClientOptions \<Rightarrow> HttpReply option \<Rightarrow> HttpClientTransport \<Rightarrow> int option \<times> HttpClientTransport" where
  "after_get opts res t =
     (case res of
        Some r \<Rightarrow>
          if hp_status r = 405 then (None, t)
          else if hp_status r = 401 \<or> hp_status r = 403
          then (None, if co_on_unauthorized opts
                      then alert (hp_status r) (hp_header r ''WWW-Authenticate'') t else t)
          else if hp_status r = 404 then (None, t\<lparr>ct_session_id := None\<rparr>)
          else if ct_closed t then (None, t)
          else (Some (retry_delay (ct_next_retry_ms t)), t)
      | None \<Rightarrow>
          if ct_closed t then (None, t) else (Some (retry_delay (ct_next_retry_ms t)), t))"

text \<open>
  \<open>run_get_stream\<close> over the GETs that end while it runs, each with its chunks and its result: the
  headers of each GET and the delays. The list ends while the thread waits for a session id, for
  the library or for a delay to pass.
\<close>

fun run_get_stream ::
    "ClientOptions \<Rightarrow> (string list \<times> HttpReply option) list \<Rightarrow> HttpClientTransport \<Rightarrow>
     ((string \<times> string) list \<times> int option) list \<times> HttpClientTransport" where
  "run_get_stream opts [] t = ([], t)"
| "run_get_stream opts ((chunks, res) # gets) t =
     (if \<not> (ct_started t \<and> \<not> ct_closed t) then ([], t\<lparr>ct_get := False\<rparr>)
      else
        case ct_session_id t of
          None \<Rightarrow> ([], t)
        | Some sid \<Rightarrow>
            (let headers = get_headers opts sid t;
                 (buf, t) = receive_chunks chunks [] t
             in case after_get opts res t of
                  (None, t) \<Rightarrow> ([(headers, None)], t\<lparr>ct_get := False\<rparr>)
                | (Some delay, t) \<Rightarrow>
                    (let (trace, t) = run_get_stream opts gets t in ((headers, Some delay) # trace, t))))"

section \<open>Lifecycle\<close>

definition client_start :: "ClientOptions \<Rightarrow> HttpClientTransport \<Rightarrow> HttpClientTransport" where
  "client_start opts t =
     (if ct_started t then t
      else t\<lparr>ct_started := True, ct_closed := False, ct_close_fired := False, ct_worker := True,
             ct_get := co_open_get_stream opts\<rparr>)"

text \<open>\<open>send\<close>: the check, and the push that follows it.\<close>

definition send_check :: "HttpClientTransport \<Rightarrow> error_code option" where
  "send_check t = (if \<not> ct_started t \<or> ct_closed t then Some Ec_not_connected else None)"

definition push_out :: "string \<Rightarrow> HttpClientTransport \<Rightarrow> HttpClientTransport" where
  "push_out frame t = t\<lparr>ct_out := ct_out t @ [frame]\<rparr>"

definition client_send :: "string \<Rightarrow> HttpClientTransport \<Rightarrow> error_code option \<times> HttpClientTransport" where
  "client_send frame t =
     (case send_check t of Some ec \<Rightarrow> (Some ec, t) | None \<Rightarrow> (None, push_out frame t))"

text \<open>One look of the worker into the queue: it waits, returns, or takes a frame.\<close>

datatype worker_look = Waits | Returns | Takes string

definition worker_loop :: "HttpClientTransport \<Rightarrow> worker_look \<times> HttpClientTransport" where
  "worker_loop t =
     (case ct_out t of
        [] \<Rightarrow> if ct_closed t then (Returns, t\<lparr>ct_worker := False\<rparr>) else (Waits, t)
      | frame # out \<Rightarrow> (Takes frame, t\<lparr>ct_out := out\<rparr>))"

text \<open>The headers of the DELETE that \<open>close\<close> sends, if there is a session.\<close>

definition delete_headers :: "ClientOptions \<Rightarrow> HttpClientTransport \<Rightarrow> (string \<times> string) list option" where
  "delete_headers opts t =
     (case ct_session_id t of
        None \<Rightarrow> None
      | Some sid \<Rightarrow>
          if sid = [] then None
          else Some ([(''MCP-Protocol-Version'', co_protocol_version opts), (''Mcp-Session-Id'', sid)] @
                     auth_header t @ co_extra_headers opts))"

text \<open>
  \<open>close\<close> of the call that closes: it announces the end of the session, waits until the worker has
  handed out the queue, the GET thread has returned and every POST is done (\<open>results\<close>, in the order in
  which they end), and fires the callback.
\<close>

definition client_close ::
    "ClientOptions \<Rightarrow> HttpReply option list \<Rightarrow> HttpClientTransport \<Rightarrow>
     (string \<times> string) list option \<times> HttpClientTransport" where
  "client_close opts results t =
     (if ct_closed t then (None, t\<lparr>ct_worker := False, ct_get := False\<rparr>)
      else
        let t = t\<lparr>ct_closed := True\<rparr>;
            delete = delete_headers opts t;
            t = t\<lparr>ct_worker := False, ct_get := False, ct_out := (if ct_worker t then [] else ct_out t)\<rparr>;
            t = fold (process_reply opts) results t
        in (delete, fire_close t))"

section \<open>Splitting\<close>

lemma split_text_join: "split_text p s = Some (before, rest) \<Longrightarrow> s = before @ p @ rest"
proof (induction s arbitrary: before)
  case (Cons c s)
  then show ?case by (auto split: if_splits) (metis append_take_drop_id)
qed (auto split: if_splits)

text \<open>The two parts are the URL, with a path that starts with a slash.\<close>

lemma split_url_join:
  assumes "split_url url = Some (base, path)"
  shows "hd path = CHR ''/'' \<and> (url = base @ path \<or> url = base \<and> path = ''/'')"
proof -
  from assms obtain scheme rest where sr: "split_text ''://'' url = Some (scheme, rest)"
    by (auto simp: split_url_def split: option.splits)
  show ?thesis
  proof (cases "dropWhile (\<lambda>c. c \<noteq> CHR ''/'') rest")
    case Nil
    with assms sr have "(url, ''/'') = (base, path)" by (simp add: split_url_def)
    from this [symmetric] show ?thesis by simp
  next
    case (Cons c cs)
    then have "c = CHR ''/''" by (metis (mono_tags) dropWhile_eq_Cons_conv)
    moreover have "(scheme @ ''://'' @ takeWhile (\<lambda>c. c \<noteq> CHR ''/'') rest, c # cs) = (base, path)"
      using assms sr Cons by (simp add: split_url_def)
    moreover have "rest = takeWhile (\<lambda>c. c \<noteq> CHR ''/'') rest @ c # cs"
      using takeWhile_dropWhile_id [of "\<lambda>c. c \<noteq> CHR ''/''" rest] Cons by simp
    ultimately show ?thesis using split_text_join [OF sr] by (metis append.assoc list.sel(1) prod.inject)
  qed
qed

section \<open>What a response changes\<close>

lemma callback_fields [simp]:
  "ct_messages (deliver_error ec t) = ct_messages t"
  "ct_alerts (deliver_error ec t) = ct_alerts t"
  "ct_auth_callback_armed (deliver_error ec t) = ct_auth_callback_armed t"
  "ct_session_id (deliver_error ec t) = ct_session_id t"
  "ct_alerts (deliver_frame f t) = ct_alerts t"
  "ct_auth_callback_armed (deliver_frame f t) = ct_auth_callback_armed t"
  "ct_session_id (deliver_frame f t) = ct_session_id t"
  "ct_errors (deliver_frame f t) = ct_errors t"
  "ct_closed (deliver_frame f t) = ct_closed t"
  "ct_on_message (deliver_frame f t) = ct_on_message t"
  by (simp_all add: deliver_error_def deliver_frame_def)

lemma capture_fields [simp]:
  "ct_alerts (capture_session r t) = ct_alerts t"
  "ct_auth_callback_armed (capture_session r t) = ct_auth_callback_armed t"
  "ct_messages (capture_session r t) = ct_messages t"
  "ct_errors (capture_session r t) = ct_errors t"
  "ct_on_message (capture_session r t) = ct_on_message t"
  by (simp_all add: capture_session_def split: option.split)

lemma event_fields [simp]:
  "ct_alerts (deliver_data se t) = ct_alerts t"
  "ct_auth_callback_armed (deliver_data se t) = ct_auth_callback_armed t"
  "ct_closed (deliver_data se t) = ct_closed t"
  "ct_on_message (deliver_data se t) = ct_on_message t"
  "ct_alerts (note_event_id se t) = ct_alerts t"
  "ct_auth_callback_armed (note_event_id se t) = ct_auth_callback_armed t"
  "ct_closed (note_event_id se t) = ct_closed t"
  "ct_on_message (note_event_id se t) = ct_on_message t"
  "ct_messages (note_event_id se t) = ct_messages t"
  "ct_closed (note_retry se t) = ct_closed t"
  "ct_on_message (note_retry se t) = ct_on_message t"
  "ct_messages (note_retry se t) = ct_messages t"
  by (simp_all add: deliver_data_def note_event_id_def note_retry_def split: option.split)

lemma post_events_fields [simp]:
  "ct_alerts (fold post_event ses t) = ct_alerts t"
  "ct_auth_callback_armed (fold post_event ses t) = ct_auth_callback_armed t"
  by (induction ses arbitrary: t) (simp_all add: post_event_def)

lemma deliver_body_fields [simp]:
  "ct_alerts (deliver_body r t) = ct_alerts t"
  "ct_auth_callback_armed (deliver_body r t) = ct_auth_callback_armed t"
  by (simp_all add: deliver_body_def Let_def)

section \<open>Alerts\<close>

definition denied :: "HttpReply option \<Rightarrow> bool" where
  "denied res = (case res of None \<Rightarrow> False | Some r \<Rightarrow> hp_status r = 401 \<or> hp_status r = 403)"

definition succeeded :: "HttpReply option \<Rightarrow> bool" where
  "succeeded res = (case res of None \<Rightarrow> False | Some r \<Rightarrow> 200 \<le> hp_status r \<and> hp_status r < 300)"

text \<open>No denial since the last success: the last result that is either is a success.\<close>

definition quiet :: "bool \<Rightarrow> HttpReply option list \<Rightarrow> bool" where
  "quiet armed rs =
     (let ds = filter (\<lambda>r. denied r \<or> succeeded r) rs
      in (case ds of [] \<Rightarrow> armed | d # ds' \<Rightarrow> succeeded (last ds)))"

text \<open>The denials that open a batch: nothing was denied since the last success.\<close>

definition alert_of :: "HttpReply option \<Rightarrow> (int \<times> string) list" where
  "alert_of res =
     (case res of
        Some r \<Rightarrow> [(hp_status r, case hp_header r ''WWW-Authenticate'' of Some c \<Rightarrow> c | None \<Rightarrow> [])]
      | None \<Rightarrow> [])"

definition alerting :: "bool \<Rightarrow> HttpReply option list \<Rightarrow> (int \<times> string) list" where
  "alerting armed rs =
     concat (map (\<lambda>i. if denied (rs ! i) \<and> quiet armed (take i rs) then alert_of (rs ! i) else [])
       [0..<length rs])"

lemma process_reply_armed:
  assumes "co_on_unauthorized opts"
  shows "ct_auth_callback_armed (process_reply opts res t) \<longleftrightarrow>
    succeeded res \<or> ct_auth_callback_armed t \<and> \<not> denied res"
  using assms
  by (auto simp: process_reply_def succeeded_def denied_def unauthorized_def alert_def Let_def
      split: option.split)

lemma process_reply_alerts:
  assumes "co_on_unauthorized opts"
  shows "ct_alerts (process_reply opts res t) = ct_alerts t @
    (if denied res \<and> ct_auth_callback_armed t then alert_of res else [])"
  using assms
  by (auto simp: process_reply_def denied_def unauthorized_def alert_def alert_of_def Let_def
      split: option.split)

lemma not_denied_succeeded: "succeeded r \<Longrightarrow> \<not> denied r"
  by (auto simp: succeeded_def denied_def split: option.splits)

lemma quiet_snoc:
  "quiet armed (rs @ [r]) \<longleftrightarrow> succeeded r \<or> quiet armed rs \<and> \<not> denied r"
  using not_denied_succeeded [of r]
  by (cases "filter (\<lambda>r. denied r \<or> succeeded r) rs") (auto simp: quiet_def)

lemma armed_after:
  assumes "co_on_unauthorized opts"
  shows "ct_auth_callback_armed (fold (process_reply opts) rs t) \<longleftrightarrow> quiet (ct_auth_callback_armed t) rs"
proof (induction rs rule: rev_induct)
  case Nil
  show ?case by (simp add: quiet_def)
next
  case (snoc r rs)
  then show ?case by (simp add: process_reply_armed [OF assms] quiet_snoc)
qed

lemma alerting_snoc:
  "alerting armed (rs @ [r]) =
     alerting armed rs @ (if denied r \<and> quiet armed rs then alert_of r else [])"
proof -
  have "map (\<lambda>i. if denied ((rs @ [r]) ! i) \<and> quiet armed (take i (rs @ [r])) then alert_of ((rs @ [r]) ! i) else [])
      [0..<length rs] =
    map (\<lambda>i. if denied (rs ! i) \<and> quiet armed (take i rs) then alert_of (rs ! i) else []) [0..<length rs]"
    by (rule map_cong) (simp_all add: nth_append)
  moreover have "[0..<length (rs @ [r])] = [0..<length rs] @ [length rs]" by simp
  ultimately show ?thesis unfolding alerting_def by (simp only: map_append concat_append) simp
qed

lemma alerts_after:
  assumes "co_on_unauthorized opts"
  shows "ct_alerts (fold (process_reply opts) rs t) =
    ct_alerts t @ alerting (ct_auth_callback_armed t) rs"
proof (induction rs rule: rev_induct)
  case Nil
  show ?case by (simp add: alerting_def)
next
  case (snoc r rs)
  then show ?case
    by (simp add: process_reply_alerts [OF assms] alerting_snoc armed_after [OF assms])
qed

section \<open>Streams\<close>

lemma receive_chunks_drain:
  assumes "\<not> ct_closed t"
  shows "receive_chunks chunks buf t =
    (snd (drain_chunks buf chunks), fold get_event (fst (drain_chunks buf chunks)) t)"
  using assms
proof (induction chunks arbitrary: buf t)
  case (Cons chunk chunks)
  have "\<not> ct_closed (fold get_event ses t)" for ses
    using Cons.prems by (induction ses arbitrary: t) (simp_all add: get_event_def)
  with Cons show ?case
    by (simp add: receive_chunk_def Let_def case_prod_unfold)
qed simp

lemma get_events_deliver:
  assumes "ct_on_message t" "list_all sse_sendable fs"
  shows "ct_messages (fold get_event (map (\<lambda>f. SseEvent_init\<lparr>se_data := f\<rparr>) fs) t) = ct_messages t @ fs"
  using assms
proof (induction fs arbitrary: t)
  case (Cons f fs)
  have "get_event (SseEvent_init\<lparr>se_data := f\<rparr>) t = deliver_frame f t"
    using Cons.prems
    by (simp add: get_event_def deliver_data_def note_retry_def note_event_id_def SseEvent_init_def
        sse_sendable_def)
  then show ?case using Cons by (simp add: deliver_frame_def)
qed simp

lemma deliver_frame_stream [simp]:
  "ct_last_event_id (deliver_frame f t) = ct_last_event_id t"
  "ct_next_retry_ms (deliver_frame f t) = ct_next_retry_ms t"
  "ct_started (deliver_frame f t) = ct_started t"
  by (simp_all add: deliver_frame_def)

section \<open>Waiting\<close>

lemma retry_delay_bounds: "50 \<le> retry_delay next \<and> retry_delay next \<le> 60000"
  by (simp add: retry_delay_def Let_def split: option.split)

lemma after_get_cases:
  assumes "after_get opts res t = (d, t')"
  shows "d = None \<or> d = Some (retry_delay (ct_next_retry_ms t)) \<and> t' = t"
  using assms by (auto simp: after_get_def split: option.splits if_splits)

text \<open>No GET follows one after which the thread returns.\<close>

fun well_paced :: "('a \<times> int option) list \<Rightarrow> bool" where
  "well_paced [] \<longleftrightarrow> True"
| "well_paced ((h, None) # trace) \<longleftrightarrow> trace = []"
| "well_paced ((h, Some d) # trace) \<longleftrightarrow> 50 \<le> d \<and> d \<le> 60000 \<and> well_paced trace"

lemma run_get_stream_paced: "well_paced (fst (run_get_stream opts gets t))"
proof (induction opts gets t rule: run_get_stream.induct)
  case (2 opts chunks res gets t)
  show ?case
  proof (cases "ct_started t \<and> \<not> ct_closed t \<and> ct_session_id t \<noteq> None")
    case False
    then show ?thesis by (auto split: option.split)
  next
    case True
    then obtain sid where sid: "ct_session_id t = Some sid" by blast
    obtain buf t1 where r: "receive_chunks chunks [] t = (buf, t1)" by fastforce
    obtain d t2 where a: "after_get opts res t1 = (d, t2)" by fastforce
    show ?thesis
    proof (cases d)
      case None
      with True sid r a show ?thesis by simp
    next
      case (Some delay)
      moreover have "well_paced (fst (run_get_stream opts gets t2))"
        using 2(1) [OF _ sid refl r [symmetric] refl, of d t2 delay] True a Some by auto
      ultimately show ?thesis
        using True sid r a after_get_cases [OF a] retry_delay_bounds
        by (auto simp: Let_def case_prod_unfold)
    qed
  qed
qed simp

section \<open>Frames on their way out\<close>

text \<open>
  \<open>cc_checked\<close>: frames whose \<open>send\<close> has passed its check. \<open>cc_accepted\<close>, \<open>cc_posted\<close> and \<open>cc_late\<close>
  log the pushes, the POSTs that are done, and the pushes after the worker has returned (not part of
  the program).
\<close>

record ClientConfig =
  cc_transport :: HttpClientTransport
  cc_checked :: "string multiset"
  cc_inflight :: "string multiset"
  cc_closing :: bool
  cc_accepted :: "string multiset"
  cc_posted :: "string multiset"
  cc_late :: "string multiset"

definition ClientConfig_init :: "HttpClientTransport \<Rightarrow> ClientConfig" where
  "ClientConfig_init t = \<lparr>cc_transport = t, cc_checked = {#}, cc_inflight = {#}, cc_closing = False,
     cc_accepted = {#}, cc_posted = {#}, cc_late = {#}\<rparr>"

text \<open>\<open>closes\<close> is the exchange that \<open>close\<close> starts with, \<open>finishes\<close> the end of its waiting.\<close>

inductive client_step :: "ClientOptions \<Rightarrow> ClientConfig \<Rightarrow> ClientConfig \<Rightarrow> bool"
  for opts :: ClientOptions where
  starts: "client_step opts c (c\<lparr>cc_transport := client_start opts (cc_transport c)\<rparr>)"
| checks: "send_check (cc_transport c) = None \<Longrightarrow>
    client_step opts c (c\<lparr>cc_checked := add_mset f (cc_checked c)\<rparr>)"
| pushes: "f \<in># cc_checked c \<Longrightarrow>
    client_step opts c (c\<lparr>cc_checked := cc_checked c - {#f#},
      cc_transport := push_out f (cc_transport c), cc_accepted := add_mset f (cc_accepted c),
      cc_late := (if ct_worker (cc_transport c) then cc_late c else add_mset f (cc_late c))\<rparr>)"
| takes: "ct_worker (cc_transport c) \<Longrightarrow> worker_loop (cc_transport c) = (Takes f, t) \<Longrightarrow>
    client_step opts c (c\<lparr>cc_transport := t, cc_inflight := add_mset f (cc_inflight c)\<rparr>)"
| returns: "ct_worker (cc_transport c) \<Longrightarrow> worker_loop (cc_transport c) = (Returns, t) \<Longrightarrow>
    client_step opts c (c\<lparr>cc_transport := t\<rparr>)"
| posts: "f \<in># cc_inflight c \<Longrightarrow>
    client_step opts c (c\<lparr>cc_transport := process_reply opts res (cc_transport c),
      cc_inflight := cc_inflight c - {#f#}, cc_posted := add_mset f (cc_posted c)\<rparr>)"
| gets: "receive_chunks chunks buf (cc_transport c) = (buf', t) \<Longrightarrow>
    client_step opts c (c\<lparr>cc_transport := t\<rparr>)"
| got: "after_get opts res (cc_transport c) = (d, t) \<Longrightarrow>
    client_step opts c (c\<lparr>cc_transport := t\<lparr>ct_get := (d \<noteq> None)\<rparr>\<rparr>)"
| closes: "\<not> ct_closed (cc_transport c) \<Longrightarrow>
    client_step opts c (c\<lparr>cc_transport := (cc_transport c)\<lparr>ct_closed := True\<rparr>, cc_closing := True\<rparr>)"
| finishes: "cc_closing c \<Longrightarrow> \<not> ct_worker (cc_transport c) \<Longrightarrow> cc_inflight c = {#} \<Longrightarrow>
    client_step opts c (c\<lparr>cc_transport := fire_close (cc_transport c), cc_closing := False\<rparr>)"

inductive client_reachable :: "ClientOptions \<Rightarrow> ClientConfig \<Rightarrow> bool" for opts :: ClientOptions where
  initial: "client_new opts = Some t \<Longrightarrow> client_reachable opts (ClientConfig_init t)"
| step: "client_reachable opts c \<Longrightarrow> client_step opts c c' \<Longrightarrow> client_reachable opts c'"

definition client_inv :: "ClientConfig \<Rightarrow> bool" where
  "client_inv c \<longleftrightarrow>
     cc_accepted c = mset (ct_out (cc_transport c)) + cc_inflight c + cc_posted c \<and>
     (if ct_worker (cc_transport c) then cc_late c = {#} else mset (ct_out (cc_transport c)) = cc_late c) \<and>
     (\<not> ct_started (cc_transport c) \<longrightarrow> \<not> ct_worker (cc_transport c) \<and> cc_accepted c = {#} \<and>
        cc_checked c = {#} \<and> cc_late c = {#})"

definition same_queue :: "HttpClientTransport \<Rightarrow> HttpClientTransport \<Rightarrow> bool" where
  "same_queue t t' \<longleftrightarrow> ct_out t' = ct_out t \<and> ct_worker t' = ct_worker t \<and> ct_started t' = ct_started t"

lemma same_queue_refl [simp]: "same_queue t t"
  and same_queue_trans: "same_queue t t' \<Longrightarrow> same_queue t' t'' \<Longrightarrow> same_queue t t''"
  by (simp_all add: same_queue_def)

lemma same_queue_callbacks:
  "same_queue t (deliver_error ec t)" "same_queue t (deliver_frame f t)" "same_queue t (fire_close t)"
  "same_queue t (alert st www t)" "same_queue t (capture_session r t)" "same_queue t (unauthorized opts r t)"
  "same_queue t (post_event se t)" "same_queue t (get_event se t)"
  by (simp_all add: same_queue_def deliver_error_def deliver_frame_def fire_close_def alert_def
      capture_session_def unauthorized_def post_event_def get_event_def deliver_data_def note_event_id_def
      note_retry_def split: option.split)

lemma same_queue_fold:
  "(\<And>x t. same_queue t (f x t)) \<Longrightarrow> same_queue t (fold f xs t)"
  by (induction xs arbitrary: t) (auto intro: same_queue_trans)

lemma same_queue_body: "same_queue t (deliver_body r t)"
  by (simp add: deliver_body_def Let_def same_queue_fold same_queue_callbacks)

lemma same_queue_reply: "same_queue t (process_reply opts res t)"
proof (cases res)
  case None
  then show ?thesis by (simp add: process_reply_def same_queue_callbacks)
next
  case (Some r)
  have "same_queue t (capture_session r t)" by (rule same_queue_callbacks)
  moreover have "same_queue (capture_session r t) (capture_session r t\<lparr>ct_auth_callback_armed := True\<rparr>)"
    by (simp add: same_queue_def)
  moreover have "same_queue t' (deliver_error ec (unauthorized opts r t'))" for ec t'
    by (rule same_queue_trans; rule same_queue_callbacks)
  ultimately show ?thesis
    using Some same_queue_body same_queue_callbacks(1)
    by (auto simp: process_reply_def Let_def intro: same_queue_trans)
qed

lemma same_queue_chunks: "receive_chunks chunks buf t = (buf', t') \<Longrightarrow> same_queue t t'"
proof (induction chunks arbitrary: buf t)
  case (Cons chunk chunks)
  obtain go buf1 t1 where r: "receive_chunk chunk buf t = (go, buf1, t1)" using prod_cases3 by blast
  then have "same_queue t t1"
    by (auto simp: receive_chunk_def Let_def same_queue_fold same_queue_callbacks split: if_splits prod.splits)
  with Cons r show ?case by (cases go) (auto intro: same_queue_trans)
qed simp

lemma same_queue_got: "after_get opts res t = (d, t') \<Longrightarrow> same_queue t t'"
  by (auto simp: after_get_def same_queue_callbacks split: option.splits if_splits)
    (auto simp: same_queue_def)

lemma client_inv_same:
  "same_queue (cc_transport c) t \<Longrightarrow> client_inv c \<Longrightarrow> client_inv (c\<lparr>cc_transport := t\<rparr>)"
  by (auto simp: client_inv_def same_queue_def)

lemma client_inv_step: "client_step opts c c' \<Longrightarrow> client_inv c \<Longrightarrow> client_inv c'"
proof (induction rule: client_step.induct)
  case (posts f c res)
  from same_queue_reply [of "cc_transport c" opts res] posts show ?case
    by (auto simp: client_inv_def same_queue_def)
next
  case (gets chunks buf c buf' t)
  from same_queue_chunks [OF gets(1)] gets(2) show ?case by (rule client_inv_same)
next
  case (got res c d t)
  from same_queue_got [OF got(1)] got(2) show ?case by (auto simp: client_inv_def same_queue_def)
next
  case (finishes c)
  then show ?case
    using same_queue_callbacks(3) [of "cc_transport c"] by (auto simp: client_inv_def same_queue_def)
qed (auto simp: client_inv_def client_start_def send_check_def push_out_def worker_loop_def
    split: if_splits list.splits)

lemma client_inv_reachable: "client_reachable opts c \<Longrightarrow> client_inv c"
proof (induction rule: client_reachable.induct)
  case (initial t)
  then show ?case
    by (auto simp: client_inv_def ClientConfig_init_def client_new_def split: option.splits)
qed (rule client_inv_step)

section \<open>A POST and its response\<close>

text \<open>What the client's library makes of a response of the host, and the host's of a POST.\<close>

definition reply_of :: "HttpResponse \<Rightarrow> HttpReply" where
  "reply_of res =
     \<lparr>hp_status = (case hr_status res of Some n \<Rightarrow> n | None \<Rightarrow> 200),
      hp_header = map_of (hr_headers res @
        (case hr_content res of Some (body, ty) \<Rightarrow> [(''Content-Type'', ty)] | None \<Rightarrow> [])),
      hp_body = (case hr_content res of Some (body, ty) \<Rightarrow> body | None \<Rightarrow> [])\<rparr>"

definition request_of :: "(string \<times> string) list \<Rightarrow> string \<Rightarrow> HttpRequest" where
  "request_of headers body =
     \<lparr>hq_header = (\<lambda>name. map snd (filter (\<lambda>(k, v). k = name) headers)), hq_body = body\<rparr>"

text \<open>The host's answer to a POST whose promise was settled with \<open>f\<close>.\<close>

definition answered_response :: "string \<Rightarrow> string \<Rightarrow> HttpResponse" where
  "answered_response sid f =
     post_finish [] (Some (Reply f)) (set_header ''Mcp-Session-Id'' sid HttpResponse_init)"

lemma reply_of_answer:
  "hp_status (reply_of (answered_response sid f)) = 200"
  "hp_header (reply_of (answered_response sid f)) ''Mcp-Session-Id'' = Some sid"
  "hp_header (reply_of (answered_response sid f)) ''Content-Type'' = Some ''application/json''"
  "hp_body (reply_of (answered_response sid f)) = f"
  by (simp_all add: reply_of_def answered_response_def post_finish_def set_header_def
      set_content_def HttpResponse_init_def)

lemma process_answer:
  assumes "sid \<noteq> []" "ct_on_message t"
  shows "process_reply opts (Some (reply_of (answered_response sid f))) t =
    t\<lparr>ct_session_id := Some sid, ct_auth_callback_armed := True, ct_messages := ct_messages t @ [f]\<rparr>"
proof -
  have "\<not> contains_text ''text/event-stream'' ''application/json''" by code_simp
  with assms show ?thesis
    by (simp add: process_reply_def capture_session_def reply_of_answer deliver_body_def
        deliver_frame_def)
qed

lemma next_post_session:
  assumes "ct_session_id t = Some sid" "sid \<noteq> []"
  shows "find_header (request_of (post_headers opts t) body) ''Mcp-Session-Id'' = Some sid"
    and "post_sid fresh (request_of (post_headers opts t) body) = sid"
  using assms by (simp_all add: post_sid_def find_header_def request_of_def post_headers_def)

section \<open>Properties\<close>

text \<open>
  The application is alerted once per batch of authorization failures. For every sequence of results of
  POSTs, in the order in which they are processed, \<open>on_unauthorized\<close> is called for exactly those denials (401 or
  403) before which nothing was denied since the last success (any 2xx), with the status and the challenge of the
  response.
\<close>

theorem one_alert_per_batch:
  assumes "co_on_unauthorized opts"
  shows "ct_alerts (fold (process_reply opts) rs t) =
    ct_alerts t @ alerting (ct_auth_callback_armed t) rs"
  by (rule alerts_after [OF assms])

definition sample_reply :: "int \<Rightarrow> HttpReply option" where
  "sample_reply n = Some \<lparr>hp_status = n, hp_header = (\<lambda>k. None), hp_body = ''{}''\<rparr>"

definition sample_client :: HttpClientTransport where
  "sample_client = the (client_new (ClientOptions_init ''http://h:1/mcp''))"

lemma one_alert_per_batch_witness:
  "ct_alerts (fold (process_reply (ClientOptions_init ''http://h:1/mcp''\<lparr>co_on_unauthorized := True\<rparr>))
       (map sample_reply [401, 403, 200, 500, 403]) sample_client) = [(401, []), (403, [])]"
proof -
  have "ct_alerts sample_client @ alerting (ct_auth_callback_armed sample_client)
      (map sample_reply [401, 403, 200, 500, 403]) = [(401, []), (403, [])]"
    by code_simp
  then show ?thesis by (subst one_alert_per_batch) simp_all
qed

text \<open>
  C28: Frames that were accepted are posted, once. In every interleaving of senders, worker, POSTs, GET stream
  and \<open>close\<close>, the frames pushed are those still queued, those being posted and those posted; the queue at a time
  when the worker has returned holds only frames that were pushed after it had, so when \<open>close\<close> can finish, every
  frame that was pushed in time has been posted, exactly once.
\<close>

theorem accepted_frames_posted:
  assumes "client_reachable opts c"
  shows "cc_accepted c = mset (ct_out (cc_transport c)) + cc_inflight c + cc_posted c \<and>
    (\<not> ct_worker (cc_transport c) \<and> cc_inflight c = {#} \<longrightarrow> cc_accepted c = cc_posted c + cc_late c) \<and>
    (ct_worker (cc_transport c) \<longrightarrow> cc_late c = {#})"
  using client_inv_reachable [OF assms] by (auto simp: client_inv_def)

lemma accepted_frames_posted_witness:
  "cc_accepted (ClientConfig_init sample_client) =
     mset (ct_out (cc_transport (ClientConfig_init sample_client))) +
     cc_inflight (ClientConfig_init sample_client) + cc_posted (ClientConfig_init sample_client)"
proof -
  have "client_new (ClientOptions_init ''http://h:1/mcp'') \<noteq> None" by code_simp
  then have "client_new (ClientOptions_init ''http://h:1/mcp'') = Some sample_client"
    by (simp add: sample_client_def)
  from accepted_frames_posted [OF client_reachable.initial [OF this]] show ?thesis by blast
qed

text \<open>
  The GET loop is paced and ends. Between two GETs the thread waits at least 50 and at most 60000
  milliseconds, whatever the server asks for; there is no further GET exactly after 401, 403, 404, 405 or
  \<open>close\<close>.
\<close>

theorem get_stream_paced:
  "well_paced (fst (run_get_stream opts gets t)) \<and>
   (fst (after_get opts res t) = None \<longleftrightarrow>
      ct_closed t \<or> (case res of None \<Rightarrow> False | Some r \<Rightarrow> hp_status r \<in> {401, 403, 404, 405}))"
  using run_get_stream_paced
  by (auto simp: after_get_def split: option.split)

text \<open>
  C33: Server-initiated frames reach the client in order. While the GET stream is open, the session sends
  requests and notifications, the host's content provider writes frames and keepalives, and the network cuts the
  bytes anywhere: the client's transport hands up exactly the frames that have left the host's queue, in the order
  in which they were sent, and the rest is still queued.
\<close>

theorem server_push_arrives:
  assumes "\<not> hs_closed t" "list_all (server_initiated J) (pushed es)"
    and "list_all sse_sendable (hs_get_queue t @ pushed es)"
    and "get_stream J es t = (outs, t')" "concat chunks = concat outs"
    and "\<not> ct_closed c" "ct_on_message c"
  shows "\<exists>fs. fs @ hs_get_queue t' = hs_get_queue t @ pushed es \<and>
    ct_messages (snd (receive_chunks chunks [] c)) = ct_messages c @ fs"
proof -
  from get_stream_events [OF assms(1-5)] obtain fs where
    "fs @ hs_get_queue t' = hs_get_queue t @ pushed es" "list_all sse_sendable fs"
    "drain_chunks [] chunks = (map (\<lambda>f. SseEvent_init\<lparr>se_data := f\<rparr>) fs, [])" by blast
  then show ?thesis
    using receive_chunks_drain [OF assms(6)] get_events_deliver [OF assms(7)] by auto
qed

definition push_run :: "string list \<times> HttpSessionTransport" where
  "push_run = get_stream jv_ops http_events http_open"

lemma server_push_arrives_witness:
  "\<exists>fs. fs @ hs_get_queue (snd push_run) = hs_get_queue http_open @ pushed http_events \<and>
    ct_messages (snd (receive_chunks (fst push_run) [] (sample_client\<lparr>ct_on_message := True\<rparr>))) =
      ct_messages (sample_client\<lparr>ct_on_message := True\<rparr>) @ fs"
proof (rule server_push_arrives)
  show "get_stream jv_ops http_events http_open = (fst push_run, snd push_run)"
    by (simp add: push_run_def)
  show "\<not> hs_closed http_open" by (rule http_open_fields)
  show "list_all (server_initiated jv_ops) (pushed http_events)"
    "list_all sse_sendable (hs_get_queue http_open @ pushed http_events)" by code_simp+
  show "\<not> ct_closed (sample_client\<lparr>ct_on_message := True\<rparr>)" by code_simp
qed simp_all

text \<open>
  A POST over HTTP and the session it belongs to. When the host answers a POST with the text \<open>f\<close> of its
  session, the client's transport hands up exactly that text and reports no error, it takes over the session id, and
  whatever it posts next is routed by the host to the same session.
\<close>

theorem http_session_continues:
  assumes "sid \<noteq> []" "ct_on_message t"
    and "process_reply opts (Some (reply_of (answered_response sid f))) t = t'"
  shows "ct_messages t' = ct_messages t @ [f] \<and> ct_errors t' = ct_errors t \<and>
    ct_session_id t' = Some sid \<and>
    (\<forall>body fresh initialize h n. map_of (ho_sessions h) sid = Some n \<longrightarrow>
       resolve_session (post_sid fresh (request_of (post_headers opts t') body)) initialize h = (Some n, h))"
proof -
  have t': "t' = t\<lparr>ct_session_id := Some sid, ct_auth_callback_armed := True,
      ct_messages := ct_messages t @ [f]\<rparr>"
    using process_answer [OF assms(1,2)] assms(3) by simp
  have "post_sid fresh (request_of (post_headers opts t') body) = sid" for fresh body
    using assms(1) by (intro next_post_session) (simp_all add: t')
  then show ?thesis using assms(1) by (simp add: t' resolve_session_def)
qed

lemma http_session_continues_witness:
  "ct_messages (process_reply (ClientOptions_init ''http://h:1/mcp'')
     (Some (reply_of (answered_response ''s'' ''{}''))) (sample_client\<lparr>ct_on_message := True\<rparr>)) = [''{}'']"
proof -
  have "ct_messages sample_client = []" by code_simp
  with http_session_continues [of "''s''" "sample_client\<lparr>ct_on_message := True\<rparr>"
      "ClientOptions_init ''http://h:1/mcp''" "''{}''", OF _ _ refl]
  show ?thesis by simp
qed

section \<open>Behaviours\<close>

text \<open>A transport that was closed does not start again.\<close>

theorem closed_client_stays_closed:
  "ct_started t \<Longrightarrow> ct_closed t \<Longrightarrow> client_start opts t = t \<and> fst (client_send f t) = Some Ec_not_connected"
  by (simp add: client_start_def client_send_def send_check_def)

text \<open>
  After a 404 on the GET stream the thread is gone: a new session id that a POST brings later, and
  another \<open>start\<close>, do not open the stream again.
\<close>

theorem get_stream_not_rearmed:
  assumes "ct_started t" "\<not> ct_closed t" "ct_session_id t = Some sid" "hp_status r = 404"
    and "run_get_stream opts ((chunks, Some r) # gets) t = (trace, t')"
  shows "\<not> ct_get t' \<and> ct_session_id t' = None \<and>
    \<not> ct_get (client_start opts' (process_reply opts res t'))"
proof -
  obtain buf t1 where r: "receive_chunks chunks [] t = (buf, t1)" by fastforce
  from same_queue_chunks [OF r] assms(1) have "ct_started t1" by (simp add: same_queue_def)
  moreover have t': "t' = t1\<lparr>ct_session_id := None, ct_get := False\<rparr>"
    using assms r by (simp add: after_get_def)
  moreover have "ct_get (process_reply opts res t') = ct_get t'"
  proof -
    have "ct_get (deliver_body q u) = ct_get u" for q u
    proof -
      have "ct_get (fold post_event ses u) = ct_get u" for ses
        by (induction ses arbitrary: u)
          (simp_all add: post_event_def deliver_data_def note_event_id_def deliver_frame_def
            split: option.split)
      then show ?thesis by (simp add: deliver_body_def deliver_frame_def Let_def)
    qed
    moreover have "ct_get (capture_session q u) = ct_get u" for q u
      by (simp add: capture_session_def split: option.split)
    ultimately show ?thesis
      by (simp add: process_reply_def deliver_error_def unauthorized_def alert_def Let_def
          split: option.split)
  qed
  moreover from same_queue_reply [of t' opts res] calculation(1,2)
  have "ct_started (process_reply opts res t')" by (simp add: same_queue_def)
  ultimately show ?thesis by (simp add: client_start_def)
qed

text \<open>The GET stream alerts the application whether or not the batch has been reported.\<close>

theorem get_alerts_again:
  "co_on_unauthorized opts \<Longrightarrow> hp_status r = 401 \<Longrightarrow>
     length (ct_alerts (snd (after_get opts (Some r) t))) = length (ct_alerts t) + 1 \<and>
     ct_auth_callback_armed (snd (after_get opts (Some r) t)) = ct_auth_callback_armed t"
  by (simp add: after_get_def alert_def)

text \<open>A 404 to a POST does not make the client forget its session.\<close>

theorem post_404_keeps_session:
  "hp_status r = 404 \<Longrightarrow> hp_header r ''Mcp-Session-Id'' = None \<Longrightarrow>
     ct_session_id (process_reply opts (Some r) t) = ct_session_id t"
  by (simp add: process_reply_def capture_session_def)

text \<open>A sender that passed its check before \<open>close\<close> can push its frame after the worker has gone.\<close>

theorem accepted_frame_lost:
  assumes "client_new opts = Some t"
  shows "\<exists>c. client_reachable opts c \<and> cc_accepted c = {#f#} \<and> cc_posted c = {#} \<and>
    cc_inflight c = {#} \<and> cc_late c = {#f#} \<and> \<not> ct_worker (cc_transport c)"
proof -
  note go = client_reachable.step
  note fields = ClientConfig_init_def client_start_def send_check_def push_out_def worker_loop_def
  have t: "\<not> ct_started t" "ct_out t = []"
    using assms by (auto simp: client_new_def split: option.splits)
  let ?t1 = "client_start opts t"
  let ?c1 = "ClientConfig_init ?t1"
  have 1: "client_reachable opts ?c1"
    using go [OF client_reachable.initial [OF assms] client_step.starts] by (simp add: ClientConfig_init_def)
  have 2: "client_reachable opts (?c1\<lparr>cc_checked := {#f#}\<rparr>)"
    using go [OF 1 client_step.checks [of _ _ f]] t by (simp add: fields)
  have 3: "client_reachable opts (?c1\<lparr>cc_checked := {#f#},
      cc_transport := ?t1\<lparr>ct_closed := True\<rparr>, cc_closing := True\<rparr>)"
    using go [OF 2 client_step.closes] t by (simp add: fields)
  have 4: "client_reachable opts (?c1\<lparr>cc_checked := {#f#},
      cc_transport := ?t1\<lparr>ct_closed := True, ct_worker := False\<rparr>, cc_closing := True\<rparr>)"
    using go [OF 3 client_step.returns] t by (simp add: fields)
  show ?thesis
    using go [OF 4 client_step.pushes [of f]] t
    by (intro exI conjI) (assumption | simp add: fields)+
qed

end
