(* ===== verification/Client.thy ===== *)
theory Client
  imports Server_Laws Wire
begin

text \<open>
  The \<open>Client\<close> of src/client.cpp: a session, the handlers it registers in it, and one function per
  request of the protocol. A request parks a promise in the session; the conversion of its result
  runs when the response arrives.

  Lemmas: the calls of a client against the handlers of a server come back with what the server's
  side returned; both sides agree on capabilities; a client without a session refuses everything.
\<close>

section \<open>State\<close>

text \<open>What the promise of a request resolves to.\<close>

datatype 'j client_result =
    R_void
  | R_json 'j
  | R_tools "'j ListToolsResult"
  | R_call "'j CallToolResult"
  | R_create_task CreateTaskResult
  | R_task Task
  | R_tasks ListTasksResult
  | R_resources "'j ListResourcesResult"
  | R_templates "'j ListResourceTemplatesResult"
  | R_read "'j ReadResourceResult"
  | R_prompts "'j ListPromptsResult"
  | R_prompt "'j GetPromptResult"
  | R_complete CompleteResult

text \<open>
  \<open>cli_session\<close>: the live session with its handler tables. The handlers that the client remembers
  are whether they are set: the functions themselves are in the tables.
\<close>

record ('j, 's) Client =
  cli_client_info :: "'j Implementation"
  cli_session :: "(('j, 's) HandlerTables \<times> ('j, 'j client_result) SessionState) option"
  cli_server :: "'j InitializeResult option"
  cli_connected :: bool
  cli_sampling_handler :: bool
  cli_roots_handler :: bool
  cli_elicitation_handler :: bool
  cli_elicitation_complete_handler :: bool
  cli_task_status_handler :: bool
  cli_capabilities_override :: "'j ClientCapabilities option"

definition Client_init :: "'j Implementation \<Rightarrow> ('j, 's) Client" where
  "Client_init info = \<lparr>cli_client_info = info, cli_session = None, cli_server = None,
     cli_connected = False, cli_sampling_handler = False, cli_roots_handler = False,
     cli_elicitation_handler = False, cli_elicitation_complete_handler = False,
     cli_task_status_handler = False, cli_capabilities_override = None\<rparr>"

text \<open>The transport, the session's default timeout, the clock and the number of the promise.\<close>

record ClientEnv =
  ce_send :: transport_send
  ce_default_timeout :: int
  ce_now :: int
  ce_future :: nat

section \<open>Connecting\<close>

text \<open>
  \<open>disconnect\<close> lets go of the session, which the caller closes with \<open>Session.session_close\<close>: the
  first component.
\<close>

definition client_disconnect ::
    "('j, 's) Client \<Rightarrow> (('j, 's) HandlerTables \<times> ('j, 'j client_result) SessionState) option \<times> ('j, 's) Client" where
  "client_disconnect cl =
     (if \<not> cli_connected cl then (None, cl)
      else (cli_session cl, cl\<lparr>cli_connected := False, cli_session := None, cli_server := None\<rparr>))"

definition client_connect ::
    "'j json_ops \<Rightarrow> bool \<Rightarrow> ('j, 's) Client \<Rightarrow>
     ('j exc + (('j, 's) HandlerTables \<times> ('j, 'j client_result) SessionState) option) \<times> ('j, 's) Client" where
  "client_connect J transport cl =
     (if \<not> transport then (Inl (Error J internal_error ''Client::connect: transport is null''), cl)
      else
        let (old, cl) = client_disconnect cl
        in (Inr old, cl\<lparr>cli_session := Some (HandlerTables_init, session_start SessionState_init),
                        cli_connected := True\<rparr>))"

definition client_not_connected :: "'j json_ops \<Rightarrow> 'j exc" where
  "client_not_connected J = Error J internal_error ''client not connected''"

section \<open>Requests\<close>

text \<open>\<open>acquire_session\<close> and \<open>send_request_for\<close>; the result is the frame that was sent, if it was.\<close>

definition send_request_for ::
    "'j json_ops \<Rightarrow> ClientEnv \<Rightarrow> string \<Rightarrow> 'j \<Rightarrow> ('j \<Rightarrow> 'j exc + 'j client_result) \<Rightarrow> ('j, 's) Client \<Rightarrow>
     ('j exc + string option) \<times> ('j, 's) Client" where
  "send_request_for J env method params convert cl =
     (case cli_session cl of
        None \<Rightarrow> (Inl (client_not_connected J), cl)
      | Some (t, s) \<Rightarrow>
          (let (s, frame) = register_pending J (ce_send env) (ce_default_timeout env) method params
                              (ce_future env) convert 0 (ce_now env) s
           in (Inr frame, cl\<lparr>cli_session := Some (t, s)\<rparr>)))"

text \<open>The notifications of the client: the error code, if the session is there.\<close>

definition notify_session ::
    "'j json_ops \<Rightarrow> ClientEnv \<Rightarrow> string \<Rightarrow> 'j \<Rightarrow> ('j, 's) Client \<Rightarrow> error_code option option" where
  "notify_session J env method params cl =
     (case cli_session cl of
        None \<Rightarrow> None
      | Some _ \<Rightarrow> Some (send_notification J (ce_send env) method params))"

definition list_tools ::
    "'j json_ops \<Rightarrow> ClientEnv \<Rightarrow> string option \<Rightarrow> ('j, 's) Client \<Rightarrow> ('j exc + string option) \<times> ('j, 's) Client" where
  "list_tools J env cursor cl =
     send_request_for J env ''tools/list'' (ListToolsRequestParams_to_json J \<lparr>ltp_cursor = cursor\<rparr>)
       (\<lambda>j. emap R_tools (ListToolsResult_from_json J j)) cl"

definition call_params :: "'j json_ops \<Rightarrow> string \<Rightarrow> 'j \<Rightarrow> TaskAugmentation option \<Rightarrow> 'j CallToolRequestParams" where
  "call_params J name arguments aug =
     \<lparr>ctp_name = name, ctp_arguments = (if j_is_null J arguments then None else Some arguments),
      ctp_task = aug\<rparr>"

definition call_tool ::
    "'j json_ops \<Rightarrow> ClientEnv \<Rightarrow> string \<Rightarrow> 'j \<Rightarrow> ('j, 's) Client \<Rightarrow> ('j exc + string option) \<times> ('j, 's) Client" where
  "call_tool J env name arguments cl =
     send_request_for J env ''tools/call''
       (CallToolRequestParams_to_json J (call_params J name arguments None))
       (\<lambda>j. emap R_call (CallToolResult_from_json J j)) cl"

definition call_tool_as_task ::
    "'j json_ops \<Rightarrow> ClientEnv \<Rightarrow> string \<Rightarrow> 'j \<Rightarrow> int64 option \<Rightarrow> ('j, 's) Client \<Rightarrow>
     ('j exc + string option) \<times> ('j, 's) Client" where
  "call_tool_as_task J env name arguments ttl_ms cl =
     send_request_for J env ''tools/call''
       (CallToolRequestParams_to_json J (call_params J name arguments (Some \<lparr>task_aug_ttl = ttl_ms\<rparr>)))
       (\<lambda>j. emap R_create_task (CreateTaskResult_from_json J j)) cl"

definition task_get ::
    "'j json_ops \<Rightarrow> ClientEnv \<Rightarrow> string \<Rightarrow> ('j, 's) Client \<Rightarrow> ('j exc + string option) \<times> ('j, 's) Client" where
  "task_get J env tid cl =
     send_request_for J env ''tasks/get'' (GetTaskRequestParams_to_json J \<lparr>gtp_task_id = tid\<rparr>)
       (\<lambda>j. emap R_task (Task_from_json J j)) cl"

definition task_result ::
    "'j json_ops \<Rightarrow> ClientEnv \<Rightarrow> string \<Rightarrow> ('j, 's) Client \<Rightarrow> ('j exc + string option) \<times> ('j, 's) Client" where
  "task_result J env tid cl =
     send_request_for J env ''tasks/result'' (GetTaskResultRequestParams_to_json J \<lparr>gtrp_task_id = tid\<rparr>)
       (\<lambda>j. Inr (R_json j)) cl"

definition task_list ::
    "'j json_ops \<Rightarrow> ClientEnv \<Rightarrow> string option \<Rightarrow> ('j, 's) Client \<Rightarrow> ('j exc + string option) \<times> ('j, 's) Client" where
  "task_list J env cursor cl =
     send_request_for J env ''tasks/list'' (ListTasksRequestParams_to_json J \<lparr>ltkp_cursor = cursor\<rparr>)
       (\<lambda>j. emap R_tasks (ListTasksResult_from_json J j)) cl"

definition task_cancel ::
    "'j json_ops \<Rightarrow> ClientEnv \<Rightarrow> string \<Rightarrow> ('j, 's) Client \<Rightarrow> ('j exc + string option) \<times> ('j, 's) Client" where
  "task_cancel J env tid cl =
     send_request_for J env ''tasks/cancel'' (CancelTaskRequestParams_to_json J \<lparr>cktp_task_id = tid\<rparr>)
       (\<lambda>j. emap R_task (Task_from_json J j)) cl"

definition list_resources ::
    "'j json_ops \<Rightarrow> ClientEnv \<Rightarrow> string option \<Rightarrow> ('j, 's) Client \<Rightarrow> ('j exc + string option) \<times> ('j, 's) Client" where
  "list_resources J env cursor cl =
     send_request_for J env ''resources/list'' (ListResourcesRequestParams_to_json J \<lparr>lrp_cursor = cursor\<rparr>)
       (\<lambda>j. emap R_resources (ListResourcesResult_from_json J j)) cl"

definition list_resource_templates ::
    "'j json_ops \<Rightarrow> ClientEnv \<Rightarrow> string option \<Rightarrow> ('j, 's) Client \<Rightarrow> ('j exc + string option) \<times> ('j, 's) Client" where
  "list_resource_templates J env cursor cl =
     send_request_for J env ''resources/templates/list''
       (ListResourceTemplatesRequestParams_to_json J \<lparr>lrtp_cursor = cursor\<rparr>)
       (\<lambda>j. emap R_templates (ListResourceTemplatesResult_from_json J j)) cl"

definition read_resource ::
    "'j json_ops \<Rightarrow> ClientEnv \<Rightarrow> string \<Rightarrow> ('j, 's) Client \<Rightarrow> ('j exc + string option) \<times> ('j, 's) Client" where
  "read_resource J env uri cl =
     send_request_for J env ''resources/read'' (ReadResourceRequestParams_to_json J \<lparr>rrp_uri = uri\<rparr>)
       (\<lambda>j. emap R_read (ReadResourceResult_from_json J j)) cl"

definition subscribe ::
    "'j json_ops \<Rightarrow> ClientEnv \<Rightarrow> string \<Rightarrow> ('j, 's) Client \<Rightarrow> ('j exc + string option) \<times> ('j, 's) Client" where
  "subscribe J env uri cl =
     send_request_for J env ''resources/subscribe'' (SubscribeRequestParams_to_json J \<lparr>sub_uri = uri\<rparr>)
       (\<lambda>j. Inr R_void) cl"

definition unsubscribe ::
    "'j json_ops \<Rightarrow> ClientEnv \<Rightarrow> string \<Rightarrow> ('j, 's) Client \<Rightarrow> ('j exc + string option) \<times> ('j, 's) Client" where
  "unsubscribe J env uri cl =
     send_request_for J env ''resources/unsubscribe'' (UnsubscribeRequestParams_to_json J \<lparr>unsub_uri = uri\<rparr>)
       (\<lambda>j. Inr R_void) cl"

definition list_prompts ::
    "'j json_ops \<Rightarrow> ClientEnv \<Rightarrow> string option \<Rightarrow> ('j, 's) Client \<Rightarrow> ('j exc + string option) \<times> ('j, 's) Client" where
  "list_prompts J env cursor cl =
     send_request_for J env ''prompts/list'' (ListPromptsRequestParams_to_json J \<lparr>lpp_cursor = cursor\<rparr>)
       (\<lambda>j. emap R_prompts (ListPromptsResult_from_json J j)) cl"

definition get_prompt ::
    "'j json_ops \<Rightarrow> ClientEnv \<Rightarrow> string \<Rightarrow> string_map option \<Rightarrow> ('j, 's) Client \<Rightarrow>
     ('j exc + string option) \<times> ('j, 's) Client" where
  "get_prompt J env name arguments cl =
     send_request_for J env ''prompts/get''
       (GetPromptRequestParams_to_json J \<lparr>gpp_name = name, gpp_arguments = arguments\<rparr>)
       (\<lambda>j. emap R_prompt (GetPromptResult_from_json J j)) cl"

definition ping ::
    "'j json_ops \<Rightarrow> ClientEnv \<Rightarrow> ('j, 's) Client \<Rightarrow> ('j exc + string option) \<times> ('j, 's) Client" where
  "ping J env cl = send_request_for J env ''ping'' (j_null J) (\<lambda>j. Inr R_void) cl"

definition set_log_level ::
    "'j json_ops \<Rightarrow> ClientEnv \<Rightarrow> LoggingLevel \<Rightarrow> ('j, 's) Client \<Rightarrow> ('j exc + string option) \<times> ('j, 's) Client" where
  "set_log_level J env level cl =
     send_request_for J env ''logging/setLevel'' (SetLevelRequestParams_to_json J \<lparr>slp_level = level\<rparr>)
       (\<lambda>j. Inr R_void) cl"

definition complete ::
    "'j json_ops \<Rightarrow> ClientEnv \<Rightarrow> CompletionReference \<Rightarrow> CompleteArgument \<Rightarrow> string_map option \<Rightarrow>
     ('j, 's) Client \<Rightarrow> ('j exc + string option) \<times> ('j, 's) Client" where
  "complete J env reference argument context_arguments cl =
     send_request_for J env ''completion/complete''
       (CompleteRequestParams_to_json J \<lparr>crp_reference = reference, crp_argument = argument,
          crp_context_arguments = context_arguments\<rparr>)
       (\<lambda>j. emap R_complete (CompleteResult_from_json J j)) cl"

section \<open>Notifications\<close>

text \<open>The error code of the transport; without a session an exception, or \<open>not_connected\<close>.\<close>

definition cancel_request ::
    "'j json_ops \<Rightarrow> ClientEnv \<Rightarrow> RequestId \<Rightarrow> string option \<Rightarrow> ('j, 's) Client \<Rightarrow> 'j exc + error_code option" where
  "cancel_request J env rid reason cl =
     (case notify_session J env ''notifications/cancelled''
             (CancelledNotificationParams_to_json J \<lparr>canc_request_id = Some rid, canc_reason = reason\<rparr>) cl of
        None \<Rightarrow> Inl (client_not_connected J)
      | Some ec \<Rightarrow> Inr ec)"

definition notify_roots_list_changed ::
    "'j json_ops \<Rightarrow> ClientEnv \<Rightarrow> ('j, 's) Client \<Rightarrow> error_code option" where
  "notify_roots_list_changed J env cl =
     (case notify_session J env ''notifications/roots/list_changed'' (j_null J) cl of
        None \<Rightarrow> Some Ec_not_connected
      | Some ec \<Rightarrow> ec)"

definition client_notify_elicitation_complete ::
    "'j json_ops \<Rightarrow> ClientEnv \<Rightarrow> string \<Rightarrow> ('j, 's) Client \<Rightarrow> error_code option" where
  "client_notify_elicitation_complete J env eid cl =
     (case notify_session J env ''notifications/elicitation/complete''
             (ElicitationCompleteNotificationParams_to_json J \<lparr>ecn_elicitation_id = eid\<rparr>) cl of
        None \<Rightarrow> Some Ec_not_connected
      | Some ec \<Rightarrow> ec)"

section \<open>Handlers\<close>

text \<open>
  What every setter does with the tables of the live session: without one it throws. The wrapper of
  a handler reads the params it is given; an unset handler clears the entry.
\<close>

definition with_tables ::
    "'j json_ops \<Rightarrow> (('j, 's) HandlerTables \<Rightarrow> ('j, 's) HandlerTables) \<Rightarrow> ('j, 's) Client \<Rightarrow>
     ('j exc + unit) \<times> ('j, 's) Client" where
  "with_tables J f cl =
     (case cli_session cl of
        None \<Rightarrow> (Inl (client_not_connected J), cl)
      | Some (t, s) \<Rightarrow> (Inr (), cl\<lparr>cli_session := Some (f t, s)\<rparr>))"

definition register_request ::
    "string \<Rightarrow> ('h \<Rightarrow> ('j, 's) req_handler) \<Rightarrow> 'h option \<Rightarrow> ('j, 's) HandlerTables \<Rightarrow> ('j, 's) HandlerTables" where
  "register_request method wrap handler t =
     (case handler of
        None \<Rightarrow> clear_request_handler method t
      | Some h \<Rightarrow> set_request_handler method (Some (wrap h)) t)"

definition register_notification ::
    "string \<Rightarrow> ('h \<Rightarrow> ('j, 's) note_handler) \<Rightarrow> 'h option \<Rightarrow> ('j, 's) HandlerTables \<Rightarrow> ('j, 's) HandlerTables" where
  "register_notification method wrap handler t =
     (case handler of
        None \<Rightarrow> clear_notification_handler method t
      | Some h \<Rightarrow> set_notification_handler method (Some (wrap h)) t)"

text \<open>The wrapper that drops null params and lets the exceptions of \<open>from_json\<close> pass.\<close>

definition typed_note ::
    "'j json_ops \<Rightarrow> ('j \<Rightarrow> 'j exc + 'a) \<Rightarrow> ('a \<Rightarrow> 's \<Rightarrow> ('j exc + unit) \<times> 's) \<Rightarrow> ('j, 's) note_handler" where
  "typed_note J get h params app =
     (if j_is_null J params then (Inr (), app)
      else case get params of Inl e \<Rightarrow> (Inl e, app) | Inr x \<Rightarrow> h x app)"

text \<open>The wrapper that also drops params that do not parse.\<close>

definition lenient_note ::
    "('j \<Rightarrow> bool) \<Rightarrow> ('j \<Rightarrow> 'j exc + 'a) \<Rightarrow> ('a \<Rightarrow> 's \<Rightarrow> ('j exc + unit) \<times> 's) \<Rightarrow> ('j, 's) note_handler" where
  "lenient_note skip get h params app =
     (if skip params then (Inr (), app)
      else
        case get params of
          Inl e \<Rightarrow> (if e = Undefined then Inl Undefined else Inr (), app)
        | Inr x \<Rightarrow> h x app)"

definition set_task_status_handler ::
    "'j json_ops \<Rightarrow> (Task \<Rightarrow> 's \<Rightarrow> ('j exc + unit) \<times> 's) option \<Rightarrow> ('j, 's) Client \<Rightarrow>
     ('j exc + unit) \<times> ('j, 's) Client" where
  "set_task_status_handler J handler cl =
     (if cli_session cl = None then (Inl (client_not_connected J), cl)
      else with_tables J (register_notification ''notifications/tasks/status''
             (lenient_note (j_is_null J) (Task_from_json J)) handler)
             (cl\<lparr>cli_task_status_handler := (handler \<noteq> None)\<rparr>))"

definition set_resource_updated_handler ::
    "'j json_ops \<Rightarrow> (ResourceUpdatedNotificationParams \<Rightarrow> 's \<Rightarrow> ('j exc + unit) \<times> 's) option \<Rightarrow>
     ('j, 's) Client \<Rightarrow> ('j exc + unit) \<times> ('j, 's) Client" where
  "set_resource_updated_handler J handler =
     with_tables J (register_notification ''notifications/resources/updated''
       (typed_note J (ResourceUpdatedNotificationParams_from_json J)) handler)"

definition set_resources_list_changed_handler ::
    "'j json_ops \<Rightarrow> ('s \<Rightarrow> ('j exc + unit) \<times> 's) option \<Rightarrow> ('j, 's) Client \<Rightarrow>
     ('j exc + unit) \<times> ('j, 's) Client" where
  "set_resources_list_changed_handler J handler =
     with_tables J (register_notification ''notifications/resources/list_changed''
       (\<lambda>h params. h) handler)"

definition set_prompts_list_changed_handler ::
    "'j json_ops \<Rightarrow> ('s \<Rightarrow> ('j exc + unit) \<times> 's) option \<Rightarrow> ('j, 's) Client \<Rightarrow>
     ('j exc + unit) \<times> ('j, 's) Client" where
  "set_prompts_list_changed_handler J handler =
     with_tables J (register_notification ''notifications/prompts/list_changed''
       (\<lambda>h params. h) handler)"

definition set_log_message_handler ::
    "'j json_ops \<Rightarrow> ('j LoggingMessageNotificationParams \<Rightarrow> 's \<Rightarrow> ('j exc + unit) \<times> 's) option \<Rightarrow>
     ('j, 's) Client \<Rightarrow> ('j exc + unit) \<times> ('j, 's) Client" where
  "set_log_message_handler J handler =
     with_tables J (register_notification ''notifications/message''
       (typed_note J (LoggingMessageNotificationParams_from_json J)) handler)"

definition set_progress_handler ::
    "'j json_ops \<Rightarrow> (ProgressNotificationParams \<Rightarrow> 's \<Rightarrow> ('j exc + unit) \<times> 's) option \<Rightarrow>
     ('j, 's) Client \<Rightarrow> ('j exc + unit) \<times> ('j, 's) Client" where
  "set_progress_handler J handler =
     with_tables J (register_notification ''notifications/progress''
       (typed_note J (ProgressNotificationParams_from_json J)) handler)"

definition client_set_elicitation_complete_handler ::
    "'j json_ops \<Rightarrow> (string \<Rightarrow> 's \<Rightarrow> ('j exc + unit) \<times> 's) option \<Rightarrow> ('j, 's) Client \<Rightarrow>
     ('j exc + unit) \<times> ('j, 's) Client" where
  "client_set_elicitation_complete_handler J handler cl =
     (if cli_session cl = None then (Inl (client_not_connected J), cl)
      else with_tables J (register_notification ''notifications/elicitation/complete''
             (\<lambda>h. lenient_note (\<lambda>p. \<not> j_is_object J p) (ElicitationCompleteNotificationParams_from_json J)
                    (\<lambda>p. h (ecn_elicitation_id p))) handler)
             (cl\<lparr>cli_elicitation_complete_handler := (handler \<noteq> None)\<rparr>))"

text \<open>\<open>sampling/createMessage\<close>\<close>

definition sampling_wrapper ::
    "'j json_ops \<Rightarrow> ('j CreateMessageRequestParams \<Rightarrow> 's \<Rightarrow> ('j exc + 'j CreateMessageResult) \<times> 's) \<Rightarrow>
     ('j, 's) req_handler" where
  "sampling_wrapper J h params app =
     (if j_is_null J params
      then (Inl (Error J invalid_params ''sampling/createMessage requires params''), app)
      else
        case rethrow_as J invalid_params ''invalid sampling params: ''
               (CreateMessageRequestParams_from_json J params) of
          Inl e \<Rightarrow> (Inl e, app)
        | Inr parsed \<Rightarrow>
            (let (r, app) = h parsed app in (emap (CreateMessageResult_to_json J) r, app)))"

definition set_sampling_handler ::
    "'j json_ops \<Rightarrow> ('j CreateMessageRequestParams \<Rightarrow> 's \<Rightarrow> ('j exc + 'j CreateMessageResult) \<times> 's) option \<Rightarrow>
     ('j, 's) Client \<Rightarrow> ('j exc + unit) \<times> ('j, 's) Client" where
  "set_sampling_handler J handler cl =
     (if cli_session cl = None then (Inl (client_not_connected J), cl)
      else with_tables J (register_request ''sampling/createMessage'' (sampling_wrapper J) handler)
             (cl\<lparr>cli_sampling_handler := (handler \<noteq> None)\<rparr>))"

text \<open>\<open>elicitation/create\<close>: an \<open>mcp::Error\<close> of \<open>from_json\<close> passes as it is.\<close>

definition elicitation_wrapper ::
    "'j json_ops \<Rightarrow> ('j ElicitRequestParams \<Rightarrow> 's \<Rightarrow> ('j exc + 'j ElicitResult) \<times> 's) \<Rightarrow>
     ('j, 's) req_handler" where
  "elicitation_wrapper J h params app =
     (if j_is_null J params
      then (Inl (Error J invalid_params ''elicitation/create requires params''), app)
      else
        case (case ElicitRequestParams_from_json J params of
                Inl (McpError e) \<Rightarrow> Inl (McpError e)
              | r \<Rightarrow> rethrow_as J invalid_params ''invalid elicitation params: '' r) of
          Inl e \<Rightarrow> (Inl e, app)
        | Inr parsed \<Rightarrow> (let (r, app) = h parsed app in (emap (ElicitResult_to_json J) r, app)))"

definition set_elicitation_handler ::
    "'j json_ops \<Rightarrow> ('j ElicitRequestParams \<Rightarrow> 's \<Rightarrow> ('j exc + 'j ElicitResult) \<times> 's) option \<Rightarrow>
     ('j, 's) Client \<Rightarrow> ('j exc + unit) \<times> ('j, 's) Client" where
  "set_elicitation_handler J handler cl =
     (if cli_session cl = None then (Inl (client_not_connected J), cl)
      else with_tables J (register_request ''elicitation/create'' (elicitation_wrapper J) handler)
             (cl\<lparr>cli_elicitation_handler := (handler \<noteq> None)\<rparr>))"

text \<open>\<open>roots/list\<close>\<close>

definition set_roots_list_handler ::
    "'j json_ops \<Rightarrow> ('s \<Rightarrow> ('j exc + ListRootsResult) \<times> 's) option \<Rightarrow> ('j, 's) Client \<Rightarrow>
     ('j exc + unit) \<times> ('j, 's) Client" where
  "set_roots_list_handler J handler cl =
     (if cli_session cl = None then (Inl (client_not_connected J), cl)
      else with_tables J (register_request ''roots/list''
             (\<lambda>h params app. let (r, app) = h app in (emap (ListRootsResult_to_json J) r, app)) handler)
             (cl\<lparr>cli_roots_handler := (handler \<noteq> None)\<rparr>))"

definition set_client_capabilities :: "'j ClientCapabilities \<Rightarrow> ('j, 's) Client \<Rightarrow> ('j, 's) Client" where
  "set_client_capabilities caps cl = cl\<lparr>cli_capabilities_override := Some caps\<rparr>"

section \<open>initialize\<close>

definition derived_capabilities :: "'j json_ops \<Rightarrow> ('j, 's) Client \<Rightarrow> 'j ClientCapabilities" where
  "derived_capabilities J cl =
     \<lparr>ccaps_experimental = None,
      ccaps_roots = (if cli_roots_handler cl then Some \<lparr>roots_list_changed = None\<rparr> else None),
      ccaps_sampling = (if cli_sampling_handler cl
        then Some \<lparr>sampling_context = None, sampling_tools = None\<rparr> else None),
      ccaps_elicitation = (if cli_elicitation_handler cl
        then Some \<lparr>elicitation_form = Some (j_object J), elicitation_url = Some (j_object J)\<rparr> else None),
      ccaps_tasks = None\<rparr>"

text \<open>An engaged field of the override replaces the derived one.\<close>

definition over :: "'a option \<Rightarrow> 'a option \<Rightarrow> 'a option" where
  "over x d = (case x of None \<Rightarrow> d | Some v \<Rightarrow> Some v)"

definition merged_capabilities :: "'j json_ops \<Rightarrow> ('j, 's) Client \<Rightarrow> 'j ClientCapabilities" where
  "merged_capabilities J cl =
     (let caps = derived_capabilities J cl
      in case cli_capabilities_override cl of
           None \<Rightarrow> caps
         | Some ov \<Rightarrow>
             \<lparr>ccaps_experimental = over (ccaps_experimental ov) (ccaps_experimental caps),
              ccaps_roots = over (ccaps_roots ov) (ccaps_roots caps),
              ccaps_sampling = over (ccaps_sampling ov) (ccaps_sampling caps),
              ccaps_elicitation = over (ccaps_elicitation ov) (ccaps_elicitation caps),
              ccaps_tasks = over (ccaps_tasks ov) (ccaps_tasks caps)\<rparr>)"

text \<open>
  \<open>initialize\<close> up to its thread's \<open>get\<close>: the payload, and the request that the thread sends on the
  session it was given.
\<close>

definition initialize_payload :: "'j json_ops \<Rightarrow> ('j, 's) Client \<Rightarrow> 'j" where
  "initialize_payload J cl =
     InitializeRequestParams_to_json J
       \<lparr>init_protocol_version = kLatestProtocolVersion, init_capabilities = merged_capabilities J cl,
        init_client_info = cli_client_info cl\<rparr>"

definition client_initialize ::
    "'j json_ops \<Rightarrow> ClientEnv \<Rightarrow> ('j, 's) Client \<Rightarrow> ('j exc + string option) \<times> ('j, 's) Client" where
  "client_initialize J env cl =
     send_request_for J env ''initialize'' (initialize_payload J cl) (\<lambda>j. Inr (R_json j)) cl"

text \<open>The thread, once the future of the request is ready; \<open>message\<close> is the error code's text.\<close>

definition initialize_finish ::
    "'j json_ops \<Rightarrow> ClientEnv \<Rightarrow> (error_code \<Rightarrow> string) \<Rightarrow> 'j exc + 'j \<Rightarrow> ('j, 's) Client \<Rightarrow>
     ('j exc + 'j InitializeResult) \<times> ('j, 's) Client" where
  "initialize_finish J env message raw cl =
     (case ebind raw (InitializeResult_from_json J) of
        Inl e \<Rightarrow> (Inl e, cl)
      | Inr res \<Rightarrow>
          (let cl = cl\<lparr>cli_server := Some res\<rparr>
           in case send_notification J (ce_send env) ''notifications/initialized'' (j_null J) of
                Some ec \<Rightarrow>
                  (Inl (Error J internal_error
                     (''failed to send notifications/initialized: '' @ message ec)), cl)
              | None \<Rightarrow> (Inr res, cl)))"

section \<open>A request and its answer\<close>

text \<open>The peer's worker for a frame: the frames it sends back.\<close>

definition peer_answers ::
    "'j json_ops \<Rightarrow> ('j, 's) HandlerTables \<Rightarrow> string \<Rightarrow> 's \<Rightarrow> string list \<times> 's" where
  "peer_answers J tables raw app =
     (case classify_frame J raw of
        Inr (Some (Request req)) \<Rightarrow>
          (case serve_request J tables (\<lambda>_. None) req app of
             (Inl e, app) \<Rightarrow> ([], app)
           | (Inr fs, app) \<Rightarrow> (fs, app))
      | _ \<Rightarrow> ([], app))"

text \<open>What the promise gets for an outcome.\<close>

definition promised :: "('j \<Rightarrow> 'j exc + 'v) \<Rightarrow> 'j outcome \<Rightarrow> 'j exc + 'v" where
  "promised convert out =
     (case out of Result v \<Rightarrow> convert v | Failure e \<Rightarrow> Inl (McpError e))"

lemma promised_emap: "promised (\<lambda>j. emap f (dec j)) out = emap f (promised dec out)"
  by (simp add: promised_def split: outcome.split)

text \<open>
  A request is carried by its text when the peer reads the same id and method from it, and params
  that decode as the ones that were written; a response likewise. The JSON library, as documented,
  gives back every value but invalid UTF-8, floats that are no numbers and the signedness of an
  integer's tag, which no decoder of the protocol's types looks at.
\<close>

definition carries_request ::
    "'j json_ops \<Rightarrow> int64 \<Rightarrow> string \<Rightarrow> 'j \<Rightarrow> ('j \<Rightarrow> 'j exc + 'a) \<Rightarrow> bool" where
  "carries_request J n method params dec \<longleftrightarrow>
     (case over_text J (Request \<lparr>req_id = IdInt n, req_method = method, req_params = params_of J params\<rparr>) of
        Some (Request q) \<Rightarrow>
          (let p' = (case req_params q of Some p \<Rightarrow> p | None \<Rightarrow> j_null J)
           in req_id q = IdInt n \<and> req_method q = method \<and> dec p' = dec params \<and>
              (j_is_null J p' \<longleftrightarrow> j_is_null J params))
      | _ \<Rightarrow> False)"

definition carries_response :: "'j json_ops \<Rightarrow> int64 \<Rightarrow> 'j outcome \<Rightarrow> ('j \<Rightarrow> 'j exc + 'a) \<Rightarrow> bool" where
  "carries_response J n out dec \<longleftrightarrow>
     (case over_text J (Response \<lparr>resp_id = Some (IdInt n), resp_outcome = out\<rparr>) of
        Some (Response q) \<Rightarrow>
          resp_id q = Some (IdInt n) \<and> promised dec (resp_outcome q) = promised dec out
      | _ \<Rightarrow> False)"

context json_lib
begin

lemma over_text_frame:
  assumes "over_text J m = Some m'"
  shows "\<exists>f. j_dump J (serialize_message J m) = Inr f \<and> classify_frame J f = Inr (Some m')"
  using assms by (auto simp: over_text_def split: sum.splits option.splits)

text \<open>The request goes out, the peer serves it, and its answer settles the promise.\<close>

lemma request_goes_out:
  fixes s :: "('j, 'v) SessionState"
  assumes "\<not> se_closed s" and fresh: "map_of (se_pending s) (IdInt (se_next_id s)) = None"
    and req: "carries_request J (se_next_id s) method params dec"
  obtains f q where
    "j_dump J (serialize_message J (Request \<lparr>req_id = IdInt (se_next_id s), req_method = method,
       req_params = params_of J params\<rparr>)) = Inr f"
    and "classify_frame J f = Inr (Some (Request q))" "req_id q = IdInt (se_next_id s)"
      "req_method q = method"
    and "dec (case req_params q of Some p \<Rightarrow> p | None \<Rightarrow> j_null J) = dec params"
      "j_is_null J (case req_params q of Some p \<Rightarrow> p | None \<Rightarrow> j_null J) \<longleftrightarrow> j_is_null J params"
    and "register_pending J (\<lambda>_. None) dflt method params fut convert timeout now s =
      (s\<lparr>se_next_id := se_next_id s + 1,
         se_pending := (IdInt (se_next_id s), \<lparr>pd_future = fut, pd_convert = convert,
           pd_deadline = now + request_timeout dflt timeout\<rparr>) # se_pending s\<rparr>, Some f)"
proof -
  let ?req = "\<lparr>req_id = IdInt (se_next_id s), req_method = method, req_params = params_of J params\<rparr>"
  from req obtain q where
    q: "over_text J (Request ?req) = Some (Request q)" "req_id q = IdInt (se_next_id s)"
      "req_method q = method" "dec (case req_params q of Some p \<Rightarrow> p | None \<Rightarrow> j_null J) = dec params"
      "j_is_null J (case req_params q of Some p \<Rightarrow> p | None \<Rightarrow> j_null J) \<longleftrightarrow> j_is_null J params"
    by (auto simp: carries_request_def Let_def split: option.splits JsonRpcMessage.splits)
  from over_text_frame [OF q(1)] obtain f where
    f: "j_dump J (serialize_message J (Request ?req)) = Inr f" "classify_frame J f = Inr (Some (Request q))"
    by blast
  from that [OF f(1,2) q(2-5)] show thesis
    using assms(1) fresh f(1)
    by (simp add: register_pending_def next_id_def park_def send_message_def Let_def)
qed

lemma peer_serves:
  assumes "classify_frame J f = Inr (Some (Request q))" "lookup_req tables (req_method q) = Some h"
    and "h (case req_params q of Some p \<Rightarrow> p | None \<Rightarrow> j_null J) app = (r, app')" "outcome_of J r = Inr out"
    and "req_id q = IdInt n" and resp: "carries_response J n out dec"
  obtains g a where
    "j_dump J (serialize_message J (Response \<lparr>resp_id = Some (IdInt n), resp_outcome = out\<rparr>)) = Inr g"
    and "classify_frame J g = Inr (Some (Response a))" "resp_id a = Some (IdInt n)"
      "promised dec (resp_outcome a) = promised dec out"
    and "peer_answers J tables f app = ([g], app')"
proof -
  from resp obtain a where
    a: "over_text J (Response \<lparr>resp_id = Some (IdInt n), resp_outcome = out\<rparr>) = Some (Response a)"
      "resp_id a = Some (IdInt n)" "promised dec (resp_outcome a) = promised dec out"
    by (auto simp: carries_response_def split: option.splits JsonRpcMessage.splits)
  from over_text_frame [OF a(1)] obtain g where
    g: "j_dump J (serialize_message J (Response \<lparr>resp_id = Some (IdInt n), resp_outcome = out\<rparr>)) = Inr g"
      "classify_frame J g = Inr (Some (Response a))" by blast
  from that [OF g a(2,3)] show thesis
    using assms(1-5) g(1)
    by (simp add: peer_answers_def serve_request_def handle_request_def send_message_def Let_def)
qed

lemma answer_settles:
  assumes "map_of (se_pending s) (IdInt n) = None"
    and "classify_frame J g = Inr (Some (Response a))" "resp_id a = Some (IdInt n)"
  shows "receive_frames J t [g] (s\<lparr>se_pending := (IdInt n, p) # se_pending s\<rparr>) app =
    (Inr [], s\<lparr>se_settled := se_settled s @ [(pd_future p, promised (pd_convert p) (resp_outcome a))]\<rparr>, app)"
proof -
  have "AList.delete (IdInt n) (se_pending s) = se_pending s"
    using assms(1) by (force simp: AList.delete_eq filter_id_conv map_of_eq_None_iff)
  with assms(2,3) show ?thesis
    by (simp add: handle_frame_def handle_response_def take_pending_def settle_def promised_def
        response_settlement_def resolved_def rejected_def split: outcome.split)
qed

lemma request_round_trip:
  fixes s :: "('j, 'v) SessionState"
  assumes "\<not> se_closed s" and fresh: "map_of (se_pending s) (IdInt (se_next_id s)) = None"
    and "lookup_req tables method = Some h" "outcome_of J r = Inr out"
    and handler: "\<And>p'. dec p' = dec params \<Longrightarrow> (j_is_null J p' \<longleftrightarrow> j_is_null J params) \<Longrightarrow>
      h p' app = (r, app')"
    and req: "carries_request J (se_next_id s) method params dec"
    and resp: "carries_response J (se_next_id s) out dec2"
  shows "\<exists>s1 f g out'.
    register_pending J (\<lambda>_. None) dflt method params fut convert timeout now s = (s1, Some f) \<and>
    peer_answers J tables f app = ([g], app') \<and> promised dec2 out' = promised dec2 out \<and>
    receive_frames J t [g] s1 app2 = (Inr [], s\<lparr>se_next_id := se_next_id s + 1,
      se_settled := se_settled s @ [(fut, promised convert out')]\<rparr>, app2)"
proof (rule request_goes_out [OF assms(1,2) req, where fut = fut and convert = convert and dflt = dflt
      and timeout = timeout and now = now])
  let ?p = "\<lparr>pd_future = fut, pd_convert = convert, pd_deadline = now + request_timeout dflt timeout\<rparr>"
  let ?s = "s\<lparr>se_next_id := se_next_id s + 1\<rparr>"
  fix f q
  assume f: "classify_frame J f = Inr (Some (Request q))"
    and q: "req_id q = IdInt (se_next_id s)" "req_method q = method"
      "dec (case req_params q of Some p \<Rightarrow> p | None \<Rightarrow> j_null J) = dec params"
      "j_is_null J (case req_params q of Some p \<Rightarrow> p | None \<Rightarrow> j_null J) \<longleftrightarrow> j_is_null J params"
    and reg: "register_pending J (\<lambda>_. None) dflt method params fut convert timeout now s =
      (s\<lparr>se_next_id := se_next_id s + 1, se_pending := (IdInt (se_next_id s), ?p) # se_pending s\<rparr>, Some f)"
  have "lookup_req tables (req_method q) = Some h" using assms(3) q(2) by simp
  from peer_serves [OF f this handler [OF q(3,4)] assms(4) q(1) resp] obtain g a where
    g: "classify_frame J g = Inr (Some (Response a))" "resp_id a = Some (IdInt (se_next_id s))"
      "promised dec2 (resp_outcome a) = promised dec2 out" "peer_answers J tables f app = ([g], app')" .
  from answer_settles [where s = ?s and p = ?p, OF _ g(1,2)] fresh
  have "receive_frames J t [g] (?s\<lparr>se_pending := (IdInt (se_next_id s), ?p) # se_pending s\<rparr>) app2 =
      (Inr [], ?s\<lparr>se_settled := se_settled s @ [(fut, promised convert (resp_outcome a))]\<rparr>, app2)" by simp
  with reg g(3,4) show ?thesis by auto
qed

end

text \<open>The client hands what comes back to its session.\<close>

definition client_reads ::
    "'j json_ops \<Rightarrow> string list \<Rightarrow> ('j, 's) Client \<Rightarrow> 's \<Rightarrow> ('j, 's) Client \<times> 's" where
  "client_reads J fs cl app =
     (case cli_session cl of
        None \<Rightarrow> (cl, app)
      | Some (t, s) \<Rightarrow>
          (let (r, s, app) = receive_frames J t fs s app in (cl\<lparr>cli_session := Some (t, s)\<rparr>, app)))"

text \<open>A call of the client, served by the peer's tables, up to the answer.\<close>

definition exchange ::
    "'j json_ops \<Rightarrow> (('j, 's) Client \<Rightarrow> ('j exc + string option) \<times> ('j, 's) Client) \<Rightarrow>
     ('j, 'p) HandlerTables \<Rightarrow> 'p \<Rightarrow> ('j, 's) Client \<Rightarrow> 's \<Rightarrow> ('j, 's) Client \<times> 'p \<times> 's" where
  "exchange J call tables peer cl app =
     (case call cl of
        (Inr (Some f), cl) \<Rightarrow>
          (let (fs, peer) = peer_answers J tables f peer; (cl, app) = client_reads J fs cl app
           in (cl, peer, app))
      | (r, cl) \<Rightarrow> (cl, peer, app))"

text \<open>A session that can send and whose next id is not in use.\<close>

definition ready :: "ClientEnv \<Rightarrow> ('j, 'v) SessionState \<Rightarrow> bool" where
  "ready env s \<longleftrightarrow> \<not> se_closed s \<and> map_of (se_pending s) (IdInt (se_next_id s)) = None \<and>
     ce_send env = (\<lambda>_. None)"

definition settled_to ::
    "nat \<Rightarrow> 'j exc + 'v \<Rightarrow> ('j, 'v) SessionState \<Rightarrow> ('j, 'v) SessionState \<Rightarrow> bool" where
  "settled_to fut v s s' \<longleftrightarrow>
     se_settled s' = se_settled s @ [(fut, v)] \<and> se_pending s' = se_pending s \<and>
     se_next_id s' = se_next_id s + 1 \<and> se_closed s' = se_closed s"

context json_lib
begin

lemma exchange_settles:
  assumes "cli_session cl = Some (t, s)" "ready env s"
    and "lookup_req tables method = Some h" "outcome_of J r = Inr out"
    and "\<And>p'. dec p' = dec params \<Longrightarrow> (j_is_null J p' \<longleftrightarrow> j_is_null J params) \<Longrightarrow>
      h p' peer = (r, peer')"
    and "carries_request J (se_next_id s) method params dec"
    and "carries_response J (se_next_id s) out dec2"
  shows "\<exists>s' out'. exchange J (send_request_for J env method params convert) tables peer cl app =
      (cl\<lparr>cli_session := Some (t, s')\<rparr>, peer', app) \<and> promised dec2 out' = promised dec2 out \<and>
    settled_to (ce_future env) (promised convert out') s s'"
proof -
  from assms(2) have "\<not> se_closed s" "map_of (se_pending s) (IdInt (se_next_id s)) = None"
    and env: "ce_send env = (\<lambda>_. None)" by (simp_all add: ready_def)
  from request_round_trip [OF this(1,2) assms(3-7), where fut = "ce_future env" and convert = convert
      and dflt = "ce_default_timeout env" and timeout = 0 and now = "ce_now env" and t = t
      and ?app2.0 = app]
  show ?thesis
    by (fastforce simp: exchange_def send_request_for_def client_reads_def assms(1) env settled_to_def Let_def)
qed

end

section \<open>Lemmas\<close>

lemma rethrow_as_Inr [simp]: "rethrow_as J c m (Inr x) = Inr x"
  by (simp add: rethrow_as_def)

text \<open>What a server answers to \<open>initialize\<close>.\<close>

definition negotiated :: "'j json_ops \<Rightarrow> ('j, 's) Server \<Rightarrow> 'j InitializeResult" where
  "negotiated J sv = \<lparr>initres_protocol_version = kLatestProtocolVersion,
     initres_capabilities = server_capabilities J sv, initres_server_info = sv_server_info sv,
     initres_instructions = sv_instructions sv, initres_meta = None\<rparr>"

text \<open>What the handler of a tool leaves in the promise of the call, unless it throws a \<open>json::exception\<close>.\<close>

definition tool_promise :: "'j exc + 'j CallToolResult \<Rightarrow> 'j exc + 'j client_result \<Rightarrow> bool" where
  "tool_promise r v \<longleftrightarrow>
     (case r of
        Inr res \<Rightarrow> v = Inr (R_call res)
      | Inl (McpError e) \<Rightarrow> v = Inl (McpError e)
      | Inl _ \<Rightarrow> (\<exists>e. v = Inl (McpError e) \<and> eo_code e = internal_error))"

context json_lib
begin

lemma derived_capabilities_wf: "ClientCapabilities_wf J (derived_capabilities J cl)"
  by (simp add: derived_capabilities_def ClientCapabilities_wf_def SamplingCapability_wf_def
      ElicitationCapability_wf_def)

lemma merged_capabilities_wf:
  assumes "pred_option (ClientCapabilities_wf J) (cli_capabilities_override cl)"
  shows "ClientCapabilities_wf J (merged_capabilities J cl)"
  using assms derived_capabilities_wf [of cl]
  by (auto simp: merged_capabilities_def Let_def over_def ClientCapabilities_wf_def split: option.splits)

lemma tool_promised:
  assumes "outcome_of J (emap (CallToolResult_to_json J) r) = Inr out"
    and "\<And>res. r = Inr res \<Longrightarrow> CallToolResult_wf J res" "\<And>w. r \<noteq> Inl (JsonException w)"
    and "promised (CallToolResult_from_json J) out' = promised (CallToolResult_from_json J) out"
  shows "tool_promise r (promised (\<lambda>j. emap R_call (CallToolResult_from_json J j)) out')"
proof -
  have "promised (\<lambda>j. emap R_call (CallToolResult_from_json J j)) out' =
      emap R_call (promised (CallToolResult_from_json J) out)"
    using assms(4) by (simp add: promised_emap)
  moreover have "tool_promise r (emap R_call (promised (CallToolResult_from_json J) out))"
  proof (cases r)
    case (Inl e)
    with assms(1,3) show ?thesis by (cases e) (auto simp: tool_promise_def promised_def)
  next
    case (Inr res)
    with assms(1,2) show ?thesis by (auto simp: tool_promise_def promised_def)
  qed
  ultimately show ?thesis by simp
qed

lemma call_params_rt:
  "CallToolRequestParams_from_json J (CallToolRequestParams_to_json J (call_params J name args aug)) =
     Inr (call_params J name args aug)"
  by (rule CallToolRequestParams.dec_enc) (simp add: CallToolRequestParams_wf_def call_params_def)

lemma initialize_params_rt:
  assumes "Implementation_wf J (cli_client_info cl)"
    and "pred_option (ClientCapabilities_wf J) (cli_capabilities_override cl)"
  shows "InitializeRequestParams_from_json J (initialize_payload J cl) =
    Inr \<lparr>init_protocol_version = kLatestProtocolVersion,
         init_capabilities = merged_capabilities J cl, init_client_info = cli_client_info cl\<rparr>"
  unfolding initialize_payload_def
  by (rule InitializeRequestParams.dec_enc)
    (simp add: InitializeRequestParams_wf_def assms merged_capabilities_wf)

lemma sampling_params_rt:
  assumes "CreateMessageRequestParams_wf J p"
  shows "CreateMessageRequestParams_from_json J (CreateMessageRequestParams_to_json J p) = Inr p"
    "\<not> j_is_null J (CreateMessageRequestParams_to_json J p)"
  using assms by simp_all

lemma sampling_result_rt:
  "CreateMessageResult_wf J r \<Longrightarrow>
     CreateMessageResult_from_json J (CreateMessageResult_to_json J r) = Inr r"
  by simp

lemma initialized_sent:
  assumes "over_text J (Notification \<lparr>note_method = method, note_params = None\<rparr>) \<noteq> None"
  shows "send_notification J (\<lambda>_. None) method (j_null J) = None"
  using assms over_text_frame by (fastforce simp: send_notification_def send_message_def params_of_def)

text \<open>
  What the two handlers of the server make of params that decode as the client's, and what the
  client's thread makes of the answer to \<open>initialize\<close>.
\<close>

lemma tool_handled:
  assumes "sv_initialized sv" "map_of (sv_tools sv) name = Some entry" "toe_handler entry = Some h"
      "map_option te_task_support (tool_execution (toe_descriptor entry)) \<noteq> Some Support_required"
    and "h (if j_is_null J args then j_object J else args) (sv_app sv) = (r, app)"
    and "CallToolRequestParams_from_json J p' =
      CallToolRequestParams_from_json J (CallToolRequestParams_to_json J (call_params J name args None))"
  shows "handle_call_tool J senv p' sv = (emap (CallToolResult_to_json J) r, sv\<lparr>sv_app := app\<rparr>)"
  using assms call_params_rt [of name args None]
  by (auto simp: handle_call_tool_def call_params_def check_task_support_def call_back_def Let_def)

lemma initialize_handled:
  assumes "\<not> sv_initialized sv" "Implementation_wf J (cli_client_info cl)"
    and "pred_option (ClientCapabilities_wf J) (cli_capabilities_override cl)"
    and "InitializeRequestParams_from_json J p' = InitializeRequestParams_from_json J (initialize_payload J cl)"
  shows "handle_initialize J p' sv = (Inr (InitializeResult_to_json J (negotiated J sv)),
    sv\<lparr>sv_initialized := True, sv_client_capabilities := Some (merged_capabilities J cl)\<rparr>)"
proof -
  have "server_capabilities J (sv\<lparr>sv_initialized := True,
      sv_client_capabilities := Some (merged_capabilities J cl)\<rparr>) = server_capabilities J sv"
    by (simp add: server_capabilities_def)
  with assms show ?thesis
    by (simp add: handle_initialize_def initialize_params_rt negotiated_def Let_def)
qed

lemma initialize_answered:
  assumes "Implementation_wf J (sv_server_info sv)"
    and "promised (InitializeResult_from_json J) out =
       promised (InitializeResult_from_json J) (Result (InitializeResult_to_json J (negotiated J sv)))"
    and "ce_send env = (\<lambda>_. None)"
    and "over_text J (Notification \<lparr>note_method = ''notifications/initialized'', note_params = None\<rparr>) \<noteq> None"
  obtains v where "out = Result v"
    "initialize_finish J env message (Inr v) cl =
      (Inr (negotiated J sv), cl\<lparr>cli_server := Some (negotiated J sv)\<rparr>)"
proof -
  have "InitializeResult_from_json J (InitializeResult_to_json J (negotiated J sv)) = Inr (negotiated J sv)"
    unfolding negotiated_def by (rule initialize_result_rt [OF assms(1)])
  with assms(2) obtain v where v: "out = Result v" "InitializeResult_from_json J v = Inr (negotiated J sv)"
    by (auto simp: promised_def split: outcome.splits)
  have "send_notification J (ce_send env) ''notifications/initialized'' (j_null J) = None"
    using initialized_sent [OF assms(4)] assms(3) by simp
  with v show thesis by (intro that [OF v(1)]) (simp add: initialize_finish_def)
qed

end

section \<open>An example client\<close>

definition example_client :: "(jv, unit) Client" where
  "example_client = snd (client_connect jv_ops True (Client_init example_info))"

definition example_client_env :: ClientEnv where
  "example_client_env = \<lparr>ce_send = (\<lambda>_. None), ce_default_timeout = 30000, ce_now = 0, ce_future = 0\<rparr>"

lemma example_client_fields [simp]:
  "cli_session example_client = Some (HandlerTables_init, session_start SessionState_init)"
  "cli_client_info example_client = example_info"
  "cli_capabilities_override example_client = None"
  by (simp_all add: example_client_def client_connect_def client_disconnect_def Client_init_def)

lemma example_ready [simp]:
  "ready example_client_env (session_start SessionState_init)"
  "se_next_id (session_start SessionState_init) = 1"
  by (simp_all add: ready_def example_client_env_def session_start_def SessionState_init_def)

lemma example_tool_frames:
  "carries_request jv_ops 1 ''tools/call''
     (CallToolRequestParams_to_json jv_ops (call_params jv_ops ''add'' example_args None))
     (CallToolRequestParams_from_json jv_ops)"
  "carries_response jv_ops 1 (Result (CallToolResult_to_json jv_ops example_result))
     (CallToolResult_from_json jv_ops)"
proof goal_cases
  case 1 show ?case by code_simp
next
  case 2 show ?case by code_simp
qed

definition example_handshake :: "jv InitializeResult" where
  "example_handshake = \<lparr>initres_protocol_version = kLatestProtocolVersion,
     initres_capabilities = server_capabilities jv_ops (Server_init example_info ()),
     initres_server_info = example_info, initres_instructions = None, initres_meta = None\<rparr>"

lemma example_handshake_frames:
  "carries_request jv_ops 1 ''initialize'' (initialize_payload jv_ops example_client)
     (InitializeRequestParams_from_json jv_ops)"
  "carries_response jv_ops 1 (Result (InitializeResult_to_json jv_ops example_handshake))
     (InitializeResult_from_json jv_ops)"
  "over_text jv_ops (Notification \<lparr>note_method = ''notifications/initialized'',
     note_params = None\<rparr>) \<noteq> None"
proof goal_cases
  case 1 show ?case by code_simp
next
  case 2 show ?case by code_simp
next
  case 3 show ?case by code_simp
qed

text \<open>A sampling request with one message, and its result.\<close>

definition example_prompt :: "jv CreateMessageRequestParams" where
  "example_prompt = \<lparr>cmp_messages = [], cmp_model_preferences = None, cmp_system_prompt = Some ''hi'',
     cmp_include_context = None, cmp_temperature = None, cmp_max_tokens = 5,
     cmp_stop_sequences = None, cmp_metadata = None, cmp_tools = None, cmp_tool_choice = None\<rparr>"

definition example_message :: "jv CreateMessageResult" where
  "example_message = \<lparr>cmr_role = Role_assistant, cmr_content = [], cmr_model = ''m'',
     cmr_stop_reason = None, cmr_meta = None\<rparr>"

definition example_sampler :: "jv CreateMessageRequestParams \<Rightarrow> unit \<Rightarrow> (jv exc + jv CreateMessageResult) \<times> unit" where
  "example_sampler p app = (Inr example_message, app)"

lemma example_sampling_frames:
  "carries_request jv_ops 1 ''sampling/createMessage''
     (CreateMessageRequestParams_to_json jv_ops example_prompt)
     (CreateMessageRequestParams_from_json jv_ops)"
  "carries_response jv_ops 1 (Result (CreateMessageResult_to_json jv_ops example_message))
     (CreateMessageResult_from_json jv_ops)"
proof goal_cases
  case 1
  let ?p = "VObject [(''messages'', VArray []), (''maxTokens'', VUInt 5), (''systemPrompt'', VString ''hi'')]"
  have "over_text jv_ops (Request \<lparr>req_id = IdInt 1, req_method = ''sampling/createMessage'',
      req_params = params_of jv_ops (CreateMessageRequestParams_to_json jv_ops example_prompt)\<rparr>) =
    Some (Request \<lparr>req_id = IdInt 1, req_method = ''sampling/createMessage'', req_params = Some ?p\<rparr>)"
    by code_simp
  moreover have "CreateMessageRequestParams_from_json jv_ops ?p = Inr example_prompt"
    by (simp add: CreateMessageRequestParams_from_json_def example_prompt_def at_get_def get_vector_def
        maxTokens_from_json_def take_optional_def take_optional_json_def take_if_array_def get_str_def
        get_i64_def)
  moreover have "CreateMessageRequestParams_wf jv_ops example_prompt"
    by (simp add: CreateMessageRequestParams_wf_def example_prompt_def)
  moreover note json_lib.sampling_params_rt [OF jv_json_lib this]
  ultimately show ?case by (simp add: carries_request_def)
next
  case 2 show ?case by code_simp
qed

section \<open>Properties\<close>

text \<open>
  C6: A tool call with arguments from end to end: \<open>call_tool\<close> sends a request, the server runs the tool's
  handler once on the arguments, and the answer settles the promise of the call with the result the
  handler returned, with the \<open>mcp::Error\<close> it threw, or with an internal error for any other exception it
  threw, \<open>json::exception\<close> apart, of which the theorem says nothing. Nothing else of the server or of the
  client's pending requests changes.
\<close>

theorem tool_call_end_to_end:
  assumes J: "json_lib J"
    and session: "cli_session cl = Some (t, s)" "ready env s"
    and server: "sv_initialized sv" "map_of (sv_tools sv) name = Some entry" "toe_handler entry = Some h"
      "map_option te_task_support (tool_execution (toe_descriptor entry)) \<noteq> Some Support_required"
    and handler: "\<not> j_is_null J args" "h args (sv_app sv) = (r, app)"
      "\<And>res. r = Inr res \<Longrightarrow> CallToolResult_wf J res" "\<And>w. r \<noteq> Inl (JsonException w)"
      "outcome_of J (emap (CallToolResult_to_json J) r) = Inr out"
    and frames: "carries_request J (se_next_id s) ''tools/call''
        (CallToolRequestParams_to_json J (call_params J name args None)) (CallToolRequestParams_from_json J)"
      "carries_response J (se_next_id s) out (CallToolResult_from_json J)"
  shows "\<exists>s' v. exchange J (call_tool J env name args) (server_handlers J senv tasks) sv cl capp =
      (cl\<lparr>cli_session := Some (t, s')\<rparr>, sv\<lparr>sv_app := app\<rparr>, capp) \<and>
    settled_to (ce_future env) v s s' \<and> tool_promise r v"
proof -
  let ?p = "CallToolRequestParams_to_json J (call_params J name args None)"
  have "h (if j_is_null J args then j_object J else args) (sv_app sv) = (r, app)" using handler(1,2) by simp
  note handled = json_lib.tool_handled [OF J server this]
  from json_lib.exchange_settles [where h = "handle_call_tool J senv" and peer = sv and app = capp
      and tables = "server_handlers J senv tasks"
      and convert = "\<lambda>j. emap R_call (CallToolResult_from_json J j)",
      OF J session _ handler(5) handled frames]
  obtain s' out' where "exchange J (call_tool J env name args) (server_handlers J senv tasks) sv cl capp =
      (cl\<lparr>cli_session := Some (t, s')\<rparr>, sv\<lparr>sv_app := app\<rparr>, capp)"
    "promised (CallToolResult_from_json J) out' = promised (CallToolResult_from_json J) out"
    "settled_to (ce_future env) (promised (\<lambda>j. emap R_call (CallToolResult_from_json J j)) out') s s'"
    unfolding call_tool_def by (auto simp: lookup_server_handlers)
  with json_lib.tool_promised [OF J handler(5,3,4)] show ?thesis by blast
qed

theorem tool_call_end_to_end_witness:
  "\<exists>s' v. exchange jv_ops (call_tool jv_ops example_client_env ''add'' example_args)
      (server_handlers jv_ops example_env True) example_server example_client () =
      (example_client\<lparr>cli_session := Some (HandlerTables_init, s')\<rparr>, example_server\<lparr>sv_app := ()\<rparr>, ()) \<and>
    settled_to (ce_future example_client_env) v (session_start SessionState_init) s' \<and>
    tool_promise (Inr example_result) v"
  by (rule tool_call_end_to_end [OF jv_json_lib, where h = example_handler
        and out = "Result (CallToolResult_to_json jv_ops example_result)"])
    (simp_all add: example_tool_frames,
     simp_all add: example_handler_def CallToolResult_wf_def example_result_def example_args_def)

text \<open>
  The handshake from end to end: \<open>initialize\<close> settles its promise with an answer from which the
  client's thread stores the server's info and capabilities as they are, and the server has then
  recorded the capabilities of the client: an explicit override, field by field, over those that
  follow from the handlers.
\<close>

theorem handshake_end_to_end:
  assumes J: "json_lib J"
    and session: "cli_session cl = Some (t, s)" "ready env s"
    and server: "\<not> sv_initialized sv" "Implementation_wf J (sv_server_info sv)"
    and client: "Implementation_wf J (cli_client_info cl)"
      "pred_option (ClientCapabilities_wf J) (cli_capabilities_override cl)"
    and result: "result = negotiated J sv"
    and frames: "carries_request J (se_next_id s) ''initialize'' (initialize_payload J cl)
        (InitializeRequestParams_from_json J)"
      "carries_response J (se_next_id s) (Result (InitializeResult_to_json J result))
         (InitializeResult_from_json J)"
      "over_text J (Notification \<lparr>note_method = ''notifications/initialized'', note_params = None\<rparr>) \<noteq> None"
  shows "\<exists>s' v. exchange J (client_initialize J env) (server_handlers J senv tasks) sv cl capp =
      (cl\<lparr>cli_session := Some (t, s')\<rparr>,
       sv\<lparr>sv_initialized := True, sv_client_capabilities := Some (merged_capabilities J cl)\<rparr>, capp) \<and>
    settled_to (ce_future env) (Inr (R_json v)) s s' \<and>
    initialize_finish J env message (Inr v) (cl\<lparr>cli_session := Some (t, s')\<rparr>) =
      (Inr result, cl\<lparr>cli_session := Some (t, s'), cli_server := Some result\<rparr>)"
proof -
  let ?sv = "sv\<lparr>sv_initialized := True, sv_client_capabilities := Some (merged_capabilities J cl)\<rparr>"
  note json_lib.initialize_handled [OF J server(1) client, folded result]
  from json_lib.exchange_settles [where h = "handle_initialize J" and peer = sv and app = capp
      and tables = "server_handlers J senv tasks" and convert = "\<lambda>j. Inr (R_json j)",
      OF J session _ _ this frames(1,2)]
  obtain s' out' where ex: "exchange J (client_initialize J env) (server_handlers J senv tasks) sv cl capp =
      (cl\<lparr>cli_session := Some (t, s')\<rparr>, ?sv, capp)"
    "promised (InitializeResult_from_json J) out' =
       promised (InitializeResult_from_json J) (Result (InitializeResult_to_json J result))"
    "settled_to (ce_future env) (promised (\<lambda>j. Inr (R_json j)) out') s s'"
    by (auto simp: exchange_def client_initialize_def lookup_server_handlers)
  have env: "ce_send env = (\<lambda>_. None)" using session(2) by (simp add: ready_def)
  obtain v where "out' = Result v" "initialize_finish J env message (Inr v) (cl\<lparr>cli_session := Some (t, s')\<rparr>) =
      (Inr result, cl\<lparr>cli_session := Some (t, s'), cli_server := Some result\<rparr>)"
    using json_lib.initialize_answered [OF J server(2) ex(2) [unfolded result] env frames(3),
        where message = message and cl = "cl\<lparr>cli_session := Some (t, s')\<rparr>"] unfolding result by auto
  with ex show ?thesis by (intro exI [of _ s'] exI [of _ v]) (simp add: promised_def)
qed

theorem handshake_end_to_end_witness:
  "\<exists>s' v. exchange jv_ops (client_initialize jv_ops example_client_env)
      (server_handlers jv_ops example_env False) (Server_init example_info ()) example_client () =
      (example_client\<lparr>cli_session := Some (HandlerTables_init, s')\<rparr>,
       (Server_init example_info ())\<lparr>sv_initialized := True,
          sv_client_capabilities := Some (merged_capabilities jv_ops example_client)\<rparr>, ()) \<and>
    settled_to (ce_future example_client_env) (Inr (R_json v)) (session_start SessionState_init) s' \<and>
    initialize_finish jv_ops example_client_env (\<lambda>_. []) (Inr v)
        (example_client\<lparr>cli_session := Some (HandlerTables_init, s')\<rparr>) =
      (Inr example_handshake,
       example_client\<lparr>cli_session := Some (HandlerTables_init, s'), cli_server := Some example_handshake\<rparr>)"
  by (rule handshake_end_to_end [OF jv_json_lib])
    (simp_all add: example_handshake_frames,
     simp_all add: Server_init_def example_handshake_def negotiated_def Implementation_wf_def example_info_def)

text \<open>
  A request of the server to the client from end to end: once \<open>set_sampling_handler\<close> has succeeded,
  \<open>Server::sample\<close> sends its request, the client runs the handler once on the params the server
  gave, and the result settles the promise that \<open>sample\<close> returned.
\<close>

theorem sampling_end_to_end:
  assumes J: "json_lib J"
    and server: "sv_session sv" "\<not> se_closed s" "map_of (se_pending s) (IdInt (se_next_id s)) = None"
      "CreateMessageRequestParams_wf J params"
    and client: "set_sampling_handler J (Some h) cl = (Inr (), cl')" "cli_session cl' = Some (t, cs)"
    and handler: "h params capp = (Inr res, capp')" "CreateMessageResult_wf J res"
    and frames: "carries_request J (se_next_id s) ''sampling/createMessage''
        (CreateMessageRequestParams_to_json J params) (CreateMessageRequestParams_from_json J)"
      "carries_response J (se_next_id s) (Result (CreateMessageResult_to_json J res))
         (CreateMessageResult_from_json J)"
  shows "\<exists>s1 f g s2.
    server_sample J (\<lambda>_. None) dflt params fut now sv s = Inr (s1, Some f) \<and>
    peer_answers J t f capp = ([g], capp') \<and>
    receive_frames J tables [g] s1 app = (Inr [], s2, app) \<and> settled_to fut (Inr res) s s2"
proof -
  obtain t0 where "t = register_request ''sampling/createMessage'' (sampling_wrapper J) (Some h) t0"
    using client by (auto simp: set_sampling_handler_def with_tables_def split: if_splits option.splits)
  then have lookup: "lookup_req t ''sampling/createMessage'' = Some (sampling_wrapper J h)"
    by (simp add: register_request_def)
  have "sampling_wrapper J h p' capp = (Inr (CreateMessageResult_to_json J res), capp')"
    if "CreateMessageRequestParams_from_json J p' =
        CreateMessageRequestParams_from_json J (CreateMessageRequestParams_to_json J params)"
      "j_is_null J p' \<longleftrightarrow> j_is_null J (CreateMessageRequestParams_to_json J params)" for p'
    using that handler(1) json_lib.sampling_params_rt [OF J server(4)]
    by (simp add: sampling_wrapper_def)
  from json_lib.request_round_trip [where h = "sampling_wrapper J h" and fut = fut
      and convert = "CreateMessageResult_from_json J" and timeout = 0 and dflt = dflt and now = now
      and t = tables and ?app2.0 = app, OF J server(2,3) lookup _ this frames]
  show ?thesis
    using server(1) json_lib.sampling_result_rt [OF J handler(2)]
    by (fastforce simp: server_sample_def settled_to_def promised_def)
qed

theorem sampling_end_to_end_witness:
  "\<exists>s1 f g s2.
    server_sample jv_ops (\<lambda>_. None) 30000 example_prompt 0 0 example_server (session_start SessionState_init) =
      Inr (s1, Some f) \<and>
    peer_answers jv_ops (register_request ''sampling/createMessage'' (sampling_wrapper jv_ops)
        (Some example_sampler) HandlerTables_init) f () = ([g], ()) \<and>
    receive_frames jv_ops (server_handlers jv_ops example_env False) [g] s1 example_server =
      (Inr [], s2, example_server) \<and>
    settled_to 0 (Inr example_message) (session_start SessionState_init) s2"
  by (rule sampling_end_to_end [OF jv_json_lib, where h = example_sampler and cl = example_client
        and cl' = "snd (set_sampling_handler jv_ops (Some example_sampler) example_client)"])
    (simp_all add: example_sampling_frames,
     simp_all add: set_sampling_handler_def with_tables_def example_sampler_def example_prompt_def
       example_message_def CreateMessageRequestParams_wf_def CreateMessageResult_wf_def
       session_start_def SessionState_init_def)

text \<open>
  Without a session every call throws "client not connected" and every setter too; the client stays
  as it is.
\<close>

lemma call_without_session:
  assumes "cli_session cl = None"
  shows "send_request_for J env method params convert cl = (Inl (client_not_connected J), cl)"
    and "with_tables J f cl = (Inl (client_not_connected J), cl)"
    and "notify_session J env method params cl = None"
  using assms by (simp_all add: send_request_for_def with_tables_def notify_session_def)

text \<open>
  A handler does not survive a reconnect, but what the client advertises for it does: the new session
  answers the server's request with \<open>method_not_found\<close>.
\<close>

theorem reconnect_keeps_stale_capability:
  assumes "cli_connected cl" "cli_session cl \<noteq> None" "ccaps_sampling (derived_capabilities J cl) \<noteq> None"
  shows "\<exists>s. cli_session (snd (client_connect J True cl)) = Some (HandlerTables_init, s) \<and>
    ccaps_sampling (derived_capabilities J (snd (client_connect J True cl))) \<noteq> None \<and>
    (\<exists>out. fst (handle_request J HandlerTables_init
        \<lparr>req_id = rid, req_method = ''sampling/createMessage'', req_params = p\<rparr> app) =
       Inr \<lparr>resp_id = Some rid, resp_outcome = Failure out\<rparr> \<and> eo_code out = method_not_found)"
  using assms
  by (simp add: client_connect_def client_disconnect_def derived_capabilities_def handle_request_def
      split: if_splits)

end
