(* ===== verification/Http_Stack.thy ===== *)
theory Http_Stack
  imports Client Http_Client
begin

text \<open>
  The whole stack over HTTP: the client of src/client.cpp on the transport of
  src/http_client_transport.cpp, the host of src/http_server_host.cpp, the session of the host and the
  server of src/server.cpp. The definitions compose the components the way the threads hand a request
  on: the queue of the client's transport, its worker, the POST handler of the host, the transport of
  the session, the server's tables, the response, and back.

  Lemmas: client and host stay linked by one session from one exchange to the next, so that the
  results for a single exchange carry over from frames to HTTP.
\<close>

section \<open>One POST\<close>

record HttpLink =
  hl_client :: HttpClientTransport
  hl_host :: HostState

fun serve_frames ::
    "'j json_ops \<Rightarrow> ('j, 'p) HandlerTables \<Rightarrow> string list \<Rightarrow> 'p \<Rightarrow> string list \<times> 'p" where
  "serve_frames J tables [] peer = ([], peer)"
| "serve_frames J tables (f # fs) peer =
     (let (gs, peer) = peer_answers J tables f peer; (rest, peer) = serve_frames J tables fs peer
      in (gs @ rest, peer))"

text \<open>
  The session of a context attaches, unless it has, serves the frames that its transport has handed
  up beyond the first \<open>old\<close>, and sends what the server answers.
\<close>

definition session_serves ::
    "'j json_ops \<Rightarrow> ('j, 'p) HandlerTables \<Rightarrow> nat \<Rightarrow> nat \<Rightarrow> HostState \<Rightarrow> 'p \<Rightarrow> HostState \<times> 'p" where
  "session_serves J tables old n h peer =
     (let t = attached (transport_of n h);
          (fs, peer) = serve_frames J tables (drop old (hs_handed t)) peer
      in (set_transport n (snd (send_all J fs t)) h, peer))"

text \<open>A POST of the client whose body carries a request, up to the response.\<close>

definition http_post ::
    "'j json_ops \<Rightarrow> HostOptions \<Rightarrow> string \<Rightarrow> string \<Rightarrow> ('j, 'p) HandlerTables \<Rightarrow> HttpRequest \<Rightarrow> HostState \<Rightarrow> 'p \<Rightarrow>
     HttpReply \<times> HostState \<times> 'p" where
  "http_post J ho broken fresh tables req h peer =
     (case handle_post J ho fresh req h of
        (Replied res, h) \<Rightarrow> (reply_of res, h, peer)
      | (Awaits res n p, h1) \<Rightarrow>
          (let old = length (hs_handed (transport_before fresh req n h));
               (h2, peer) = session_serves J tables old n h1 peer
           in (reply_of (post_finish broken (map_of (hs_settled (transport_of n h2)) p) res), h2, peer)))"

text \<open>
  A call of the client: the frame goes into the queue of its transport, the worker posts it, and what
  the response brings goes to the client's session. \<open>fresh\<close> is the id that the host would draw.
\<close>

definition http_exchange ::
    "'j json_ops \<Rightarrow> HostOptions \<Rightarrow> ClientOptions \<Rightarrow> string \<Rightarrow> string \<Rightarrow>
     (('j, 's) Client \<Rightarrow> ('j exc + string option) \<times> ('j, 's) Client) \<Rightarrow> ('j, 'p) HandlerTables \<Rightarrow>
     HttpLink \<Rightarrow> 'p \<Rightarrow> ('j, 's) Client \<Rightarrow> 's \<Rightarrow> HttpLink \<times> ('j, 's) Client \<times> 'p \<times> 's" where
  "http_exchange J ho co broken fresh call tables l peer cl app =
     (case call cl of
        (Inr (Some f), cl) \<Rightarrow>
          (case worker_loop (snd (client_send f (hl_client l))) of
             (Takes body, ct) \<Rightarrow>
               (let (r, h, peer) = http_post J ho broken fresh tables
                      (request_of (post_headers co ct) body) (hl_host l) peer;
                    ct' = process_reply co (Some r) ct;
                    (cl, app) = client_reads J (drop (length (ct_messages ct)) (ct_messages ct')) cl app
                in (\<lparr>hl_client = ct', hl_host = h\<rparr>, cl, peer, app))
           | (look, ct) \<Rightarrow> (l\<lparr>hl_client := ct\<rparr>, cl, peer, app))
      | (r, cl) \<Rightarrow> (l, cl, peer, app))"

text \<open>The texts of a request and of a response.\<close>

definition request_text :: "'j json_ops \<Rightarrow> int64 \<Rightarrow> string \<Rightarrow> 'j \<Rightarrow> string + string" where
  "request_text J n method params =
     j_dump J (serialize_message J
       (Request \<lparr>req_id = IdInt n, req_method = method, req_params = params_of J params\<rparr>))"

definition response_for :: "int64 \<Rightarrow> 'j outcome \<Rightarrow> 'j JsonRpcResponse" where
  "response_for n out = \<lparr>resp_id = Some (IdInt n), resp_outcome = out\<rparr>"

definition response_text :: "'j json_ops \<Rightarrow> int64 \<Rightarrow> 'j outcome \<Rightarrow> string + string" where
  "response_text J n out = j_dump J (serialize_message J (Response (response_for n out)))"

section \<open>Client and host linked by a session\<close>

text \<open>No POST is in flight on the transport of a session.\<close>

definition resting :: "HttpSessionTransport \<Rightarrow> bool" where
  "resting t \<longleftrightarrow> hs_started t \<and> hs_on_message t \<and> \<not> hs_closed t \<and> hs_pending t = [] \<and>
     (\<forall>p \<in> fst ` set (hs_settled t). p < hs_promises t)"

definition client_idle :: "HttpClientTransport \<Rightarrow> bool" where
  "client_idle ct \<longleftrightarrow> ct_started ct \<and> \<not> ct_closed ct \<and> ct_on_message ct \<and> ct_out ct = []"

definition contexts_known :: "HostState \<Rightarrow> bool" where
  "contexts_known h \<longleftrightarrow> (\<forall>n \<in> set (map snd (ho_sessions h)). n < length (ho_contexts h))"

definition linked :: "string \<Rightarrow> nat \<Rightarrow> HttpLink \<Rightarrow> bool" where
  "linked sid n l \<longleftrightarrow> client_idle (hl_client l) \<and> ct_session_id (hl_client l) = Some sid \<and> sid \<noteq> [] \<and>
     contexts_known (hl_host l) \<and> map_of (ho_sessions (hl_host l)) sid = Some n \<and>
     cx_id (ho_contexts (hl_host l) ! n) = sid \<and> resting (transport_of n (hl_host l))"

text \<open>Before the handshake: no session id on the client's side, an unused one for the host.\<close>

definition unlinked :: "ClientOptions \<Rightarrow> string \<Rightarrow> HttpLink \<Rightarrow> bool" where
  "unlinked co fresh l \<longleftrightarrow> ''Mcp-Session-Id'' \<notin> fst ` set (co_extra_headers co) \<and>
     client_idle (hl_client l) \<and> ct_session_id (hl_client l) = None \<and> fresh \<noteq> [] \<and>
     contexts_known (hl_host l) \<and> map_of (ho_sessions (hl_host l)) fresh = None"

text \<open>What an exchange leaves behind: one more frame for the session, one more message for the client.\<close>

definition advanced :: "nat \<Rightarrow> string \<Rightarrow> string \<Rightarrow> HttpLink \<Rightarrow> HttpLink \<Rightarrow> bool" where
  "advanced n f g l l' \<longleftrightarrow>
     ct_messages (hl_client l') = ct_messages (hl_client l) @ [g] \<and>
     ct_errors (hl_client l') = ct_errors (hl_client l) \<and>
     hs_handed (transport_of n (hl_host l')) =
       (if n < length (ho_contexts (hl_host l)) then hs_handed (transport_of n (hl_host l)) else []) @ [f] \<and>
     (\<forall>m < length (ho_contexts (hl_host l)). m \<noteq> n \<longrightarrow>
        ho_contexts (hl_host l') ! m = ho_contexts (hl_host l) ! m)"

lemma set_transport_frame [simp]:
  "n < length (ho_contexts h) \<Longrightarrow> transport_of n (set_transport n t h) = t"
  "m \<noteq> n \<Longrightarrow> ho_contexts (set_transport n t h) ! m = ho_contexts h ! m"
  by (simp_all add: transport_of_def set_transport_def)

lemma set_transport_id [simp]:
  "n < length (ho_contexts h) \<Longrightarrow> cx_id (ho_contexts (set_transport n t h) ! m) = cx_id (ho_contexts h ! m)"
  by (cases "m = n") (simp_all add: set_transport_def)

lemma contexts_knownD: "contexts_known h \<Longrightarrow> map_of (ho_sessions h) sid = Some n \<Longrightarrow> n < length (ho_contexts h)"
  by (force simp: contexts_known_def dest: map_of_SomeD)

lemma no_session_header:
  assumes "''Mcp-Session-Id'' \<notin> fst ` set (co_extra_headers co)" "ct_session_id ct = None"
    and "is_initialize_body body"
  shows "post_sid fresh (request_of (post_headers co ct) body) = fresh"
proof -
  have "filter (\<lambda>(k, v). k = ''Mcp-Session-Id'') (co_extra_headers co) = []"
    using assms(1) by (force simp: filter_empty_conv)
  with assms(2,3) show ?thesis
    by (simp add: post_sid_def find_header_def request_of_def post_headers_def auth_header_def)
qed

context json_lib
begin

text \<open>A body, delivered to a transport without POSTs in flight, and the response to it.\<close>

lemma idle_transport_serves:
  assumes "t = HttpSessionTransport_init \<or> resting t"
    and "classify_frame J f = Inr (Some (Request q))" "exact_id J f"
    and "keeps_id J resp g" "resp_id resp = Some (req_id q)"
  obtains t1 t2 where "deliver J f t = (Some (hs_promises t), t1)"
    "drop (length (hs_handed t)) (hs_handed (attached t1)) = [f]"
    "send_all J [g] (attached t1) = ([None], t2)" "resting t2" "hs_handed t2 = hs_handed t @ [f]"
    "map_of (hs_settled t2) (hs_promises t) = Some (Reply g)"
proof -
  note key = request_key_classified [OF assms(2,3), folded key_of_def]
  then obtain j where j: "j_parse J f = Inr j" by blast
  from assms(4,5) obtain k v where g: "j_parse J g = Inr k" "frame_id J k = Some v"
    "\<not> j_contains J k ''method''" "canonical_id J v = key_of q"
    by (auto simp: keeps_id_def key_of_def)
  have fresh: "hs_promises t \<notin> fst ` set (hs_settled t)"
    using assms(1) by (auto simp: resting_def HttpSessionTransport_init_def)
  then have settled: "map_of (hs_settled t @ [(hs_promises t, Reply g)]) (hs_promises t) = Some (Reply g)"
    by (simp add: map_add_Some_iff map_of_eq_None_iff)
  from assms(1) show thesis
  proof
    assume q: "resting t"
    from key(1) j q have d: "deliver J f t = (Some (hs_promises t),
        t\<lparr>hs_promises := Suc (hs_promises t), hs_pending := [(key_of q, hs_promises t)],
          hs_handed := hs_handed t @ [f]\<rparr>)" (is "_ = (_, ?t1)")
      by (subst deliver_parks [OF key(1) j]) (simp_all add: resting_def)
    from q have a: "attached ?t1 = ?t1" by (simp add: attached_def resting_def)
    from send_answers [OF g(1-3), of ?t1] q g(4)
    have "hs_send J g ?t1 = (None, ?t1\<lparr>hs_pending := [],
        hs_settled := hs_settled t @ [(hs_promises t, Reply g)]\<rparr>)"
      by (simp add: resting_def)
    with q settled show thesis
      by (intro that [OF d, of "?t1\<lparr>hs_pending := [], hs_settled := hs_settled t @ [(hs_promises t, Reply g)]\<rparr>"])
        (simp_all add: a, auto simp: resting_def)
  next
    assume "t = HttpSessionTransport_init"
    then have t: "\<not> hs_started t" "\<not> hs_closed t" "hs_pending t = []" "hs_buffered t = []" "hs_handed t = []"
      "hs_promises t = 0" "hs_settled t = []"
      by (simp_all add: HttpSessionTransport_init_def)
    with key(1) j have d: "deliver J f t = (Some (hs_promises t),
        t\<lparr>hs_promises := 1, hs_pending := [(key_of q, 0)], hs_buffered := [f]\<rparr>)" (is "_ = (_, ?t1)")
      by (simp add: deliver_def park_reply_def hand_up_def)
    let ?t2 = "t\<lparr>hs_promises := 1, hs_pending := [(key_of q, 0)], hs_buffered := [],
      hs_on_message := True, hs_started := True, hs_handed := [f]\<rparr>"
    from t have a: "attached ?t1 = ?t2"
      by (simp add: attached_def hs_start_def hs_set_on_message_def open_gate_def)
    from send_answers [OF g(1-3), of ?t2] g(4) t
    have "hs_send J g ?t2 = (None, ?t2\<lparr>hs_pending := [], hs_settled := [(0, Reply g)]\<rparr>)" by simp
    then have "send_all J [g] ?t2 = ([None], ?t2\<lparr>hs_pending := [], hs_settled := [(0, Reply g)]\<rparr>)"
      by simp
    with t settled show thesis
      by (intro that [OF d, of "?t2\<lparr>hs_pending := [], hs_settled := [(0, Reply g)]\<rparr>", unfolded a])
        (simp_all add: resting_def)
  qed
qed

text \<open>The POST to a context, and the session behind it.\<close>

lemma post_deliver_serves:
  assumes "n < length (ho_contexts h)"
    and "transport_of n h = HttpSessionTransport_init \<or> resting (transport_of n h)"
    and "hq_body req = f" "classify_frame J f = Inr (Some (Request q))" "exact_id J f"
    and "keeps_id J resp g" "resp_id resp = Some (req_id q)"
    and "peer_answers J tables f peer = ([g], peer')"
  obtains h1 h2 p where
    "post_deliver J req n h = (Awaits (set_header ''Mcp-Session-Id'' (cx_id (ho_contexts h ! n)) HttpResponse_init) n p, h1)"
    "session_serves J tables (length (hs_handed (transport_of n h))) n h1 peer = (h2, peer')"
    "map_of (hs_settled (transport_of n h2)) p = Some (Reply g)" "resting (transport_of n h2)"
    "hs_handed (transport_of n h2) = hs_handed (transport_of n h) @ [f]"
    "ho_sessions h2 = ho_sessions h" "length (ho_contexts h2) = length (ho_contexts h)"
    "cx_id (ho_contexts h2 ! n) = cx_id (ho_contexts h ! n)"
    "\<And>m. m \<noteq> n \<Longrightarrow> ho_contexts h2 ! m = ho_contexts h ! m"
proof (rule idle_transport_serves [OF assms(2,4-7)])
  fix t1 t2
  assume t: "deliver J f (transport_of n h) = (Some (hs_promises (transport_of n h)), t1)"
    "drop (length (hs_handed (transport_of n h))) (hs_handed (attached t1)) = [f]"
    "send_all J [g] (attached t1) = ([None], t2)" "resting t2"
    "hs_handed t2 = hs_handed (transport_of n h) @ [f]"
    "map_of (hs_settled t2) (hs_promises (transport_of n h)) = Some (Reply g)"
  have "post_deliver J req n h = (Awaits (set_header ''Mcp-Session-Id'' (cx_id (ho_contexts h ! n))
      HttpResponse_init) n (hs_promises (transport_of n h)), set_transport n t1 h)"
    by (simp add: post_deliver_def assms(3) t(1))
  moreover have "session_serves J tables (length (hs_handed (transport_of n h))) n (set_transport n t1 h) peer =
      (set_transport n t2 (set_transport n t1 h), peer')"
    using t(2,3) by (simp add: session_serves_def assms(1,8) del: send_all.simps)
  ultimately show thesis
    by (rule that) (simp_all add: assms(1) t)
qed

lemma http_post_serves:
  assumes gate: "fst (post_gate ho req)" and h: "contexts_known h" "sid \<noteq> []" "post_sid fresh req = sid"
    and known: "map_of (ho_sessions h) sid = Some n \<and> cx_id (ho_contexts h ! n) = sid \<and> resting (transport_of n h) \<or>
      map_of (ho_sessions h) sid = None \<and> n = length (ho_contexts h) \<and> is_initialize_body f"
    and texts: "hq_body req = f" "classify_frame J f = Inr (Some (Request q))" "exact_id J f"
      "keeps_id J resp g" "resp_id resp = Some (req_id q)" "peer_answers J tables f peer = ([g], peer')"
  obtains h2 where "http_post J ho broken fresh tables req h peer = (reply_of (answered_response sid g), h2, peer')"
    "contexts_known h2" "map_of (ho_sessions h2) sid = Some n" "cx_id (ho_contexts h2 ! n) = sid"
    "resting (transport_of n h2)"
    "hs_handed (transport_of n h2) =
       (if n < length (ho_contexts h) then hs_handed (transport_of n h) else []) @ [f]"
    "\<And>m. m < length (ho_contexts h) \<Longrightarrow> m \<noteq> n \<Longrightarrow> ho_contexts h2 ! m = ho_contexts h ! m"
proof -
  define h0 where "h0 = snd (resolve_session sid (is_initialize_body f) h)"
  have h0: "resolve_session sid (is_initialize_body f) h = (Some n, h0)" "n < length (ho_contexts h0)"
    "transport_of n h0 = HttpSessionTransport_init \<or> resting (transport_of n h0)"
    "transport_of n h0 = transport_before fresh req n h" "contexts_known h0"
    "map_of (ho_sessions h0) sid = Some n" "cx_id (ho_contexts h0 ! n) = sid"
    "hs_handed (transport_of n h0) = (if n < length (ho_contexts h) then hs_handed (transport_of n h) else [])"
    "\<And>m. m < length (ho_contexts h) \<Longrightarrow> ho_contexts h0 ! m = ho_contexts h ! m"
    using known h contexts_knownD [OF h(1), of sid n]
    by (auto simp: h0_def resolve_session_def contexts_known_def transport_of_def transport_before_def
        nth_append new_context_def HttpSessionTransport_init_def split: option.split
        dest: map_of_SomeD intro: rev_image_eqI)
  obtain res where g: "post_gate ho req = (True, res)"
    using gate by (cases "post_gate ho req") auto
  show thesis
  proof (rule post_deliver_serves [OF h0(2,3) texts])
    fix h1 h2 p
    assume d: "post_deliver J req n h0 = (Awaits (set_header ''Mcp-Session-Id'' (cx_id (ho_contexts h0 ! n))
        HttpResponse_init) n p, h1)"
      "session_serves J tables (length (hs_handed (transport_of n h0))) n h1 peer = (h2, peer')"
      "map_of (hs_settled (transport_of n h2)) p = Some (Reply g)" "resting (transport_of n h2)"
      "hs_handed (transport_of n h2) = hs_handed (transport_of n h0) @ [f]"
      "ho_sessions h2 = ho_sessions h0" "length (ho_contexts h2) = length (ho_contexts h0)"
      "cx_id (ho_contexts h2 ! n) = cx_id (ho_contexts h0 ! n)"
      "\<And>m. m \<noteq> n \<Longrightarrow> ho_contexts h2 ! m = ho_contexts h0 ! m"
    have "http_post J ho broken fresh tables req h peer = (reply_of (answered_response sid g), h2, peer')"
      using g h(3) h0(1,4,7) d(1-3) texts(1)
      by (simp add: http_post_def handle_post_def answered_response_def post_finish_def)
    then show thesis
      by (rule that) (use h0 d in \<open>simp_all add: contexts_known_def\<close>)
  qed
qed

text \<open>An exchange over HTTP does to client and server what an exchange of frames does.\<close>

lemma http_exchange_settles:
  fixes s :: "('j, 'j client_result) SessionState"
  assumes "cli_session cl = Some (t, s)" "ready env s"
    and "lookup_req tables method = Some h" "outcome_of J r = Inr out"
    and handler: "\<And>p'. dec p' = dec params \<Longrightarrow> (j_is_null J p' \<longleftrightarrow> j_is_null J params) \<Longrightarrow>
      h p' peer = (r, peer')"
    and carries: "carries_request J (se_next_id s) method params dec"
      "carries_response J (se_next_id s) out dec2"
    and texts: "request_text J (se_next_id s) method params = Inr f" "exact_id J f"
      "response_text J (se_next_id s) out = Inr g" "keeps_id J (response_for (se_next_id s) out) g"
    and link: "linked sid n l \<or> unlinked co sid l \<and> fresh = sid \<and> n = length (ho_contexts (hl_host l)) \<and>
      is_initialize_body f"
    and gate: "fst (post_gate ho (request_of (post_headers co (hl_client l)) f))"
  shows "\<exists>l' s' out'. http_exchange J ho co broken fresh (send_request_for J env method params convert) tables
      l peer cl app = (l', cl\<lparr>cli_session := Some (t, s')\<rparr>, peer', app) \<and>
    promised dec2 out' = promised dec2 out \<and>
    settled_to (ce_future env) (promised convert out') s s' \<and> linked sid n l' \<and> advanced n f g l l'"
proof (rule request_goes_out [OF _ _ carries(1), where fut = "ce_future env" and convert = convert
      and dflt = "ce_default_timeout env" and timeout = 0 and now = "ce_now env"])
  from assms(2) show open_s: "\<not> se_closed s" "map_of (se_pending s) (IdInt (se_next_id s)) = None"
    by (simp_all add: ready_def)
  let ?p = "\<lparr>pd_future = ce_future env, pd_convert = convert,
    pd_deadline = ce_now env + request_timeout (ce_default_timeout env) 0\<rparr>"
  let ?s = "s\<lparr>se_next_id := se_next_id s + 1\<rparr>"
  fix f' q
  assume f': "j_dump J (serialize_message J (Request \<lparr>req_id = IdInt (se_next_id s), req_method = method,
       req_params = params_of J params\<rparr>)) = Inr f'"
    and f: "classify_frame J f' = Inr (Some (Request q))"
    and q: "req_id q = IdInt (se_next_id s)" "req_method q = method"
      "dec (case req_params q of Some p \<Rightarrow> p | None \<Rightarrow> j_null J) = dec params"
      "j_is_null J (case req_params q of Some p \<Rightarrow> p | None \<Rightarrow> j_null J) \<longleftrightarrow> j_is_null J params"
    and reg: "register_pending J (\<lambda>_. None) (ce_default_timeout env) method params (ce_future env) convert 0
        (ce_now env) s =
      (s\<lparr>se_next_id := se_next_id s + 1, se_pending := (IdInt (se_next_id s), ?p) # se_pending s\<rparr>, Some f')"
  from f' texts(1) have [simp]: "f' = f" by (simp add: request_text_def)
  have "lookup_req tables (req_method q) = Some h" using assms(3) q(2) by simp
  from peer_serves [OF f this handler [OF q(3,4)] assms(4) q(1) carries(2)] obtain g' a where
    g': "j_dump J (serialize_message J (Response \<lparr>resp_id = Some (IdInt (se_next_id s)), resp_outcome = out\<rparr>)) = Inr g'"
      "classify_frame J g' = Inr (Some (Response a))" "resp_id a = Some (IdInt (se_next_id s))"
      "promised dec2 (resp_outcome a) = promised dec2 out" "peer_answers J tables f' peer = ([g'], peer')" .
  from g'(1) texts(3) have [simp]: "g' = g" by (simp add: response_text_def response_for_def)
  have sid: "sid \<noteq> []" "contexts_known (hl_host l)" "client_idle (hl_client l)"
    "post_sid fresh (request_of (post_headers co (hl_client l)) f) = sid"
    using link next_post_session(2) [of "hl_client l" sid] no_session_header [of co]
    by (auto simp: linked_def unlinked_def)
  have known: "map_of (ho_sessions (hl_host l)) sid = Some n \<and> cx_id (ho_contexts (hl_host l) ! n) = sid \<and>
      resting (transport_of n (hl_host l)) \<or>
      map_of (ho_sessions (hl_host l)) sid = None \<and> n = length (ho_contexts (hl_host l)) \<and> is_initialize_body f"
    using link by (auto simp: linked_def unlinked_def)
  let ?req = "request_of (post_headers co (hl_client l)) f"
  have body: "hq_body ?req = f" by (simp add: request_of_def)
  obtain h2 where post: "http_post J ho broken fresh tables ?req (hl_host l) peer =
      (reply_of (answered_response sid g), h2, peer')"
    and h2: "contexts_known h2" "map_of (ho_sessions h2) sid = Some n" "cx_id (ho_contexts h2 ! n) = sid"
    "resting (transport_of n h2)" "hs_handed (transport_of n h2) =
       (if n < length (ho_contexts (hl_host l)) then hs_handed (transport_of n (hl_host l)) else []) @ [f]"
    "\<And>m. m < length (ho_contexts (hl_host l)) \<Longrightarrow> m \<noteq> n \<Longrightarrow> ho_contexts h2 ! m = ho_contexts (hl_host l) ! m"
    using http_post_serves [OF gate sid(2,1,4) known body f [simplified] texts(2,4) _ g'(5) [simplified],
        where broken = broken] q(1)
    by (auto simp: response_for_def)
  have taken: "worker_loop (snd (client_send f (hl_client l))) = (Takes f, hl_client l)"
    using sid(3) by (simp add: client_idle_def client_send_def send_check_def push_out_def worker_loop_def)
  let ?ct = "(hl_client l)\<lparr>ct_session_id := Some sid, ct_auth_callback_armed := True,
    ct_messages := ct_messages (hl_client l) @ [g]\<rparr>"
  have reply: "process_reply co (Some (reply_of (answered_response sid g))) (hl_client l) = ?ct"
    using process_answer [OF sid(1)] sid(3) by (simp add: client_idle_def)
  have settles: "receive_frames J t [g] (?s\<lparr>se_pending := (IdInt (se_next_id s), ?p) # se_pending s\<rparr>) app =
      (Inr [], ?s\<lparr>se_settled := se_settled s @ [(ce_future env, promised convert (resp_outcome a))]\<rparr>, app)"
    using answer_settles [where s = ?s and p = ?p, OF _ g'(2,3)] open_s(2) by simp
  have sent: "send_request_for J env method params convert cl =
      (Inr (Some f), cl\<lparr>cli_session := Some (t,
        ?s\<lparr>se_pending := (IdInt (se_next_id s), ?p) # se_pending s\<rparr>)\<rparr>)"
    using assms(2) reg by (simp add: send_request_for_def assms(1) ready_def)
  show ?thesis
  proof (intro exI conjI)
    show "http_exchange J ho co broken fresh (send_request_for J env method params convert) tables l peer cl app =
      (\<lparr>hl_client = ?ct, hl_host = h2\<rparr>, cl\<lparr>cli_session := Some (t,
         ?s\<lparr>se_settled := se_settled s @ [(ce_future env, promised convert (resp_outcome a))]\<rparr>)\<rparr>, peer', app)"
      using settles by (simp add: http_exchange_def sent taken post reply client_reads_def del: receive_frames.simps)
  qed (use g'(4) sid(1,3) h2 in \<open>simp_all add: settled_to_def linked_def advanced_def client_idle_def\<close>)
qed

end

section \<open>An example\<close>

definition stack_opts :: ClientOptions where
  "stack_opts = ClientOptions_init ''http://h:1/mcp''"

definition stack_client :: HttpClientTransport where
  "stack_client = client_start stack_opts (client_on_message sample_client)"

definition unlinked_stack :: HttpLink where
  "unlinked_stack = \<lparr>hl_client = stack_client, hl_host = HostState_init\<rparr>"

definition linked_stack :: HttpLink where
  "linked_stack = \<lparr>hl_client = stack_client\<lparr>ct_session_id := Some ''5e''\<rparr>,
     hl_host = HostState_init\<lparr>ho_sessions := [(''5e'', 0)],
       ho_contexts := [(new_context ''5e'')\<lparr>cx_transport := http_open\<rparr>]\<rparr>\<rparr>"

lemma stack_links: "unlinked stack_opts ''5e'' unlinked_stack" "linked ''5e'' 0 linked_stack"
  by code_simp+

definition handshake_text :: string where
  "handshake_text = ''{\"jsonrpc\":\"2.0\",\"id\":1,\"method\":\"initialize\",\"params\":'' @
     ''{\"protocolVersion\":\"2025-11-25\",\"capabilities\":{},'' @
     ''\"clientInfo\":{\"name\":\"calc\",\"version\":\"1\"}}}''"

definition handshake_answer :: string where
  "handshake_answer = ''{\"jsonrpc\":\"2.0\",\"id\":1,\"result\":'' @
     ''{\"protocolVersion\":\"2025-11-25\",\"capabilities\":{},'' @
     ''\"serverInfo\":{\"name\":\"calc\",\"version\":\"1\"}}}''"

definition call_text :: string where
  "call_text =
     ''{\"jsonrpc\":\"2.0\",\"id\":1,\"method\":\"tools/call\",\"params\":'' @
     ''{\"name\":\"add\",\"arguments\":{\"a\":2}}}''"

definition call_answer :: string where
  "call_answer = ''{\"jsonrpc\":\"2.0\",\"id\":1,\"result\":{\"content\":[]}}''"

text \<open>Both requests pass a gate without restrictions.\<close>

lemma stack_gate:
  "fst (post_gate HostOptions_init (request_of (post_headers stack_opts (hl_client unlinked_stack)) body))"
  "fst (post_gate HostOptions_init (request_of (post_headers stack_opts (hl_client linked_stack)) body))"
  by (simp_all add: post_gate_def origin_allowed_def find_header_def request_of_def post_headers_def
      stack_opts_def ClientOptions_init_def auth_header_def valid_protocol_version_header_def authorize_def
      HostOptions_init_def split: option.split)

lemma handshake_dumped:
  "request_text jv_ops 1 ''initialize'' (initialize_payload jv_ops example_client) = Inr handshake_text \<and>
   response_text jv_ops 1 (Result (InitializeResult_to_json jv_ops example_handshake)) = Inr handshake_answer"
  by code_simp

lemma handshake_parsed:
  "exact_id jv_ops handshake_text \<and> is_initialize_body handshake_text \<and>
   keeps_id jv_ops (response_for 1 (Result VNull)) handshake_answer"
  unfolding keeps_id_iff by code_simp

lemma call_dumped:
  "request_text jv_ops 1 ''tools/call''
     (CallToolRequestParams_to_json jv_ops (call_params jv_ops ''add'' example_args None)) = Inr call_text \<and>
   response_text jv_ops 1 (Result (CallToolResult_to_json jv_ops example_result)) = Inr call_answer"
  by code_simp

lemma call_parsed:
  "exact_id jv_ops call_text \<and> keeps_id jv_ops (response_for 1 (Result VNull)) call_answer"
  unfolding keeps_id_iff by code_simp

lemma keeps_id_outcome: "keeps_id J (response_for n out) f \<longleftrightarrow> keeps_id J (response_for n out') f"
  by (simp add: keeps_id_def response_for_def)

lemmas stack_texts =
  handshake_dumped [THEN conjunct1] handshake_dumped [THEN conjunct2]
  handshake_parsed [THEN conjunct1] handshake_parsed [THEN conjunct2, THEN conjunct1]
  handshake_parsed [THEN conjunct2, THEN conjunct2, unfolded keeps_id_outcome [of _ _ "Result VNull"
      _ "Result (InitializeResult_to_json jv_ops example_handshake)"]]
  call_dumped [THEN conjunct1] call_dumped [THEN conjunct2] call_parsed [THEN conjunct1]
  call_parsed [THEN conjunct2, unfolded keeps_id_outcome [of _ _ "Result VNull"
      _ "Result (CallToolResult_to_json jv_ops example_result)"]]
  stack_gate stack_links

section \<open>A tool call\<close>

lemma tool_call_exchanged:
  assumes J: "json_lib J"
    and session: "cli_session cl = Some (t, s)" "ready env s"
    and server: "sv_initialized sv" "map_of (sv_tools sv) name = Some entry" "toe_handler entry = Some h"
      "map_option te_task_support (tool_execution (toe_descriptor entry)) \<noteq> Some Support_required"
    and handler: "\<not> j_is_null J args" "h args (sv_app sv) = (r, app)"
      "\<And>res. r = Inr res \<Longrightarrow> CallToolResult_wf J res" "\<And>w. r \<noteq> Inl (JsonException w)"
      "outcome_of J (emap (CallToolResult_to_json J) r) = Inr out"
    and frames: "carries_request J (se_next_id s) ''tools/call''
        (CallToolRequestParams_to_json J (call_params J name args None)) (CallToolRequestParams_from_json J)"
      "carries_response J (se_next_id s) out (CallToolResult_from_json J)"
    and texts: "request_text J (se_next_id s) ''tools/call''
        (CallToolRequestParams_to_json J (call_params J name args None)) = Inr f" "exact_id J f"
      "response_text J (se_next_id s) out = Inr g" "keeps_id J (response_for (se_next_id s) out) g"
    and link: "linked sid n l"
    and gate: "fst (post_gate ho (request_of (post_headers co (hl_client l)) f))"
  shows "\<exists>l' s' v. http_exchange J ho co broken fresh (call_tool J env name args)
      (server_handlers J senv tasks) l sv cl capp =
      (l', cl\<lparr>cli_session := Some (t, s')\<rparr>, sv\<lparr>sv_app := app\<rparr>, capp) \<and>
    settled_to (ce_future env) v s s' \<and> tool_promise r v \<and> linked sid n l' \<and> advanced n f g l l'"
proof -
  have "h (if j_is_null J args then j_object J else args) (sv_app sv) = (r, app)" using handler(1,2) by simp
  note handled = json_lib.tool_handled [OF J server this]
  from json_lib.http_exchange_settles [where h = "handle_call_tool J senv" and peer = sv and app = capp
      and tables = "server_handlers J senv tasks" and broken = broken and fresh = fresh
      and convert = "\<lambda>j. emap R_call (CallToolResult_from_json J j)",
      OF J session _ handler(5) handled frames texts disjI1 [OF link] gate]
  obtain l' s' out' where "http_exchange J ho co broken fresh (call_tool J env name args)
      (server_handlers J senv tasks) l sv cl capp =
      (l', cl\<lparr>cli_session := Some (t, s')\<rparr>, sv\<lparr>sv_app := app\<rparr>, capp)"
    "promised (CallToolResult_from_json J) out' = promised (CallToolResult_from_json J) out"
    "settled_to (ce_future env) (promised (\<lambda>j. emap R_call (CallToolResult_from_json J j)) out') s s'"
    "linked sid n l'" "advanced n f g l l'"
    unfolding call_tool_def by (auto simp: lookup_server_handlers)
  with json_lib.tool_promised [OF J handler(5,3,4)] show ?thesis by blast
qed

section \<open>Properties\<close>

text \<open>
  C13: The handshake over HTTP makes the session. The first POST of a client that has no session id,
  to a host that does not know the id it draws: the host makes a context under that id, whose server
  answers with its info and capabilities and records those of the client; the client has stored
  them, and from then on client and host are linked by the new session. No other session changes.
\<close>

theorem handshake_over_http:
  assumes J: "json_lib J"
    and session: "cli_session cl = Some (t, s)" "ready env s"
    and server: "\<not> sv_initialized sv" "Implementation_wf J (sv_server_info sv)"
    and client: "Implementation_wf J (cli_client_info cl)"
      "pred_option (ClientCapabilities_wf J) (cli_capabilities_override cl)"
    and result: "result = negotiated J sv"
    and frames: "carries_request J (se_next_id s) ''initialize'' (initialize_payload J cl)
        (InitializeRequestParams_from_json J)"
      "carries_response J (se_next_id s) (Result (InitializeResult_to_json J result))
         (InitializeResult_from_json J)"
      "over_text J (Notification \<lparr>note_method = ''notifications/initialized'', note_params = None\<rparr>) \<noteq> None"
    and texts: "request_text J (se_next_id s) ''initialize'' (initialize_payload J cl) = Inr f" "exact_id J f"
      "is_initialize_body f" "response_text J (se_next_id s) (Result (InitializeResult_to_json J result)) = Inr g"
      "keeps_id J (response_for (se_next_id s) (Result (InitializeResult_to_json J result))) g"
    and link: "unlinked co fresh l" "n = length (ho_contexts (hl_host l))"
    and gate: "fst (post_gate ho (request_of (post_headers co (hl_client l)) f))"
  shows "\<exists>l' s' v. http_exchange J ho co broken fresh (client_initialize J env)
      (server_handlers J senv tasks) l sv cl capp =
      (l', cl\<lparr>cli_session := Some (t, s')\<rparr>,
       sv\<lparr>sv_initialized := True, sv_client_capabilities := Some (merged_capabilities J cl)\<rparr>, capp) \<and>
    settled_to (ce_future env) (Inr (R_json v)) s s' \<and>
    initialize_finish J env message (Inr v) (cl\<lparr>cli_session := Some (t, s')\<rparr>) =
      (Inr result, cl\<lparr>cli_session := Some (t, s'), cli_server := Some result\<rparr>) \<and>
    linked fresh n l' \<and> advanced n f g l l'"
proof -
  let ?sv = "sv\<lparr>sv_initialized := True, sv_client_capabilities := Some (merged_capabilities J cl)\<rparr>"
  have initialize_call: "http_exchange J ho co broken fresh (client_initialize J env) tables l sv cl capp =
      http_exchange J ho co broken fresh (send_request_for J env ''initialize'' (initialize_payload J cl)
        (\<lambda>j. Inr (R_json j))) tables l sv cl capp" for tables
    by (simp add: http_exchange_def client_initialize_def)
  note handled = json_lib.initialize_handled [OF J server(1) client, folded result]
  from json_lib.http_exchange_settles [where h = "handle_initialize J" and peer = sv and app = capp
      and tables = "server_handlers J senv tasks" and convert = "\<lambda>j. Inr (R_json j)" and sid = fresh
      and broken = broken and fresh = fresh and n = n, OF J session _ _ handled frames(1,2) texts(1,2,4,5) _ gate]
    link texts(3)
  obtain l' s' out' where ex: "http_exchange J ho co broken fresh (client_initialize J env)
      (server_handlers J senv tasks) l sv cl capp = (l', cl\<lparr>cli_session := Some (t, s')\<rparr>, ?sv, capp)"
    "promised (InitializeResult_from_json J) out' =
       promised (InitializeResult_from_json J) (Result (InitializeResult_to_json J result))"
    "settled_to (ce_future env) (promised (\<lambda>j. Inr (R_json j)) out') s s'"
    "linked fresh n l'" "advanced n f g l l'"
    unfolding initialize_call by (auto simp: lookup_server_handlers)
  have env: "ce_send env = (\<lambda>_. None)" using session(2) by (simp add: ready_def)
  obtain v where "out' = Result v"
    "initialize_finish J env message (Inr v) (cl\<lparr>cli_session := Some (t, s')\<rparr>) =
      (Inr result, cl\<lparr>cli_session := Some (t, s'), cli_server := Some result\<rparr>)"
    using json_lib.initialize_answered [OF J server(2) ex(2) [unfolded result] env frames(3),
        where message = message and cl = "cl\<lparr>cli_session := Some (t, s')\<rparr>"] unfolding result by auto
  with ex show ?thesis by (intro exI [of _ l'] exI [of _ s'] exI [of _ v]) (simp add: promised_def)
qed

theorem handshake_over_http_witness:
  "\<exists>l' s' v. http_exchange jv_ops HostOptions_init stack_opts [] ''5e'' (client_initialize jv_ops example_client_env)
      (server_handlers jv_ops example_env False) unlinked_stack (Server_init example_info ()) example_client () =
      (l', example_client\<lparr>cli_session := Some (HandlerTables_init, s')\<rparr>,
       (Server_init example_info ())\<lparr>sv_initialized := True,
         sv_client_capabilities := Some (merged_capabilities jv_ops example_client)\<rparr>, ()) \<and>
    settled_to (ce_future example_client_env) (Inr (R_json v)) (session_start SessionState_init) s' \<and>
    initialize_finish jv_ops example_client_env (\<lambda>_. []) (Inr v)
        (example_client\<lparr>cli_session := Some (HandlerTables_init, s')\<rparr>) =
      (Inr example_handshake,
       example_client\<lparr>cli_session := Some (HandlerTables_init, s'), cli_server := Some example_handshake\<rparr>) \<and>
    linked ''5e'' 0 l' \<and> advanced 0 handshake_text handshake_answer unlinked_stack l'"
  by (rule handshake_over_http [OF jv_json_lib])
    (simp_all add: example_handshake_frames stack_texts,
     simp_all add: Server_init_def example_handshake_def negotiated_def Implementation_wf_def example_info_def
       unlinked_stack_def HostState_init_def)

text \<open>
  C7: A tool call with arguments over HTTP. Between a client and a host that are linked by a session,
  \<open>call_tool\<close> posts one frame, the session's server runs the tool once on the arguments, and the response to
  the POST settles the promise of the call with the tool's result, with the \<open>mcp::Error\<close> it threw, or with an
  internal error for any other exception, \<open>json::exception\<close> apart. Afterwards client and host are linked as
  before, so that calls follow one another, nothing was reported as an error, and no other session of the
  host has changed.
\<close>

theorem tool_call_over_http:
  assumes J: "json_lib J"
    and session: "cli_session cl = Some (t, s)" "ready env s"
    and server: "sv_initialized sv" "map_of (sv_tools sv) name = Some entry" "toe_handler entry = Some h"
      "map_option te_task_support (tool_execution (toe_descriptor entry)) \<noteq> Some Support_required"
    and handler: "\<not> j_is_null J args" "h args (sv_app sv) = (r, app)"
      "\<And>res. r = Inr res \<Longrightarrow> CallToolResult_wf J res" "\<And>w. r \<noteq> Inl (JsonException w)"
      "outcome_of J (emap (CallToolResult_to_json J) r) = Inr out"
    and frames: "carries_request J (se_next_id s) ''tools/call''
        (CallToolRequestParams_to_json J (call_params J name args None)) (CallToolRequestParams_from_json J)"
      "carries_response J (se_next_id s) out (CallToolResult_from_json J)"
    and texts: "request_text J (se_next_id s) ''tools/call''
        (CallToolRequestParams_to_json J (call_params J name args None)) = Inr f" "exact_id J f"
      "response_text J (se_next_id s) out = Inr g" "keeps_id J (response_for (se_next_id s) out) g"
    and link: "linked sid n l"
    and gate: "fst (post_gate ho (request_of (post_headers co (hl_client l)) f))"
  shows "\<exists>l' s' v. http_exchange J ho co broken fresh (call_tool J env name args)
      (server_handlers J senv tasks) l sv cl capp =
      (l', cl\<lparr>cli_session := Some (t, s')\<rparr>, sv\<lparr>sv_app := app\<rparr>, capp) \<and>
    settled_to (ce_future env) v s s' \<and> tool_promise r v \<and> linked sid n l' \<and> advanced n f g l l'"
  by (rule tool_call_exchanged [OF assms])

theorem tool_call_over_http_witness:
  "\<exists>l' s' v. http_exchange jv_ops HostOptions_init stack_opts [] [] (call_tool jv_ops example_client_env ''add'' example_args)
      (server_handlers jv_ops example_env True) linked_stack example_server example_client () =
      (l', example_client\<lparr>cli_session := Some (HandlerTables_init, s')\<rparr>, example_server\<lparr>sv_app := ()\<rparr>, ()) \<and>
    settled_to (ce_future example_client_env) v (session_start SessionState_init) s' \<and>
    tool_promise (Inr example_result) v \<and> linked ''5e'' 0 l' \<and> advanced 0 call_text call_answer linked_stack l'"
  by (rule tool_call_over_http [OF jv_json_lib, where h = example_handler
        and out = "Result (CallToolResult_to_json jv_ops example_result)"])
    (simp_all add: example_tool_frames stack_texts,
     simp_all add: example_handler_def CallToolResult_wf_def example_result_def example_args_def)

end
