(* ===== verification/Http_Push.thy ===== *)
theory Http_Push
  imports Http_Stack
begin

text \<open>
  The other direction of the HTTP stack: a request of the server goes through the GET stream, and the
  client's answer comes back in the body of a POST, which the host answers with 202. The definitions
  compose the session's transport, the content provider, the client's receiver, the client's tables
  and the POST handler.
\<close>

section \<open>A push and its answer\<close>

text \<open>Posts of the client that carry no request: the host answers each at once.\<close>

fun post_frames ::
    "'j json_ops \<Rightarrow> HostOptions \<Rightarrow> ClientOptions \<Rightarrow> string \<Rightarrow> string list \<Rightarrow> HttpLink \<Rightarrow> HttpLink" where
  "post_frames J ho co fresh [] l = l"
| "post_frames J ho co fresh (g # gs) l =
     (case worker_loop (snd (client_send g (hl_client l))) of
        (Takes body, ct) \<Rightarrow>
          (case handle_post J ho fresh (request_of (post_headers co ct) body) (hl_host l) of
             (Replied res, h) \<Rightarrow>
               post_frames J ho co fresh gs
                 \<lparr>hl_client = process_reply co (Some (reply_of res)) ct, hl_host = h\<rparr>
           | (Awaits res n p, h) \<Rightarrow> post_frames J ho co fresh gs \<lparr>hl_client = ct, hl_host = h\<rparr>)
      | (look, ct) \<Rightarrow> post_frames J ho co fresh gs (l\<lparr>hl_client := ct\<rparr>))"

text \<open>
  While the GET stream of context \<open>n\<close> is open, the session sends and the provider writes (\<open>es\<close>); \<open>pieces\<close> is
  how the network cuts the bytes. The client's session serves what its transport hands up and posts
  the answers. The result starts with the frames that the host then hands to the session.
\<close>

definition http_push ::
    "'j json_ops \<Rightarrow> HostOptions \<Rightarrow> ClientOptions \<Rightarrow> string \<Rightarrow> (string \<Rightarrow> string list) \<Rightarrow> ('j, 's) HandlerTables \<Rightarrow>
     nat \<Rightarrow> get_event list \<Rightarrow> HttpLink \<Rightarrow> 's \<Rightarrow> string list \<times> HttpLink \<times> 's" where
  "http_push J ho co fresh pieces tables n es l app =
     (let old = hs_handed (transport_of n (hl_host l));
          (outs, t) = get_stream J es (transport_of n (hl_host l));
          h = set_transport n t (hl_host l);
          (buf, ct) = receive_chunks (pieces (concat outs)) [] (hl_client l);
          new = drop (length (ct_messages (hl_client l))) (ct_messages ct);
          (gs, app) = serve_frames J tables new app;
          l = post_frames J ho co fresh gs \<lparr>hl_client = ct, hl_host = h\<rparr>
      in (drop (length old) (hs_handed (transport_of n (hl_host l))), l, app))"

section \<open>What the stream leaves alone\<close>

lemma get_stream_frame:
  assumes "\<not> hs_closed t" "list_all (server_initiated J) (pushed es)" "get_stream J es t = (outs, t')"
  shows "t' = t\<lparr>hs_get_queue := hs_get_queue t'\<rparr>"
  using assms
proof (induction J es t arbitrary: outs t' rule: get_stream.induct)
  case (2 J f es t)
  then show ?case by (fastforce simp: send_server_initiated enqueue_get_def)
next
  case (3 J es t)
  obtain frame t1 where w: "wait_get_frame t = (frame, t1)" by fastforce
  then have t1: "t1 = t\<lparr>hs_get_queue := hs_get_queue t1\<rparr>"
    by (auto simp: wait_get_frame_def split: list.splits)
  have "\<not> hs_closed t1" using 3(2) by (subst t1) simp
  have p: "provide True True t = ((sse_write frame, True), t1)"
    using 3(2) w by (simp add: provide_def)
  from 3(4) p obtain outs1 where "get_stream J es t1 = (outs1, t')" by (auto split: prod.splits)
  from 3(1) [OF p [symmetric] refl refl \<open>\<not> hs_closed t1\<close> _ this] 3(3)
  have "t' = t1\<lparr>hs_get_queue := hs_get_queue t'\<rparr>" by simp
  then show ?case using t1 by (metis HttpSessionTransport.update_convs(10) HttpSessionTransport.surjective)
qed simp

lemma single_event_received:
  assumes "sse_sendable f" "ct_on_message t"
  shows "get_event (SseEvent_init\<lparr>se_data := f\<rparr>) t = t\<lparr>ct_messages := ct_messages t @ [f]\<rparr>"
  using assms
  by (simp add: get_event_def deliver_data_def note_retry_def note_event_id_def SseEvent_init_def
      sse_sendable_def deliver_frame_def)

lemma keeps_id_no_request:
  "keeps_id J resp g \<Longrightarrow> request_key J g = None \<and> (\<exists>j. j_parse J g = Inr j)"
  by (auto simp: keeps_id_def request_key_def)

text \<open>A response that the client posts reaches the session of the link.\<close>

lemma response_posted:
  assumes "linked sid n l" "keeps_id J resp g"
    and "fst (post_gate ho (request_of (post_headers co (hl_client l)) g))"
  obtains l' where "post_frames J ho co fresh [g] l = l'" "linked sid n l'"
    "hs_handed (transport_of n (hl_host l')) = hs_handed (transport_of n (hl_host l)) @ [g]"
    "ct_errors (hl_client l') = ct_errors (hl_client l)" "ct_messages (hl_client l') = ct_messages (hl_client l)"
proof -
  let ?ct = "hl_client l" and ?h = "hl_host l"
  let ?req = "request_of (post_headers co ?ct) g" and ?t = "transport_of n ?h"
  let ?res = "set_status 202 (set_header ''Mcp-Session-Id'' sid HttpResponse_init)"
  have l: "client_idle ?ct" "ct_session_id ?ct = Some sid" "sid \<noteq> []" "contexts_known ?h"
    "map_of (ho_sessions ?h) sid = Some n" "cx_id (ho_contexts ?h ! n) = sid" "resting ?t"
    using assms(1) by (simp_all add: linked_def)
  then have n: "n < length (ho_contexts ?h)" by (intro contexts_knownD)
  obtain j where "j_parse J g = Inr j" "request_key J g = None" using keeps_id_no_request [OF assms(2)] by blast
  moreover have "hand_up g ?t = ?t\<lparr>hs_handed := hs_handed ?t @ [g]\<rparr>"
    using l(7) by (simp add: hand_up_def resting_def)
  ultimately have d: "deliver J g ?t = (None, ?t\<lparr>hs_handed := hs_handed ?t @ [g]\<rparr>)"
    by (simp add: deliver_def)
  have body: "hq_body ?req = g" by (simp add: request_of_def)
  obtain res where gate: "post_gate ho ?req = (True, res)"
    using assms(3) by (cases "post_gate ho ?req") auto
  let ?h' = "set_transport n (?t\<lparr>hs_handed := hs_handed ?t @ [g]\<rparr>) ?h"
  have post: "handle_post J ho fresh ?req ?h = (Replied ?res, ?h')"
    using gate l next_post_session(2) [OF l(2,3)] d
    by (simp add: handle_post_def resolve_session_def post_deliver_def body)
  have reply: "hp_status (reply_of ?res) = 202" "hp_header (reply_of ?res) ''Mcp-Session-Id'' = Some sid"
    by (simp_all add: reply_of_def set_status_def set_header_def HttpResponse_init_def)
  have ct: "process_reply co (Some (reply_of ?res)) ?ct = ?ct\<lparr>ct_session_id := Some sid, ct_auth_callback_armed := True\<rparr>"
    using reply l(3) by (simp add: process_reply_def capture_session_def)
  have taken: "worker_loop (snd (client_send g ?ct)) = (Takes g, ?ct)"
    using l(1) by (simp add: client_idle_def client_send_def send_check_def push_out_def worker_loop_def)
  have "post_frames J ho co fresh [g] l = \<lparr>hl_client = process_reply co (Some (reply_of ?res)) ?ct, hl_host = ?h'\<rparr>"
    by (simp add: taken post)
  then show thesis
    by (rule that) (use l n ct in \<open>simp_all add: linked_def client_idle_def contexts_known_def resting_def\<close>)
qed

context json_lib
begin

lemma request_is_server_initiated:
  assumes "classify_frame J f = Inr (Some (Request q))"
  shows "server_initiated J f"
  using assms by (auto simp: server_initiated_def elim: request_classified)

text \<open>A request pushed to a client whose tables have a handler for it.\<close>

lemma pushed_request_answered:
  assumes link: "linked sid n l" "hs_get_queue (transport_of n (hl_host l)) = []"
    and f: "classify_frame J f = Inr (Some (Request q))" "sse_sendable f"
    and stream: "pushed es = [f]" "hs_get_queue (snd (get_stream J es (transport_of n (hl_host l)))) = []"
      "\<And>bytes. concat (pieces bytes) = bytes"
    and served: "peer_answers J t f capp = ([g], capp')" "keeps_id J resp g"
    and gate: "fst (post_gate ho (request_of (post_headers co (hl_client l)) g))"
  obtains l' where "http_push J ho co fresh pieces t n es l capp = ([g], l', capp')" "linked sid n l'"
    "ct_errors (hl_client l') = ct_errors (hl_client l)"
    "ct_messages (hl_client l') = ct_messages (hl_client l) @ [f]"
proof -
  let ?t = "transport_of n (hl_host l)" and ?ct = "hl_client l"
  have l: "client_idle ?ct" "resting ?t" "contexts_known (hl_host l)" "map_of (ho_sessions (hl_host l)) sid = Some n"
    using link(1) by (simp_all add: linked_def)
  then have n: "n < length (ho_contexts (hl_host l))" by (intro contexts_knownD)
  obtain outs t' where stream': "get_stream J es ?t = (outs, t')" by fastforce
  have closed: "\<not> hs_closed ?t" using l(2) by (simp add: resting_def)
  have si: "list_all (server_initiated J) (pushed es)" using request_is_server_initiated [OF f(1)] stream(1) by simp
  have t': "t' = ?t"
  proof -
    have "hs_get_queue t' = hs_get_queue ?t" using stream(2) link(2) stream' by simp
    with get_stream_frame [OF closed si stream'] show ?thesis by simp
  qed
  have "list_all sse_sendable (hs_get_queue ?t @ pushed es)" using link(2) stream(1) f(2) by simp
  from get_stream_events [OF closed si this stream' stream(3)] obtain fs where
    "fs @ hs_get_queue t' = [f]" "drain_chunks [] (pieces (concat outs)) = (map (\<lambda>f. SseEvent_init\<lparr>se_data := f\<rparr>) fs, [])"
    using link(2) stream(1) by auto
  then have drained: "drain_chunks [] (pieces (concat outs)) = ([SseEvent_init\<lparr>se_data := f\<rparr>], [])"
    using t' link(2) by simp
  let ?ct' = "?ct\<lparr>ct_messages := ct_messages ?ct @ [f]\<rparr>"
  have received: "receive_chunks (pieces (concat outs)) [] ?ct = ([], ?ct')"
    using receive_chunks_drain [of ?ct "pieces (concat outs)" "[]"] drained single_event_received [OF f(2)] l(1)
    by (simp add: client_idle_def)
  let ?l = "\<lparr>hl_client = ?ct', hl_host = set_transport n ?t (hl_host l)\<rparr>"
  have same: "set_transport n ?t (hl_host l) = hl_host l"
    using n by (simp add: set_transport_def transport_of_def)
  have "linked sid n ?l" using link(1) by (simp add: linked_def same client_idle_def)
  moreover have "post_headers co ?ct' = post_headers co ?ct"
    by (simp add: post_headers_def auth_header_def split: option.split)
  ultimately obtain l' where l': "post_frames J ho co fresh [g] ?l = l'" "linked sid n l'"
    "hs_handed (transport_of n (hl_host l')) = hs_handed ?t @ [g]"
    "ct_errors (hl_client l') = ct_errors ?ct" "ct_messages (hl_client l') = ct_messages ?ct @ [f]"
    using response_posted [of sid n ?l J resp g ho co fresh] served(2) gate by (auto simp: same)
  have "http_push J ho co fresh pieces t n es l capp = ([g], l', capp')"
    using l'(1,3) by (simp add: http_push_def stream' t' received served(1) del: post_frames.simps)
  from that [OF this l'(2,4,5)] show thesis .
qed

end

section \<open>Properties\<close>

text \<open>
  C12: A request of the server over HTTP: \<open>Server::sample\<close> returns the frame, the session pushes it into the GET
  stream, the client, whatever pieces the stream arrives in, runs its sampling handler once and
  posts the answer, the host hands that to the session, and the promise that \<open>sample\<close> returned is settled
  with the handler's result. Client and host are linked as before.
\<close>

theorem sampling_over_http:
  assumes J: "json_lib J"
    and server: "sv_session sv" "\<not> se_closed s" "map_of (se_pending s) (IdInt (se_next_id s)) = None"
      "CreateMessageRequestParams_wf J params"
    and client: "set_sampling_handler J (Some h) cl = (Inr (), cl')" "cli_session cl' = Some (t, cs)"
    and handler: "h params capp = (Inr res, capp')" "CreateMessageResult_wf J res"
    and frames: "carries_request J (se_next_id s) ''sampling/createMessage''
        (CreateMessageRequestParams_to_json J params) (CreateMessageRequestParams_from_json J)"
      "carries_response J (se_next_id s) (Result (CreateMessageResult_to_json J res))
         (CreateMessageResult_from_json J)"
    and texts: "request_text J (se_next_id s) ''sampling/createMessage''
        (CreateMessageRequestParams_to_json J params) = Inr f" "sse_sendable f"
      "response_text J (se_next_id s) (Result (CreateMessageResult_to_json J res)) = Inr g"
      "keeps_id J (response_for (se_next_id s) (Result (CreateMessageResult_to_json J res))) g"
    and link: "linked sid n l" "hs_get_queue (transport_of n (hl_host l)) = []"
    and stream: "pushed es = [f]" "hs_get_queue (snd (get_stream J es (transport_of n (hl_host l)))) = []"
      "\<And>bytes. concat (pieces bytes) = bytes"
    and gate: "fst (post_gate ho (request_of (post_headers co (hl_client l)) g))"
  shows "\<exists>s1 s2 l'.
    server_sample J (\<lambda>_. None) dflt params fut now sv s = Inr (s1, Some f) \<and>
    http_push J ho co fresh pieces t n es l capp = ([g], l', capp') \<and>
    receive_frames J tables [g] s1 app = (Inr [], s2, app) \<and> settled_to fut (Inr res) s s2 \<and> linked sid n l'"
proof -
  let ?out = "Result (CreateMessageResult_to_json J res)"
  obtain f' q where f': "j_dump J (serialize_message J (Request \<lparr>req_id = IdInt (se_next_id s),
       req_method = ''sampling/createMessage'',
       req_params = params_of J (CreateMessageRequestParams_to_json J params)\<rparr>)) = Inr f'"
    and q: "classify_frame J f' = Inr (Some (Request q))" "req_id q = IdInt (se_next_id s)"
      "req_method q = ''sampling/createMessage''"
    and params: "CreateMessageRequestParams_from_json J (case req_params q of Some p \<Rightarrow> p | None \<Rightarrow> j_null J) =
        CreateMessageRequestParams_from_json J (CreateMessageRequestParams_to_json J params)"
      "j_is_null J (case req_params q of Some p \<Rightarrow> p | None \<Rightarrow> j_null J) \<longleftrightarrow>
        j_is_null J (CreateMessageRequestParams_to_json J params)"
    and sent: "register_pending J (\<lambda>_. None) dflt ''sampling/createMessage''
        (CreateMessageRequestParams_to_json J params) fut (CreateMessageResult_from_json J) 0 now s =
      (s\<lparr>se_next_id := se_next_id s + 1,
         se_pending := (IdInt (se_next_id s), \<lparr>pd_future = fut, pd_convert = CreateMessageResult_from_json J,
           pd_deadline = now + request_timeout dflt 0\<rparr>) # se_pending s\<rparr>, Some f')"
    by (rule json_lib.request_goes_out [OF J server(2,3) frames(1)])
  have [simp]: "f' = f" using f' texts(1) by (simp add: request_text_def)
  obtain t0 where "t = register_request ''sampling/createMessage'' (sampling_wrapper J) (Some h) t0"
    using client by (auto simp: set_sampling_handler_def with_tables_def split: if_splits option.splits)
  then have lookup: "lookup_req t (req_method q) = Some (sampling_wrapper J h)"
    by (simp add: register_request_def q(3))
  have run: "sampling_wrapper J h (case req_params q of Some p \<Rightarrow> p | None \<Rightarrow> j_null J) capp =
      (Inr (CreateMessageResult_to_json J res), capp')"
    using params handler(1) json_lib.sampling_params_rt [OF J server(4)] by (simp add: sampling_wrapper_def)
  have out: "outcome_of J (Inr (CreateMessageResult_to_json J res)) = Inr ?out" by simp
  obtain g' a where g': "j_dump J (serialize_message J (Response \<lparr>resp_id = Some (IdInt (se_next_id s)),
       resp_outcome = ?out\<rparr>)) = Inr g'"
    and a: "classify_frame J g' = Inr (Some (Response a))" "resp_id a = Some (IdInt (se_next_id s))"
      "promised (CreateMessageResult_from_json J) (resp_outcome a) =
       promised (CreateMessageResult_from_json J) ?out"
    and served: "peer_answers J t f' capp = ([g'], capp')"
    by (rule json_lib.peer_serves [OF J q(1) lookup run out q(2) frames(2)])
  have [simp]: "g' = g" using g' texts(3) by (simp add: response_text_def response_for_def)
  obtain l' where pushed: "http_push J ho co fresh pieces t n es l capp = ([g], l', capp')" "linked sid n l'"
    by (rule json_lib.pushed_request_answered [OF J link _ texts(2) stream _ texts(4) gate])
      (use q(1) served in simp_all)
  have "promised (CreateMessageResult_from_json J) (resp_outcome a) = Inr res"
    using a(3) json_lib.sampling_result_rt [OF J handler(2)] by (simp add: promised_def)
  moreover from a(1,2) have "receive_frames J tables [g] (s\<lparr>se_next_id := se_next_id s + 1,
      se_pending := (IdInt (se_next_id s), p) # se_pending s\<rparr>) app =
    (Inr [], s\<lparr>se_next_id := se_next_id s + 1,
       se_settled := se_settled s @ [(pd_future p, promised (pd_convert p) (resp_outcome a))]\<rparr>, app)" for p
    using json_lib.answer_settles [OF J, where s = "s\<lparr>se_next_id := se_next_id s + 1\<rparr>"] server(3) by simp
  ultimately show ?thesis
    using pushed server(1) sent by (simp add: server_sample_def settled_to_def)
qed

definition push_text :: string where
  "push_text = ''{\"jsonrpc\":\"2.0\",\"id\":1,\"method\":\"sampling/createMessage\",\"params\":'' @
     ''{\"messages\":[],\"maxTokens\":5,\"systemPrompt\":\"hi\"}}''"

definition push_answer :: string where
  "push_answer = ''{\"jsonrpc\":\"2.0\",\"id\":1,\"result\":'' @
     ''{\"role\":\"assistant\",\"content\":[],\"model\":\"m\"}}''"

definition push_events :: "get_event list" where
  "push_events = [Pull, Push push_text, Pull]"

lemma push_texts:
  "request_text jv_ops 1 ''sampling/createMessage''
     (CreateMessageRequestParams_to_json jv_ops example_prompt) = Inr push_text \<and>
   response_text jv_ops 1 (Result (CreateMessageResult_to_json jv_ops example_message)) = Inr push_answer"
  by code_simp

lemma push_parsed:
  "keeps_id jv_ops (response_for 1 (Result VNull)) push_answer \<and> sse_sendable push_text \<and>
   pushed push_events = [push_text] \<and> hs_get_queue (transport_of 0 (hl_host linked_stack)) = [] \<and>
   hs_get_queue (snd (get_stream jv_ops push_events (transport_of 0 (hl_host linked_stack)))) = []"
  unfolding keeps_id_iff by code_simp

lemma push_answer_keeps_id: "keeps_id jv_ops (response_for 1 out) push_answer"
  using push_parsed [THEN conjunct1] by (simp only: keeps_id_outcome [of _ _ out _ "Result VNull"])

theorem sampling_over_http_witness:
  "\<exists>s1 s2 l'.
    server_sample jv_ops (\<lambda>_. None) 30000 example_prompt 0 0 example_server (session_start SessionState_init) =
      Inr (s1, Some push_text) \<and>
    http_push jv_ops HostOptions_init stack_opts [] (map (\<lambda>c. [c]))
      (register_request ''sampling/createMessage'' (sampling_wrapper jv_ops) (Some example_sampler)
        HandlerTables_init) 0 push_events linked_stack () = ([push_answer], l', ()) \<and>
    receive_frames jv_ops (server_handlers jv_ops example_env False) [push_answer] s1 example_server =
      (Inr [], s2, example_server) \<and>
    settled_to 0 (Inr example_message) (session_start SessionState_init) s2 \<and> linked ''5e'' 0 l'"
  by (rule sampling_over_http [OF jv_json_lib, where h = example_sampler and cl = example_client
        and cl' = "snd (set_sampling_handler jv_ops (Some example_sampler) example_client)"])
    (simp_all add: example_sampling_frames push_texts [THEN conjunct1] push_texts [THEN conjunct2]
       push_parsed [THEN conjunct2] push_answer_keeps_id
       stack_links stack_gate,
     simp_all add: set_sampling_handler_def with_tables_def example_sampler_def example_prompt_def
       example_message_def CreateMessageRequestParams_wf_def CreateMessageResult_wf_def
       session_start_def SessionState_init_def)

end
