(* ===== verification/Mcp_Log.thy ===== *)
theory Mcp_Log
  imports Mcp_Prelude
begin

text \<open>
  The diagnostic log of src/log.cpp: a level, a sink that can be replaced, and the line that the
  default sink writes to the standard error stream. The library's own messages go through it; no other
  component reads what it does.
\<close>

section \<open>Levels\<close>

datatype LogLevel = Level_trace | Level_debug | Level_info | Level_warn | Level_error | Level_off

fun LogLevel_int :: "LogLevel \<Rightarrow> int" where
  "LogLevel_int Level_trace = 0"
| "LogLevel_int Level_debug = 1"
| "LogLevel_int Level_info = 2"
| "LogLevel_int Level_warn = 3"
| "LogLevel_int Level_error = 4"
| "LogLevel_int Level_off = 5"

instantiation LogLevel :: linorder
begin

definition less_eq_LogLevel :: "LogLevel \<Rightarrow> LogLevel \<Rightarrow> bool" where
  "less_eq_LogLevel a b \<longleftrightarrow> LogLevel_int a \<le> LogLevel_int b"

definition less_LogLevel :: "LogLevel \<Rightarrow> LogLevel \<Rightarrow> bool" where
  "less_LogLevel a b \<longleftrightarrow> LogLevel_int a < LogLevel_int b"

instance
proof
  fix a b :: LogLevel
  show "a \<le> b \<Longrightarrow> b \<le> a \<Longrightarrow> a = b"
    by (cases a; cases b) (simp_all add: less_eq_LogLevel_def)
qed (auto simp: less_eq_LogLevel_def less_LogLevel_def)

end

fun LogLevel_to_string :: "LogLevel \<Rightarrow> string" where
  "LogLevel_to_string Level_trace = ''TRACE''"
| "LogLevel_to_string Level_debug = ''DEBUG''"
| "LogLevel_to_string Level_info = ''INFO''"
| "LogLevel_to_string Level_warn = ''WARN''"
| "LogLevel_to_string Level_error = ''ERROR''"
| "LogLevel_to_string Level_off = ''OFF''"

section \<open>The line of the default sink\<close>

text \<open>The fields of \<open>std::tm\<close> that are printed, and the microseconds of the clock.\<close>

record LogTime =
  tm_year :: int
  tm_mon :: int
  tm_mday :: int
  tm_hour :: int
  tm_min :: int
  tm_sec :: int
  tm_micros :: int

text \<open>\<open>%0<w>d\<close>, \<open>%-<w>s\<close>, and \<open>%.*s\<close> with the message's own length, which stops at a null character.\<close>

definition pad_zero :: "nat \<Rightarrow> int \<Rightarrow> string" where
  "pad_zero w i =
     (let digits = dec_string (nat \<bar>i\<bar>); sign = (if i < 0 then ''-'' else [])
      in sign @ replicate (w - length sign - length digits) CHR ''0'' @ digits)"

definition pad_right :: "nat \<Rightarrow> string \<Rightarrow> string" where
  "pad_right w s = s @ replicate (w - length s) CHR '' ''"

definition c_text :: "string \<Rightarrow> string" where
  "c_text s = takeWhile (\<lambda>c. c \<noteq> CHR 0x00) s"

definition default_sink :: "LogTime \<Rightarrow> LogLevel \<Rightarrow> string \<Rightarrow> string" where
  "default_sink t level msg =
     ''['' @ pad_zero 4 (tm_year t + 1900) @ ''-'' @ pad_zero 2 (tm_mon t + 1) @ ''-'' @
     pad_zero 2 (tm_mday t) @ '' '' @ pad_zero 2 (tm_hour t) @ '':'' @ pad_zero 2 (tm_min t) @ '':'' @
     pad_zero 2 (tm_sec t) @ ''.'' @ pad_zero 6 (tm_micros t) @ '' '' @
     pad_right 5 (LogLevel_to_string level) @ ''] '' @ c_text msg @ [CHR 0x0A]"

section \<open>The log\<close>

text \<open>
  A sink of the application is a number; \<open>lg_sink\<close> is empty until the first message.
  \<open>lg_calls\<close> logs the calls of the sinks.
\<close>

datatype log_sink = Default_sink | App_sink nat

record LogState =
  lg_level :: LogLevel
  lg_sink :: "log_sink option"
  lg_calls :: "(log_sink \<times> LogLevel \<times> string) list"

definition LogState_init :: LogState where
  "LogState_init = \<lparr>lg_level = Level_info, lg_sink = None, lg_calls = []\<rparr>"

definition set_log_sink :: "nat option \<Rightarrow> LogState \<Rightarrow> LogState" where
  "set_log_sink sink st =
     st\<lparr>lg_sink := Some (case sink of Some n \<Rightarrow> App_sink n | None \<Rightarrow> Default_sink)\<rparr>"

definition set_minimum_level :: "LogLevel \<Rightarrow> LogState \<Rightarrow> LogState" where
  "set_minimum_level level st = st\<lparr>lg_level := level\<rparr>"

definition log_message :: "LogLevel \<Rightarrow> string \<Rightarrow> LogState \<Rightarrow> LogState" where
  "log_message level msg st =
     (if level < lg_level st then st
      else
        let sink = (case lg_sink st of None \<Rightarrow> Default_sink | Some s \<Rightarrow> s)
        in st\<lparr>lg_sink := Some sink, lg_calls := lg_calls st @ [(sink, level, msg)]\<rparr>)"

text \<open>The macro \<open>MCP_LOG\<close>.\<close>

definition mcp_log :: "LogLevel \<Rightarrow> string \<Rightarrow> LogState \<Rightarrow> LogState" where
  "mcp_log level msg st = (if lg_level st \<le> level then log_message level msg st else st)"

section \<open>Laws\<close>

lemma mcp_log_is_log_message: "mcp_log level msg st = log_message level msg st"
  by (simp add: mcp_log_def log_message_def not_less)

text \<open>What a sequence of messages hands to the sink: those at or above the level, in order.\<close>

lemma messages_filtered:
  "map snd (lg_calls (fold (\<lambda>(l, m). mcp_log l m) ms st)) =
     map snd (lg_calls st) @ filter (\<lambda>(l, m). lg_level st \<le> l) ms"
proof (induction ms arbitrary: st)
  case (Cons lm ms)
  obtain l m where lm: "lm = (l, m)" by fastforce
  have "lg_level (mcp_log l m st) = lg_level st"
    by (simp add: mcp_log_def log_message_def Let_def)
  moreover have "map snd (lg_calls (mcp_log l m st)) =
      map snd (lg_calls st) @ (if lg_level st \<le> l then [(l, m)] else [])"
    by (auto simp: mcp_log_def log_message_def Let_def)
  ultimately show ?case using Cons.IH [of "mcp_log l m st"] by (simp add: lm)
qed simp

lemma pad_zero_length: "length (pad_zero w i) \<ge> w"
  by (simp add: pad_zero_def Let_def)

lemma digits_no_newline: "CHR 0x0A \<notin> set (dec_string n)"
  using dec_string_digits [of n] by (auto simp: list_all_iff is_digit_def)

lemma pad_zero_no_newline: "CHR 0x0A \<notin> set (pad_zero w i)"
  using digits_no_newline by (auto simp: pad_zero_def Let_def)

lemma level_name_no_newline: "CHR 0x0A \<notin> set (pad_right 5 (LogLevel_to_string level))"
  by (cases level) (simp_all add: pad_right_def)

text \<open>A message without line breaks is one line, whatever the clock says.\<close>

lemma default_sink_one_line:
  assumes "CHR 0x0A \<notin> set msg"
  shows "\<exists>line. default_sink t level msg = line @ [CHR 0x0A] \<and> CHR 0x0A \<notin> set line"
  using assms pad_zero_no_newline level_name_no_newline set_takeWhileD
  by (fastforce simp: default_sink_def c_text_def)

text \<open>At the level \<open>off\<close> a message of that level still gets out, and a null character cuts a message.\<close>

theorem off_message_passes:
  "lg_calls (log_message Level_off msg (set_minimum_level Level_off LogState_init)) =
     [(Default_sink, Level_off, msg)]"
  by (simp add: log_message_def set_minimum_level_def LogState_init_def)

end
