(* ===== verification/Sql_Statements.thy ===== *)
theory Sql_Statements
  imports Mcp_Prelude "HOL-Library.Multiset"
begin

text \<open>
  The part of SQL in which the notes server of examples/mcp_notes_server/main.cpp changes and looks up single
  notes: reading the text of a statement, and what a statement means on the rows of its table. Texts outside of
  this part are not read.

  Lemmas: the table seen as a map from keys to rows, on which an upsert, a query by key and a delete by key are an
  update, a lookup and a removal.
\<close>

section \<open>Statements\<close>

datatype sql_value = Sql_null | Sql_text string | Sql_int int64

text \<open>
  \<open>Insert\<close>: table, columns, the parameters that give their values, the column of \<open>ON CONFLICT\<close>, and the columns that
  \<open>DO UPDATE\<close> sets, each to a column of the row \<open>excluded\<close>. \<open>Select\<close> and \<open>Delete\<close>: the rows whose column equals
  a parameter.
\<close>

datatype statement =
    Insert string "string list" "nat list" string "(string \<times> string) list"
  | Select "string list" string string nat
  | Delete string string nat

section \<open>Reading a statement\<close>

text \<open>Words and single signs, between white space.\<close>

definition is_space :: "char \<Rightarrow> bool" where
  "is_space c \<longleftrightarrow> c = CHR '' '' \<or> c = CHR 0x0A"

definition is_word :: "char \<Rightarrow> bool" where
  "is_word c \<longleftrightarrow> c = CHR ''_'' \<or> c = CHR ''?'' \<or> is_digit c \<or>
     (65 \<le> (of_char c :: nat) \<and> (of_char c :: nat) \<le> 90) \<or> (97 \<le> (of_char c :: nat) \<and> (of_char c :: nat) \<le> 122)"

fun lex :: "string \<Rightarrow> string \<Rightarrow> string list" where
  "lex word [] = (if word = [] then [] else [word])"
| "lex word (c # s) =
     (if is_word c then lex (word @ [c]) s
      else (if word = [] then [] else [word]) @ (if is_space c then lex [] s else [c] # lex [] s))"

text \<open>A name is in lower case; the names of the row id are left out.\<close>

definition is_name :: "string \<Rightarrow> bool" where
  "is_name n \<longleftrightarrow> n \<noteq> [] \<and> n \<notin> {''rowid'', ''oid'', ''_rowid_''} \<and>
     list_all (\<lambda>c. c = CHR ''_'' \<or> (97 \<le> (of_char c :: nat) \<and> (of_char c :: nat) \<le> 122)) n"

definition read_param :: "string \<Rightarrow> nat option" where
  "read_param w =
     (if w \<noteq> [] \<and> hd w = CHR ''?'' \<and> tl w \<noteq> [] \<and> list_all is_digit (tl w) \<and> dec_value (tl w) \<noteq> 0
      then Some (dec_value (tl w)) else None)"

text \<open>Names with commas between them, up to the word that ends the list.\<close>

fun read_names :: "string \<Rightarrow> string list \<Rightarrow> (string list \<times> string list) option" where
  "read_names stop (n # sep # ts) =
     (if \<not> is_name n then None
      else if sep = stop then Some ([n], ts)
      else if sep = '','' then map_option (\<lambda>(ns, ts). (n # ns, ts)) (read_names stop ts)
      else None)"
| "read_names stop ts = None"

fun read_params :: "string list \<Rightarrow> (nat list \<times> string list) option" where
  "read_params (w # sep # ts) =
     (case read_param w of
        None \<Rightarrow> None
      | Some p \<Rightarrow>
          if sep = '')'' then Some ([p], ts)
          else if sep = '','' then map_option (\<lambda>(ps, ts). (p # ps, ts)) (read_params ts)
          else None)"
| "read_params ts = None"

fun read_sets :: "string list \<Rightarrow> (string \<times> string) list option" where
  "read_sets (n # eq # ex # dot # m # ts) =
     (if \<not> (is_name n \<and> eq = ''='' \<and> ex = ''excluded'' \<and> dot = ''.'' \<and> is_name m) then None
      else if ts = [] then Some [(n, m)]
      else if hd ts = '','' then map_option ((#) (n, m)) (read_sets (tl ts))
      else None)"
| "read_sets ts = None"

definition read_insert :: "string list \<Rightarrow> statement option" where
  "read_insert ts =
     (case ts of
        into # t # open1 # ts \<Rightarrow>
          if \<not> (into = ''INTO'' \<and> is_name t \<and> open1 = ''('') then None
          else
            (case read_names '')'' ts of
               Some (cols, vals # open2 # ts) \<Rightarrow>
                 if \<not> (vals = ''VALUES'' \<and> open2 = ''('') then None
                 else
                   (case read_params ts of
                      Some (ps, on # conf # open3 # k # close3 # do # upd # set' # ts) \<Rightarrow>
                        if [on, conf, open3, close3, do, upd, set'] =
                             [''ON'', ''CONFLICT'', ''('', '')'', ''DO'', ''UPDATE'', ''SET''] \<and>
                           is_name k \<and> k \<in> set cols \<and> distinct cols \<and> length ps = length cols
                        then (case read_sets ts of
                                Some sets \<Rightarrow> if distinct (map fst sets) then Some (Insert t cols ps k sets) else None
                              | None \<Rightarrow> None)
                        else None
                    | _ \<Rightarrow> None)
             | _ \<Rightarrow> None)
      | _ \<Rightarrow> None)"

text \<open>\<open>t WHERE column = ?n\<close>\<close>

definition read_where :: "string list \<Rightarrow> (string \<times> string \<times> nat) option" where
  "read_where ts =
     (case ts of
        [t, wh, c, eq, w] \<Rightarrow>
          if is_name t \<and> wh = ''WHERE'' \<and> is_name c \<and> eq = ''=''
          then map_option (\<lambda>n. (t, c, n)) (read_param w) else None
      | _ \<Rightarrow> None)"

definition parse_sql :: "string \<Rightarrow> statement option" where
  "parse_sql sql =
     (case lex [] sql of
        verb # ts \<Rightarrow>
          if verb = ''INSERT'' then read_insert ts
          else if verb = ''SELECT'' then
            (case read_names ''FROM'' ts of
               Some (cols, ts) \<Rightarrow> map_option (\<lambda>(t, c, n). Select cols t c n) (read_where ts)
             | None \<Rightarrow> None)
          else if verb = ''DELETE'' then
            (case ts of
               from # ts \<Rightarrow>
                 if from = ''FROM'' then map_option (\<lambda>(t, c, n). Delete t c n) (read_where ts) else None
             | [] \<Rightarrow> None)
          else None
      | [] \<Rightarrow> None)"

section \<open>What a statement means\<close>

type_synonym sql_row = "string \<Rightarrow> sql_value"

fun statement_table :: "statement \<Rightarrow> string" where
  "statement_table (Insert t cols ps k sets) = t"
| "statement_table (Select cols t c n) = t"
| "statement_table (Delete t c n) = t"

text \<open>A parameter without a value is null, and null is equal to nothing.\<close>

definition sql_arg :: "sql_value list \<Rightarrow> nat \<Rightarrow> sql_value" where
  "sql_arg binds n = (if 0 < n \<and> n \<le> length binds then binds ! (n - 1) else Sql_null)"

definition sql_eq :: "sql_value \<Rightarrow> sql_value \<Rightarrow> bool" where
  "sql_eq v w \<longleftrightarrow> v = w \<and> v \<noteq> Sql_null"

definition new_row :: "string list \<Rightarrow> sql_value list \<Rightarrow> sql_row" where
  "new_row cols vs = (\<lambda>c. case map_of (zip cols vs) c of Some v \<Rightarrow> v | None \<Rightarrow> Sql_null)"

definition set_columns :: "(string \<times> string) list \<Rightarrow> sql_row \<Rightarrow> sql_row \<Rightarrow> sql_row" where
  "set_columns sets excluded row = (\<lambda>c. case map_of sets c of Some e \<Rightarrow> excluded e | None \<Rightarrow> row c)"

text \<open>The rows of the result, the rows of the table afterwards, and how many were changed.\<close>

fun execute :: "statement \<Rightarrow> sql_value list \<Rightarrow> sql_row list \<Rightarrow> sql_value list list \<times> sql_row list \<times> nat" where
  "execute (Insert t cols ps k sets) binds rows =
     (let new = new_row cols (map (sql_arg binds) ps)
      in ([], if list_ex (\<lambda>row. sql_eq (row k) (new k)) rows
              then map (\<lambda>row. if sql_eq (row k) (new k) then set_columns sets new row else row) rows
              else rows @ [new], 1))"
| "execute (Select cols t c n) binds rows =
     (map (\<lambda>row. map row cols) (filter (\<lambda>row. sql_eq (row c) (sql_arg binds n)) rows), rows, 0)"
| "execute (Delete t c n) binds rows =
     ([], filter (\<lambda>row. \<not> sql_eq (row c) (sql_arg binds n)) rows,
      length (filter (\<lambda>row. sql_eq (row c) (sql_arg binds n)) rows))"

text \<open>The columns that a statement gives to each of its parameters.\<close>

fun param_columns :: "statement \<Rightarrow> (nat \<times> string) list" where
  "param_columns (Insert t cols ps k sets) = zip ps cols"
| "param_columns (Select cols t c n) = [(n, c)]"
| "param_columns (Delete t c n) = [(n, c)]"

text \<open>The columns that it copies from the row \<open>excluded\<close>.\<close>

fun copied_columns :: "statement \<Rightarrow> (string \<times> string) list" where
  "copied_columns (Insert t cols ps k sets) = sets"
| "copied_columns (Select cols t c n) = []"
| "copied_columns (Delete t c n) = []"

section \<open>A table with unique keys\<close>

definition unique_keys :: "sql_row list \<Rightarrow> bool" where
  "unique_keys rows \<longleftrightarrow> distinct (map (\<lambda>row. row ''key'') rows)"

definition entry :: "sql_row list \<Rightarrow> string \<Rightarrow> sql_row option" where
  "entry rows key = find (\<lambda>row. row ''key'' = Sql_text key) rows"

lemma entry_iff: "unique_keys rows \<Longrightarrow> entry rows key = Some row \<longleftrightarrow> row \<in> set rows \<and> row ''key'' = Sql_text key"
  by (induction rows) (auto simp: entry_def unique_keys_def image_iff)

lemma entry_cong:
  assumes "unique_keys rows" "unique_keys rows'"
    and "\<And>row. row ''key'' = Sql_text key \<Longrightarrow> row \<in> set rows \<longleftrightarrow> row \<in> set rows'"
  shows "entry rows key = entry rows' key"
  using assms(3) entry_iff [OF assms(1), of key] entry_iff [OF assms(2), of key] by (metis not_None_eq)

lemma entry_None_iff: "entry rows key = None \<longleftrightarrow> (\<forall>row\<in>set rows. row ''key'' \<noteq> Sql_text key)"
  by (auto simp: entry_def find_None_iff)

lemma entry_Nil [simp]: "entry [] key = None"
  by (simp add: entry_def)

lemma entry_append: "entry (rows @ [new]) key =
    (case entry rows key of None \<Rightarrow> if new ''key'' = Sql_text key then Some new else None | Some row \<Rightarrow> Some row)"
  by (induction rows) (auto simp: entry_def)

text \<open>The order of the rows does not matter.\<close>

lemma unique_keys_mset: "mset rows = mset rows' \<Longrightarrow> unique_keys rows \<longleftrightarrow> unique_keys rows'"
  unfolding unique_keys_def by (metis mset_eq_imp_distinct_iff mset_map)

lemma entry_mset:
  assumes "mset rows = mset rows'" "unique_keys rows"
  shows "entry rows = entry rows'"
proof
  fix key
  show "entry rows key = entry rows' key"
    using assms(2) unique_keys_mset [OF assms(1)] mset_eq_setD [OF assms(1)] by (intro entry_cong) auto
qed

lemma entry_cases:
  assumes "unique_keys rows"
  shows "filter (\<lambda>row. row ''key'' = Sql_text key) rows = (case entry rows key of None \<Rightarrow> [] | Some row \<Rightarrow> [row])"
  using assms
proof (induction rows)
  case (Cons row rows)
  have "filter (\<lambda>row. row ''key'' = Sql_text key) rows = []" if "row ''key'' = Sql_text key"
    using that Cons.prems by (auto simp: unique_keys_def filter_empty_conv image_iff)
  with Cons show ?case by (auto simp: entry_def unique_keys_def)
qed (simp add: entry_def)

lemma sql_eq_key: "sql_eq v (sql_arg [Sql_text key] (Suc 0)) \<longleftrightarrow> v = Sql_text key"
  by (auto simp: sql_eq_def sql_arg_def)

lemma selected:
  assumes "unique_keys rows"
  shows "fst (execute (Select cols t ''key'' 1) [Sql_text key] rows) =
    (case entry rows key of None \<Rightarrow> [] | Some row \<Rightarrow> [map row cols])"
  using entry_cases [OF assms, of key] by (simp add: sql_eq_key split: option.split)

lemma deleted:
  assumes "unique_keys rows"
  shows "unique_keys (fst (snd (execute (Delete t ''key'' 1) [Sql_text key] rows)))"
    and "entry (fst (snd (execute (Delete t ''key'' 1) [Sql_text key] rows))) = (entry rows)(key := None)"
    and "snd (snd (execute (Delete t ''key'' 1) [Sql_text key] rows)) = (if entry rows key = None then 0 else 1)"
proof -
  let ?rows = "filter (\<lambda>row. row ''key'' \<noteq> Sql_text key) rows"
  have rows: "fst (snd (execute (Delete t ''key'' 1) [Sql_text key] rows)) = ?rows"
    by (simp add: sql_eq_key)
  have unique: "unique_keys ?rows" using assms by (simp add: unique_keys_def distinct_map_filter)
  show "unique_keys (fst (snd (execute (Delete t ''key'' 1) [Sql_text key] rows)))" unfolding rows by (rule unique)
  show "entry (fst (snd (execute (Delete t ''key'' 1) [Sql_text key] rows))) = (entry rows)(key := None)"
    unfolding rows
  proof
    fix k
    show "entry ?rows k = ((entry rows)(key := None)) k"
    proof (cases "k = key")
      case True
      then show ?thesis by (simp add: entry_None_iff)
    next
      case False
      then have "entry ?rows k = entry rows k" by (intro entry_cong [OF unique assms]) auto
      with False show ?thesis by simp
    qed
  qed
  show "snd (snd (execute (Delete t ''key'' 1) [Sql_text key] rows)) = (if entry rows key = None then 0 else 1)"
    using entry_cases [OF assms, of key] by (simp add: sql_eq_key split: option.splits)
qed

lemma upserted:
  assumes "unique_keys rows" "new ''key'' = Sql_text key" "''key'' \<notin> fst ` set sets"
    and "rows' = (if list_ex (\<lambda>row. sql_eq (row ''key'') (new ''key'')) rows
              then map (\<lambda>row. if sql_eq (row ''key'') (new ''key'') then set_columns sets new row else row) rows
              else rows @ [new])"
  shows "unique_keys rows'"
    and "entry rows' = (entry rows)(key \<mapsto> (case entry rows key of None \<Rightarrow> new | Some row \<Rightarrow> set_columns sets new row))"
proof -
  let ?f = "\<lambda>row. if row ''key'' = Sql_text key then set_columns sets new row else row"
  have f: "?f row ''key'' = row ''key''" for row
  proof -
    have "map_of sets ''key'' = None" using assms(3) by (simp add: map_of_eq_None_iff)
    then show ?thesis by (simp add: set_columns_def)
  qed
  have rows': "rows' = (if entry rows key \<noteq> None then map ?f rows else rows @ [new])"
    using assms(2,4) by (auto simp: sql_eq_def entry_None_iff list_ex_iff)
  show unique: "unique_keys rows'"
    using assms(1,2) f by (auto simp: rows' unique_keys_def entry_None_iff comp_def)
  show "entry rows' = (entry rows)(key \<mapsto> (case entry rows key of None \<Rightarrow> new | Some row \<Rightarrow> set_columns sets new row))"
    (is "_ = ?m")
  proof
    fix k
    show "entry rows' k = ?m k"
    proof (cases "entry rows key")
      case None
      then show ?thesis using assms(2) by (auto simp: rows' entry_append split: option.split)
    next
      case (Some row)
      have mapped: "entry (map ?f rows) k = map_option ?f (entry rows k)" unfolding entry_def
        using f by (induction rows) auto
      have "row ''key'' = Sql_text key" using Some entry_iff [OF assms(1)] by blast
      moreover have "a ''key'' = Sql_text k" if "entry rows k = Some a" for a
        using that entry_iff [OF assms(1)] by blast
      moreover have "rows' = map ?f rows" using Some rows' by simp
      ultimately show ?thesis using Some mapped by (cases "entry rows k") auto
    qed
  qed
qed

end
