(* ===== verification/Notes_Service.thy ===== *)
theory Notes_Service
  imports Server_Laws Sql_Statements
begin

text \<open>
  The notes of examples/mcp_notes_server/main.cpp: the shell around SQLite, the tool handlers of
  \<open>NotesService\<close> and the resource \<open>notes://all\<close>. SQLite is not part of the repository: what a statement
  does is an argument, a record of operations on an abstract database. A handler runs on its own; an
  elicitation is what the human answers while it waits.

  Lemmas: which statements a handler executes and with which values, what a handler may do in
  read-only mode and before the human has agreed, quoting of search queries, and reading back what
  was written.
\<close>

section \<open>SQLite\<close>

text \<open>How stepping ends: \<open>SQLITE_DONE\<close>, or an error with the \<open>errmsg\<close> of the connection.\<close>

datatype sql_end = Sql_done | Sql_error string

record sql_result =
  sr_rows :: "sql_value list list"
  sr_end :: sql_end
  sr_changes :: int

text \<open>
  \<open>sq_prepare\<close> is the error of preparing a statement, if there is one, \<open>sq_bind\<close> whether a parameter can
  be bound, \<open>sq_run\<close> what stepping a statement to its end yields, \<open>sq_int64\<close> the conversion of a text column.
\<close>

record 'd sqlite =
  sq_prepare :: "string \<Rightarrow> 'd \<Rightarrow> string option"
  sq_bind :: "string \<Rightarrow> nat \<Rightarrow> sql_value \<Rightarrow> bool"
  sq_run :: "string \<Rightarrow> sql_value list \<Rightarrow> 'd \<Rightarrow> sql_result \<times> 'd"
  sq_int64 :: "string \<Rightarrow> int64"
  sq_version :: string

text \<open>The database, and, newest last, the statements executed and the questions asked (not part of the program).\<close>

record 'd Notes =
  nt_db :: 'd
  nt_executed :: "(string \<times> sql_value list) list"
  nt_asked :: "string list"

text \<open>A prepared statement with its values bound, stepped.\<close>

definition run_sql ::
    "'d sqlite \<Rightarrow> string \<Rightarrow> sql_value list \<Rightarrow> 'd Notes \<Rightarrow> ('j exc + sql_result) \<times> 'd Notes" where
  "run_sql Q sql binds st =
     (case sq_prepare Q sql (nt_db st) of
        Some e \<Rightarrow> (Inl (StdException (''sqlite prepare failed: '' @ e)), st)
      | None \<Rightarrow>
          if \<not> list_all (\<lambda>(i, v). sq_bind Q sql i v) (enumerate 1 binds)
          then (Inl (StdException ''sqlite bind failed''), st)
          else
            let (r, d) = sq_run Q sql binds (nt_db st)
            in (Inr r, st\<lparr>nt_db := d, nt_executed := nt_executed st @ [(sql, binds)]\<rparr>))"

text \<open>The return code of the first step.\<close>

datatype sql_step = Step_row "sql_value list" | Step_done | Step_error string

definition first_step :: "sql_result \<Rightarrow> sql_step" where
  "first_step r =
     (case sr_rows r of
        row # rows \<Rightarrow> Step_row row
      | [] \<Rightarrow> (case sr_end r of Sql_done \<Rightarrow> Step_done | Sql_error e \<Rightarrow> Step_error e))"

definition column :: "sql_value list \<Rightarrow> nat \<Rightarrow> sql_value" where
  "column row i = (if i < length row then row ! i else Sql_null)"

fun col_text :: "sql_value \<Rightarrow> string" where
  "col_text Sql_null = []"
| "col_text (Sql_text s) = s"
| "col_text (Sql_int i) = int_string (sint i)"

fun col_i64 :: "'d sqlite \<Rightarrow> sql_value \<Rightarrow> int64" where
  "col_i64 Q Sql_null = 0"
| "col_i64 Q (Sql_text s) = sq_int64 Q s"
| "col_i64 Q (Sql_int i) = i"

definition col_is_null :: "sql_value \<Rightarrow> bool" where
  "col_is_null v \<longleftrightarrow> v = Sql_null"

section \<open>Helpers\<close>

text \<open>
  What a handler gets from outside: the clock, the \<open>what()\<close> of \<open>value\<close> on something that is no object,
  the pretty printer, and what asking the human comes to. The outer \<open>Inl\<close> of \<open>ne_ask\<close> is an exception of
  \<open>elicit\<close>, the inner one an exception of the future.
\<close>

record 'j NotesEnv =
  ne_now :: int64
  ne_value_error :: "'j \<Rightarrow> string"
  ne_dump2 :: "'j \<Rightarrow> string + string"
  ne_ask :: "'j ElicitFormRequestParams \<Rightarrow> 'j exc + ('j exc + 'j ElicitResult)"

text \<open>\<open>args.value(key, def)\<close>.\<close>

definition arg_value ::
    "'j json_ops \<Rightarrow> 'j NotesEnv \<Rightarrow> ('j \<Rightarrow> string + 'a) \<Rightarrow> 'j \<Rightarrow> string \<Rightarrow> 'a \<Rightarrow> 'j exc + 'a" where
  "arg_value J env get args key dflt =
     (if \<not> j_is_object J args then Inl (JsonException (ne_value_error env args))
      else case j_find J args key of None \<Rightarrow> Inr dflt | Some v \<Rightarrow> json_call (get v))"

definition text_block :: "string \<Rightarrow> 'j ContentBlock" where
  "text_block s = BlockTextContent \<lparr>text_text = s, text_annotations = None\<rparr>"

definition ok_text :: "string \<Rightarrow> 'j CallToolResult" where
  "ok_text s = \<lparr>ctr_content = [text_block s], ctr_structured_content = None, ctr_is_error = None,
     ctr_meta = None\<rparr>"

definition ok_json :: "'j \<Rightarrow> string \<Rightarrow> 'j CallToolResult" where
  "ok_json structured human_summary = \<lparr>ctr_content = [text_block human_summary],
     ctr_structured_content = Some structured, ctr_is_error = None, ctr_meta = None\<rparr>"

definition err_text :: "string \<Rightarrow> 'j CallToolResult" where
  "err_text s = \<lparr>ctr_content = [text_block s], ctr_structured_content = None,
     ctr_is_error = Some True, ctr_meta = None\<rparr>"

definition clamp64 :: "int64 \<Rightarrow> int64 \<Rightarrow> int64 \<Rightarrow> int64" where
  "clamp64 v lo hi = (if sint v < sint lo then lo else if sint hi < sint v then hi else v)"

section \<open>The tools\<close>

record NotesService =
  ns_readonly :: bool
  ns_db_path :: string

definition write_sql :: string where
  "write_sql = ''
            INSERT INTO notes(key, value, tags, created_at, updated_at)
            VALUES (?1, ?2, ?3, ?4, ?4)
            ON CONFLICT(key) DO UPDATE SET
                value      = excluded.value,
                tags       = excluded.tags,
                updated_at = excluded.updated_at
        ''"

definition notes_write ::
    "'j json_ops \<Rightarrow> 'd sqlite \<Rightarrow> 'j NotesEnv \<Rightarrow> NotesService \<Rightarrow> 'j \<Rightarrow> 'd Notes \<Rightarrow>
     ('j exc + 'j CallToolResult) \<times> 'd Notes" where
  "notes_write J Q env svc args st =
     (if ns_readonly svc then (Inr (err_text ''notes/write: server is read-only''), st)
      else
        case ebind (arg_value J env (j_get_string J) args ''key'' []) (\<lambda>key.
             ebind (arg_value J env (j_get_string J) args ''value'' []) (\<lambda>v.
             emap (\<lambda>tags. (key, v, tags)) (arg_value J env (j_get_string J) args ''tags'' []))) of
          Inl e \<Rightarrow> (Inl e, st)
        | Inr (key, v, tags) \<Rightarrow>
            if key = [] then (Inr (err_text ''notes/write: `key` is required''), st)
            else if length key > 256 then (Inr (err_text ''notes/write: key too long (>256 chars)''), st)
            else if v = [] then (Inr (err_text ''notes/write: `value` is required''), st)
            else
              case run_sql Q write_sql [Sql_text key, Sql_text v,
                     if tags = [] then Sql_null else Sql_text tags, Sql_int (ne_now env)] st of
                (Inl e, st) \<Rightarrow> (Inl e, st)
              | (Inr r, st) \<Rightarrow>
                  (case first_step r of
                     Step_error e \<Rightarrow> (Inr (err_text (''notes/write: '' @ e)), st)
                   | Step_row row \<Rightarrow> (Inr (err_text (''notes/write: '' @ ''another row available'')), st)
                   | Step_done \<Rightarrow> (Inr (ok_text (''ok: stored under key \"'' @ key @ ''\"'')), st)))"

definition read_sql :: string where
  "read_sql = ''SELECT value, tags, created_at, updated_at '' @ ''FROM notes WHERE key = ?1''"

text \<open>A text column that may be null.\<close>

definition tags_json :: "'j json_ops \<Rightarrow> sql_value \<Rightarrow> 'j" where
  "tags_json J v = j_string J (if col_is_null v then [] else col_text v)"

definition notes_read ::
    "'j json_ops \<Rightarrow> 'd sqlite \<Rightarrow> 'j NotesEnv \<Rightarrow> NotesService \<Rightarrow> 'j \<Rightarrow> 'd Notes \<Rightarrow>
     ('j exc + 'j CallToolResult) \<times> 'd Notes" where
  "notes_read J Q env svc args st =
     (case arg_value J env (j_get_string J) args ''key'' [] of
        Inl e \<Rightarrow> (Inl e, st)
      | Inr key \<Rightarrow>
          if key = [] then (Inr (err_text ''notes/read: `key` is required''), st)
          else
            case run_sql Q read_sql [Sql_text key] st of
              (Inl e, st) \<Rightarrow> (Inl e, st)
            | (Inr r, st) \<Rightarrow>
                (case first_step r of
                   Step_done \<Rightarrow> (Inr (err_text (''notes/read: no note with key \"'' @ key @ ''\"'')), st)
                 | Step_error e \<Rightarrow> (Inr (err_text (''notes/read: '' @ e)), st)
                 | Step_row row \<Rightarrow>
                     (Inr (ok_json
                        (j_init J
                          [(''key'', j_string J key),
                           (''value'', j_string J (col_text (column row 0))),
                           (''tags'', tags_json J (column row 1)),
                           (''createdAt'', j_int64 J (col_i64 Q (column row 2))),
                           (''updatedAt'', j_int64 J (col_i64 Q (column row 3)))])
                        (col_text (column row 0))), st)))"

definition list_sql :: "string \<Rightarrow> string \<Rightarrow> string" where
  "list_sql prefix tag =
     ''SELECT key, tags, updated_at FROM notes WHERE 1=1'' @
     (if prefix \<noteq> [] then '' AND key LIKE ?'' else []) @
     (if tag \<noteq> [] then '' AND (\\',\\' || tags || \\',\\') LIKE ?'' else []) @
     '' ORDER BY updated_at DESC LIMIT ?''"

definition list_binds :: "string \<Rightarrow> string \<Rightarrow> int64 \<Rightarrow> sql_value list" where
  "list_binds prefix tag limit =
     (if prefix \<noteq> [] then [Sql_text (prefix @ ''%'')] else []) @
     (if tag \<noteq> [] then [Sql_text (''%,'' @ tag @ '',%'')] else []) @ [Sql_int limit]"

definition list_item :: "'j json_ops \<Rightarrow> 'd sqlite \<Rightarrow> sql_value list \<Rightarrow> 'j" where
  "list_item J Q row =
     j_init J
       [(''key'', j_string J (col_text (column row 0))),
        (''tags'', tags_json J (column row 1)),
        (''updatedAt'', j_int64 J (col_i64 Q (column row 2)))]"

definition notes_list ::
    "'j json_ops \<Rightarrow> 'd sqlite \<Rightarrow> 'j NotesEnv \<Rightarrow> NotesService \<Rightarrow> 'j \<Rightarrow> 'd Notes \<Rightarrow>
     ('j exc + 'j CallToolResult) \<times> 'd Notes" where
  "notes_list J Q env svc args st =
     (case ebind (arg_value J env (j_get_string J) args ''tag'' []) (\<lambda>tag.
           ebind (arg_value J env (j_get_string J) args ''prefix'' []) (\<lambda>prefix.
           emap (\<lambda>n. (tag, prefix, clamp64 (scast n) 1 1000))
             (arg_value J env (j_get_int J) args ''limit'' 50))) of
        Inl e \<Rightarrow> (Inl e, st)
      | Inr (tag, prefix, limit) \<Rightarrow>
          (case run_sql Q (list_sql prefix tag) (list_binds prefix tag limit) st of
             (Inl e, st) \<Rightarrow> (Inl e, st)
           | (Inr r, st) \<Rightarrow>
               (let items = map (list_item J Q) (sr_rows r)
                in (Inr (ok_json (j_init J [(''notes'', j_array J items)])
                      (dec_string (length items) @ '' note(s) listed'')), st))))"

definition fts_special :: "char set" where
  "fts_special = {CHR 0x22, CHR ''-'', CHR ''+'', CHR ''*'', CHR ''('', CHR '')''}"

definition fts_query :: "string \<Rightarrow> string" where
  "fts_query query =
     (if \<exists>c \<in> set query. c \<in> fts_special
      then CHR 0x22 # concat (map (\<lambda>c. if c = CHR 0x22 then [CHR 0x22, c] else [c]) query) @ [CHR 0x22]
      else query)"

text \<open>The bytes in the middle are a quoted ellipsis.\<close>

definition search_sql :: string where
  "search_sql = ''
            SELECT n.key, n.value, n.tags, n.updated_at,
                   snippet(notes_fts, 1, \\'<<\\', \\'>>\\', '' @
     [CHR 0x27, CHR 0xE2, CHR 0x80, CHR 0xA6, CHR 0x27] @ '', 12) AS snip,
                   bm25(notes_fts)                            AS score
            FROM notes_fts
            JOIN notes n ON n.rowid = notes_fts.rowid
            WHERE notes_fts MATCH ?1
            ORDER BY score
            LIMIT ?2
        ''"

definition search_hit :: "'j json_ops \<Rightarrow> 'd sqlite \<Rightarrow> sql_value list \<Rightarrow> 'j" where
  "search_hit J Q row =
     j_init J
       [(''key'', j_string J (col_text (column row 0))),
        (''value'', j_string J (col_text (column row 1))),
        (''tags'', tags_json J (column row 2)),
        (''updatedAt'', j_int64 J (col_i64 Q (column row 3))),
        (''snippet'', j_string J (col_text (column row 4)))]"

definition notes_search ::
    "'j json_ops \<Rightarrow> 'd sqlite \<Rightarrow> 'j NotesEnv \<Rightarrow> NotesService \<Rightarrow> 'j \<Rightarrow> 'd Notes \<Rightarrow>
     ('j exc + 'j CallToolResult) \<times> 'd Notes" where
  "notes_search J Q env svc args st =
     (case ebind (arg_value J env (j_get_string J) args ''query'' []) (\<lambda>query.
           emap (\<lambda>n. (query, clamp64 (scast n) 1 200))
             (arg_value J env (j_get_int J) args ''limit'' 25)) of
        Inl e \<Rightarrow> (Inl e, st)
      | Inr (query, limit) \<Rightarrow>
          if query = [] then (Inr (err_text ''notes/search: `query` is required''), st)
          else
            case run_sql Q search_sql [Sql_text (fts_query query), Sql_int limit] st of
              (Inl e, st) \<Rightarrow> (Inl e, st)
            | (Inr r, st) \<Rightarrow>
                (let hits = map (search_hit J Q) (sr_rows r)
                 in (Inr (ok_json (j_init J [(''matches'', j_array J hits)])
                       (''found '' @ dec_string (length hits) @ '' match(es) for: '' @ query)), st)))"

definition delete_schema :: "'j json_ops \<Rightarrow> 'j" where
  "delete_schema J =
     j_init J
       [(''type'', j_string J ''object''),
        (''properties'', j_init J
          [(''confirm'', j_init J
             [(''type'', j_string J ''boolean''),
              (''description'', j_string J ''Set true to delete; false / decline to abort.'')])]),
        (''required'', j_array J [j_string J ''confirm''])]"

definition delete_question :: "string \<Rightarrow> string" where
  "delete_question key = ''Delete note(s) matching key \"'' @ key @ ''\"?'' @ '' This cannot be undone.''"

text \<open>Whether the human has agreed, and the result when not.\<close>

definition ask_to_delete ::
    "'j json_ops \<Rightarrow> 'j NotesEnv \<Rightarrow> string \<Rightarrow> ('j exc + 'j CallToolResult option)" where
  "ask_to_delete J env key =
     (case ne_ask env \<lparr>efp_message = delete_question key, efp_requested_schema = delete_schema J\<rparr> of
        Inl e \<Rightarrow> Inl e
      | Inr (Inl e) \<Rightarrow>
          if is_std_exception e
          then Inr (Some (err_text (''notes/delete: elicitation failed: '' @ what e)))
          else Inl e
      | Inr (Inr er) \<Rightarrow>
          (if er_action er \<noteq> Elicit_accept then Inr (Some (err_text ''notes/delete: cancelled by user''))
           else
             case er_content er of
               None \<Rightarrow> Inr (Some (err_text ''notes/delete: cancelled by user''))
             | Some content \<Rightarrow>
                 emap (\<lambda>b. if b then None else Some (err_text ''notes/delete: cancelled by user''))
                   (arg_value J env (j_get_bool J) content ''confirm'' False)))"

definition is_glob :: "string \<Rightarrow> bool" where
  "is_glob key \<longleftrightarrow> (\<exists>c \<in> set key. c = CHR ''*'' \<or> c = CHR ''%'')"

definition delete_sql :: "string \<Rightarrow> string" where
  "delete_sql key =
     (if is_glob key then ''DELETE FROM notes WHERE key LIKE ?1'' else ''DELETE FROM notes WHERE key = ?1'')"

definition bind_key :: "string \<Rightarrow> string" where
  "bind_key key = map (\<lambda>c. if c = CHR ''*'' then CHR ''%'' else c) key"

definition run_delete ::
    "'d sqlite \<Rightarrow> string \<Rightarrow> 'd Notes \<Rightarrow> ('j exc + 'j CallToolResult) \<times> 'd Notes" where
  "run_delete Q key st =
     (case run_sql Q (delete_sql key) [Sql_text (bind_key key)] st of
        (Inl e, st) \<Rightarrow> (Inl e, st)
      | (Inr r, st) \<Rightarrow>
          (case first_step r of
             Step_error e \<Rightarrow> (Inr (err_text (''notes/delete: '' @ e)), st)
           | Step_row row \<Rightarrow> (Inr (err_text (''notes/delete: '' @ ''another row available'')), st)
           | Step_done \<Rightarrow> (Inr (ok_text (int_string (sr_changes r) @ '' note(s) deleted'')), st)))"

definition notes_delete ::
    "'j json_ops \<Rightarrow> 'd sqlite \<Rightarrow> 'j NotesEnv \<Rightarrow> NotesService \<Rightarrow> 'j \<Rightarrow> 'd Notes \<Rightarrow>
     ('j exc + 'j CallToolResult) \<times> 'd Notes" where
  "notes_delete J Q env svc args st =
     (if ns_readonly svc then (Inr (err_text ''notes/delete: server is read-only''), st)
      else
        case ebind (arg_value J env (j_get_string J) args ''key'' []) (\<lambda>key.
             emap (Pair key) (arg_value J env (j_get_bool J) args ''confirm'' False)) of
          Inl e \<Rightarrow> (Inl e, st)
        | Inr (key, confirm) \<Rightarrow>
            if key = [] then (Inr (err_text ''notes/delete: `key` is required''), st)
            else if is_glob key \<or> \<not> confirm then
              let st = st\<lparr>nt_asked := nt_asked st @ [delete_question key]\<rparr>
              in case ask_to_delete J env key of
                   Inl e \<Rightarrow> (Inl e, st)
                 | Inr (Some refusal) \<Rightarrow> (Inr refusal, st)
                 | Inr None \<Rightarrow> run_delete Q key st
            else run_delete Q key st)"

definition count_sql :: string where
  "count_sql = ''SELECT COUNT(*) FROM notes''"

definition notes_info ::
    "'j json_ops \<Rightarrow> 'd sqlite \<Rightarrow> 'j NotesEnv \<Rightarrow> NotesService \<Rightarrow> 'j \<Rightarrow> 'd Notes \<Rightarrow>
     ('j exc + 'j CallToolResult) \<times> 'd Notes" where
  "notes_info J Q env svc args st =
     (case run_sql Q count_sql [] st of
        (Inl e, st) \<Rightarrow> (Inl e, st)
      | (Inr r, st) \<Rightarrow>
          (let row_count = (case first_step r of Step_row row \<Rightarrow> col_i64 Q (column row 0) | _ \<Rightarrow> 0)
           in (Inr (ok_json
                 (j_init J
                   [(''path'', j_string J (ns_db_path svc)), (''readOnly'', j_bool J (ns_readonly svc)),
                    (''noteCount'', j_int64 J row_count), (''sqliteVersion'', j_string J (sq_version Q))])
                 (int_string (sint row_count) @ '' note(s) at '' @ ns_db_path svc)), st)))"

section \<open>The resource\<close>

definition all_sql :: string where
  "all_sql = ''SELECT key, value, tags, updated_at FROM notes '' @ ''ORDER BY key ASC''"

definition all_item :: "'j json_ops \<Rightarrow> 'd sqlite \<Rightarrow> sql_value list \<Rightarrow> 'j" where
  "all_item J Q row =
     j_init J
       [(''key'', j_string J (col_text (column row 0))),
        (''value'', j_string J (col_text (column row 1))),
        (''tags'', tags_json J (column row 2)),
        (''updatedAt'', j_int64 J (col_i64 Q (column row 3)))]"

definition read_all_notes ::
    "'j json_ops \<Rightarrow> 'd sqlite \<Rightarrow> 'j NotesEnv \<Rightarrow> 'd Notes \<Rightarrow> ('j exc + 'j ReadResourceResult) \<times> 'd Notes" where
  "read_all_notes J Q env st =
     (case run_sql Q all_sql [] st of
        (Inl e, st) \<Rightarrow> (Inl e, st)
      | (Inr r, st) \<Rightarrow>
          (let items = map (all_item J Q) (sr_rows r);
               doc = j_init J [(''notes'', j_array J items)]
           in (emap (\<lambda>text. \<lparr>rrr_contents = [TextResource \<lparr>trc_uri = ''notes://all'',
                 trc_mime_type = Some ''application/json'', trc_text = text\<rparr>], rrr_meta = None\<rparr>)
               (json_call (ne_dump2 env doc)), st)))"

section \<open>Statements\<close>

text \<open>A statement that begins with the keyword of a query.\<close>

definition reads_only :: "string \<Rightarrow> bool" where
  "reads_only sql \<longleftrightarrow> take 6 (dropWhile (\<lambda>c. c = CHR '' '' \<or> c = CHR 0x0A) sql) = ''SELECT''"

text \<open>What SQLite documents of a query: it leaves the database as it is.\<close>

definition queries_pure :: "'d sqlite \<Rightarrow> bool" where
  "queries_pure Q \<longleftrightarrow> (\<forall>sql binds d. reads_only sql \<longrightarrow> snd (sq_run Q sql binds d) = d)"

definition only_reads :: "'d sqlite \<Rightarrow> 'd Notes \<Rightarrow> 'd Notes \<Rightarrow> bool" where
  "only_reads Q st st' \<longleftrightarrow>
     (\<exists>stmts. nt_executed st' = nt_executed st @ stmts \<and> list_all (\<lambda>(sql, binds). reads_only sql) stmts) \<and>
     (queries_pure Q \<longrightarrow> nt_db st' = nt_db st)"

lemma only_reads_refl [simp]: "only_reads Q st st"
  by (simp add: only_reads_def)

lemma only_reads_trans: "only_reads Q a b \<Longrightarrow> only_reads Q b c \<Longrightarrow> only_reads Q a c"
  by (fastforce simp: only_reads_def)

lemma run_sql_cases:
  assumes "run_sql Q sql binds st = (r, st')"
  shows "(\<exists>e. r = Inl e \<and> st' = st) \<or>
    (\<exists>res d. r = Inr res \<and> sq_run Q sql binds (nt_db st) = (res, d) \<and>
       st' = st\<lparr>nt_db := d, nt_executed := nt_executed st @ [(sql, binds)]\<rparr>)"
  using assms by (auto simp: run_sql_def split: option.splits if_splits prod.splits)

lemma run_sql_reads:
  assumes "reads_only sql" "run_sql Q sql binds st = (r, st')"
  shows "only_reads Q st st'"
  using run_sql_cases [OF assms(2)] assms(1)
  by (auto simp: only_reads_def queries_pure_def) (metis snd_conv)

lemma reads_only_sql [simp]:
  "reads_only read_sql" "reads_only (list_sql prefix tag)" "reads_only search_sql" "reads_only count_sql"
  "reads_only all_sql" "\<not> reads_only write_sql" "\<not> reads_only (delete_sql key)"
  by (simp_all add: reads_only_def read_sql_def list_sql_def search_sql_def count_sql_def all_sql_def
      write_sql_def delete_sql_def)

text \<open>The tools and the resource that only read.\<close>

lemma queries_only_read:
  "only_reads Q st (snd (notes_read J Q env svc args st))"
  "only_reads Q st (snd (notes_list J Q env svc args st))"
  "only_reads Q st (snd (notes_search J Q env svc args st))"
  "only_reads Q st (snd (notes_info J Q env svc args st))"
  "only_reads Q st (snd (read_all_notes J Q env st))"
  by (auto simp: notes_read_def notes_list_def notes_search_def notes_info_def read_all_notes_def Let_def
      split: sum.split prod.split sql_step.split dest: run_sql_reads [rotated])

lemma readonly_only_reads:
  assumes "ns_readonly svc"
  shows "only_reads Q st (snd (notes_write J Q env svc args st))"
    "only_reads Q st (snd (notes_delete J Q env svc args st))"
  using assms by (simp_all add: notes_write_def notes_delete_def)

section \<open>Search queries\<close>

text \<open>The string of FTS5: double quotes around it, one inside it written twice.\<close>

fun read_phrase :: "string \<Rightarrow> string option" where
  "read_phrase [] = None"
| "read_phrase (c # s) =
     (if c \<noteq> CHR 0x22 then map_option ((#) c) (read_phrase s)
      else
        case s of
          [] \<Rightarrow> Some []
        | d # s \<Rightarrow> if d = CHR 0x22 then map_option ((#) CHR 0x22) (read_phrase s) else None)"

fun fts_phrase :: "string \<Rightarrow> string option" where
  "fts_phrase [] = None"
| "fts_phrase (c # s) = (if c = CHR 0x22 then read_phrase s else None)"

lemma read_phrase_quoted:
  "read_phrase (concat (map (\<lambda>c. if c = CHR 0x22 then [CHR 0x22, c] else [c]) q) @ [CHR 0x22]) = Some q"
  by (induction q) auto

section \<open>Validation\<close>

lemma clamp64_bounds:
  "sint lo \<le> sint hi \<Longrightarrow> sint lo \<le> sint (clamp64 v lo hi) \<and> sint (clamp64 v lo hi) \<le> sint hi"
  by (simp add: clamp64_def)

text \<open>The arguments of \<open>notes/write\<close> that are accepted.\<close>

definition write_args ::
    "'j json_ops \<Rightarrow> 'j NotesEnv \<Rightarrow> 'j \<Rightarrow> string \<Rightarrow> string \<Rightarrow> string \<Rightarrow> bool" where
  "write_args J env args key v tags \<longleftrightarrow>
     arg_value J env (j_get_string J) args ''key'' [] = Inr key \<and>
     arg_value J env (j_get_string J) args ''value'' [] = Inr v \<and>
     arg_value J env (j_get_string J) args ''tags'' [] = Inr tags \<and>
     key \<noteq> [] \<and> length key \<le> 256 \<and> v \<noteq> []"

definition key_arg :: "'j json_ops \<Rightarrow> 'j NotesEnv \<Rightarrow> 'j \<Rightarrow> string \<Rightarrow> bool" where
  "key_arg J env args key \<longleftrightarrow> arg_value J env (j_get_string J) args ''key'' [] = Inr key \<and> key \<noteq> []"

text \<open>When the human's answer allows a delete.\<close>

definition agreed :: "'j json_ops \<Rightarrow> 'j NotesEnv \<Rightarrow> string \<Rightarrow> bool" where
  "agreed J env key \<longleftrightarrow>
     (\<exists>er content.
        ne_ask env \<lparr>efp_message = delete_question key, efp_requested_schema = delete_schema J\<rparr> = Inr (Inr er) \<and>
        er_action er = Elicit_accept \<and> er_content er = Some content \<and>
        arg_value J env (j_get_bool J) content ''confirm'' False = Inr True)"

lemma ask_to_delete_None: "ask_to_delete J env key = Inr None \<longleftrightarrow> agreed J env key"
  by (auto simp: ask_to_delete_def agreed_def emap_eq_Inr_iff split: sum.splits option.splits if_splits)

lemma run_delete_state:
  fixes r :: "'j exc + 'j CallToolResult"
  assumes "run_delete Q key st = (r, st')"
  shows "nt_asked st' = nt_asked st \<and>
    (st' = st \<or> nt_executed st' = nt_executed st @ [(delete_sql key, [Sql_text (bind_key key)])])"
proof -
  obtain r1 :: "'j exc + sql_result" and st1 where r1: "run_sql Q (delete_sql key) [Sql_text (bind_key key)] st = (r1, st1)" by fastforce
  with assms have "st' = st1" by (auto simp: run_delete_def split: sum.splits sql_step.splits)
  with run_sql_cases [OF r1] show ?thesis by auto
qed

section \<open>The notes as a map\<close>

text \<open>The columns of the schema that the statements use, and the values that fit them.\<close>

definition text_columns :: "string list" where
  "text_columns = [''key'', ''value'', ''tags'']"

definition int_columns :: "string list" where
  "int_columns = [''created_at'', ''updated_at'']"

fun fits :: "string \<Rightarrow> sql_value \<Rightarrow> bool" where
  "fits c Sql_null = (c \<in> set (text_columns @ int_columns))"
| "fits c (Sql_text s) = (c \<in> set text_columns \<and> CHR 0x00 \<notin> set s)"
| "fits c (Sql_int i) = (c \<in> set int_columns)"

definition well_typed :: "statement \<Rightarrow> sql_value list \<Rightarrow> bool" where
  "well_typed stmt binds \<longleftrightarrow>
     statement_table stmt = ''notes'' \<and> list_all (\<lambda>(n, c). fits c (sql_arg binds n)) (param_columns stmt) \<and>
     list_all (\<lambda>(c, e). (c \<in> set text_columns) = (e \<in> set text_columns)) (copied_columns stmt)"

text \<open>What the schema keeps of the table: keys are unique. No text holds the character zero.\<close>

definition plain_row :: "sql_row \<Rightarrow> bool" where
  "plain_row row \<longleftrightarrow> (\<forall>c. case row c of Sql_text s \<Rightarrow> CHR 0x00 \<notin> set s | _ \<Rightarrow> True)"

definition sound_table :: "sql_row list \<Rightarrow> bool" where
  "sound_table rows \<longleftrightarrow> unique_keys rows \<and> (\<forall>row\<in>set rows. plain_row row)"

lemma sound_table_mset: "mset rows = mset rows' \<Longrightarrow> sound_table rows \<longleftrightarrow> sound_table rows'"
  using unique_keys_mset [of rows rows'] mset_eq_setD [of rows rows'] by (simp add: sound_table_def)

text \<open>Whether a statement with its values is run, and to its end.\<close>

definition prepared :: "'d sqlite \<Rightarrow> string \<Rightarrow> sql_value list \<Rightarrow> 'd \<Rightarrow> bool" where
  "prepared Q sql binds d \<longleftrightarrow>
     sq_prepare Q sql d = None \<and> list_all (\<lambda>(i, v). sq_bind Q sql i v) (enumerate 1 binds)"

definition completed :: "'d sqlite \<Rightarrow> string \<Rightarrow> sql_value list \<Rightarrow> 'd \<Rightarrow> bool" where
  "completed Q sql binds d \<longleftrightarrow> prepared Q sql binds d \<and> sr_end (fst (sq_run Q sql binds d)) = Sql_done"

text \<open>
  A database, seen as the rows of the table \<open>notes\<close>, in no order, that follows SQL on every statement of
  \<open>Sql_Statements\<close> with values of the columns' types: a statement that is run to its end has its meaning, and
  one that fails leaves the table as it was, though it may have returned rows of the result.
\<close>

locale sql_engine =
  fixes Q :: "'d sqlite" and rows :: "'d \<Rightarrow> sql_row list"
  assumes executes: "parse_sql sql = Some stmt \<Longrightarrow> well_typed stmt binds \<Longrightarrow> sound_table (rows d) \<Longrightarrow>
      completed Q sql binds d \<Longrightarrow> sq_run Q sql binds d = (r, d') \<Longrightarrow> execute stmt binds (rows d) = (out, rows', n) \<Longrightarrow>
      mset (sr_rows r) = mset out \<and> mset (rows d') = mset rows' \<and> (\<not> reads_only sql \<longrightarrow> sr_changes r = int n)"
    and fails: "parse_sql sql = Some stmt \<Longrightarrow> well_typed stmt binds \<Longrightarrow> sound_table (rows d) \<Longrightarrow>
      prepared Q sql binds d \<Longrightarrow> \<not> completed Q sql binds d \<Longrightarrow> sq_run Q sql binds d = (r, d') \<Longrightarrow>
      execute stmt binds (rows d) = (out, rows', n) \<Longrightarrow>
      mset (sr_rows r) \<subseteq># mset out \<and> mset (rows d') = mset (rows d)"

text \<open>The texts of the handlers are read as the statements that they are.\<close>

definition write_statement :: statement where
  "write_statement = Insert ''notes'' [''key'', ''value'', ''tags'', ''created_at'', ''updated_at''] [1, 2, 3, 4, 4] ''key''
     [(''value'', ''value''), (''tags'', ''tags''), (''updated_at'', ''updated_at'')]"

definition read_statement :: statement where
  "read_statement = Select [''value'', ''tags'', ''created_at'', ''updated_at''] ''notes'' ''key'' 1"

definition delete_statement :: statement where
  "delete_statement = Delete ''notes'' ''key'' 1"

lemma handler_statements:
  "parse_sql write_sql = Some write_statement \<and> parse_sql read_sql = Some read_statement \<and>
   parse_sql ''DELETE FROM notes WHERE key = ?1'' = Some delete_statement"
  by code_simp

lemma parsed_delete: "\<not> is_glob key \<Longrightarrow> parse_sql (delete_sql key) = Some delete_statement"
  using handler_statements by (simp add: delete_sql_def)

text \<open>The notes by key, what a write makes of one, and the answers to reading one.\<close>

definition notes_map :: "('d \<Rightarrow> sql_row list) \<Rightarrow> 'd Notes \<Rightarrow> string \<Rightarrow> sql_row option" where
  "notes_map rows st = entry (rows (nt_db st))"

definition tags_value :: "string \<Rightarrow> sql_value" where
  "tags_value tags = (if tags = [] then Sql_null else Sql_text tags)"

definition noted :: "string \<Rightarrow> string \<Rightarrow> string \<Rightarrow> int64 \<Rightarrow> sql_row option \<Rightarrow> sql_row" where
  "noted key v tags now old =
     (case old of None \<Rightarrow> (\<lambda>c. Sql_null)(''key'' := Sql_text key, ''created_at'' := Sql_int now) | Some row \<Rightarrow> row)
       (''value'' := Sql_text v, ''tags'' := tags_value tags, ''updated_at'' := Sql_int now)"

definition note_json :: "'j json_ops \<Rightarrow> 'd sqlite \<Rightarrow> string \<Rightarrow> sql_row \<Rightarrow> 'j" where
  "note_json J Q key row = j_init J
     [(''key'', j_string J key), (''value'', j_string J (col_text (row ''value''))), (''tags'', tags_json J (row ''tags'')),
      (''createdAt'', j_int64 J (col_i64 Q (row ''created_at''))),
      (''updatedAt'', j_int64 J (col_i64 Q (row ''updated_at'')))]"

definition read_reply :: "'j json_ops \<Rightarrow> 'd sqlite \<Rightarrow> string \<Rightarrow> sql_row option \<Rightarrow> 'j CallToolResult" where
  "read_reply J Q key row =
     (case row of
        None \<Rightarrow> err_text (''notes/read: no note with key \"'' @ key @ ''\"'')
      | Some row \<Rightarrow> ok_json (note_json J Q key row) (col_text (row ''value'')))"

definition failed :: "'j exc + 'j CallToolResult \<Rightarrow> bool" where
  "failed r \<longleftrightarrow> (\<forall>res. r = Inr res \<longrightarrow> ctr_is_error res = Some True)"

lemma failed_simps [simp]: "failed (Inl e)" "failed (Inr (err_text s))"
  by (simp_all add: failed_def err_text_def)

definition write_binds :: "'j NotesEnv \<Rightarrow> string \<Rightarrow> string \<Rightarrow> string \<Rightarrow> sql_value list" where
  "write_binds env key v tags = [Sql_text key, Sql_text v, tags_value tags, Sql_int (ne_now env)]"

lemma run_sql_prepared:
  "run_sql Q sql binds st =
     (if prepared Q sql binds (nt_db st)
      then (Inr (fst (sq_run Q sql binds (nt_db st))),
        st\<lparr>nt_db := snd (sq_run Q sql binds (nt_db st)), nt_executed := nt_executed st @ [(sql, binds)]\<rparr>)
      else (Inl (StdException (case sq_prepare Q sql (nt_db st) of
          Some e \<Rightarrow> ''sqlite prepare failed: '' @ e | None \<Rightarrow> ''sqlite bind failed'')), st))"
  by (auto simp: run_sql_def prepared_def case_prod_unfold Let_def split: option.split)

lemma sql_args: "sql_arg (v # vs) (Suc 0) = v" "sql_arg (v # w # vs) 2 = w" "sql_arg (v # w # x # vs) 3 = x"
  "sql_arg (v # w # x # y # vs) 4 = y"
  by (simp_all add: sql_arg_def)

text \<open>What the statements mean on a sound table.\<close>

definition texts_plain :: "string list \<Rightarrow> bool" where
  "texts_plain ss \<longleftrightarrow> (\<forall>s\<in>set ss. CHR 0x00 \<notin> set s)"

lemma write_executed:
  assumes "sound_table rows" "texts_plain [key, v, tags]"
    and "execute write_statement (write_binds env key v tags) rows = (out, rows', n)"
  shows "out = []" "sound_table rows'" "entry rows' = (entry rows)(key \<mapsto> noted key v tags (ne_now env) (entry rows key))"
proof -
  let ?new = "new_row [''key'', ''value'', ''tags'', ''created_at'', ''updated_at'']
    [Sql_text key, Sql_text v, tags_value tags, Sql_int (ne_now env), Sql_int (ne_now env)]"
  let ?sets = "[(''value'', ''value''), (''tags'', ''tags''), (''updated_at'', ''updated_at'')]"
  have new: "?new ''key'' = Sql_text key" by (simp add: new_row_def)
  have rows': "rows' = (if list_ex (\<lambda>row. sql_eq (row ''key'') (?new ''key'')) rows
      then map (\<lambda>row. if sql_eq (row ''key'') (?new ''key'') then set_columns ?sets ?new row else row) rows
      else rows @ [?new])" and out: "out = []"
    using assms(3) by (simp_all add: write_statement_def write_binds_def sql_args Let_def)
  show "out = []" by (rule out)
  note up = upserted [OF _ new _ rows'] assms(1) [unfolded sound_table_def]
  have "(case entry rows key of None \<Rightarrow> ?new | Some row \<Rightarrow> set_columns ?sets ?new row) =
      noted key v tags (ne_now env) (entry rows key)"
    by (auto simp: noted_def new_row_def set_columns_def split: option.split)
  then show "entry rows' = (entry rows)(key \<mapsto> noted key v tags (ne_now env) (entry rows key))"
    using up by simp
  have plain: "plain_row ?new"
    using assms(2) by (auto simp: plain_row_def new_row_def tags_value_def texts_plain_def)
  have "plain_row (set_columns ?sets ?new row)" if "plain_row row" for row
    using that plain by (auto simp: plain_row_def set_columns_def)
  with up plain show "sound_table rows'" by (auto simp: sound_table_def rows')
qed

lemma delete_executed:
  assumes "sound_table rows" "execute delete_statement [Sql_text key] rows = (out, rows', n)"
  shows "out = []" "sound_table rows'" "entry rows' = (entry rows)(key := None)"
    "n = (if entry rows key = None then 0 else 1)"
proof -
  have u: "unique_keys rows" using assms(1) by (simp add: sound_table_def)
  note d = deleted [OF u, of "''notes''" key, folded delete_statement_def, unfolded assms(2), simplified]
  have "set rows' \<subseteq> set rows" "out = []" using assms(2) by (auto simp: delete_statement_def)
  with d assms(1) show "out = []" "sound_table rows'" "entry rows' = (entry rows)(key := None)"
    "n = (if entry rows key = None then 0 else 1)"
    by (auto simp: sound_table_def)
qed

lemma typed_statements:
  "texts_plain [key, v, tags] \<Longrightarrow> well_typed write_statement (write_binds env key v tags)"
  "texts_plain [key] \<Longrightarrow> well_typed read_statement [Sql_text key]"
  "texts_plain [key] \<Longrightarrow> well_typed delete_statement [Sql_text key]"
  by (auto simp: well_typed_def write_statement_def write_binds_def read_statement_def delete_statement_def sql_args
      text_columns_def int_columns_def tags_value_def texts_plain_def)

lemma mset_at_most_one:
  "mset xs \<subseteq># mset (case x of None \<Rightarrow> [] | Some y \<Rightarrow> [y]) \<Longrightarrow> xs = [] \<or> (\<exists>y. x = Some y \<and> xs = [y])"
  using size_mset_mono [of "mset xs" "mset (case x of None \<Rightarrow> [] | Some y \<Rightarrow> [y])"]
  by (cases xs) (auto split: option.splits)

context sql_engine
begin

lemma run_outcome:
  assumes "parse_sql sql = Some stmt" "well_typed stmt binds" "sound_table (rows (nt_db st))"
    and "execute stmt binds (rows (nt_db st)) = (out, rows', n)" "run_sql Q sql binds st = (res, st')"
  obtains (complete) r where "completed Q sql binds (nt_db st)" "res = Inr r" "mset (sr_rows r) = mset out"
      "sr_end r = Sql_done" "mset (rows (nt_db st')) = mset rows'" "\<not> reads_only sql \<Longrightarrow> sr_changes r = int n"
    | (unprepared) e where "\<not> completed Q sql binds (nt_db st)" "res = Inl e" "st' = st"
    | (error) r e where "\<not> completed Q sql binds (nt_db st)" "res = Inr r" "mset (sr_rows r) \<subseteq># mset out"
      "sr_end r = Sql_error e" "mset (rows (nt_db st')) = mset (rows (nt_db st))"
proof (cases "prepared Q sql binds (nt_db st)")
  case False
  with assms(5) show ?thesis by (intro unprepared) (auto simp: completed_def run_sql_prepared)
next
  case True
  obtain r d where run: "sq_run Q sql binds (nt_db st) = (r, d)" by fastforce
  with True assms(5) have res: "res = Inr r" "nt_db st' = d" by (auto simp: run_sql_prepared)
  show ?thesis
  proof (cases "sr_end r")
    case Sql_done
    with True run have c: "completed Q sql binds (nt_db st)" by (simp add: completed_def)
    from executes [OF assms(1-3) c run assms(4)] show ?thesis using res c Sql_done by (intro complete) auto
  next
    case (Sql_error e)
    with run have c: "\<not> completed Q sql binds (nt_db st)" by (simp add: completed_def)
    from fails [OF assms(1-3) True c run assms(4)] show ?thesis using res c Sql_error by (intro error) auto
  qed
qed

lemma notes_map_mset:
  "sound_table rs \<Longrightarrow> mset (rows (nt_db st)) = mset rs \<Longrightarrow>
     sound_table (rows (nt_db st)) \<and> notes_map rows st = entry rs"
  using sound_table_mset [of "rows (nt_db st)" rs] entry_mset [of "rows (nt_db st)" rs]
  by (simp add: notes_map_def sound_table_def)

text \<open>What the three handlers that name a key do to the notes, and what they answer.\<close>

lemma write_refines:
  fixes J :: "'j json_ops"
  assumes "sound_table (rows (nt_db st))" "\<not> ns_readonly svc" "write_args J env args key v tags"
    and "texts_plain [key, v, tags]" "notes_write J Q env svc args st = (r, st')"
  shows "sound_table (rows (nt_db st')) \<and>
    (if completed Q write_sql (write_binds env key v tags) (nt_db st)
     then r = Inr (ok_text (''ok: stored under key \"'' @ key @ ''\"'')) \<and>
       notes_map rows st' = (notes_map rows st)(key \<mapsto> noted key v tags (ne_now env) (notes_map rows st key))
     else failed r \<and> notes_map rows st' = notes_map rows st)"
proof -
  obtain out rows' n where ex: "execute write_statement (write_binds env key v tags) (rows (nt_db st)) = (out, rows', n)"
    by (rule prod_cases3)
  obtain res :: "'j exc + sql_result" and st1
    where run: "run_sql Q write_sql (write_binds env key v tags) st = (res, st1)" by fastforce
  note up = write_executed [OF assms(1,4) ex]
  from handler_statements [THEN conjunct1] typed_statements(1) [OF assms(4)] assms(1) ex run show ?thesis
  proof (cases rule: run_outcome)
    case complete
    with up assms(2,3,5) run notes_map_mset [of rows' st1] show ?thesis
      by (simp add: notes_write_def write_args_def write_binds_def tags_value_def first_step_def notes_map_def)
  next
    case unprepared
    with assms run show ?thesis by (auto simp: notes_write_def write_args_def write_binds_def tags_value_def)
  next
    case error
    with up assms run notes_map_mset [of "rows (nt_db st)" st1] show ?thesis
      by (auto simp: notes_write_def write_args_def write_binds_def tags_value_def first_step_def notes_map_def)
  qed
qed

lemma read_refines:
  fixes J :: "'j json_ops"
  assumes "sound_table (rows (nt_db st))" "key_arg J env args key"
    and "texts_plain [key]" "notes_read J Q env svc args st = (r, st')"
  shows "sound_table (rows (nt_db st')) \<and> notes_map rows st' = notes_map rows st \<and>
    (r = Inr (read_reply J Q key (notes_map rows st key)) \<or>
     \<not> completed Q read_sql [Sql_text key] (nt_db st) \<and> failed r)"
proof -
  obtain res :: "'j exc + sql_result" and st1 where run: "run_sql Q read_sql [Sql_text key] st = (res, st1)" by fastforce
  obtain out where ex: "execute read_statement [Sql_text key] (rows (nt_db st)) = (out, rows (nt_db st), 0)"
    and out: "out = (case map_option (\<lambda>row. [row ''value'', row ''tags'', row ''created_at'', row ''updated_at''])
      (notes_map rows st key) of None \<Rightarrow> [] | Some row \<Rightarrow> [row])"
    using selected [of "rows (nt_db st)" "[''value'', ''tags'', ''created_at'', ''updated_at'']" "''notes''" key] assms(1)
    by (auto simp: read_statement_def sound_table_def notes_map_def split: option.splits)
  note columns = col_is_null_def column_def tags_json_def read_reply_def note_json_def first_step_def
  from handler_statements [THEN conjunct2, THEN conjunct1] typed_statements(2) [OF assms(3)] assms(1) ex run show ?thesis
  proof (cases rule: run_outcome)
    case (complete res')
    then have "sr_rows res' = out" unfolding out by (auto split: option.splits)
    with complete assms run out notes_map_mset [of "rows (nt_db st)" st1] show ?thesis
      by (auto simp: notes_read_def key_arg_def columns notes_map_def split: option.splits)
  next
    case unprepared
    with assms run show ?thesis by (auto simp: notes_read_def key_arg_def)
  next
    case (error res' e)
    from mset_at_most_one [OF this(3) [unfolded out]] error assms run notes_map_mset [of "rows (nt_db st)" st1]
    show ?thesis by (auto simp: notes_read_def key_arg_def columns notes_map_def)
  qed
qed

lemma delete_refines:
  fixes J :: "'j json_ops"
  assumes "sound_table (rows (nt_db st))" "\<not> ns_readonly svc" "key_arg J env args key" "\<not> is_glob key"
    and "arg_value J env (j_get_bool J) args ''confirm'' False = Inr True"
    and "texts_plain [key]" "notes_delete J Q env svc args st = (r, st')"
  shows "sound_table (rows (nt_db st')) \<and>
    (if completed Q (delete_sql key) [Sql_text key] (nt_db st)
     then r = Inr (ok_text (int_string (if notes_map rows st key = None then 0 else 1) @ '' note(s) deleted'')) \<and>
       notes_map rows st' = (notes_map rows st)(key := None)
     else failed r \<and> notes_map rows st' = notes_map rows st)"
proof -
  obtain out rows' n where ex: "execute delete_statement [Sql_text key] (rows (nt_db st)) = (out, rows', n)"
    by (rule prod_cases3)
  obtain res :: "'j exc + sql_result" and st1 where run: "run_sql Q (delete_sql key) [Sql_text key] st = (res, st1)"
    by fastforce
  have "bind_key key = key" using assms(4) by (simp add: bind_key_def is_glob_def map_idI)
  then have deletes: "notes_delete J Q env svc args st = run_delete Q key st" "bind_key key = key"
    using assms by (simp_all add: notes_delete_def key_arg_def)
  note up = delete_executed [OF assms(1) ex]
  from parsed_delete [OF assms(4)] typed_statements(3) [OF assms(6)] assms(1) ex run show ?thesis
  proof (cases rule: run_outcome)
    case complete
    with up deletes assms(7) run notes_map_mset [of rows' st1] show ?thesis
      by (simp add: run_delete_def first_step_def notes_map_def)
  next
    case unprepared
    with deletes assms run show ?thesis by (auto simp: run_delete_def)
  next
    case error
    with up deletes assms run notes_map_mset [of "rows (nt_db st)" st1] show ?thesis
      by (auto simp: run_delete_def first_step_def notes_map_def)
  qed
qed

end

lemma one_note: "int_string 1 = ''1''" and int_zero: "int_string 0 = ''0''" and dec_zero: "dec_string 0 = ''0''"
  by (simp_all add: int_string_def dec_string.simps digit_char_def char_of_def bit_Suc_0_iff)

lemma texts_plain_hd: "texts_plain (s # ss) \<Longrightarrow> texts_plain [s]"
  by (simp add: texts_plain_def)

lemma read_none: "read_reply J Q key None = err_text (''notes/read: no note with key \"'' @ key @ ''\"'')"
  by (simp add: read_reply_def)

lemma read_noted:
  "read_reply J Q key (Some (noted key v tags now old)) = ok_json (j_init J
     [(''key'', j_string J key), (''value'', j_string J v), (''tags'', j_string J tags),
      (''createdAt'', j_int64 J (case old of None \<Rightarrow> now | Some row \<Rightarrow> col_i64 Q (row ''created_at''))),
      (''updatedAt'', j_int64 J now)]) v"
  by (simp add: read_reply_def note_json_def noted_def tags_json_def tags_value_def col_is_null_def split: option.split)

section \<open>A table to compute with\<close>

text \<open>A list of rows, on which the statements are executed; any other is an error.\<close>

definition list_run :: "string \<Rightarrow> sql_value list \<Rightarrow> sql_row list \<Rightarrow> sql_result \<times> sql_row list" where
  "list_run sql bs d =
     (case parse_sql sql of
        Some stmt \<Rightarrow>
          (let (out, d', n) = execute stmt bs d in (\<lparr>sr_rows = out, sr_end = Sql_done, sr_changes = int n\<rparr>, d'))
      | None \<Rightarrow> (\<lparr>sr_rows = [], sr_end = Sql_error ''no such statement'', sr_changes = 0\<rparr>, d))"

definition list_sqlite :: "sql_row list sqlite" where
  "list_sqlite = \<lparr>sq_prepare = (\<lambda>sql d. None), sq_bind = (\<lambda>sql i v. True), sq_run = list_run,
     sq_int64 = (\<lambda>s. 0), sq_version = ''0''\<rparr>"

lemma list_sqlite_completed: "completed list_sqlite sql binds d \<longleftrightarrow> parse_sql sql \<noteq> None"
  by (auto simp: completed_def prepared_def list_sqlite_def list_run_def list_all_iff split: option.split prod.split)

interpretation list_notes: sql_engine list_sqlite "\<lambda>d. d"
  by unfold_locales (auto simp: list_sqlite_completed, auto simp: list_sqlite_def list_run_def split: prod.splits)

section \<open>Properties\<close>

text \<open>
  C18: Nothing is deleted without consent. When \<open>notes/delete\<close> executes a statement, the server is not
  read-only, the statement is the one for the key of the call, and either the human was asked about
  exactly that key, accepted and set \<open>confirm\<close>, or the key is no pattern and the call itself carries
  \<open>confirm\<close>. A pattern is never deleted on the word of the caller.
\<close>

theorem delete_needs_consent:
  fixes r :: "'j exc + 'j CallToolResult"
  assumes "notes_delete J Q env svc args st = (r, st')" "nt_executed st' \<noteq> nt_executed st"
  shows "\<exists>key. key_arg J env args key \<and> \<not> ns_readonly svc \<and>
    nt_executed st' = nt_executed st @ [(delete_sql key, [Sql_text (bind_key key)])] \<and>
    (nt_asked st' = nt_asked st @ [delete_question key] \<and> agreed J env key \<or>
     nt_asked st' = nt_asked st \<and> \<not> is_glob key \<and>
       arg_value J env (j_get_bool J) args ''confirm'' False = Inr True)"
proof -
  from assms obtain key confirm where key: "key_arg J env args key" "\<not> ns_readonly svc"
    "arg_value J env (j_get_bool J) args ''confirm'' False = Inr confirm"
    and run: "if is_glob key \<or> \<not> confirm
      then agreed J env key \<and> run_delete Q key (st\<lparr>nt_asked := nt_asked st @ [delete_question key]\<rparr>) = (r, st')
      else run_delete Q key st = (r, st')"
    by (auto simp: notes_delete_def key_arg_def ask_to_delete_None Let_def ebind_eq_Inr_iff emap_eq_Inr_iff
        split: if_splits sum.splits option.splits)
  show ?thesis
  proof (cases "is_glob key \<or> \<not> confirm")
    case True
    with run have "agreed J env key"
      and d: "run_delete Q key (st\<lparr>nt_asked := nt_asked st @ [delete_question key]\<rparr>) = (r, st')" by auto
    with run_delete_state [OF d] assms(2) key show ?thesis by auto
  next
    case False
    with run have d: "run_delete Q key st = (r, st')" by simp
    from run_delete_state [OF d] assms(2) key False show ?thesis by auto
  qed
qed

definition asking_env :: "jv NotesEnv" where
  "asking_env = \<lparr>ne_now = 7, ne_value_error = (\<lambda>j. []), ne_dump2 = (\<lambda>j. Inl []),
     ne_ask = (\<lambda>p. Inr (Inr \<lparr>er_action = Elicit_accept,
       er_content = Some (VObject [(''confirm'', VBool True)])\<rparr>))\<rparr>"

definition empty_notes :: "sql_row list Notes" where
  "empty_notes = \<lparr>nt_db = [], nt_executed = [], nt_asked = []\<rparr>"

definition open_service :: NotesService where
  "open_service = \<lparr>ns_readonly = False, ns_db_path = ''notes.db''\<rparr>"

definition glob_args :: jv where
  "glob_args = VObject [(''key'', VString ''db.*''), (''confirm'', VBool True)]"

theorem delete_needs_consent_witness:
  "\<exists>key. key_arg jv_ops asking_env glob_args key \<and> \<not> ns_readonly open_service \<and>
    nt_executed (snd (notes_delete jv_ops list_sqlite asking_env open_service glob_args empty_notes)) =
      nt_executed empty_notes @ [(delete_sql key, [Sql_text (bind_key key)])] \<and>
    (nt_asked (snd (notes_delete jv_ops list_sqlite asking_env open_service glob_args empty_notes)) =
       nt_asked empty_notes @ [delete_question key] \<and> agreed jv_ops asking_env key \<or>
     nt_asked (snd (notes_delete jv_ops list_sqlite asking_env open_service glob_args empty_notes)) =
       nt_asked empty_notes \<and> \<not> is_glob key \<and>
       arg_value jv_ops asking_env (j_get_bool jv_ops) glob_args ''confirm'' False = Inr True)"
proof (rule delete_needs_consent)
  show "notes_delete jv_ops list_sqlite asking_env open_service glob_args empty_notes =
    (fst (notes_delete jv_ops list_sqlite asking_env open_service glob_args empty_notes),
     snd (notes_delete jv_ops list_sqlite asking_env open_service glob_args empty_notes))" by simp
  show "nt_executed (snd (notes_delete jv_ops list_sqlite asking_env open_service glob_args empty_notes)) \<noteq>
    nt_executed empty_notes"
    by (simp add: notes_delete_def arg_value_def glob_args_def open_service_def is_glob_def ask_to_delete_def
        asking_env_def run_delete_def run_sql_def list_sqlite_def empty_notes_def case_prod_unfold Let_def
        split: sql_step.split)
qed

text \<open>
  C19: The notes are a map. On any database that executes the SQL of \<open>Sql_Statements\<close> by its meaning, or fails:
  \<open>notes/write\<close> sets value, tags and time of the update under its key, keeps the time of creation and touches no
  other note; \<open>notes/read\<close> answers with what is there under its key, after the write with exactly what was
  written; \<open>notes/delete\<close>, confirmed, removes the key alone and reports how many notes that were; reading it again
  finds none. A handler whose statement is not completed reports a failure and leaves the notes as they are; only
  a read may still answer, and then rightly. The table has unique keys to begin with, as its schema demands, and
  neither its texts nor those of the call hold the character zero, at which SQLite's strings end.
\<close>

theorem note_lifecycle:
  fixes J :: "'j json_ops"
  assumes "sql_engine Q rows" "sound_table (rows (nt_db st))"
    and "\<not> ns_readonly svc" "write_args J env args key v tags" "texts_plain [key, v, tags]"
    and "key_arg J env rargs key" "key_arg J env dargs key" "\<not> is_glob key"
      "arg_value J env (j_get_bool J) dargs ''confirm'' False = Inr True"
    and "notes_write J Q env svc args st = (r1, st1)" "notes_read J Q env svc rargs st1 = (r2, st2)"
      "notes_delete J Q env svc dargs st2 = (r3, st3)" "notes_read J Q env svc rargs st3 = (r4, st4)"
  shows "(if completed Q write_sql (write_binds env key v tags) (nt_db st)
      then r1 = Inr (ok_text (''ok: stored under key \"'' @ key @ ''\"'')) \<and>
        notes_map rows st1 = (notes_map rows st)(key \<mapsto> noted key v tags (ne_now env) (notes_map rows st key))
      else failed r1 \<and> notes_map rows st1 = notes_map rows st) \<and>
    notes_map rows st2 = notes_map rows st1 \<and>
    (r2 = Inr (read_reply J Q key (notes_map rows st1 key)) \<or>
     \<not> completed Q read_sql [Sql_text key] (nt_db st1) \<and> failed r2) \<and>
    (completed Q write_sql (write_binds env key v tags) (nt_db st) \<longrightarrow>
     read_reply J Q key (notes_map rows st1 key) = ok_json (j_init J
       [(''key'', j_string J key), (''value'', j_string J v), (''tags'', j_string J tags),
        (''createdAt'', j_int64 J
          (case notes_map rows st key of None \<Rightarrow> ne_now env | Some row \<Rightarrow> col_i64 Q (row ''created_at''))),
        (''updatedAt'', j_int64 J (ne_now env))]) v) \<and>
    (if completed Q (delete_sql key) [Sql_text key] (nt_db st2)
      then r3 = Inr (ok_text ((if notes_map rows st2 key = None then ''0'' else ''1'') @ '' note(s) deleted'')) \<and>
        notes_map rows st3 = (notes_map rows st2)(key := None)
      else failed r3 \<and> notes_map rows st3 = notes_map rows st2) \<and>
    notes_map rows st4 = notes_map rows st3 \<and>
    (r4 = Inr (read_reply J Q key (notes_map rows st3 key)) \<or>
     \<not> completed Q read_sql [Sql_text key] (nt_db st3) \<and> failed r4)"
proof -
  note w = sql_engine.write_refines [OF assms(1,2,3,4,5,10)]
  note key = assms(5) [THEN texts_plain_hd]
  note r = sql_engine.read_refines [OF assms(1) conjunct1 [OF w] assms(6) key assms(11)]
  note d = sql_engine.delete_refines [OF assms(1) conjunct1 [OF r] assms(3,7,8,9) key assms(12)]
  note r' = sql_engine.read_refines [OF assms(1) conjunct1 [OF d] assms(6) key assms(13)]
  have "completed Q write_sql (write_binds env key v tags) (nt_db st) \<Longrightarrow>
     read_reply J Q key (notes_map rows st1 key) = ok_json (j_init J
       [(''key'', j_string J key), (''value'', j_string J v), (''tags'', j_string J tags),
        (''createdAt'', j_int64 J
          (case notes_map rows st key of None \<Rightarrow> ne_now env | Some row \<Rightarrow> col_i64 Q (row ''created_at''))),
        (''updatedAt'', j_int64 J (ne_now env))]) v"
    using w by (simp add: read_noted)
  with w r d r' show ?thesis by (simp add: one_note int_zero if_distrib [of int_string])
qed

definition sample_args :: jv where
  "sample_args = VObject [(''key'', VString ''k''), (''value'', VString ''v''), (''confirm'', VBool True)]"

lemma sample_args_accepted:
  "write_args jv_ops asking_env sample_args ''k'' ''v'' []" "key_arg jv_ops asking_env sample_args ''k''"
  "arg_value jv_ops asking_env (j_get_bool jv_ops) sample_args ''confirm'' False = Inr True"
  by (simp_all add: write_args_def key_arg_def arg_value_def sample_args_def)

theorem note_lifecycle_witness:
  "\<exists>st1 st2 st3 st4.
    notes_write jv_ops list_sqlite asking_env open_service sample_args empty_notes =
      (Inr (ok_text (''ok: stored under key \"'' @ ''k'' @ ''\"'')), st1) \<and>
    entry (nt_db st1) = (entry [])(''k'' \<mapsto> noted ''k'' ''v'' [] 7 None) \<and>
    notes_read jv_ops list_sqlite asking_env open_service sample_args st1 = (Inr (ok_json (j_init jv_ops
       [(''key'', j_string jv_ops ''k''), (''value'', j_string jv_ops ''v''), (''tags'', j_string jv_ops []),
        (''createdAt'', j_int64 jv_ops 7), (''updatedAt'', j_int64 jv_ops 7)]) ''v''), st2) \<and>
    notes_delete jv_ops list_sqlite asking_env open_service sample_args st2 =
      (Inr (ok_text (''1 note(s) deleted'')), st3) \<and>
    entry (nt_db st3) = (entry [])(''k'' := None) \<and>
    notes_read jv_ops list_sqlite asking_env open_service sample_args st3 =
      (Inr (err_text (''notes/read: no note with key \"'' @ ''k'' @ ''\"'')), st4)"
proof -
  let ?run = "\<lambda>h st. h jv_ops list_sqlite asking_env open_service sample_args st"
  obtain r1 st1 where w: "?run notes_write empty_notes = (r1, st1)" by fastforce
  obtain r2 st2 where r: "?run notes_read st1 = (r2, st2)" by fastforce
  obtain r3 st3 where d: "?run notes_delete st2 = (r3, st3)" by fastforce
  obtain r4 st4 where r': "?run notes_read st3 = (r4, st4)" by fastforce
  have glob: "\<not> is_glob ''k''" by (simp add: is_glob_def)
  note facts = note_lifecycle [OF list_notes.sql_engine_axioms _ _ sample_args_accepted(1) _
    sample_args_accepted(2) sample_args_accepted(2) glob sample_args_accepted(3) w r d r']
  from facts w r d r' show ?thesis
    by (simp add: list_sqlite_completed handler_statements parsed_delete [OF glob] notes_map_def empty_notes_def
        open_service_def asking_env_def sound_table_def unique_keys_def texts_plain_def read_noted read_none)
qed

text \<open>
  A query with one of the special characters reaches FTS5 as one phrase that reads as the query, whatever
  it contains; any other query is handed on as it is, without a double quote in it.
\<close>

theorem fts_query_quoted:
  "if set query \<inter> fts_special \<noteq> {} then fts_phrase (fts_query query) = Some query
   else fts_query query = query \<and> CHR 0x22 \<notin> set query"
proof (cases "set query \<inter> fts_special = {}")
  case True
  then show ?thesis by (auto simp: fts_query_def fts_special_def)
next
  case False
  then have "fts_query query =
      CHR 0x22 # concat (map (\<lambda>c. if c = CHR 0x22 then [CHR 0x22, c] else [c]) query) @ [CHR 0x22]"
    by (auto simp: fts_query_def)
  with False show ?thesis by (simp add: read_phrase_quoted)
qed

section \<open>Behaviours\<close>

text \<open>
  Neither a colon nor a dot is special, so \<open>key:value\<close> and the documentation's \<open>db.prod\<close> reach FTS5
  as expressions of its query language.
\<close>

theorem probes_not_quoted:
  "fts_query ''key:value'' = ''key:value'' \<and> fts_query ''db.prod'' = ''db.prod''"
  by code_simp

text \<open>A search that fails in the database is reported as one that finds nothing.\<close>

theorem failed_search_finds_nothing:
  fixes J :: "'j json_ops"
  assumes "arg_value J env (j_get_string J) args ''query'' [] = Inr query" "query \<noteq> []"
    and "arg_value J env (j_get_int J) args ''limit'' 25 = Inr n"
    and "run_sql Q search_sql [Sql_text (fts_query query), Sql_int (clamp64 (scast n) 1 200)] st =
      (Inr \<lparr>sr_rows = [], sr_end = Sql_error e, sr_changes = 0\<rparr> :: 'j exc + sql_result, st')"
  shows "notes_search J Q env svc args st =
    (Inr (ok_json (j_init J [(''matches'', j_array J [])]) (''found 0 match(es) for: '' @ query)), st')"
  using assms by (simp add: notes_search_def dec_zero)

text \<open>A key that holds a star or a percent sign cannot be deleted on its own, only as a pattern.\<close>

theorem exact_pattern_key: "is_glob key \<Longrightarrow> delete_sql key = ''DELETE FROM notes WHERE key LIKE ?1''"
  by (simp add: delete_sql_def)

end
