(* ===== verification/Notes_Server.thy ===== *)
theory Notes_Server
  imports Notes_Service Client
begin

text \<open>
  The program of examples/mcp_notes_server/main.cpp around the handlers of \<open>Notes_Service\<close>: the schema, the
  command line, opening the database, and the server with its six tools and its resource. The
  signals, the supervisor thread and the help text are not modelled.

  Lemmas: what a request can do to an application is what the registered handlers do; a read-only
  server executes queries only, whatever it is asked.
\<close>

section \<open>Start\<close>

definition no_text :: string where
  "no_text = [CHR 0x27, CHR 0x27]"

definition kSchemaSql :: string where
  "kSchemaSql = ''
CREATE TABLE IF NOT EXISTS notes (
    rowid      INTEGER PRIMARY KEY,
    key        TEXT UNIQUE NOT NULL,
    value      TEXT NOT NULL,
    tags       TEXT,
    created_at INTEGER NOT NULL,
    updated_at INTEGER NOT NULL
);

CREATE INDEX IF NOT EXISTS notes_updated_at
  ON notes (updated_at DESC);

CREATE VIRTUAL TABLE IF NOT EXISTS notes_fts USING fts5 (
    key, value, tags,
    tokenize = \\'porter unicode61\\'
);

-- Triggers keep notes_fts in sync with notes.
CREATE TRIGGER IF NOT EXISTS notes_ai AFTER INSERT ON notes BEGIN
    INSERT INTO notes_fts(rowid, key, value, tags)
    VALUES (new.rowid, new.key, new.value, COALESCE(new.tags, '' @ no_text @ ''));
END;
CREATE TRIGGER IF NOT EXISTS notes_au AFTER UPDATE ON notes BEGIN
    DELETE FROM notes_fts WHERE rowid = old.rowid;
    INSERT INTO notes_fts(rowid, key, value, tags)
    VALUES (new.rowid, new.key, new.value, COALESCE(new.tags, '' @ no_text @ ''));
END;
CREATE TRIGGER IF NOT EXISTS notes_ad AFTER DELETE ON notes BEGIN
    DELETE FROM notes_fts WHERE rowid = old.rowid;
END;
''"

text \<open>\<open>/\<close> of \<open>std::filesystem::path\<close> with a relative right-hand side.\<close>

definition path_append :: "string \<Rightarrow> string \<Rightarrow> string" where
  "path_append p q = p @ (if p \<noteq> [] \<and> last p \<noteq> CHR ''/'' then ''/'' else []) @ q"

text \<open>The two variables of the environment and the current directory; the directory is made.\<close>

definition default_db_path :: "string option \<Rightarrow> string option \<Rightarrow> string \<Rightarrow> string" where
  "default_db_path state home cwd =
     (let base = (if state \<noteq> None \<and> state \<noteq> Some [] then the state
                  else if home \<noteq> None \<and> home \<noteq> Some []
                  then path_append (path_append (the home) ''.local'') ''state''
                  else cwd);
          base = path_append base ''mcp-notes''
      in path_append base ''notes.db'')"

record Cli =
  cli_db_path :: string
  cli_readonly :: bool

text \<open>The arguments after the program's name; \<open>Inl\<close> is the status that the process exits with.\<close>

fun parse_args :: "string list \<Rightarrow> Cli \<Rightarrow> int + Cli" where
  "parse_args [] cli = Inr cli"
| "parse_args (a # as) cli =
     (if a = ''--db'' \<and> as \<noteq> [] then parse_args (tl as) (cli\<lparr>cli_db_path := hd as\<rparr>)
      else if a = ''--readonly'' then parse_args as (cli\<lparr>cli_readonly := True\<rparr>)
      else if a = ''--help'' \<or> a = ''-h'' then Inl 0
      else Inl 2)"

definition parse_cli :: "string option \<Rightarrow> string option \<Rightarrow> string \<Rightarrow> string list \<Rightarrow> int + Cli" where
  "parse_cli state home cwd args =
     parse_args args \<lparr>cli_db_path = default_db_path state home cwd, cli_readonly = False\<rparr>"

text \<open>
  Opening a file, read-only or not, and executing a script, each with the message of a failure.
\<close>

record 'd sqlite_file =
  sf_open :: "string \<Rightarrow> bool \<Rightarrow> string + 'd"
  sf_exec :: "string \<Rightarrow> 'd \<Rightarrow> string option \<times> 'd"

fun exec_all :: "'d sqlite_file \<Rightarrow> string list \<Rightarrow> 'd \<Rightarrow> string + 'd" where
  "exec_all F [] d = Inr d"
| "exec_all F (sql # sqls) d =
     (case sf_exec F sql d of
        (Some e, d) \<Rightarrow> Inl (''sqlite exec failed: '' @ e)
      | (None, d) \<Rightarrow> exec_all F sqls d)"

text \<open>The constructor of \<open>Db\<close>, and the schema.\<close>

definition db_new :: "'d sqlite_file \<Rightarrow> string \<Rightarrow> bool \<Rightarrow> string + 'd" where
  "db_new F path readonly =
     (case sf_open F path readonly of
        Inl msg \<Rightarrow> Inl (''sqlite open failed: '' @ msg)
      | Inr d \<Rightarrow>
          if readonly then Inr d
          else exec_all F
            [''PRAGMA journal_mode = WAL'', ''PRAGMA synchronous  = NORMAL'', ''PRAGMA foreign_keys = ON''] d)"

definition open_db :: "'d sqlite_file \<Rightarrow> Cli \<Rightarrow> string + 'd" where
  "open_db F cli =
     ebind (db_new F (cli_db_path cli) (cli_readonly cli)) (\<lambda>d.
       if cli_readonly cli then Inr d else exec_all F [kSchemaSql] d)"

text \<open>The status that \<open>main\<close> returns before it has a server, or what it makes the server from.\<close>

definition main_setup ::
    "'d sqlite_file \<Rightarrow> string option \<Rightarrow> string option \<Rightarrow> string \<Rightarrow> string list \<Rightarrow> int + Cli \<times> 'd" where
  "main_setup F state home cwd args =
     (case parse_cli state home cwd args of
        Inl status \<Rightarrow> Inl status
      | Inr cli \<Rightarrow> (case open_db F cli of Inl e \<Rightarrow> Inl 1 | Inr d \<Rightarrow> Inr (cli, d)))"

definition service_new :: "Cli \<Rightarrow> NotesService" where
  "service_new cli = \<lparr>ns_readonly = cli_readonly cli, ns_db_path = cli_db_path cli\<rparr>"

section \<open>The server\<close>

text \<open>What the handlers get from outside is part of the application's state, so that it can change between calls.\<close>

record ('j, 'd) NotesApp =
  na_env :: "'j NotesEnv"
  na_notes :: "'d Notes"

definition on_notes ::
    "('j NotesEnv \<Rightarrow> 'd Notes \<Rightarrow> 'r \<times> 'd Notes) \<Rightarrow> ('j, 'd) NotesApp \<Rightarrow> 'r \<times> ('j, 'd) NotesApp" where
  "on_notes f app = (let (r, st) = f (na_env app) (na_notes app) in (r, app\<lparr>na_notes := st\<rparr>))"

text \<open>An object whose members are objects with a type and a description.\<close>

definition schema_prop :: "'j json_ops \<Rightarrow> string \<Rightarrow> string \<Rightarrow> string \<Rightarrow> string \<times> 'j" where
  "schema_prop J name type description =
     (name, j_init J [(''type'', j_string J type), (''description'', j_string J description)])"

definition object_schema :: "'j json_ops \<Rightarrow> (string \<times> 'j) list \<Rightarrow> string list \<Rightarrow> 'j" where
  "object_schema J props req =
     j_init J ([(''type'', j_string J ''object''), (''properties'', j_init J props)] @
       (if req = [] then [] else [(''required'', j_array J (map (j_string J) req))]))"

definition write_schema :: "'j json_ops \<Rightarrow> 'j" where
  "write_schema J = object_schema J
     [schema_prop J ''key'' ''string'' ''stable identifier; max 256 chars'',
      schema_prop J ''value'' ''string'' ''free-form note body'',
      schema_prop J ''tags'' ''string'' ''comma-separated, lowercased tags''] [''key'', ''value'']"

definition read_schema :: "'j json_ops \<Rightarrow> 'j" where
  "read_schema J = object_schema J [(''key'', j_init J [(''type'', j_string J ''string'')])] [''key'']"

definition list_schema :: "'j json_ops \<Rightarrow> 'j" where
  "list_schema J = object_schema J
     [schema_prop J ''tag'' ''string'' ''filter to notes tagged this'',
      schema_prop J ''prefix'' ''string'' ''filter to keys with this prefix'',
      schema_prop J ''limit'' ''integer'' ''default 50; max 1000''] []"

definition search_schema :: "'j json_ops \<Rightarrow> 'j" where
  "search_schema J = object_schema J
     [schema_prop J ''query'' ''string''
        (''FTS5 query '' @ [CHR 0xE2, CHR 0x80, CHR 0x94] @ '' words match anywhere in key/value/tags''),
      schema_prop J ''limit'' ''integer'' ''default 25; max 200''] [''query'']"

definition delete_tool_schema :: "'j json_ops \<Rightarrow> 'j" where
  "delete_tool_schema J = object_schema J
     [schema_prop J ''key'' ''string'' ''exact key, or a `*` glob'',
      schema_prop J ''confirm'' ''boolean'' ''skip the elicitation prompt for non-glob keys''] [''key'']"

definition info_schema :: "'j json_ops \<Rightarrow> 'j" where
  "info_schema J = j_init J [(''type'', j_string J ''object''), (''properties'', j_object J)]"

definition notes_instructions :: string where
  "notes_instructions =
     ''Persistent notes for the assistant. Use `notes/write` to save a '' @
     ''key'' @ [CHR 0xE2, CHR 0x86, CHR 0x92] @ ''value pair, `notes/read` to fetch by exact key, `notes/search` '' @
     ''for full-text search, `notes/list` for prefix/tag filtering, and '' @
     ''`notes/delete` to remove a note (with elicitation-confirmed glob '' @
     ''deletes). The `notes://all` resource exposes the full set as JSON.''"

definition notes_info_block :: "'j Implementation" where
  "notes_info_block = \<lparr>impl_name = ''mcp-notes'', impl_title = None, impl_version = ''0.1.0'',
     impl_description = Some ''Persistent SQLite-backed scratchpad with FTS5 search.'',
     impl_website_url = None, impl_icons = None, impl_meta = None\<rparr>"

definition all_notes_resource :: "'j Resource" where
  "all_notes_resource = \<lparr>res_uri = ''notes://all'', res_name = ''all-notes'', res_title = Some ''All notes'',
     res_description = Some ''Every note as a JSON document'', res_mime_type = Some ''application/json'',
     res_annotations = None, res_size = None, res_icons = None, res_meta = None\<rparr>"

definition notes_tool ::
    "string \<Rightarrow> 'j \<Rightarrow> ('j NotesEnv \<Rightarrow> 'j \<Rightarrow> 'd Notes \<Rightarrow> ('j exc + 'j CallToolResult) \<times> 'd Notes) \<Rightarrow>
     string \<Rightarrow> string \<Rightarrow> ('j, ('j, 'd) NotesApp) Server \<Rightarrow> ('j, ('j, 'd) NotesApp) Server" where
  "notes_tool name schema h title description =
     add_tool name schema (Some (\<lambda>args. on_notes (\<lambda>env. h env args))) (Some title) (Some description) None None"

definition notes_server ::
    "'j json_ops \<Rightarrow> 'd sqlite \<Rightarrow> NotesService \<Rightarrow> ('j, 'd) NotesApp \<Rightarrow> ('j, ('j, 'd) NotesApp) Server" where
  "notes_server J Q svc app =
     (let sv = set_instructions notes_instructions (Server_init notes_info_block app);
          sv = notes_tool ''notes/write'' (write_schema J) (\<lambda>env. notes_write J Q env svc)
                 ''Write or update a note''
                 (''UPSERT a note under `key`. `value` is the note body; '' @
                  ''`tags` is optional comma-separated.'') sv;
          sv = notes_tool ''notes/read'' (read_schema J) (\<lambda>env. notes_read J Q env svc)
                 ''Read a note by key''
                 ''Fetch a single note. Returns the value plus tags + timestamps.'' sv;
          sv = notes_tool ''notes/list'' (list_schema J) (\<lambda>env. notes_list J Q env svc)
                 ''List notes''
                 (''List note keys, optionally filtered by tag or key prefix. '' @
                  ''Sorted by updatedAt DESC.'') sv;
          sv = notes_tool ''notes/search'' (search_schema J) (\<lambda>env. notes_search J Q env svc)
                 ''Full-text search''
                 (''BM25-ranked FTS5 search over key+value+tags. Matches are '' @
                  ''highlighted in the `snippet` field.'') sv;
          sv = notes_tool ''notes/delete'' (delete_tool_schema J) (\<lambda>env. notes_delete J Q env svc)
                 ''Delete a note''
                 (''Removes a note. Glob (e.g. `db.*`) deletes are routed through '' @
                  ''MCP elicitation for human confirmation.'') sv;
          sv = notes_tool ''notes/info'' (info_schema J) (\<lambda>env. notes_info J Q env svc)
                 ''Server info'' ''Report db path, note count, and SQLite version.'' sv
      in add_resource all_notes_resource
           (Some (\<lambda>uri. on_notes (\<lambda>env. read_all_notes J Q env))) sv)"

text \<open>The requests that the server is sent, each with what the handlers then get from outside.\<close>

fun notes_serve ::
    "'j json_ops \<Rightarrow> ('j NotesEnv \<times> 'j ServerEnv \<times> 'j JsonRpcRequest) list \<Rightarrow>
     ('j, ('j, 'd) NotesApp) Server \<Rightarrow> ('j, ('j, 'd) NotesApp) Server" where
  "notes_serve J [] sv = sv"
| "notes_serve J ((env, senv, req) # reqs) sv =
     notes_serve J reqs (snd (server_request J senv req (sv\<lparr>sv_app := (sv_app sv)\<lparr>na_env := env\<rparr>\<rparr>)))"

section \<open>What a request does to the application\<close>

text \<open>Every registered handler takes the application's state along the relation \<open>R\<close>.\<close>

definition moves_along :: "('s \<Rightarrow> 's \<Rightarrow> bool) \<Rightarrow> ('x \<Rightarrow> 's \<Rightarrow> 'r \<times> 's) option \<Rightarrow> bool" where
  "moves_along R h \<longleftrightarrow> (case h of None \<Rightarrow> True | Some h \<Rightarrow> \<forall>x a. R a (snd (h x a)))"

definition handlers_respect :: "('s \<Rightarrow> 's \<Rightarrow> bool) \<Rightarrow> ('j, 's) Server \<Rightarrow> bool" where
  "handlers_respect R sv \<longleftrightarrow>
     list_all (\<lambda>(name, e). moves_along R (toe_handler e)) (sv_tools sv) \<and>
     list_all (\<lambda>(uri, e). moves_along R (ree_handler e)) (sv_resources sv) \<and>
     list_all (\<lambda>(name, e). moves_along R (pre_handler e)) (sv_prompts sv) \<and>
     moves_along R (sv_fallback_resource_handler sv) \<and> moves_along R (sv_completion_handler sv)"

lemma moves_along_entry:
  "list_all (\<lambda>(name, e). moves_along R (f e)) es \<Longrightarrow> map_of es k = Some e \<Longrightarrow> moves_along R (f e)"
  by (auto simp: list_all_iff dest: map_of_SomeD)

lemma call_back_app:
  "(\<And>a. R a a) \<Longrightarrow> moves_along R h \<Longrightarrow> R (sv_app sv) (sv_app (snd (call_back h x sv)))"
  by (auto simp: moves_along_def call_back_def case_prod_unfold Let_def split: option.splits)

lemma handlers_respect_config: "same_config sv sv' \<Longrightarrow> handlers_respect R sv' \<longleftrightarrow> handlers_respect R sv"
  by (simp add: same_config_def handlers_respect_def)

lemma handlers_respect_app [simp]: "handlers_respect R (sv\<lparr>sv_app := app\<rparr>) \<longleftrightarrow> handlers_respect R sv"
  by (simp add: handlers_respect_def)

lemma respects_call_tool:
  assumes "handlers_respect R sv" and refl: "\<And>a. R a a"
  shows "R (sv_app sv) (sv_app (snd (handle_call_tool J env p sv)))"
proof -
  have called: "R (sv_app sv) (sv_app (snd (call_back (toe_handler e) args sv)))"
    if "map_of (sv_tools sv) name = Some e" for name e args
  proof -
    have "list_all (\<lambda>(name, e). moves_along R (toe_handler e)) (sv_tools sv)"
      using assms(1) by (simp add: handlers_respect_def)
    from moves_along_entry [OF this that] show ?thesis by (rule call_back_app [OF refl])
  qed
  have started: "sv_app (snd (start_task J env h args aug ts sv)) = sv_app sv" for h args aug ts
    by (simp add: start_task_def Let_def case_prod_unfold)
  show ?thesis
    using called
    by (simp add: handle_call_tool_def Let_def case_prod_unfold started refl split: sum.split option.split)
qed

lemma respects_callbacks:
  fixes sv :: "('j, 's) Server"
  assumes "handlers_respect R sv" and refl: "\<And>a. R a a"
  shows "R (sv_app sv) (sv_app (snd (handle_read_resource J p sv)))"
    "R (sv_app sv) (sv_app (snd (handle_get_prompt J p sv)))"
    "R (sv_app sv) (sv_app (snd (handle_complete J p sv)))"
proof -
  have along: "moves_along R (case map_of (sv_resources sv) uri of Some e \<Rightarrow> ree_handler e
      | None \<Rightarrow> sv_fallback_resource_handler sv)"
    "moves_along R (Option.bind (map_of (sv_prompts sv) name) pre_handler)"
    "moves_along R (sv_completion_handler sv)" for uri name
    using assms(1) moves_along_entry [of R ree_handler "sv_resources sv"]
      moves_along_entry [of R pre_handler "sv_prompts sv"]
    by (auto simp: handlers_respect_def moves_along_def [of R None] split: option.split bind_split)
  have called: "R (sv_app sv) (sv_app (snd (case h of None \<Rightarrow> (e, sv)
      | Some h \<Rightarrow> (f (fst (call_back (Some h) x sv)), snd (call_back (Some h) x sv)))))"
    if "moves_along R h" for h :: "('x \<Rightarrow> 's \<Rightarrow> ('j exc + 'y) \<times> 's) option" and x and e :: 'z and f
    using call_back_app [of R h, OF refl that] refl by (cases h) simp_all
  show "R (sv_app sv) (sv_app (snd (handle_read_resource J p sv)))"
    unfolding handle_read_resource_def Let_def case_prod_unfold
    by (auto simp: refl split: sum.split intro!: called along(1))
  show "R (sv_app sv) (sv_app (snd (handle_get_prompt J p sv)))"
    unfolding handle_get_prompt_def Let_def case_prod_unfold
    by (auto simp: refl split: sum.split intro!: called along(2))
  show "R (sv_app sv) (sv_app (snd (handle_complete J p sv)))"
    using call_back_app [of R, OF refl along(3)]
    by (cases "sv_completion_handler sv")
      (simp_all add: handle_complete_def Let_def case_prod_unfold refl split: sum.split)
qed

lemma respects_simple:
  assumes "\<And>a. R a a"
  shows "R (sv_app sv) (sv_app (snd (handle_initialize J p sv)))"
    "R (sv_app sv) (sv_app (snd (handle_list_tools J p sv)))"
    "R (sv_app sv) (sv_app (snd (handle_list_resources J p sv)))"
    "R (sv_app sv) (sv_app (snd (handle_list_resource_templates J p sv)))"
    "R (sv_app sv) (sv_app (snd (handle_list_prompts J p sv)))"
    "R (sv_app sv) (sv_app (snd (handle_ping J p sv)))"
    "R (sv_app sv) (sv_app (snd (handle_set_level J p sv)))"
    "R (sv_app sv) (sv_app (snd (handle_get_task J p sv)))"
    "R (sv_app sv) (sv_app (snd (handle_list_tasks J p sv)))"
    "R (sv_app sv) (sv_app (snd (handle_get_task_result J env p sv)))"
    "R (sv_app sv) (sv_app (snd (handle_cancel_task J env p sv)))"
  using assms by (simp_all add: handler_defs Let_def case_prod_unfold split: sum.split option.split)

lemma request_respects:
  assumes "handlers_respect R sv" "\<And>a. R a a"
  shows "R (sv_app sv) (sv_app (snd (server_request J env req sv)))"
  by (simp add: server_request_def handle_request_state lookup_server_handlers assms(2)
      respects_call_tool [of R, OF assms] respects_callbacks [of R, OF assms] respects_simple [of R, OF assms(2)]
      split: option.split)

lemma notes_serve_respects:
  assumes "\<And>a. R a a" "\<And>a b c. R a b \<Longrightarrow> R b c \<Longrightarrow> R a c" "\<And>a env. R a (a\<lparr>na_env := env\<rparr>)"
    and "handlers_respect R sv"
  shows "R (sv_app sv) (sv_app (notes_serve J reqs sv))"
  using assms(4)
proof (induction J reqs sv rule: notes_serve.induct)
  case (2 J env senv req reqs sv)
  let ?sv = "sv\<lparr>sv_app := (sv_app sv)\<lparr>na_env := env\<rparr>\<rparr>"
  have "frame_ok ?sv (snd (server_request J senv req ?sv))" by (rule frame_ok_request)
  then have "handlers_respect R (snd (server_request J senv req ?sv))"
    using 2(2) handlers_respect_config [of ?sv] by (simp add: frame_ok_def)
  from 2(1) [OF this] request_respects [of R ?sv J senv req] 2(2) assms(1,3)
  show ?case using assms(2) by simp (metis)
qed (simp add: assms(1))

section \<open>The read-only server\<close>

definition reads_along :: "'d sqlite \<Rightarrow> ('j, 'd) NotesApp \<Rightarrow> ('j, 'd) NotesApp \<Rightarrow> bool" where
  "reads_along Q a b \<longleftrightarrow> only_reads Q (na_notes a) (na_notes b)"

lemma on_notes_reads:
  "(\<And>env st. only_reads Q st (snd (f env st))) \<Longrightarrow> reads_along Q a (snd (on_notes f a))"
  by (simp add: reads_along_def on_notes_def case_prod_unfold Let_def)

lemma readonly_server_respects:
  assumes "ns_readonly svc"
  shows "handlers_respect (reads_along Q) (notes_server J Q svc app)"
  by (simp add: handlers_respect_def notes_server_def Let_def notes_tool_def add_tool_def add_resource_def
      set_instructions_def Server_init_def moves_along_def)
    (auto intro!: on_notes_reads queries_only_read readonly_only_reads [OF assms])

section \<open>Properties\<close>

text \<open>
  C17: A read-only server never writes. Whatever sequence of requests it is sent, in whatever order and
  with whatever arguments, and whatever the human answers: every statement it executes is a query, and
  on a database whose queries leave it as it is, as SQLite documents, the notes are unchanged.
\<close>

theorem readonly_server_never_writes:
  assumes "ns_readonly svc" "sv_app (notes_serve J reqs (notes_server J Q svc app)) = app'"
  shows "(\<exists>stmts. nt_executed (na_notes app') = nt_executed (na_notes app) @ stmts \<and>
      list_all (\<lambda>(sql, binds). reads_only sql) stmts) \<and>
    (queries_pure Q \<longrightarrow> nt_db (na_notes app') = nt_db (na_notes app))"
proof -
  have "reads_along Q (sv_app (notes_server J Q svc app)) (sv_app (notes_serve J reqs (notes_server J Q svc app)))"
    by (rule notes_serve_respects [OF _ _ _ readonly_server_respects [OF assms(1)]])
      (auto simp: reads_along_def intro: only_reads_trans)
  moreover have "sv_app (notes_server J Q svc app) = app"
    by (simp add: notes_server_def notes_tool_def add_tool_def add_resource_def set_instructions_def
        Server_init_def Let_def)
  ultimately show ?thesis using assms(2) by (simp add: reads_along_def only_reads_def)
qed

text \<open>A query is never read as a statement that changes a table: the first word starts with the first letter.\<close>

lemma lex_word: "word \<noteq> [] \<Longrightarrow> \<exists>w ts. lex word s = (word @ w) # ts"
proof (induction s arbitrary: word)
  case (Cons c s)
  then show ?case using Cons.IH [of "word @ [c]"] by auto
qed simp

lemma lex_query: "reads_only sql \<Longrightarrow> \<exists>w ts. lex [] sql = (CHR ''S'' # w) # ts"
proof (induction sql)
  case (Cons c sql)
  show ?case
  proof (cases "is_space c")
    case True
    then have "c = CHR '' '' \<or> c = CHR 0x0A" by (simp add: is_space_def)
    then have "\<not> is_word c" "reads_only sql"
      using Cons.prems by (auto simp: reads_only_def is_word_def is_digit_def)
    with Cons.IH True show ?thesis by simp
  next
    case False
    with Cons.prems have c: "c = CHR ''S''" by (auto simp: reads_only_def is_space_def)
    have "is_word c" by (simp add: c is_word_def)
    with lex_word [of "[c]" sql] c show ?thesis by simp
  qed
qed (simp add: reads_only_def)

lemma query_selects:
  assumes "reads_only sql" "parse_sql sql = Some stmt"
  shows "\<exists>cols t c n. stmt = Select cols t c n"
proof -
  obtain w ts where "lex [] sql = (CHR ''S'' # w) # ts" using lex_query [OF assms(1)] by blast
  with assms(2) show ?thesis by (auto simp: parse_sql_def split: if_splits option.splits)
qed

lemma list_sqlite_queries_pure: "queries_pure list_sqlite"
  unfolding queries_pure_def
proof (intro allI impI)
  fix sql binds and d :: "sql_row list"
  assume "reads_only sql"
  then show "snd (sq_run list_sqlite sql binds d) = d"
    using query_selects [of sql] by (cases "parse_sql sql") (auto simp: list_sqlite_def list_run_def)
qed

definition sample_app :: "(jv, sql_row list) NotesApp" where
  "sample_app = \<lparr>na_env = asking_env, na_notes = empty_notes\<rparr>"

definition readonly_service :: NotesService where
  "readonly_service = \<lparr>ns_readonly = True, ns_db_path = ''notes.db''\<rparr>"

text \<open>The handshake, and a \<open>notes/write\<close>.\<close>

definition write_requests :: "(jv NotesEnv \<times> jv ServerEnv \<times> jv JsonRpcRequest) list" where
  "write_requests =
     [(asking_env, example_env,
       \<lparr>req_id = IdInt 1, req_method = ''initialize'',
        req_params = Some (initialize_payload jv_ops example_client)\<rparr>),
      (asking_env, example_env,
       \<lparr>req_id = IdInt 2, req_method = ''tools/call'',
        req_params = Some (VObject [(''name'', VString ''notes/write''), (''arguments'', sample_args)])\<rparr>)]"

theorem readonly_server_never_writes_witness:
  "nt_db (na_notes (sv_app (notes_serve jv_ops write_requests
      (notes_server jv_ops list_sqlite readonly_service sample_app)))) = []"
  using readonly_server_never_writes [where svc = readonly_service and Q = list_sqlite and app = sample_app, OF _ refl]
    list_sqlite_queries_pure
  by (simp add: readonly_service_def sample_app_def empty_notes_def)

end
