(* ===== verification/Calculator.thy ===== *)
theory Calculator
  imports Ieee_Double Http_Stack
begin

text \<open>
  The calculator of examples/calculator_server/main.cpp and examples/http_calculator_server/main.cpp: the
  two programs register the same four tools, one in a server on standard input and output, the other
  in every server that the HTTP host makes. Doubles are those of \<open>Ieee_Double\<close>. Signals and threads are
  left out but for the loop of the supervisor.

  Lemmas: what a tool answers on integers, on finite doubles and on a zero divisor.
\<close>

section \<open>The tools\<close>

definition arith_schema :: "'j json_ops \<Rightarrow> 'j" where
  "arith_schema J = j_init J
     [(''type'', j_string J ''object''),
      (''properties'', j_init J
         [(''a'', j_init J [(''type'', j_string J ''number''), (''description'', j_string J ''left operand'')]),
          (''b'', j_init J [(''type'', j_string J ''number''), (''description'', j_string J ''right operand'')])]),
      (''required'', j_array J [j_string J ''a'', j_string J ''b''])]"

definition text_result :: "string \<Rightarrow> bool \<Rightarrow> 'j CallToolResult" where
  "text_result s is_err = \<lparr>ctr_content = [BlockTextContent \<lparr>text_text = s, text_annotations = None\<rparr>],
     ctr_structured_content = None, ctr_is_error = Some is_err, ctr_meta = None\<rparr>"

text \<open>A tool reads \<open>a\<close> first, then \<open>b\<close>; either read may throw.\<close>

definition operands :: "'j json_ops \<Rightarrow> 'j \<Rightarrow> 'j exc + double \<times> double" where
  "operands J args =
     ebind (at_get J (get_dbl J) args ''a'') (\<lambda>a.
     ebind (at_get J (get_dbl J) args ''b'') (\<lambda>b. Inr (a, b)))"

definition arith_tool :: "'j json_ops \<Rightarrow> (double \<Rightarrow> double \<Rightarrow> double) \<Rightarrow> ('j, 's) ToolHandler" where
  "arith_tool J f args app =
     (ebind (operands J args) (\<lambda>(a, b). Inr (text_result (double_to_string (f a b)) False)), app)"

definition divide_tool :: "'j json_ops \<Rightarrow> ('j, 's) ToolHandler" where
  "divide_tool J args app =
     (ebind (operands J args) (\<lambda>(a, b).
        if double_is_zero b then Inr (text_result ''division by zero'' True)
        else Inr (text_result (double_to_string (double_div a b)) False)), app)"

definition calculator_tool ::
    "'j json_ops \<Rightarrow> string \<Rightarrow> ('j, 's) ToolHandler \<Rightarrow> string \<Rightarrow> string \<Rightarrow> ('j, 's) Server \<Rightarrow> ('j, 's) Server" where
  "calculator_tool J name h title description =
     add_tool name (arith_schema J) (Some h) (Some title) (Some description) None None"

definition calculator_tools :: "'j json_ops \<Rightarrow> ('j, 's) Server \<Rightarrow> ('j, 's) Server" where
  "calculator_tools J sv =
     (let sv = set_instructions
            (''This server offers four arithmetic tools (add, subtract, '' @
             ''multiply, divide). Each takes two numbers `a` and `b`.'') sv;
          sv = calculator_tool J ''add'' (arith_tool J double_add) ''Add'' ''Returns a + b.'' sv;
          sv = calculator_tool J ''subtract'' (arith_tool J double_sub) ''Subtract'' ''Returns a - b.'' sv;
          sv = calculator_tool J ''multiply'' (arith_tool J double_mul) ''Multiply'' ''Returns a * b.'' sv
      in calculator_tool J ''divide'' (divide_tool J) ''Divide''
           ''Returns a / b. Reports an error result on b == 0.'' sv)"

section \<open>The two programs\<close>

definition calculator_info :: "string \<Rightarrow> string \<Rightarrow> 'j Implementation" where
  "calculator_info name description = \<lparr>impl_name = name, impl_title = None, impl_version = ''0.1.0'',
     impl_description = Some description, impl_website_url = None, impl_icons = None, impl_meta = None\<rparr>"

definition calculator_server :: "'j json_ops \<Rightarrow> 's \<Rightarrow> ('j, 's) Server" where
  "calculator_server J app =
     calculator_tools J (Server_init
       (calculator_info ''mcp-cpp-calculator'' ''Tiny demo: arithmetic over MCP.'') app)"

definition http_calculator_session :: "'j json_ops \<Rightarrow> 's \<Rightarrow> ('j, 's) Server" where
  "http_calculator_session J app =
     calculator_tools J (Server_init
       (calculator_info ''mcp-cpp-http-calculator'' ''Streamable HTTP demo: arithmetic over MCP.'') app)"

text \<open>
  \<open>std::atoi\<close>: white space, a sign, digits; no digit gives 0. A value out of the range of \<open>int\<close> is
  undefined: \<open>None\<close>.
\<close>

definition atoi :: "string \<Rightarrow> int option" where
  "atoi s =
     (let s = dropWhile (\<lambda>c. c \<in> set '' '' \<or> (9 \<le> (of_char c :: nat) \<and> (of_char c :: nat) \<le> 13)) s;
          neg = (s \<noteq> [] \<and> hd s = CHR ''-'');
          s = (if s \<noteq> [] \<and> hd s \<in> {CHR ''-'', CHR ''+''} then tl s else s);
          v = int (dec_value (takeWhile is_digit s));
          v = (if neg then - v else v)
      in if - (2 ^ 31) \<le> v \<and> v < 2 ^ 31 then Some v else None)"

text \<open>The options of the two HTTP programs from the arguments after the program's name.\<close>

definition listen_options :: "int \<Rightarrow> string list \<Rightarrow> HostOptions option" where
  "listen_options default_port args =
     (let host = (if 0 < length args then args ! 0 else ''127.0.0.1'');
          port = (if 1 < length args then atoi (args ! 1) else Some default_port);
          path = (if 2 < length args then args ! 2 else ''/mcp'')
      in map_option (\<lambda>p. HostOptions_init\<lparr>op_host := host, op_port := p, op_path := path\<rparr>) port)"

definition http_calculator_options :: "string list \<Rightarrow> HostOptions option" where
  "http_calculator_options args = listen_options 8080 args"

text \<open>Nothing refuses an address that is not a loopback one.\<close>

lemma http_calculator_binds_anywhere:
  "map_option start_check (http_calculator_options [host]) = Some None"
proof -
  have "valid_quoted_param ''mcp''" by code_simp
  then show ?thesis
    by (simp add: http_calculator_options_def listen_options_def start_check_def HostOptions_init_def)
qed

text \<open>
  The supervisor polls \<open>supervisor_done\<close> and the flag of the signal handler. It returns whether it has
  called \<open>Server::stop\<close>; \<open>None\<close> while it still polls.
\<close>

fun supervisor :: "(bool \<times> bool) list \<Rightarrow> bool option" where
  "supervisor [] = None"
| "supervisor ((finished, requested) # polls) =
     (if finished then Some False else if requested then Some True else supervisor polls)"

section \<open>What the tools answer\<close>

definition calculator_handler :: "'j json_ops \<Rightarrow> string \<Rightarrow> ('j, 's) ToolHandler option" where
  "calculator_handler J name =
     (if name = ''add'' then Some (arith_tool J double_add)
      else if name = ''subtract'' then Some (arith_tool J double_sub)
      else if name = ''multiply'' then Some (arith_tool J double_mul)
      else if name = ''divide'' then Some (divide_tool J) else None)"

lemma calculator_entry:
  assumes "sv_tools sv = []" "calculator_handler J name = Some h"
  shows "\<exists>entry. map_of (sv_tools (calculator_tools J sv)) name = Some entry \<and> toe_handler entry = Some h \<and>
    tool_execution (toe_descriptor entry) = None"
  using assms
  by (simp add: calculator_tools_def calculator_tool_def calculator_handler_def add_tool_def
      set_instructions_def Let_def split: if_splits)

text \<open>The answer to a call with two numbers.\<close>

definition calculator_reply :: "string \<Rightarrow> double \<Rightarrow> double \<Rightarrow> 'j CallToolResult" where
  "calculator_reply name a b =
     (if name = ''divide'' \<and> double_is_zero b then text_result ''division by zero'' True
      else text_result (double_to_string
        (if name = ''add'' then double_add a b else if name = ''subtract'' then double_sub a b
         else if name = ''multiply'' then double_mul a b else double_div a b)) False)"

lemma calculator_runs:
  assumes "calculator_handler J name = Some h" "operands J args = Inr (a, b)"
  shows "h args app = (Inr (calculator_reply name a b), app)"
  using assms
  by (auto simp: calculator_handler_def calculator_reply_def arith_tool_def divide_tool_def split: if_splits
      simp del: double_to_string.simps)

text \<open>The integer that a tool should print, where it is one.\<close>

definition exact_result :: "string \<Rightarrow> int \<Rightarrow> int \<Rightarrow> int option" where
  "exact_result name i j =
     (if name = ''add'' then Some (i + j)
      else if name = ''subtract'' then Some (i - j)
      else if name = ''multiply'' \<and> i * j \<noteq> 0 then Some (i * j)
      else if name = ''divide'' \<and> i * j \<noteq> 0 \<and> j dvd i then Some (i div j) else None)"

lemma double_div_exact:
  assumes "i * j \<noteq> 0" "j dvd i" "\<bar>i div j\<bar> \<le> 2 ^ 53"
  shows "double_div (DFin (of_int i)) (DFin (of_int j)) = DFin (of_int (i div j))"
proof -
  have "(of_int i / of_int j :: rat) = of_int (i div j)" using assms(1,2) by (auto simp: field_simps)
  then show ?thesis
    using assms(1) round_double_exact [OF representable_of_int [OF assms(3)]]
    by (simp add: double_div_def double_is_zero_def)
qed

lemma calculator_exact:
  assumes "calculator_handler J name = Some h" "exact_result name i j = Some n" "\<bar>n\<bar> \<le> 2 ^ 53"
    and "operands J args = Inr (DFin (of_int i), DFin (of_int j))"
  shows "h args app = (Inr (text_result (int_string n @ ''.000000'') False), app)"
proof -
  let ?answers = "h args app = (Inr (text_result (double_to_string (DFin (of_int n))) False), app)"
  consider "name = ''add''" | "name = ''subtract''" | "name = ''multiply''" | "name = ''divide''"
    using assms(2) by (auto simp: exact_result_def split: if_splits)
  then have ?answers
  proof cases
    case 4
    then have "i * j \<noteq> 0" "j dvd i" "n = i div j" using assms(2) by (simp_all add: exact_result_def split: if_splits)
    then show ?thesis using 4 assms(1,3,4) double_div_exact [of i j]
      by (auto simp: calculator_handler_def divide_tool_def double_is_zero_def simp del: double_to_string.simps)
  qed (use assms double_int_ops [of i j] in
      \<open>auto simp: calculator_handler_def exact_result_def arith_tool_def split: if_splits
         simp del: double_to_string.simps of_int_add of_int_diff of_int_mult\<close>)
  then show ?thesis by (simp only: double_to_string_of_int)
qed

section \<open>Properties\<close>

definition exact_value :: "string \<Rightarrow> rat \<Rightarrow> rat \<Rightarrow> rat" where
  "exact_value name r q =
     (if name = ''add'' then r + q else if name = ''subtract'' then r - q
      else if name = ''multiply'' then r * q else r / q)"

definition nearest_double :: "rat \<Rightarrow> double \<Rightarrow> bool" where
  "nearest_double x v \<longleftrightarrow> double_wf v \<and>
     (case v of
        DFin w \<Rightarrow> \<forall>y. representable y \<longrightarrow> \<bar>w - x\<bar> \<le> \<bar>y - x\<bar>
      | DNegZero \<Rightarrow> \<forall>y. representable y \<longrightarrow> \<bar>x\<bar> \<le> \<bar>y - x\<bar>
      | DInf s \<Rightarrow> double_limit - 2 ^ 970 \<le> \<bar>x\<bar> \<and> s = (x < 0)
      | DNaN \<Rightarrow> False)"

lemma nearest_round_double: "nearest_double x (round_double x)"
proof (cases "round_double x")
  case (DInf s)
  then have "s = (x < 0)" by (simp add: round_double_def Let_def split: if_splits)
  then show ?thesis using round_double_overflow [OF DInf] by (simp add: nearest_double_def DInf)
next
  case DNegZero
  then have "x \<noteq> 0" "round_mag \<bar>x\<bar> = 0" by (simp_all add: round_double_def Let_def split: if_splits)
  have "\<bar>x\<bar> \<le> \<bar>y - x\<bar>" if "representable y" for y
  proof -
    have "representable (if x < 0 then - y else y)" using that by simp
    from round_mag_nearest [OF _ this, of "\<bar>x\<bar>"] \<open>x \<noteq> 0\<close> \<open>round_mag \<bar>x\<bar> = 0\<close> show ?thesis
      by (cases "x < 0") simp_all
  qed
  then show ?thesis by (simp add: nearest_double_def DNegZero)
next
  case DNaN
  then show ?thesis by (simp add: round_double_def Let_def split: if_splits)
qed (use round_double_wf [of x] in \<open>simp add: nearest_double_def round_double_nearest\<close>)

lemma nearest_double_zero: "nearest_double 0 (double_zero s)"
  using representable_of_int [of 0] by (simp add: nearest_double_def double_zero_def)

lemma nearest_ops:
  assumes "a \<in> {DFin r, DNegZero}" "b \<in> {DFin q, DNegZero}"
  shows "nearest_double (double_value a + double_value b) (double_add a b)"
    "nearest_double (double_value a - double_value b) (double_sub a b)"
    "nearest_double (double_value a * double_value b) (double_mul a b)"
    "\<not> double_is_zero b \<Longrightarrow> nearest_double (double_value a / double_value b) (double_div a b)"
proof -
  have zero: "nearest_double 0 DNegZero" using nearest_double_zero [of True] by (simp add: double_zero_def)
  have add: "nearest_double (double_value a + double_value b) (double_add a b)"
    if "a \<in> {DFin r, DNegZero}" "b \<in> {DFin q, DNegZero}" for a b r q
    using that nearest_round_double [of "double_value a + double_value b"] zero by (auto simp: double_add_def)
  show "nearest_double (double_value a + double_value b) (double_add a b)" by (rule add [OF assms])
  have "double_neg b \<in> {DFin (double_value (double_neg b)), DNegZero}" using assms(2) by auto
  from add [OF assms(1) this]
  show "nearest_double (double_value a - double_value b) (double_sub a b)" by (simp add: double_sub_def)
  show "nearest_double (double_value a * double_value b) (double_mul a b)"
    using assms nearest_round_double [of "double_value a * double_value b"] nearest_double_zero
    by (auto simp: double_mul_def double_is_zero_def Let_def)
  show "nearest_double (double_value a / double_value b) (double_div a b)" if "\<not> double_is_zero b"
    using assms that nearest_round_double [of "double_value a / double_value b"] nearest_double_zero
    by (auto simp: double_div_def double_is_zero_def Let_def)
qed

lemma calculator_reply_nearest:
  assumes "calculator_handler J name = Some h" "a \<in> {DFin r, DNegZero}" "b \<in> {DFin q, DNegZero}"
    and "\<not> (name = ''divide'' \<and> double_is_zero b)"
  shows "\<exists>v. calculator_reply name a b = text_result (double_to_string v) False \<and>
    nearest_double (exact_value name (double_value a) (double_value b)) v"
  using assms(1,4) nearest_ops [OF assms(2,3)]
  by (auto simp: calculator_handler_def calculator_reply_def exact_value_def split: if_splits
      simp del: double_to_string.simps)

text \<open>
  C20: What the calculator prints. On finite operands every tool answers with the text of the double that is
  nearest to the exact result (an infinity only beyond the range of the format), and the text
  denotes that double up to half a unit of its sixth decimal. On integers whose result has at most 53
  bits the text is that integer. A divisor that is zero, of either sign, gives an error result.
\<close>

theorem calculator_answers:
  assumes "calculator_handler J name = Some h"
    and "operands J args = Inr (a, b)" "a \<in> {DFin r, DNegZero}" "b \<in> {DFin q, DNegZero}"
  shows "(\<not> (name = ''divide'' \<and> double_is_zero b) \<longrightarrow>
      (\<exists>v. h args app = (Inr (text_result (double_to_string v) False), app) \<and>
         nearest_double (exact_value name (double_value a) (double_value b)) v \<and>
         (\<forall>w. v = DFin w \<longrightarrow> \<bar>read_fixed (double_to_string v) - w\<bar> \<le> 1 / 2000000))) \<and>
    (\<forall>i j n. a = DFin (of_int i) \<and> b = DFin (of_int j) \<and> exact_result name i j = Some n \<and> \<bar>n\<bar> \<le> 2 ^ 53 \<longrightarrow>
      h args app = (Inr (text_result (int_string n @ ''.000000'') False), app)) \<and>
    (name = ''divide'' \<and> double_is_zero b \<longrightarrow>
      h args app = (Inr (text_result ''division by zero'' True), app))"
proof (intro conjI impI allI)
  assume d: "\<not> (name = ''divide'' \<and> double_is_zero b)"
  let ?x = "exact_value name (double_value a) (double_value b)"
  have "\<exists>v. h args app = (Inr (text_result (double_to_string v) False), app) \<and> nearest_double ?x v"
    using calculator_reply_nearest [OF assms(1,3,4) d] calculator_runs [OF assms(1,2), of app] by auto
  then show "\<exists>v. h args app = (Inr (text_result (double_to_string v) False), app) \<and> nearest_double ?x v \<and>
      (\<forall>w. v = DFin w \<longrightarrow> \<bar>read_fixed (double_to_string v) - w\<bar> \<le> 1 / 2000000)"
    using double_to_string_close by metis
next
  fix i j n
  assume "a = DFin (of_int i) \<and> b = DFin (of_int j) \<and> exact_result name i j = Some n \<and> \<bar>n\<bar> \<le> 2 ^ 53"
  with assms(2) calculator_exact [OF assms(1)]
  show "h args app = (Inr (text_result (int_string n @ ''.000000'') False), app)" by blast
next
  assume "name = ''divide'' \<and> double_is_zero b"
  with assms show "h args app = (Inr (text_result ''division by zero'' True), app)"
    by (auto simp: calculator_handler_def divide_tool_def)
qed

text \<open>
  C21: The HTTP calculator from end to end: over a link to a host whose session runs the calculator, a client
  that calls one of the four tools on two numbers gets the tool's answer in the promise of its call, and link
  and server are ready for the next call. The answer is an error result for a divisor that is zero, and the
  text of a double otherwise: the one nearest to the exact result where both numbers are finite, and the
  integer itself where that is one of at most 53 bits.
\<close>

theorem calculator_over_http:
  fixes app :: 's and J :: "'j json_ops" and h :: "('j, 's) ToolHandler"
  assumes J: "json_lib J"
    and session: "cli_session cl = Some (t, s)" "ready cenv s"
    and server: "sv = (http_calculator_session J app)\<lparr>sv_initialized := True\<rparr>"
    and tool: "calculator_handler J name = Some h"
    and args: "\<not> j_is_null J args" "operands J args = Inr (a, b)"
    and res: "res = calculator_reply name a b"
    and frames: "carries_request J (se_next_id s) ''tools/call''
        (CallToolRequestParams_to_json J (call_params J name args None)) (CallToolRequestParams_from_json J)"
      "carries_response J (se_next_id s) (Result (CallToolResult_to_json J res)) (CallToolResult_from_json J)"
    and texts: "request_text J (se_next_id s) ''tools/call''
        (CallToolRequestParams_to_json J (call_params J name args None)) = Inr f" "exact_id J f"
      "response_text J (se_next_id s) (Result (CallToolResult_to_json J res)) = Inr g"
      "keeps_id J (response_for (se_next_id s) (Result (CallToolResult_to_json J res))) g"
    and link: "linked sid m l"
    and gate: "fst (post_gate ho (request_of (post_headers co (hl_client l)) f))"
  shows "(\<exists>l' s'. http_exchange J ho co broken fresh (call_tool J cenv name args)
      (server_handlers J senv tasks) l sv cl capp =
      (l', cl\<lparr>cli_session := Some (t, s')\<rparr>, sv, capp) \<and>
    settled_to (ce_future cenv) (Inr (R_call res)) s s' \<and> linked sid m l' \<and> advanced m f g l l') \<and>
    (name = ''divide'' \<and> double_is_zero b \<longrightarrow> res = text_result ''division by zero'' True) \<and>
    (\<forall>r q. a \<in> {DFin r, DNegZero} \<and> b \<in> {DFin q, DNegZero} \<and> \<not> (name = ''divide'' \<and> double_is_zero b) \<longrightarrow>
      (\<exists>v. res = text_result (double_to_string v) False \<and>
         nearest_double (exact_value name (double_value a) (double_value b)) v)) \<and>
    (\<forall>i j n. a = DFin (of_int i) \<and> b = DFin (of_int j) \<and> exact_result name i j = Some n \<and> \<bar>n\<bar> \<le> 2 ^ 53 \<longrightarrow>
      res = text_result (int_string n @ ''.000000'') False)"
proof (intro conjI allI impI)
  obtain entry where e: "map_of (sv_tools sv) name = Some entry" "toe_handler entry = Some h"
    "tool_execution (toe_descriptor entry) = None"
    using calculator_entry [OF _ tool, of "Server_init (calculator_info ''mcp-cpp-http-calculator''
        ''Streamable HTTP demo: arithmetic over MCP.'') app"]
    by (auto simp: server http_calculator_session_def Server_init_def)
  note run = calculator_runs [OF tool args(2), folded res]
  have wf: "CallToolResult_wf J res" by (simp add: res calculator_reply_def text_result_def CallToolResult_wf_def)
  from tool_call_exchanged [where r = "Inr res" and h = h, OF J session _ e(1,2) _ args(1) run _ _ _ frames texts link gate]
  obtain l' s' v where "http_exchange J ho co broken fresh (call_tool J cenv name args)
      (server_handlers J senv tasks) l sv cl capp =
      (l', cl\<lparr>cli_session := Some (t, s')\<rparr>, sv\<lparr>sv_app := sv_app sv\<rparr>, capp)"
    "settled_to (ce_future cenv) v s s'" "tool_promise (Inr res) v" "linked sid m l'" "advanced m f g l l'"
    using wf e(3) server by fastforce
  then show "\<exists>l' s'. http_exchange J ho co broken fresh (call_tool J cenv name args)
      (server_handlers J senv tasks) l sv cl capp = (l', cl\<lparr>cli_session := Some (t, s')\<rparr>, sv, capp) \<and>
    settled_to (ce_future cenv) (Inr (R_call res)) s s' \<and> linked sid m l' \<and> advanced m f g l l'"
    by (auto simp: tool_promise_def)
next
  show "res = text_result ''division by zero'' True" if "name = ''divide'' \<and> double_is_zero b"
    using that by (simp add: res calculator_reply_def)
next
  fix r q
  assume "a \<in> {DFin r, DNegZero} \<and> b \<in> {DFin q, DNegZero} \<and> \<not> (name = ''divide'' \<and> double_is_zero b)"
  then show "\<exists>v. res = text_result (double_to_string v) False \<and>
      nearest_double (exact_value name (double_value a) (double_value b)) v"
    using calculator_reply_nearest [OF tool] unfolding res by blast
next
  fix i j n
  assume "a = DFin (of_int i) \<and> b = DFin (of_int j) \<and> exact_result name i j = Some n \<and> \<bar>n\<bar> \<le> 2 ^ 53"
  with args(2) have "h args (sv_app sv) = (Inr (text_result (int_string n @ ''.000000'') False), sv_app sv)"
    by (intro calculator_exact [OF tool]) auto
  then show "res = text_result (int_string n @ ''.000000'') False"
    using calculator_runs [OF tool args(2), of "sv_app sv"] res by simp
qed

definition two_and_three :: jv where
  "two_and_three = VObject [(''a'', VUInt 2), (''b'', VUInt 3)]"

definition sum_text :: string where
  "sum_text = ''{\"jsonrpc\":\"2.0\",\"id\":1,\"method\":\"tools/call\",\"params\":'' @
     ''{\"name\":\"add\",\"arguments\":{\"a\":2,\"b\":3}}}''"

definition sum_answer :: string where
  "sum_answer = ''{\"jsonrpc\":\"2.0\",\"id\":1,\"result\":'' @
     ''{\"content\":[{\"type\":\"text\",\"text\":\"5.000000\"}],\"isError\":false}}''"

lemma sum_frames:
  "request_text jv_ops 1 ''tools/call''
     (CallToolRequestParams_to_json jv_ops (call_params jv_ops ''add'' two_and_three None)) = Inr sum_text \<and>
   response_text jv_ops 1 (Result (CallToolResult_to_json jv_ops (text_result ''5.000000'' False))) = Inr sum_answer \<and>
   carries_request jv_ops 1 ''tools/call''
     (CallToolRequestParams_to_json jv_ops (call_params jv_ops ''add'' two_and_three None))
     (CallToolRequestParams_from_json jv_ops) \<and>
   carries_response jv_ops 1 (Result (CallToolResult_to_json jv_ops (text_result ''5.000000'' False)))
     (CallToolResult_from_json jv_ops) \<and>
   exact_id jv_ops sum_text \<and> int_string 5 = ''5'' \<and> \<not> is_VNull two_and_three \<and>
   keeps_id jv_ops (response_for 1 (Result VNull)) sum_answer"
  unfolding keeps_id_iff by code_simp

lemma sum_answer_keeps_id: "keeps_id jv_ops (response_for 1 out) sum_answer"
  using sum_frames by (simp only: keeps_id_outcome [of _ _ out _ "Result VNull"])

lemma two_and_three_operands: "operands jv_ops two_and_three = Inr (DFin (of_int 2), DFin (of_int 3))"
  using double_of_int_exact [of 2] double_of_int_exact [of 3]
  by (simp add: operands_def two_and_three_def at_get_def get_dbl_def)

theorem calculator_answers_witness:
  "arith_tool jv_ops double_add two_and_three () = (Inr (text_result (int_string 5 @ ''.000000'') False), ())"
  using calculator_answers [where name = "''add''" and h = "arith_tool jv_ops double_add", OF _ two_and_three_operands,
      of "of_int 2" "of_int 3" "()"]
  by (simp add: calculator_handler_def exact_result_def)

lemma two_and_three_reply:
  "(calculator_reply ''add'' (DFin 2) (DFin 3) :: jv CallToolResult) = text_result ''5.000000'' False"
  using calculator_exact [of jv_ops "''add''" "arith_tool jv_ops double_add" 2 3 5 two_and_three "()"]
    calculator_runs [of jv_ops "''add''" "arith_tool jv_ops double_add" two_and_three _ _ "()"]
  by (simp add: calculator_handler_def exact_result_def two_and_three_operands sum_frames)

theorem calculator_over_http_witness:
  "\<exists>l' s'. http_exchange jv_ops HostOptions_init stack_opts [] []
      (call_tool jv_ops example_client_env ''add'' two_and_three)
      (server_handlers jv_ops example_env True) linked_stack
      ((http_calculator_session jv_ops ())\<lparr>sv_initialized := True\<rparr>) example_client () =
      (l', example_client\<lparr>cli_session := Some (HandlerTables_init, s')\<rparr>,
       (http_calculator_session jv_ops ())\<lparr>sv_initialized := True\<rparr>, ()) \<and>
    settled_to (ce_future example_client_env) (Inr (R_call (text_result ''5.000000'' False)))
      (session_start SessionState_init) s' \<and> linked ''5e'' 0 l' \<and> advanced 0 sum_text sum_answer linked_stack l'"
  by (rule conjunct1 [OF calculator_over_http [OF jv_json_lib _ _ refl _ _ two_and_three_operands,
        where h = "arith_tool jv_ops double_add"]])
    (simp_all add: calculator_handler_def two_and_three_reply sum_frames sum_answer_keeps_id stack_links stack_gate)

end
