(* ===== verification/Echo_Server.thy ===== *)
theory Echo_Server
  imports Calculator
begin

text \<open>
  The interoperability server of examples/http_echo_server/main.cpp: its arguments, the bearer validator that
  the environment variable \<open>MCP_TOKEN\<close> turns on, and its one tool. The HTTP host is that of \<open>Http_Host\<close>.

  Lemmas: with a token set, no request without it gets past the gates of the host.
\<close>

section \<open>The program\<close>

definition echo_validator :: "string \<Rightarrow> string \<Rightarrow> BearerOutcome" where
  "echo_validator expected presented =
     \<lparr>bo_status = (if presented = expected then Allow else Invalid_token), bo_required_scopes = []\<rparr>"

text \<open>The value of \<open>MCP_TOKEN\<close>, if it is set, and the arguments after the program's name.\<close>

definition echo_options :: "string option \<Rightarrow> string list \<Rightarrow> HostOptions option" where
  "echo_options token args =
     map_option (\<lambda>opts.
       case token of
         Some t \<Rightarrow> if t \<noteq> [] then opts\<lparr>op_bearer_validator := Some (echo_validator t)\<rparr> else opts
       | None \<Rightarrow> opts) (listen_options 8848 args)"

definition echo_schema :: "'j json_ops \<Rightarrow> 'j" where
  "echo_schema J = j_init J
     [(''type'', j_string J ''object''),
      (''properties'', j_init J
         [(''text'', j_init J [(''type'', j_string J ''string''), (''description'', j_string J ''text to echo back'')])]),
      (''required'', j_array J [j_string J ''text''])]"

text \<open>
  \<open>args.value("text", std::string{})\<close> throws on anything but an object; \<open>value_error\<close> is the library's
  message for it.
\<close>

definition echo_tool :: "'j json_ops \<Rightarrow> ('j \<Rightarrow> string) \<Rightarrow> ('j, 's) ToolHandler" where
  "echo_tool J value_error args app =
     (ebind (if \<not> j_is_object J args then Inl (JsonException (value_error args))
             else case j_find J args ''text'' of None \<Rightarrow> Inr [] | Some v \<Rightarrow> get_str J v) (\<lambda>t.
        Inr \<lparr>ctr_content = [BlockTextContent \<lparr>text_text = ''echo: '' @ t, text_annotations = None\<rparr>],
             ctr_structured_content = None, ctr_is_error = None, ctr_meta = None\<rparr>), app)"

definition echo_session :: "'j json_ops \<Rightarrow> ('j \<Rightarrow> string) \<Rightarrow> 's \<Rightarrow> ('j, 's) Server" where
  "echo_session J value_error app =
     add_tool ''echo'' (echo_schema J) (Some (echo_tool J value_error)) None None None None
       (Server_init \<lparr>impl_name = ''http-echo'', impl_title = None, impl_version = ''0.1.0'',
          impl_description = None, impl_website_url = None, impl_icons = None, impl_meta = None\<rparr> app)"

section \<open>The gates\<close>

lemma echo_optionsD:
  assumes "echo_options (Some token) args = Some opts" "token \<noteq> []"
  shows "op_bearer_validator opts = Some (echo_validator token)" "op_allowed_origins opts = []"
    "op_allow_insecure_http opts = False" "op_auth_realm opts = ''mcp''" "op_resource_metadata_url opts = []"
    "op_host opts = (if args = [] then ''127.0.0.1'' else hd args)"
  using assms by (auto simp: echo_options_def listen_options_def HostOptions_init_def hd_conv_nth Let_def
      split: if_splits)

definition presents_token :: "HttpRequest \<Rightarrow> string \<Rightarrow> bool" where
  "presents_token req token \<longleftrightarrow>
     (\<exists>hdr. hq_header req ''Authorization'' = [hdr] \<and> bearer_token hdr token)"

lemma echo_authorize:
  assumes "op_bearer_validator opts = Some (echo_validator token)"
  shows "fst (authorize req res opts) \<longleftrightarrow> token \<noteq> [] \<and> presents_token req token"
proof -
  have "fst (authorize req res opts) \<longleftrightarrow>
      (\<exists>hdr t. hq_header req ''Authorization'' = [hdr] \<and> bearer_token hdr t \<and>
         bo_status (echo_validator token t) = Allow)"
    using assms by (auto simp: authorize_def bearer_token_iff Let_def split: list.split BearerStatus.split)
  then show ?thesis by (auto simp: presents_token_def echo_validator_def bearer_token_iff split: if_splits)
qed

section \<open>Properties\<close>

text \<open>
  C22: With \<open>MCP_TOKEN\<close> set the echo server does nothing for a request that does not present exactly this token:
  a POST, a GET and a DELETE are refused with 400, 401 or 403, no session is made, entered or ended. A
  request that presents it and has no \<open>Origin\<close> and no protocol version header passes the gate.
\<close>

theorem echo_requires_token:
  assumes "echo_options (Some token) args = Some opts" "token \<noteq> []"
  shows "if presents_token req token
    then hq_header req ''Origin'' = [] \<and> hq_header req ''MCP-Protocol-Version'' = [] \<longrightarrow>
      post_gate opts req = (True, HttpResponse_init)
    else (\<exists>res. handle_post J opts fresh req h = (Replied res, h) \<and> hr_status res \<in> {Some 400, Some 401, Some 403}) \<and>
      (\<exists>res. handle_get opts req h = ((res, None), h) \<and> hr_status res \<in> {Some 400, Some 401, Some 403}) \<and>
      (\<exists>res. handle_delete opts req h = (res, h) \<and> hr_status res \<in> {Some 400, Some 401, Some 403})"
proof -
  note o = echo_optionsD [OF assms]
  note auth = echo_authorize [OF o(1), of req HttpResponse_init]
  obtain ok res where a: "authorize req HttpResponse_init opts = (ok, res)" by fastforce
  show ?thesis
  proof (cases "presents_token req token")
    case True
    then have "fst (post_gate opts req)" if "hq_header req ''Origin'' = []" "hq_header req ''MCP-Protocol-Version'' = []"
      using that auth assms(2) by (simp add: post_gate_def origin_allowed_def find_header_def)
    then show ?thesis using True gate_passes [of opts req] by (metis prod.collapse)
  next
    case False
    then have refused: "authorize req HttpResponse_init opts = (False, res)" using auth a by simp
    then have st: "hr_status res \<in> {Some 400, Some 401, Some 403}"
      using authorize_refuses [OF refused]
      by (auto simp: challenged_def challenge_def set_status_def set_content_def set_header_def)
    have p: "\<not> fst (post_gate opts req)"
      using refused by (auto simp: post_gate_def split: option.split)
    obtain pres where pg: "post_gate opts req = (False, pres)" using p by (cases "post_gate opts req") auto
    have "plain 403 msg HttpResponse_init \<in> {r. hr_status r = Some 403}" for msg
      by (simp add: plain_def set_status_def set_content_def)
    then show ?thesis
      using False refused st pg gate_statuses [OF pg]
      by (simp add: handle_post_def handle_get_def handle_delete_def)
  qed
qed

text \<open>
  A token on an address that is not a loopback one: \<open>start\<close> throws, and nothing in \<open>main\<close> catches.
\<close>

theorem echo_token_needs_loopback:
  assumes "echo_options (Some token) (host # args) = Some opts" "token \<noteq> []" "\<not> is_loopback host"
    and "op_path opts \<noteq> []" "hd (op_path opts) = CHR ''/''"
  shows "start_check opts = Some Insecure_bearer"
proof -
  have "valid_quoted_param ''mcp''" "valid_quoted_param []" by code_simp+
  then show ?thesis using echo_optionsD [OF assms(1,2)] assms(3-) by (simp add: start_check_def)
qed

definition token_req :: HttpRequest where
  "token_req = \<lparr>hq_header = (\<lambda>n. if n = ''Authorization'' then [''Bearer no''] else []), hq_body = []\<rparr>"

theorem echo_requires_token_witness:
  "\<exists>opts. echo_options (Some ''secret'') [''127.0.0.1''] = Some opts \<and>
    (\<exists>res. handle_delete opts token_req HostState_init = (res, HostState_init) \<and>
       hr_status res \<in> {Some 400, Some 401, Some 403})"
proof -
  have "trim_ows (drop 7 ''Bearer no'') \<noteq> ''secret''" by code_simp
  then have "\<not> presents_token token_req ''secret''"
    by (simp add: presents_token_def token_req_def bearer_token_iff del: drop_Suc_Cons)
  moreover obtain opts where o: "echo_options (Some ''secret'') [''127.0.0.1''] = Some opts"
    by (simp add: echo_options_def listen_options_def)
  ultimately show ?thesis
    using echo_requires_token [OF o, of token_req jv_ops "[]" HostState_init] by simp
qed

theorem echo_token_needs_loopback_witness:
  "\<exists>opts. echo_options (Some ''secret'') [''0.0.0.0''] = Some opts \<and> start_check opts = Some Insecure_bearer"
proof -
  obtain opts where o: "echo_options (Some ''secret'') [''0.0.0.0''] = Some opts" "op_path opts = ''/mcp''"
    by (simp add: echo_options_def listen_options_def)
  have "\<not> is_loopback ''0.0.0.0''" by code_simp
  with echo_token_needs_loopback [OF o(1)] o show ?thesis by simp
qed

end
