(* ===== verification/Simple_Client.thy ===== *)
theory Simple_Client
  imports Calculator Server_Laws
begin

text \<open>
  The client program of examples/simple_client/main.cpp: the conversation that it has over the client API and
  what it prints. The results of the three futures are arguments of the program; they come from the
  handlers of the server through the client's converters. Spawning the server is left to
  \<open>Stdio_Descriptors\<close>.

  Lemmas: the transcript of the program against the calculator.
\<close>

section \<open>The program\<close>

text \<open>
  How \<open>main\<close> ends: it returns, an exception of a future leaves it, or it reads the first element of an
  empty vector.
\<close>

datatype 'j program_end = Returns int | Leaves "'j exc" | Undefined_access

definition newline :: string where
  "newline = [CHR 0x0A]"

definition em_dash :: string where
  "em_dash = [CHR 0xE2, CHR 0x80, CHR 0x94]"

definition tool_line :: "'j Tool \<Rightarrow> string" where
  "tool_line t = ''  - '' @ tool_name t @
     (case tool_description t of Some d \<Rightarrow> '' '' @ em_dash @ '' '' @ d | None \<Rightarrow> []) @ newline"

definition call_args :: "'j json_ops \<Rightarrow> 'j" where
  "call_args J = j_init J [(''a'', j_int J 2), (''b'', j_int J 3)]"

definition greeting :: "'j InitializeResult \<Rightarrow> string" where
  "greeting info = ''connected to '' @ impl_name (initres_server_info info) @ '' '' @
     impl_version (initres_server_info info) @ newline @
     (case initres_instructions info of Some i \<Rightarrow> ''instructions: '' @ i @ newline | None \<Rightarrow> [])"

text \<open>\<open>call\<close> is \<open>client.call_tool\<close> with \<open>get\<close> on its future.\<close>

definition simple_client ::
    "'j json_ops \<Rightarrow> 'j exc + 'j InitializeResult \<Rightarrow> 'j exc + 'j Tool list \<Rightarrow>
     (string \<Rightarrow> 'j \<Rightarrow> 'j exc + 'j CallToolResult) \<Rightarrow> string \<times> 'j program_end" where
  "simple_client J info tools call =
     (case info of
        Inl e \<Rightarrow> ([], Leaves e)
      | Inr info \<Rightarrow>
          (case tools of
             Inl e \<Rightarrow> (greeting info, Leaves e)
           | Inr [] \<Rightarrow> (greeting info @ newline @ ''available tools:'' @ newline, Returns 0)
           | Inr (t # ts) \<Rightarrow>
               (let out = greeting info @ newline @ ''available tools:'' @ newline @
                      concat (map tool_line (t # ts)) @
                      newline @ ''calling '' @ tool_name t @ ''(a=2, b=3)...'' @ newline
                in case call (tool_name t) (call_args J) of
                     Inl e \<Rightarrow> (out, Leaves e)
                   | Inr r \<Rightarrow>
                       (case ctr_content r of
                          [] \<Rightarrow> (out, Undefined_access)
                        | BlockTextContent c # _ \<Rightarrow> (out @ ''  -> '' @ text_text c @ newline, Returns 0)
                        | _ \<Rightarrow> (out, Returns 0)))))"

section \<open>Against a server\<close>

text \<open>What a call of the client gets from a handler of the server.\<close>

definition asked ::
    "'j json_ops \<Rightarrow> ('j \<Rightarrow> 'j exc + 'a) \<Rightarrow> ('j exc + 'j) \<times> 'p \<Rightarrow> 'j exc + 'a" where
  "asked J convert r = ebind (outcome_of J (fst r)) (promised convert)"

definition simple_client_with ::
    "'j json_ops \<Rightarrow> 'j ServerEnv \<Rightarrow> ('j, 'c) Client \<Rightarrow> ('j, 's) Server \<Rightarrow> string \<times> 'j program_end" where
  "simple_client_with J senv cl sv =
     (let first = handle_initialize J (initialize_payload J cl) sv;
          sv1 = snd first
      in simple_client J (asked J (InitializeResult_from_json J) first) (emap fst (fetch_tools J sv1 None))
           (\<lambda>name args. asked J (CallToolResult_from_json J)
              (handle_call_tool J senv (CallToolRequestParams_to_json J (call_params J name args None)) sv1)))"

text \<open>What the tools of the calculator give for 2 and 3.\<close>

definition two_three :: "string \<Rightarrow> string" where
  "two_three name =
     (if name = ''add'' then ''5.000000'' else if name = ''subtract'' then ''-1.000000''
      else if name = ''multiply'' then ''6.000000'' else ''0.666667'')"

lemma quotient_text: "double_to_string (double_div (DFin 2) (DFin 3)) = ''0.666667''"
proof -
  have "log2_floor (2 / 3) = - 1" by (rule log2_floor_unique) simp_all
  then have e: "ulp_exp (2 / 3) = - 53" by (simp add: ulp_exp_def)
  have "nearest_even (18014398509481984 / 3) = 6004799503160661" by (rule nearest_even_unique) simp
  then have v: "round_mag (2 / 3) = 6004799503160661 / 9007199254740992"
    by (simp add: round_mag_def e power_int_minus)
  have "(6004799503160661 / 9007199254740992 :: rat) < double_limit" using double_limit(1) by simp
  then have d: "double_div (DFin 2) (DFin 3) = DFin (6004799503160661 / 9007199254740992)"
    by (simp add: double_div_def double_is_zero_def round_double_def v)
  have "nearest_even (6004799503160661 / 9007199254740992 * 1000000) = 666667" by (rule nearest_even_unique) simp
  moreover have "digit_char 0 = CHR ''0''" "digit_char 6 = CHR ''6''" "digit_char 7 = CHR ''7''" by code_simp+
  then have "dec_string 0 = ''0''" "zero_pad 6 666667 = ''666667''" by (simp_all add: zero_pad_def dec_string.simps)
  ultimately show ?thesis unfolding d by (simp add: fixed6_def)
qed

lemma two_three_answer:
  assumes "calculator_handler J name = Some h" "operands J args = Inr (DFin 2, DFin 3)"
  shows "h args app = (Inr (text_result (two_three name) False), app)"
proof -
  have texts: "int_string 5 = ''5'' \<and> int_string (- 1) = ''-1'' \<and> int_string 6 = ''6''" by code_simp
  have exact: "h args app = (Inr (text_result (int_string n @ ''.000000'') False), app)"
    if "exact_result name 2 3 = Some n" "\<bar>n\<bar> \<le> 2 ^ 53" for n
    using calculator_exact [OF assms(1) that] assms(2) by simp
  consider "name = ''add''" | "name = ''subtract''" | "name = ''multiply''" | "name = ''divide''"
    using assms(1) by (auto simp: calculator_handler_def split: if_splits)
  then show ?thesis
  proof cases
    case 4
    then show ?thesis
      using assms quotient_text
      by (auto simp: calculator_handler_def divide_tool_def double_is_zero_def two_three_def
          simp del: double_to_string.simps)
  qed (use exact [of 5] exact [of "- 1"] exact [of 6] texts in \<open>simp_all add: exact_result_def two_three_def\<close>)
qed

text \<open>Every entry that the calculator registers.\<close>

lemma update_new: "k \<notin> fst ` set kvs \<Longrightarrow> AList.update k v kvs = kvs @ [(k, v)]"
  by (induction kvs) auto

definition calculator_item ::
    "'j json_ops \<Rightarrow> string \<Rightarrow> ('j, 's) ToolHandler \<Rightarrow> string \<Rightarrow> string \<Rightarrow> string \<times> ('j, 's) ToolEntry" where
  "calculator_item J name h title description =
     (name, \<lparr>toe_descriptor = \<lparr>tool_name = name, tool_title = Some title, tool_description = Some description,
        tool_input_schema = arith_schema J, tool_output_schema = None, tool_annotations = None,
        tool_icons = None, tool_execution = None, tool_meta = None\<rparr>, toe_handler = Some h\<rparr>)"

lemma calculator_tool_new:
  "name \<notin> fst ` set (sv_tools sv) \<Longrightarrow>
     sv_tools (calculator_tool J name h title description sv) =
       sv_tools sv @ [calculator_item J name h title description]"
  by (simp add: calculator_tool_def add_tool_def calculator_item_def update_new)

lemma calculator_list:
  "sv_tools (calculator_server J app) =
     [calculator_item J ''add'' (arith_tool J double_add) ''Add'' ''Returns a + b.'',
      calculator_item J ''subtract'' (arith_tool J double_sub) ''Subtract'' ''Returns a - b.'',
      calculator_item J ''multiply'' (arith_tool J double_mul) ''Multiply'' ''Returns a * b.'',
      calculator_item J ''divide'' (divide_tool J) ''Divide''
        ''Returns a / b. Reports an error result on b == 0.'']"
proof -
  have new: "fst (calculator_item J name h title description) = name" for name h title description
    by (simp add: calculator_item_def)
  show ?thesis
    by (simp add: calculator_server_def calculator_tools_def Let_def calculator_tool_new new set_instructions_def
        Server_init_def)
qed

lemma calculator_entries:
  assumes "(name, entry) \<in> set (sv_tools (calculator_server J app))"
  shows "calculator_handler J name = toe_handler entry" "toe_handler entry \<noteq> None"
    "tool_name (toe_descriptor entry) = name" "tool_execution (toe_descriptor entry) = None"
    "Tool_wf J (toe_descriptor entry)"
proof -
  have "list_all (\<lambda>(name, entry). calculator_handler J name = toe_handler entry \<and> toe_handler entry \<noteq> None \<and>
      tool_name (toe_descriptor entry) = name \<and> tool_execution (toe_descriptor entry) = None \<and>
      Tool_wf J (toe_descriptor entry)) (sv_tools (calculator_server J app))"
    by (simp add: calculator_list calculator_item_def calculator_handler_def Tool_wf_def)
  with assms show "calculator_handler J name = toe_handler entry" "toe_handler entry \<noteq> None"
    "tool_name (toe_descriptor entry) = name" "tool_execution (toe_descriptor entry) = None"
    "Tool_wf J (toe_descriptor entry)"
    by (auto simp: list_all_iff)
qed

lemma calculator_keys: "map fst (sv_tools (calculator_server J app)) = [''add'', ''subtract'', ''multiply'', ''divide'']"
  by (simp add: calculator_list calculator_item_def)

lemma list_page_all: "length items = 4 \<Longrightarrow> list_page J items None 0 = Inr (items, None)"
  by (simp add: list_page_def decode_cursor_def paginate_def)

context json_lib
begin

lemma text_result_rt: "CallToolResult_from_json J (CallToolResult_to_json J (text_result s e)) = Inr (text_result s e)"
  by (rule CallToolResult.dec_enc) (simp add: text_result_def CallToolResult_wf_def)

end

section \<open>Properties\<close>

definition calculator_transcript :: "(string \<times> ('j, 's) ToolEntry) list \<Rightarrow> string" where
  "calculator_transcript tools =
     ''connected to mcp-cpp-calculator 0.1.0'' @ newline @
     ''instructions: This server offers four arithmetic tools (add, subtract, '' @
     ''multiply, divide). Each takes two numbers `a` and `b`.'' @ newline @
     newline @ ''available tools:'' @ newline @ concat (map (\<lambda>(name, e). tool_line (toe_descriptor e)) tools) @
     newline @ ''calling '' @ fst (hd tools) @ ''(a=2, b=3)...'' @ newline @
     ''  -> '' @ two_three (fst (hd tools)) @ newline"

text \<open>
  The client program against the calculator, in whatever order the server's hash map lists the tools: it
  prints the server's name, version and instructions, a line for each of the four tools, calls the first
  one on 2 and 3, prints the right result, and returns 0.
\<close>

theorem simple_client_transcript:
  fixes sv :: "('j, 's) Server" and J :: "'j json_ops"
  assumes J: "json_lib J"
    and client: "Implementation_wf J (cli_client_info cl)"
      "pred_option (ClientCapabilities_wf J) (cli_capabilities_override cl)"
    and server: "sv = (calculator_server J app)\<lparr>sv_tools := tools\<rparr>"
      "mset tools = mset (sv_tools (calculator_server J app))"
    and numbers: "\<not> j_is_null J (call_args J)" "operands J (call_args J) = Inr (DFin 2, DFin 3)"
  shows "simple_client_with J senv cl sv = (calculator_transcript tools, Returns 0)"
proof -
  have fields: "\<not> sv_initialized sv" "sv_page_size sv = 0" "sv_tools sv = tools"
    "sv_server_info sv = calculator_info ''mcp-cpp-calculator'' ''Tiny demo: arithmetic over MCP.''"
    "sv_instructions sv = Some (''This server offers four arithmetic tools (add, subtract, '' @
      ''multiply, divide). Each takes two numbers `a` and `b`.'')"
    by (simp_all add: server(1) calculator_server_def calculator_tools_def calculator_tool_def add_tool_def
        set_instructions_def Server_init_def Let_def)
  have entries: "set tools = set (sv_tools (calculator_server J app))" using server(2) by (rule mset_eq_setD)
  have keys: "distinct (map fst tools)"
  proof -
    have "mset (map fst tools) = mset (map fst (sv_tools (calculator_server J app)))"
      using server(2) by simp
    from mset_eq_imp_distinct_iff [OF this] show ?thesis by (simp add: calculator_keys)
  qed
  have four: "length tools = 4"
    using arg_cong [OF server(2), of size] by (simp add: calculator_list)
  obtain name entry rest where tools: "tools = (name, entry) # rest"
    using server(2) calculator_keys [of J app] by (cases tools) auto
  then have "(name, entry) \<in> set (sv_tools (calculator_server J app))" using entries by auto
  note e = calculator_entries [OF this]
  obtain h where h: "toe_handler entry = Some h" using e(2) by auto
  let ?sv = "sv\<lparr>sv_initialized := True, sv_client_capabilities := Some (merged_capabilities J cl)\<rparr>"
  have first: "handle_initialize J (initialize_payload J cl) sv = (Inr (InitializeResult_to_json J (negotiated J sv)), ?sv)"
    by (rule json_lib.initialize_handled [OF J fields(1) client refl])
  have "Implementation_wf J (sv_server_info sv)"
    by (simp add: fields(4) calculator_info_def Implementation_wf_def)
  then have info: "asked J (InitializeResult_from_json J)
      (Inr (InitializeResult_to_json J (negotiated J sv)) :: 'j exc + 'j, ?sv) = Inr (negotiated J sv)"
    using json_lib.initialize_result_rt [OF J] by (simp add: asked_def promised_def negotiated_def)
  have "list_all (Tool_wf J) (tool_descriptors ?sv)"
    using calculator_entries(5) by (fastforce simp: tool_descriptors_def list_all_iff fields(3) entries)
  from json_lib.fetch_tools_page [OF J _ this, of None]
  have listed: "fetch_tools J ?sv None = Inr (map (\<lambda>(name, e). toe_descriptor e) tools, None)"
    using list_page_all [of "map (\<lambda>(name, e). toe_descriptor e) tools" J] four
    by (simp add: fields(2,3) tool_descriptors_def)
  have "map_of (sv_tools ?sv) name = Some entry" using tools by (simp add: fields(3))
  moreover have "h (if j_is_null J (call_args J) then j_object J else call_args J) (sv_app ?sv) =
      (Inr (text_result (two_three name) False), sv_app ?sv)"
    using two_three_answer [OF e(1) [unfolded h] numbers(2)] numbers(1) by simp
  ultimately have "handle_call_tool J senv (CallToolRequestParams_to_json J (call_params J name (call_args J) None)) ?sv =
      (Inr (CallToolResult_to_json J (text_result (two_three name) False)), ?sv)"
    using json_lib.tool_handled [OF J, of ?sv name entry h] h e(4) by fastforce
  moreover have "CallToolResult_from_json J (CallToolResult_to_json J (text_result (two_three name) False)) =
      Inr (text_result (two_three name) False)"
    by (rule json_lib.text_result_rt [OF J])
  ultimately have called: "asked J (CallToolResult_from_json J)
      (handle_call_tool J senv (CallToolRequestParams_to_json J (call_params J name (call_args J) None)) ?sv) =
      Inr (text_result (two_three name) False)"
    by (simp add: asked_def promised_def)
  have greet: "greeting (negotiated J sv) = ''connected to mcp-cpp-calculator 0.1.0'' @ newline @
      ''instructions: This server offers four arithmetic tools (add, subtract, '' @
      ''multiply, divide). Each takes two numbers `a` and `b`.'' @ newline"
    by (simp add: greeting_def negotiated_def fields(4,5) calculator_info_def)
  have "simple_client_with J senv cl sv = simple_client J (Inr (negotiated J sv))
      (Inr (map (\<lambda>(name, e). toe_descriptor e) tools))
      (\<lambda>name args. asked J (CallToolResult_from_json J)
        (handle_call_tool J senv (CallToolRequestParams_to_json J (call_params J name args None)) ?sv))"
    by (simp only: simple_client_with_def Let_def first snd_conv info listed emap.simps fst_conv)
  also have "\<dots> = (calculator_transcript tools, Returns 0)"
    using e(3) called
    by (simp add: simple_client_def tools greet calculator_transcript_def text_result_def comp_def case_prod_unfold)
  finally show ?thesis .
qed

text \<open>The server may list \<open>divide\<close> first.\<close>

theorem simple_client_transcript_witness:
  "simple_client_with jv_ops example_env example_client ((calculator_server jv_ops ())\<lparr>sv_tools :=
      rev (sv_tools (calculator_server jv_ops ()))\<rparr>) =
   (calculator_transcript (rev (sv_tools (calculator_server jv_ops ()))), Returns 0)"
  by (rule simple_client_transcript [OF jv_json_lib _ _ refl])
    (simp_all add: Implementation_wf_def example_info_def call_args_def operands_def at_get_def get_dbl_def
       double_of_int_exact [of 2, simplified] double_of_int_exact [of 3, simplified])

text \<open>
  A result without content is well-formed, and then the program reads past the end of the vector.
\<close>

theorem simple_client_empty_content:
  assumes "call (tool_name t) (call_args J) = Inr r" "ctr_content r = []"
  shows "snd (simple_client J (Inr info) (Inr (t # ts)) call) = Undefined_access"
  using assms by (simp add: simple_client_def Let_def)

end
