(* ===== verification/Stdio_Descriptors.thy ===== *)
theory Stdio_Descriptors
  imports Stdio_Transport
begin

text \<open>
  The file descriptors of the stdio transport (src/stdio_transport.cpp): its wake-up pipe, the flags it sets,
  and what \<open>start\<close>, \<open>close\<close> and the destructor open and close; and the pipes to a server process that
  examples/simple_client/main.cpp spawns. The open descriptors of the process are a map to their flags;
  the results of \<open>pipe\<close>, \<open>fcntl\<close>, \<open>close\<close> and \<open>posix_spawn\<close> are arguments, and so is what other threads open in
  the meantime, between two attempts to close a descriptor too.

  Lemmas: what a loop of \<open>close\<close> calls leaves open, interrupted or not; between calls the transport holds its
  wake-up pipe exactly while it runs and has a read thread, so that nothing leaks and nothing of others is closed;
  the same of the pipes of a spawned server.
\<close>

section \<open>Descriptors\<close>

record FdFlags =
  ff_nonblock :: bool
  ff_cloexec :: bool

type_synonym fds = "int \<rightharpoonup> FdFlags"

definition plain_fd :: FdFlags where
  "plain_fd = \<lparr>ff_nonblock = False, ff_cloexec = False\<rparr>"

definition open_pipe :: "int \<Rightarrow> int \<Rightarrow> fds \<Rightarrow> fds" where
  "open_pipe a b fds = fds(a \<mapsto> plain_fd, b \<mapsto> plain_fd)"

text \<open>\<open>fcntl\<close>, four calls, each of which may fail.\<close>

definition make_nonblocking :: "bool \<times> bool \<times> bool \<times> bool \<Rightarrow> int \<Rightarrow> fds \<Rightarrow> bool \<times> fds" where
  "make_nonblocking oks fd fds =
     (case oks of (getfl, setfl, getfd, setfd) \<Rightarrow>
        if \<not> getfl \<or> \<not> setfl then (False, fds)
        else
          let fl = (case fds fd of Some fl \<Rightarrow> fl | None \<Rightarrow> plain_fd);
              fds = fds(fd \<mapsto> fl\<lparr>ff_nonblock := True\<rparr>)
          in if \<not> getfd \<or> \<not> setfd then (False, fds)
             else (True, fds(fd \<mapsto> fl\<lparr>ff_nonblock := True, ff_cloexec := True\<rparr>)))"

text \<open>
  The result of a call of \<open>::close\<close>. After \<open>EINTR\<close> the descriptor is closed or not, POSIX leaves it open; Linux has
  closed it. The same goes for any other error but \<open>EBADF\<close>.
\<close>

datatype close_result = Close_ok | Close_eintr bool | Close_errno bool

fun releases :: "close_result \<Rightarrow> bool" where
  "releases Close_ok = True"
| "releases (Close_eintr released) = released"
| "releases (Close_errno released) = released"

definition os_close :: "int \<Rightarrow> close_result \<Rightarrow> fds \<Rightarrow> fds" where
  "os_close fd r fds = (if releases r then fds(fd := None) else fds)"

text \<open>The calls of a loop, each with what other threads of the process have opened since the one before.\<close>

type_synonym closing = "(fds \<times> close_result) list"

fun close_loop :: "int \<Rightarrow> closing \<Rightarrow> fds \<Rightarrow> fds" where
  "close_loop fd [] fds = fds"
| "close_loop fd ((opened, r) # calls) fds =
     (let fds = os_close fd r (fds ++ opened)
      in case r of Close_eintr _ \<Rightarrow> close_loop fd calls fds | _ \<Rightarrow> fds)"

definition quiet_close :: "closing \<Rightarrow> int \<Rightarrow> fds \<Rightarrow> fds" where
  "quiet_close calls fd fds = (if fd < 0 then fds else close_loop fd calls fds)"

text \<open>What others have opened during a loop, and in it.\<close>

fun opened_by :: "closing \<Rightarrow> fds" where
  "opened_by [] = Map.empty"
| "opened_by ((opened, r) # calls) = opened ++ opened_by calls"

text \<open>
  The calls that a loop makes under a system that gives out free numbers: it goes on exactly while it is
  interrupted, and ends when the descriptor is closed. Others open no number that is in use, nor, and this is up to
  them, the number that the loop is about to close once more.
\<close>

fun loop_calls :: "int \<Rightarrow> closing \<Rightarrow> fds \<Rightarrow> bool" where
  "loop_calls fd [] fds = False"
| "loop_calls fd ((opened, r) # calls) fds =
     (dom opened \<inter> dom fds = {} \<and> fd \<notin> dom opened \<and>
      (case r of
         Close_eintr _ \<Rightarrow> loop_calls fd calls (os_close fd r (fds ++ opened))
       | _ \<Rightarrow> calls = [] \<and> (releases r \<or> fds fd = None)))"

definition closing_ok :: "int \<Rightarrow> closing \<Rightarrow> fds \<Rightarrow> bool" where
  "closing_ok fd calls fds \<longleftrightarrow> (if fd < 0 then calls = [] else loop_calls fd calls fds)"

definition closing2_ok :: "int \<Rightarrow> int \<Rightarrow> closing \<times> closing \<Rightarrow> fds \<Rightarrow> bool" where
  "closing2_ok a b cls fds \<longleftrightarrow> closing_ok a (fst cls) fds \<and> closing_ok b (snd cls) (quiet_close (fst cls) a fds)"

definition opened2 :: "closing \<times> closing \<Rightarrow> fds" where
  "opened2 cls = opened_by (fst cls) ++ opened_by (snd cls)"

text \<open>Such a loop closes its descriptor and nothing else.\<close>

lemma close_loop_closes:
  "loop_calls fd calls fds \<Longrightarrow> close_loop fd calls fds = (fds ++ opened_by calls)(fd := None) \<and>
     dom (opened_by calls) \<inter> dom fds = {} \<and> fd \<notin> dom (opened_by calls)"
proof (induction fd calls fds rule: loop_calls.induct)
  case (2 fd opened r calls fds)
  then have o: "dom opened \<inter> dom fds = {}" "fd \<notin> dom opened" by simp_all
  show ?case
  proof (cases r)
    case (Close_eintr released)
    have "loop_calls fd calls (os_close fd r (fds ++ opened))" using 2(2) by (simp add: Close_eintr)
    with 2(1) [OF Close_eintr] have IH: "close_loop fd calls (os_close fd r (fds ++ opened)) =
        (os_close fd r (fds ++ opened) ++ opened_by calls)(fd := None)"
      "dom (opened_by calls) \<inter> dom (os_close fd r (fds ++ opened)) = {}" "fd \<notin> dom (opened_by calls)"
      by blast+
    have "(os_close fd r (fds ++ opened) ++ opened_by calls)(fd := None) = (fds ++ (opened ++ opened_by calls))(fd := None)"
      by (auto simp: os_close_def map_add_def fun_eq_iff split: option.split)
    moreover have "dom (opened_by calls) \<inter> dom fds = {}"
      using IH(2,3) by (auto simp: os_close_def split: if_splits)
    ultimately show ?thesis using IH o by (auto simp: Close_eintr Let_def)
  qed (use 2 o in \<open>auto simp: os_close_def Let_def map_add_def dom_def fun_eq_iff split: option.split\<close>)
qed simp

definition fd_closed :: "int \<Rightarrow> closing \<Rightarrow> fds \<Rightarrow> fds" where
  "fd_closed fd calls fds = (if fd < 0 then fds else (fds ++ opened_by calls)(fd := None))"

lemma quiet_close_closes:
  "closing_ok fd calls fds \<Longrightarrow> quiet_close calls fd fds = fd_closed fd calls fds \<and>
     dom (opened_by calls) \<inter> dom fds = {} \<and> fd \<notin> dom (opened_by calls)"
  using close_loop_closes [of fd calls fds]
  by (auto simp: closing_ok_def quiet_close_def fd_closed_def split: if_splits)

lemma close_pipe:
  assumes "closing2_ok a b cls fds" "fds = outside(a \<mapsto> x, b \<mapsto> y)"
    and "0 \<le> a" "0 \<le> b" "a \<noteq> b" "outside a = None" "outside b = None"
  shows "quiet_close (snd cls) b (quiet_close (fst cls) a fds) = outside ++ opened2 cls \<and>
    dom (opened2 cls) \<inter> dom outside = {}"
proof -
  let ?p = "opened_by (fst cls)" and ?q = "opened_by (snd cls)"
  have a: "quiet_close (fst cls) a fds = (fds ++ ?p)(a := None)" "dom ?p \<inter> dom fds = {}"
    using quiet_close_closes [of a "fst cls" fds] assms(1,3) by (auto simp: closing2_ok_def fd_closed_def)
  have b: "quiet_close (snd cls) b ((fds ++ ?p)(a := None)) = (((fds ++ ?p)(a := None)) ++ ?q)(b := None)"
    "dom ?q \<inter> dom ((fds ++ ?p)(a := None)) = {}" "b \<notin> dom ?q"
    using quiet_close_closes [of b "snd cls" "quiet_close (fst cls) a fds"] assms(1,4)
    by (auto simp: closing2_ok_def fd_closed_def a)
  have pab: "?p a = None" "?p b = None" "?q b = None" using a(2) b(3) assms(2) by auto
  have "(((fds ++ ?p)(a := None)) ++ ?q)(b := None) = outside ++ (?p ++ ?q)"
    using assms(2,5-7) pab by (auto simp: fun_eq_iff map_add_def split: option.split)
  moreover have "?p i = None \<and> ?q i = None" if "outside i \<noteq> None" for i
  proof -
    have "i \<noteq> a" "i \<in> dom fds" using that assms(2,6) by auto
    moreover from this have "i \<in> dom ((fds ++ ?p)(a := None))" by auto
    ultimately show ?thesis using a(2) b(2) by blast
  qed
  then have "dom (?p ++ ?q) \<inter> dom outside = {}" by (auto simp: map_add_Some_iff)
  ultimately show ?thesis by (simp add: a(1) b(1) opened2_def)
qed

text \<open>
  What \<open>loop_calls\<close> asks of the other threads is needed: a retry after an interrupted call that has closed the
  descriptor closes whatever another thread has got under the same number in between.
\<close>

theorem quiet_close_stranger:
  assumes "0 \<le> fd" "fds fd = Some fl"
  shows "quiet_close [(Map.empty, Close_eintr True), ([fd \<mapsto> stranger], Close_ok)] fd fds = fds(fd := None)"
    and "os_close fd (Close_eintr True) fds ++ [fd \<mapsto> stranger] = fds(fd \<mapsto> stranger)"
  using assms by (auto simp: quiet_close_def os_close_def map_add_def)

section \<open>The transport\<close>

record StdioHandle =
  sh_read_fd :: int
  sh_write_fd :: int
  sh_owns_fds :: bool
  sh_wakeup_read_fd :: int
  sh_wakeup_write_fd :: int
  sh_flags :: StdioTransport
  sh_joinable :: bool

definition StdioHandle_new :: "int \<Rightarrow> int \<Rightarrow> bool \<Rightarrow> StdioHandle" where
  "StdioHandle_new r w owns = \<lparr>sh_read_fd = r, sh_write_fd = w, sh_owns_fds = owns,
     sh_wakeup_read_fd = - 1, sh_wakeup_write_fd = - 1, sh_flags = StdioTransport_init, sh_joinable = False\<rparr>"

text \<open>The flags of both ends.\<close>

definition pipe_flags ::
    "bool \<times> bool \<times> bool \<times> bool \<Rightarrow> bool \<times> bool \<times> bool \<times> bool \<Rightarrow> int \<Rightarrow> int \<Rightarrow> fds \<Rightarrow> bool \<times> fds" where
  "pipe_flags oks1 oks2 r w fds =
     (let (ok1, fds) = make_nonblocking oks1 r fds
      in if ok1 then make_nonblocking oks2 w fds else (False, fds))"

text \<open>
  \<open>start\<close>: \<open>pipe\<close> fails or gives two descriptors, \<open>oks1\<close> and \<open>oks2\<close> are the results of the \<open>fcntl\<close> calls on either,
  \<open>cls\<close> the calls that close both when one of those fails. Assigning a new thread to \<open>read_thread_\<close> while it is
  joinable terminates the process: \<open>None\<close>.
\<close>

definition handle_start ::
    "(int \<times> int) option \<Rightarrow> bool \<times> bool \<times> bool \<times> bool \<Rightarrow> bool \<times> bool \<times> bool \<times> bool \<Rightarrow> int \<Rightarrow> closing \<times> closing \<Rightarrow>
     StdioHandle \<times> fds \<Rightarrow> (callback list \<times> StdioHandle \<times> fds) option" where
  "handle_start pipe oks1 oks2 errno cls hs =
     (case hs of (h, fds) \<Rightarrow>
        if sio_running (sh_flags h) then Some ([], h, fds)
        else
          case pipe of
            None \<Rightarrow>
              (let (cbs, fl) = stdio_start (PipeErrno errno) (sh_flags h) in Some (cbs, h\<lparr>sh_flags := fl\<rparr>, fds))
          | Some (r, w) \<Rightarrow>
              (let (ok, fds) = pipe_flags oks1 oks2 r w (open_pipe r w fds)
               in if \<not> ok then
                    (let fds = quiet_close (fst cls) r fds;
                         fds = quiet_close (snd cls) w fds;
                         (cbs, fl) = stdio_start (PipeErrno errno) (sh_flags h)
                     in Some (cbs, h\<lparr>sh_flags := fl\<rparr>, fds))
                  else
                    (let (cbs, fl) = stdio_start PipeOk (sh_flags h);
                         h = h\<lparr>sh_flags := fl, sh_wakeup_read_fd := r, sh_wakeup_write_fd := w\<rparr>
                     in if sh_joinable h then None else Some (cbs, h\<lparr>sh_joinable := True\<rparr>, fds))))"

text \<open>
  \<open>close\<close>: the read thread runs its last iterations and is joined; the first call after a \<open>start\<close> closes
  the wake-up pipe.
\<close>

definition handle_close ::
    "size_t \<Rightarrow> string \<Rightarrow> iteration list \<Rightarrow> closing \<times> closing \<Rightarrow> StdioHandle \<times> fds \<Rightarrow>
     callback list \<times> StdioHandle \<times> fds" where
  "handle_close m buffer its cls hs =
     (case hs of (h, fds) \<Rightarrow>
        let first = (\<not> sio_closing (sh_flags h));
            (cbs, fl) = stdio_close m buffer (if sh_joinable h then its else []) (sh_flags h);
            h' = h\<lparr>sh_flags := fl, sh_joinable := False\<rparr>
        in if first
           then (let fds = quiet_close (fst cls) (sh_wakeup_read_fd h) fds;
                     fds = quiet_close (snd cls) (sh_wakeup_write_fd h) fds
                 in (cbs, h'\<lparr>sh_wakeup_read_fd := - 1, sh_wakeup_write_fd := - 1\<rparr>, fds))
           else (cbs, h', fds))"

definition handle_destroy ::
    "size_t \<Rightarrow> string \<Rightarrow> iteration list \<Rightarrow> closing \<times> closing \<Rightarrow> closing \<times> closing \<Rightarrow> StdioHandle \<times> fds \<Rightarrow>
     callback list \<times> fds" where
  "handle_destroy m buffer its cls own hs =
     (let (cbs, h, fds) = handle_close m buffer its cls hs
      in (cbs, if \<not> sh_owns_fds h then fds
               else
                 let fds = quiet_close (fst own) (sh_read_fd h) fds
                 in if sh_write_fd h \<noteq> sh_read_fd h then quiet_close (snd own) (sh_write_fd h) fds else fds))"

text \<open>
  The calls that an owner makes, one after another, and what other threads open in between; \<open>None\<close> when the
  process terminates.
\<close>

datatype handle_call =
    Start "(int \<times> int) option" "bool \<times> bool \<times> bool \<times> bool" "bool \<times> bool \<times> bool \<times> bool" int "closing \<times> closing"
  | Close size_t string "iteration list" "closing \<times> closing"
  | Others fds

fun handle_step :: "handle_call \<Rightarrow> StdioHandle \<times> fds \<Rightarrow> (callback list \<times> StdioHandle \<times> fds) option" where
  "handle_step (Start pipe oks1 oks2 errno cls) hs = handle_start pipe oks1 oks2 errno cls hs"
| "handle_step (Close m buffer its cls) hs = Some (handle_close m buffer its cls hs)"
| "handle_step (Others opened) hs = Some ([], fst hs, snd hs ++ opened)"

fun handle_run :: "handle_call list \<Rightarrow> StdioHandle \<times> fds \<Rightarrow> (callback list \<times> StdioHandle \<times> fds) option" where
  "handle_run [] hs = Some ([], hs)"
| "handle_run (c # calls) hs =
     (case handle_step c hs of
        None \<Rightarrow> None
      | Some (cbs, hs) \<Rightarrow> map_option (\<lambda>(cbs', hs). (cbs @ cbs', hs)) (handle_run calls hs))"

section \<open>The system and the other threads\<close>

text \<open>
  What a call meets: \<open>pipe\<close> gives two numbers that are not in use, others open only such, and the descriptors that
  the call closes are closed by \<open>loop_calls\<close>. A list that the call does not use is empty.
\<close>

definition start_ok ::
    "(int \<times> int) option \<Rightarrow> bool \<times> bool \<times> bool \<times> bool \<Rightarrow> bool \<times> bool \<times> bool \<times> bool \<Rightarrow> closing \<times> closing \<Rightarrow>
     StdioHandle \<times> fds \<Rightarrow> bool" where
  "start_ok pipe oks1 oks2 cls hs =
     (if sio_running (sh_flags (fst hs)) then cls = ([], [])
      else
        case pipe of
          None \<Rightarrow> cls = ([], [])
        | Some (r, w) \<Rightarrow>
            0 \<le> r \<and> 0 \<le> w \<and> r \<noteq> w \<and> snd hs r = None \<and> snd hs w = None \<and>
            (case pipe_flags oks1 oks2 r w (open_pipe r w (snd hs)) of
               (True, fds) \<Rightarrow> cls = ([], [])
             | (False, fds) \<Rightarrow> closing2_ok r w cls fds))"

definition close_ok :: "closing \<times> closing \<Rightarrow> StdioHandle \<times> fds \<Rightarrow> bool" where
  "close_ok cls hs =
     (if sio_closing (sh_flags (fst hs)) then cls = ([], [])
      else closing2_ok (sh_wakeup_read_fd (fst hs)) (sh_wakeup_write_fd (fst hs)) cls (snd hs))"

fun call_ok :: "handle_call \<Rightarrow> StdioHandle \<times> fds \<Rightarrow> bool" where
  "call_ok (Start pipe oks1 oks2 errno cls) hs = start_ok pipe oks1 oks2 cls hs"
| "call_ok (Close m buffer its cls) hs = close_ok cls hs"
| "call_ok (Others opened) hs = (dom opened \<inter> dom (snd hs) = {})"

fun calls_ok :: "handle_call list \<Rightarrow> StdioHandle \<times> fds \<Rightarrow> bool" where
  "calls_ok [] hs = True"
| "calls_ok (c # calls) hs =
     (call_ok c hs \<and> (case handle_step c hs of None \<Rightarrow> True | Some (cbs, hs) \<Rightarrow> calls_ok calls hs))"

text \<open>What others have opened in a call, and in all.\<close>

fun call_opened :: "handle_call \<Rightarrow> fds" where
  "call_opened (Start pipe oks1 oks2 errno cls) = opened2 cls"
| "call_opened (Close m buffer its cls) = opened2 cls"
| "call_opened (Others opened) = opened"

fun calls_opened :: "handle_call list \<Rightarrow> fds" where
  "calls_opened [] = Map.empty"
| "calls_opened (c # calls) = call_opened c ++ calls_opened calls"

text \<open>The destructor closes the two ends that it owns, or the one when they are the same.\<close>

definition destroy_ok ::
    "size_t \<Rightarrow> string \<Rightarrow> iteration list \<Rightarrow> closing \<times> closing \<Rightarrow> closing \<times> closing \<Rightarrow> StdioHandle \<times> fds \<Rightarrow> bool" where
  "destroy_ok m buffer its cls own hs \<longleftrightarrow> close_ok cls hs \<and>
     (case handle_close m buffer its cls hs of
        (cbs, h, fds) \<Rightarrow>
          if \<not> sh_owns_fds h then own = ([], [])
          else if sh_write_fd h \<noteq> sh_read_fd h then closing2_ok (sh_read_fd h) (sh_write_fd h) own fds
          else closing_ok (sh_read_fd h) (fst own) fds \<and> snd own = [])"

definition ends_closed :: "int \<Rightarrow> int \<Rightarrow> closing \<times> closing \<Rightarrow> fds \<Rightarrow> fds" where
  "ends_closed r w own fds =
     (let fds = fd_closed r (fst own) fds in if w \<noteq> r then fd_closed w (snd own) fds else fds)"

section \<open>What the transport holds\<close>

text \<open>The descriptors of \<open>outside\<close> are not the transport's.\<close>

definition handle_inv :: "fds \<Rightarrow> StdioHandle \<times> fds \<Rightarrow> bool" where
  "handle_inv outside hs \<longleftrightarrow>
     (case hs of (h, fds) \<Rightarrow>
        if sio_running (sh_flags h)
        then sh_joinable h \<and> \<not> sio_closing (sh_flags h) \<and> 0 \<le> sh_wakeup_read_fd h \<and> 0 \<le> sh_wakeup_write_fd h \<and>
          outside (sh_wakeup_read_fd h) = None \<and> outside (sh_wakeup_write_fd h) = None \<and>
          sh_wakeup_read_fd h \<noteq> sh_wakeup_write_fd h \<and>
          fds = outside(sh_wakeup_read_fd h \<mapsto> \<lparr>ff_nonblock = True, ff_cloexec = True\<rparr>,
                        sh_wakeup_write_fd h \<mapsto> \<lparr>ff_nonblock = True, ff_cloexec = True\<rparr>)
        else \<not> sh_joinable h \<and> sh_wakeup_read_fd h = - 1 \<and> sh_wakeup_write_fd h = - 1 \<and> fds = outside)"

lemma make_nonblocking_cases:
  assumes "make_nonblocking oks fd fds = (ok, fds')"
  shows "\<exists>fl. fds' = fds \<or> fds' = fds(fd \<mapsto> fl)"
    and "ok \<Longrightarrow> fds fd = Some plain_fd \<Longrightarrow> fds' = fds(fd \<mapsto> \<lparr>ff_nonblock = True, ff_cloexec = True\<rparr>)"
  using assms by (auto simp: make_nonblocking_def plain_fd_def Let_def split: prod.splits if_splits)

lemma pipe_flags_cases:
  assumes "pipe_flags oks1 oks2 r w (open_pipe r w outside) = (ok, fds)" "r \<noteq> w"
  shows "\<exists>x y. fds = outside(r \<mapsto> x, w \<mapsto> y)"
    and "ok \<Longrightarrow> fds = outside(r \<mapsto> \<lparr>ff_nonblock = True, ff_cloexec = True\<rparr>, w \<mapsto> \<lparr>ff_nonblock = True, ff_cloexec = True\<rparr>)"
proof -
  obtain ok1 fds1 where m1: "make_nonblocking oks1 r (outside(r \<mapsto> plain_fd, w \<mapsto> plain_fd)) = (ok1, fds1)"
    by fastforce
  have m2: "(if ok1 then make_nonblocking oks2 w fds1 else (False, fds1)) = (ok, fds)"
    using assms(1) m1 by (simp add: pipe_flags_def open_pipe_def)
  obtain x where x: "fds1 = outside(r \<mapsto> x, w \<mapsto> plain_fd)"
    using make_nonblocking_cases(1) [OF m1] assms(2) by (auto simp: fun_upd_twist)
  show "\<exists>x y. fds = outside(r \<mapsto> x, w \<mapsto> y)"
    using m2 make_nonblocking_cases(1) [of oks2 w fds1 ok fds] unfolding x by (auto split: if_splits)
  assume ok
  then have ok1 using m2 by (auto split: if_splits)
  with m1 assms(2) have "fds1 = outside(r \<mapsto> \<lparr>ff_nonblock = True, ff_cloexec = True\<rparr>, w \<mapsto> plain_fd)"
    using make_nonblocking_cases(2) [OF m1] by (auto simp: fun_upd_twist)
  with m2 \<open>ok1\<close> \<open>ok\<close>
  show "fds = outside(r \<mapsto> \<lparr>ff_nonblock = True, ff_cloexec = True\<rparr>, w \<mapsto> \<lparr>ff_nonblock = True, ff_cloexec = True\<rparr>)"
    using make_nonblocking_cases(2) [of oks2 w fds1 ok fds] by simp
qed

text \<open>What is outside keeps what it has, and gets what others open.\<close>

definition grown :: "fds \<Rightarrow> fds \<Rightarrow> StdioHandle \<times> fds \<Rightarrow> bool" where
  "grown outside opened hs \<longleftrightarrow> handle_inv (outside ++ opened) hs \<and> dom opened \<inter> dom outside = {}"

lemma opened2_Nil [simp]: "opened2 ([], []) = Map.empty"
  by (simp add: opened2_def)

lemma start_inv:
  assumes inv: "handle_inv outside (h, fds)" and ok: "start_ok pipe oks1 oks2 cls (h, fds)"
  shows "\<exists>cbs hs. handle_start pipe oks1 oks2 errno cls (h, fds) = Some (cbs, hs) \<and> grown outside (opened2 cls) hs"
proof (cases "sio_running (sh_flags h) \<or> pipe = None")
  case True
  then show ?thesis using inv ok
    by (cases pipe) (auto simp: handle_start_def stdio_start_def handle_inv_def start_ok_def grown_def)
next
  case False
  then have h: "\<not> sio_running (sh_flags h)" "\<not> sh_joinable h" "fds = outside" "sh_wakeup_read_fd h = - 1"
    "sh_wakeup_write_fd h = - 1"
    using inv by (simp_all add: handle_inv_def)
  obtain r w where p: "pipe = Some (r, w)" using False by auto
  then have rw: "0 \<le> r" "0 \<le> w" "r \<noteq> w" "outside r = None" "outside w = None" using ok h by (simp_all add: start_ok_def)
  obtain ready fds' where m: "pipe_flags oks1 oks2 r w (open_pipe r w outside) = (ready, fds')" by fastforce
  note fds' = pipe_flags_cases [OF m rw(3)]
  show ?thesis
  proof (cases ready)
    case True
    then show ?thesis
      using h p m ok rw fds'(2) by (simp add: handle_start_def handle_inv_def stdio_start_def start_ok_def grown_def)
  next
    case False
    obtain x y where xy: "fds' = outside(r \<mapsto> x, w \<mapsto> y)" using fds'(1) by blast
    have "closing2_ok r w cls fds'" using ok h p m False by (simp add: start_ok_def)
    from close_pipe [OF this xy rw] show ?thesis
      using h p m False by (simp add: handle_start_def handle_inv_def stdio_start_def grown_def)
  qed
qed

lemma close_inv:
  assumes inv: "handle_inv outside (h, fds)" and ok: "close_ok cls (h, fds)"
    and close: "handle_close m buffer its cls (h, fds) = (cbs, h', fds')"
  shows "grown outside (opened2 cls) (h', fds') \<and> \<not> sio_running (sh_flags h') \<and>
    sh_read_fd h' = sh_read_fd h \<and> sh_write_fd h' = sh_write_fd h \<and> sh_owns_fds h' = sh_owns_fds h"
proof -
  obtain cbs1 fl where c: "stdio_close m buffer (if sh_joinable h then its else []) (sh_flags h) = (cbs1, fl)"
    by fastforce
  from stdio_close_flags [OF c] have stopped: "\<not> sio_running fl" by simp
  let ?h = "h\<lparr>sh_flags := fl, sh_joinable := False\<rparr>"
  show ?thesis
  proof (cases "sio_closing (sh_flags h)")
    case True
    then have "h' = ?h" "fds' = fds" "cls = ([], [])" using close c ok by (simp_all add: handle_close_def close_ok_def)
    moreover have "\<not> sio_running (sh_flags h)" using inv True by (auto simp: handle_inv_def split: if_splits)
    ultimately show ?thesis using inv stopped by (simp add: handle_inv_def grown_def)
  next
    case False
    then have h': "h' = ?h\<lparr>sh_wakeup_read_fd := - 1, sh_wakeup_write_fd := - 1\<rparr>"
      and fds': "fds' = quiet_close (snd cls) (sh_wakeup_write_fd h) (quiet_close (fst cls) (sh_wakeup_read_fd h) fds)"
      and cls: "closing2_ok (sh_wakeup_read_fd h) (sh_wakeup_write_fd h) cls fds"
      using close c ok by (simp_all add: handle_close_def close_ok_def)
    have "fds' = outside ++ opened2 cls \<and> dom (opened2 cls) \<inter> dom outside = {}"
    proof (cases "sio_running (sh_flags h)")
      case True
      with inv show ?thesis unfolding fds' by (intro close_pipe [OF cls]) (auto simp: handle_inv_def)
    next
      case False
      with inv cls show ?thesis unfolding fds'
        by (cases cls) (auto simp: handle_inv_def closing2_ok_def closing_ok_def quiet_close_def)
    qed
    then show ?thesis using stopped unfolding h' by (simp add: handle_inv_def grown_def)
  qed
qed

lemma step_inv:
  assumes "handle_inv outside hs" "call_ok c hs"
  shows "\<exists>cbs hs'. handle_step c hs = Some (cbs, hs') \<and> grown outside (call_opened c) hs'"
proof (cases c)
  case (Start pipe oks1 oks2 errno cls)
  with assms start_inv [of outside "fst hs" "snd hs"] show ?thesis by simp
next
  case (Close m buffer its cls)
  obtain cbs h' fds' where c: "handle_close m buffer its cls (fst hs, snd hs) = (cbs, h', fds')" by (metis prod_cases3)
  from close_inv [OF _ _ this, of outside] assms c Close show ?thesis by auto
next
  case (Others opened)
  obtain h fds where hs: "hs = (h, fds)" by fastforce
  have free: "dom opened \<inter> dom fds = {}" using assms(2) by (simp add: Others hs)
  have "handle_inv (outside ++ opened) (h, fds ++ opened) \<and> dom opened \<inter> dom outside = {}"
  proof (cases "sio_running (sh_flags h)")
    case True
    then have "sh_wakeup_read_fd h \<notin> dom opened" "sh_wakeup_write_fd h \<notin> dom opened" "dom opened \<inter> dom outside = {}"
      using assms(1) free by (auto simp: handle_inv_def hs)
    with True assms(1) show ?thesis by (auto simp: handle_inv_def hs map_add_upd_left map_add_dom_app_simps)
  qed (use assms(1) free in \<open>simp add: handle_inv_def hs\<close>)
  then show ?thesis by (simp add: Others hs grown_def)
qed

lemma run_inv:
  assumes "handle_inv outside hs" "calls_ok calls hs"
  shows "\<exists>cbs hs'. handle_run calls hs = Some (cbs, hs') \<and> grown outside (calls_opened calls) hs'"
  using assms
proof (induction calls arbitrary: outside hs)
  case (Cons c calls)
  have "call_ok c hs" using Cons.prems(2) by simp
  from step_inv [OF Cons.prems(1) this] obtain cbs hs1 where
    s: "handle_step c hs = Some (cbs, hs1)" "grown outside (call_opened c) hs1" by blast
  with Cons.prems(2) Cons.IH [of "outside ++ call_opened c" hs1] obtain cbs' hs' where
    "handle_run calls hs1 = Some (cbs', hs')" "grown (outside ++ call_opened c) (calls_opened calls) hs'"
    by (auto simp: grown_def)
  with s show ?case by (auto simp: grown_def)
qed (simp add: grown_def)

definition same_ends :: "StdioHandle \<Rightarrow> StdioHandle \<Rightarrow> bool" where
  "same_ends h h' \<longleftrightarrow> sh_read_fd h' = sh_read_fd h \<and> sh_write_fd h' = sh_write_fd h \<and> sh_owns_fds h' = sh_owns_fds h"

lemma step_same_ends: "handle_step c (h, fds) = Some (cbs, h', fds') \<Longrightarrow> same_ends h h'"
  by (cases c) (auto simp: handle_start_def handle_close_def same_ends_def Let_def
      split: if_splits option.splits prod.splits)

lemma run_same_ends: "handle_run calls (h, fds) = Some (cbs, h', fds') \<Longrightarrow> same_ends h h'"
proof (induction calls arbitrary: h fds cbs)
  case (Cons c calls)
  then obtain cbs1 h1 fds1 cbs2 where "handle_step c (h, fds) = Some (cbs1, h1, fds1)"
    "handle_run calls (h1, fds1) = Some (cbs2, h', fds')" by (auto split: option.splits)
  with Cons.IH step_same_ends show ?case by (fastforce simp: same_ends_def)
qed (simp add: same_ends_def)

lemma destroy_inv:
  assumes "handle_inv outside (h, fds)" "destroy_ok m buffer its cls own (h, fds)"
    and "handle_destroy m buffer its cls own (h, fds) = (cbs, fds')"
  shows "fds' = (if sh_owns_fds h then ends_closed (sh_read_fd h) (sh_write_fd h) own (outside ++ opened2 cls)
      else outside ++ opened2 cls)" and "dom (opened2 cls) \<inter> dom outside = {}"
proof -
  obtain cbs1 h' fds1 where c: "handle_close m buffer its cls (h, fds) = (cbs1, h', fds1)" by (metis prod_cases3)
  note inv = close_inv [OF assms(1) _ c]
  have close: "close_ok cls (h, fds)" using assms(2) by (simp add: destroy_ok_def)
  with inv have fds1: "fds1 = outside ++ opened2 cls" by (simp add: handle_inv_def grown_def)
  show "dom (opened2 cls) \<inter> dom outside = {}" using inv close by (simp add: grown_def)
  show "fds' = (if sh_owns_fds h then ends_closed (sh_read_fd h) (sh_write_fd h) own (outside ++ opened2 cls)
      else outside ++ opened2 cls)"
    using assms(2,3) c inv [OF close] fds1
    by (auto simp: handle_destroy_def destroy_ok_def ends_closed_def closing2_ok_def Let_def quiet_close_closes
        split: if_splits)
qed

section \<open>A spawned server\<close>

text \<open>\<open>Subprocess\<close> of the client program; the child process itself is its number.\<close>

record Subprocess =
  sp_pid :: int
  sp_read_fd :: int
  sp_write_fd :: int

text \<open>\<open>::close\<close> without a loop; \<open>cl\<close> gives the result by the number.\<close>

definition plain_close :: "(int \<Rightarrow> close_result) \<Rightarrow> int \<Rightarrow> fds \<Rightarrow> fds" where
  "plain_close cl fd fds = os_close fd (cl fd) fds"

text \<open>The results of the two \<open>pipe\<close> calls and of \<open>posix_spawn\<close>: the child's number, or an error.\<close>

definition spawn ::
    "(int \<Rightarrow> close_result) \<Rightarrow> (int \<times> int) option \<Rightarrow> (int \<times> int) option \<Rightarrow> int option \<Rightarrow> fds \<Rightarrow>
     Subprocess option \<times> fds" where
  "spawn cl in_pipe out_pipe rc fds =
     (case in_pipe of
        None \<Rightarrow> (None, fds)
      | Some (in0, in1) \<Rightarrow>
          let fds = open_pipe in0 in1 fds
          in case out_pipe of
               None \<Rightarrow> (None, plain_close cl in1 (plain_close cl in0 fds))
             | Some (out0, out1) \<Rightarrow>
                 let fds = open_pipe out0 out1 fds;
                     fds = plain_close cl out1 (plain_close cl in0 fds)
                 in case rc of
                      None \<Rightarrow> (None, plain_close cl out0 (plain_close cl in1 fds))
                    | Some pid \<Rightarrow> (Some \<lparr>sp_pid = pid, sp_read_fd = out0, sp_write_fd = in1\<rparr>, fds))"

text \<open>The destructor; it also ends the child and waits for it.\<close>

definition subprocess_destroy :: "(int \<Rightarrow> close_result) \<Rightarrow> Subprocess \<Rightarrow> fds \<Rightarrow> fds" where
  "subprocess_destroy cl sp fds =
     (let fds = (if 0 \<le> sp_write_fd sp then plain_close cl (sp_write_fd sp) fds else fds)
      in if 0 \<le> sp_read_fd sp then plain_close cl (sp_read_fd sp) fds else fds)"

definition fresh_pipes :: "fds \<Rightarrow> (int \<times> int) option \<Rightarrow> (int \<times> int) option \<Rightarrow> bool" where
  "fresh_pipes fds in_pipe out_pipe \<longleftrightarrow>
     (\<forall>a b. in_pipe = Some (a, b) \<longrightarrow> distinct [a, b] \<and> 0 \<le> a \<and> 0 \<le> b \<and> fds a = None \<and> fds b = None) \<and>
     (\<forall>a b c d. in_pipe = Some (a, b) \<and> out_pipe = Some (c, d) \<longrightarrow>
        distinct [a, b, c, d] \<and> 0 \<le> c \<and> 0 \<le> d \<and> fds c = None \<and> fds d = None)"

lemma plain_close: "(\<And>fd. releases (cl fd)) \<Longrightarrow> plain_close cl fd fds = fds(fd := None)"
  by (simp add: plain_close_def os_close_def)

lemma spawn_failed:
  assumes rel: "\<And>fd. releases (cl fd)" and "fresh_pipes fds p q" "spawn cl p q rc fds = (None, fds')"
  shows "fds' = fds"
proof (cases p)
  case None
  then show ?thesis using assms(3) by (simp add: spawn_def)
next
  case (Some ab)
  obtain a b where ab: "ab = (a, b)" by fastforce
  with Some assms(2) have f: "a \<noteq> b" "fds a = None" "fds b = None" by (simp_all add: fresh_pipes_def)
  show ?thesis
  proof (cases q)
    case None
    then have "fds' = (fds(a \<mapsto> plain_fd, b \<mapsto> plain_fd))(a := None, b := None)"
      using assms(3) by (simp add: spawn_def Some ab open_pipe_def plain_close [OF rel])
    then show ?thesis using f by (auto simp: fun_eq_iff)
  next
    case q: (Some cd)
    obtain c d where cd: "cd = (c, d)" by fastforce
    with q Some ab assms(2) have g: "distinct [a, b, c, d]" "fds c = None" "fds d = None"
      by (simp_all add: fresh_pipes_def)
    have "rc = None" using assms(3) by (simp add: spawn_def Some ab q cd Let_def split: option.splits)
    then have "fds' = (fds(a \<mapsto> plain_fd, b \<mapsto> plain_fd, c \<mapsto> plain_fd, d \<mapsto> plain_fd))
        (a := None, d := None, b := None, c := None)"
      using assms(3) by (simp add: spawn_def Some ab q cd open_pipe_def plain_close [OF rel])
    then show ?thesis using f g by (auto simp: fun_eq_iff)
  qed
qed

lemma spawn_succeeded:
  assumes rel: "\<And>fd. releases (cl fd)" and "fresh_pipes fds p q" "spawn cl p q rc fds = (Some sp, fds')"
  shows "fds' = open_pipe (sp_write_fd sp) (sp_read_fd sp) fds \<and> sp_write_fd sp \<noteq> sp_read_fd sp \<and>
    fds (sp_read_fd sp) = None \<and> fds (sp_write_fd sp) = None \<and> 0 \<le> sp_read_fd sp \<and> 0 \<le> sp_write_fd sp"
proof -
  obtain a b where p: "p = Some (a, b)" using assms(3) by (cases p) (auto simp: spawn_def)
  obtain c d where q: "q = Some (c, d)" using assms(3) by (cases q) (auto simp: spawn_def p)
  from assms(2) have f: "distinct [a, b, c, d]" "0 \<le> a" "0 \<le> b" "0 \<le> c" "0 \<le> d" "fds a = None" "fds b = None"
    "fds c = None" "fds d = None"
    by (simp_all add: fresh_pipes_def p q)
  obtain pid where pid: "rc = Some pid" using assms(3) by (cases rc) (auto simp: spawn_def p q Let_def)
  then have sp: "sp = \<lparr>sp_pid = pid, sp_read_fd = c, sp_write_fd = b\<rparr>" using assms(3) by (simp add: spawn_def p q)
  have "fds' = (fds(a \<mapsto> plain_fd, b \<mapsto> plain_fd, c \<mapsto> plain_fd, d \<mapsto> plain_fd))(a := None, d := None)"
    using assms(3) by (simp add: spawn_def p q pid open_pipe_def plain_close [OF rel])
  then have "fds' = open_pipe b c fds" using f by (auto simp: open_pipe_def fun_eq_iff)
  then show ?thesis using f sp by simp
qed

section \<open>Properties\<close>

text \<open>
  C23: The transport neither leaks a descriptor nor closes one that is not its own. Whatever an owner calls in
  whatever order, \<open>start\<close> and \<open>close\<close>, whichever \<open>pipe\<close> and \<open>fcntl\<close> calls fail, however often a \<open>::close\<close> is interrupted,
  with or without having closed the descriptor, and whatever other threads open meanwhile: the process is not
  terminated by a second thread; while the transport runs it holds its non-blocking wake-up pipe and otherwise
  nothing; and after the destructor the process has the descriptors it had before and those the others
  opened, less the two ends if the transport owns them. The conditions on the system and on the other
  threads are \<open>calls_ok\<close> and \<open>destroy_ok\<close>: numbers in use are not given out again, and no other thread gets the
  number that an interrupted \<open>::close\<close> has released before \<open>quiet_close\<close> has tried it again
  (\<open>quiet_close_stranger\<close>).
\<close>

theorem descriptors_released:
  assumes "calls_ok calls (StdioHandle_new r w owns, outside)"
  shows "\<exists>cbs h fds. handle_run calls (StdioHandle_new r w owns, outside) = Some (cbs, h, fds) \<and>
    dom (calls_opened calls) \<inter> dom outside = {} \<and>
    (if sio_running (sh_flags h)
     then sh_joinable h \<and>
       outside (sh_wakeup_read_fd h) = None \<and> calls_opened calls (sh_wakeup_read_fd h) = None \<and>
       outside (sh_wakeup_write_fd h) = None \<and> calls_opened calls (sh_wakeup_write_fd h) = None \<and>
       fds = (outside ++ calls_opened calls)
         (sh_wakeup_read_fd h \<mapsto> \<lparr>ff_nonblock = True, ff_cloexec = True\<rparr>,
          sh_wakeup_write_fd h \<mapsto> \<lparr>ff_nonblock = True, ff_cloexec = True\<rparr>)
     else \<not> sh_joinable h \<and> fds = outside ++ calls_opened calls) \<and>
    (destroy_ok m buffer its cls own (h, fds) \<longrightarrow>
     (let left = outside ++ calls_opened calls ++ opened2 cls
      in snd (handle_destroy m buffer its cls own (h, fds)) = (if owns then ends_closed r w own left else left) \<and>
         dom (opened2 cls) \<inter> dom (outside ++ calls_opened calls) = {}))"
proof -
  have "handle_inv outside (StdioHandle_new r w owns, outside)"
    by (simp add: handle_inv_def StdioHandle_new_def StdioTransport_init_def)
  from run_inv [OF this assms] obtain cbs h fds where
    run: "handle_run calls (StdioHandle_new r w owns, outside) = Some (cbs, h, fds)"
      "handle_inv (outside ++ calls_opened calls) (h, fds)" "dom (calls_opened calls) \<inter> dom outside = {}"
    by (auto simp: grown_def)
  have ends: "sh_read_fd h = r" "sh_write_fd h = w" "sh_owns_fds h = owns"
    using run_same_ends [OF run(1)] by (simp_all add: same_ends_def StdioHandle_new_def)
  note d = destroy_inv [OF run(2) _ prod.collapse [symmetric], unfolded ends]
  show ?thesis
    using run d by (intro exI [of _ cbs] exI [of _ h] exI [of _ fds]) (auto simp: handle_inv_def Let_def split: if_splits)
qed

text \<open>
  A start whose second \<open>fcntl\<close> fails and whose first \<open>::close\<close> is interrupted twice, a thread that then gets one of the
  numbers, a start that succeeds, and a close that is interrupted after it has closed the read end.
\<close>

definition all_ok :: "bool \<times> bool \<times> bool \<times> bool" where
  "all_ok = (True, True, True, True)"

definition sample_calls :: "handle_call list" where
  "sample_calls =
     [Start (Some (5, 6)) all_ok (True, False, True, True) 9
        ([(Map.empty, Close_eintr False), (Map.empty, Close_eintr True), ([8 \<mapsto> plain_fd], Close_errno False)],
         [(Map.empty, Close_ok)]),
      Others [6 \<mapsto> plain_fd],
      Start (Some (5, 7)) all_ok all_ok 9 ([], []),
      Close 8 [] [] ([(Map.empty, Close_eintr True), (Map.empty, Close_errno False)], [([5 \<mapsto> plain_fd], Close_ok)])]"

theorem descriptors_released_witness:
  "\<exists>cbs h fds. handle_run sample_calls (StdioHandle_new 3 4 True, [3 \<mapsto> plain_fd, 4 \<mapsto> plain_fd]) = Some (cbs, h, fds) \<and>
    \<not> sio_running (sh_flags h) \<and>
    snd (handle_destroy 8 [] [] ([], []) ([(Map.empty, Close_ok)], [(Map.empty, Close_ok)]) (h, fds)) =
      [8 \<mapsto> plain_fd, 6 \<mapsto> plain_fd, 5 \<mapsto> plain_fd]"
proof -
  let ?hs = "(StdioHandle_new 3 4 True, [3 \<mapsto> plain_fd, 4 \<mapsto> plain_fd])"
  note eval = sample_calls_def all_ok_def handle_start_def handle_close_def StdioHandle_new_def StdioTransport_init_def
    stdio_start_def stdio_close_def pipe_flags_def make_nonblocking_def open_pipe_def quiet_close_def os_close_def
    stdio_read_def fire_close_def
  have "calls_ok sample_calls ?hs"
    by (simp add: eval start_ok_def close_ok_def closing2_ok_def closing_ok_def)
  note released = descriptors_released [OF this, of 8 "[]" "[]" "([], [])" "([(Map.empty, Close_ok)], [(Map.empty, Close_ok)])"]
  have "case handle_run sample_calls ?hs of
      None \<Rightarrow> False
    | Some (cbs, h, fds) \<Rightarrow> \<not> sio_running (sh_flags h) \<and>
        destroy_ok 8 [] [] ([], []) ([(Map.empty, Close_ok)], [(Map.empty, Close_ok)]) (h, fds)"
    by (simp add: eval destroy_ok_def close_ok_def closing2_ok_def closing_ok_def)
  moreover have "ends_closed 3 4 ([(Map.empty, Close_ok)], [(Map.empty, Close_ok)])
      ([3 \<mapsto> plain_fd, 4 \<mapsto> plain_fd] ++ calls_opened sample_calls) = [8 \<mapsto> plain_fd, 6 \<mapsto> plain_fd, 5 \<mapsto> plain_fd]"
    by (auto simp: ends_closed_def fd_closed_def sample_calls_def opened2_def fun_eq_iff)
  ultimately show ?thesis using released by (auto simp: Let_def)
qed

text \<open>
  The client program and the descriptors of the server it spawns, when every \<open>::close\<close> of the program closes: a
  spawn that fails leaves none behind, and when it succeeds, the transport on the two ends, which it does not
  own, and then \<open>Subprocess\<close> leave the process with what it had and what other threads opened.
\<close>

theorem subprocess_descriptors:
  assumes rel: "\<And>fd. releases (cl fd)" and "fresh_pipes outside p q" "spawn cl p q rc outside = (result, fds)"
  shows "case result of
      None \<Rightarrow> fds = outside
    | Some sp \<Rightarrow> \<forall>calls cbs h fds1 cbs' fds2.
        calls_ok calls (StdioHandle_new (sp_read_fd sp) (sp_write_fd sp) False, fds) \<and>
        handle_run calls (StdioHandle_new (sp_read_fd sp) (sp_write_fd sp) False, fds) = Some (cbs, h, fds1) \<and>
        destroy_ok m buffer its cls own (h, fds1) \<and>
        handle_destroy m buffer its cls own (h, fds1) = (cbs', fds2) \<longrightarrow>
        subprocess_destroy cl sp fds2 = outside ++ calls_opened calls ++ opened2 cls"
proof (cases result)
  case None
  then show ?thesis using assms spawn_failed [OF rel] by auto
next
  case (Some sp)
  note sp = spawn_succeeded [OF rel assms(2) assms(3) [unfolded Some]]
  have "subprocess_destroy cl sp fds2 = outside ++ calls_opened calls ++ opened2 cls"
    if calls: "calls_ok calls (StdioHandle_new (sp_read_fd sp) (sp_write_fd sp) False, fds)"
      and run: "handle_run calls (StdioHandle_new (sp_read_fd sp) (sp_write_fd sp) False, fds) = Some (cbs, h, fds1)"
      and d: "destroy_ok m buffer its cls own (h, fds1)"
        "handle_destroy m buffer its cls own (h, fds1) = (cbs', fds2)" for calls cbs h fds1 cbs' fds2
  proof -
    have "handle_inv fds (StdioHandle_new (sp_read_fd sp) (sp_write_fd sp) False, fds)"
      by (simp add: handle_inv_def StdioHandle_new_def StdioTransport_init_def)
    from run_inv [OF this calls] run have inv: "handle_inv (fds ++ calls_opened calls) (h, fds1)"
      and dom1: "dom (calls_opened calls) \<inter> dom fds = {}" by (auto simp: grown_def)
    have "fds2 = fds ++ calls_opened calls ++ opened2 cls" and dom2: "dom (opened2 cls) \<inter> dom (fds ++ calls_opened calls) = {}"
      using destroy_inv [OF inv d] run_same_ends [OF run] by (simp_all add: same_ends_def StdioHandle_new_def)
    moreover have "calls_opened calls (sp_read_fd sp) = None" "calls_opened calls (sp_write_fd sp) = None"
      "opened2 cls (sp_read_fd sp) = None" "opened2 cls (sp_write_fd sp) = None"
      using dom1 dom2 sp by (auto simp: open_pipe_def)
    ultimately show ?thesis
      using sp by (auto simp: subprocess_destroy_def plain_close [OF rel] open_pipe_def map_add_def fun_eq_iff
          split: option.splits)
  qed
  then show ?thesis by (simp add: Some)
qed

section \<open>Two threads in close\<close>

text \<open>
  The sections of \<open>close\<close> up to the join, of two callers: the exchange of \<open>closing_\<close>, the test \<open>joinable()\<close>, and
  \<open>join()\<close>, which waits and then marks the thread as joined. Two calls of \<open>join\<close> on one \<open>std::thread\<close> at a
  time are a data race.
\<close>

datatype closer = Enters | Tests | Joins | Past

inductive close_step :: "bool \<times> closer \<times> closer \<Rightarrow> bool \<times> closer \<times> closer \<Rightarrow> bool" where
  "close_step (j, Enters, b) (j, Tests, b)"
| "close_step (j, Tests, b) (j, if j then Joins else Past, b)"
| "close_step (j, Joins, b) (False, Past, b)"
| "close_step (j, a, Enters) (j, a, Tests)"
| "close_step (j, a, Tests) (j, a, if j then Joins else Past)"
| "close_step (j, a, Joins) (False, a, Past)"

theorem two_closers_both_join: "close_step\<^sup>*\<^sup>* (True, Enters, Enters) (True, Joins, Joins)"
proof -
  have "close_step (True, Enters, Enters) (True, Tests, Enters)" by (rule close_step.intros)
  moreover have "close_step (True, Tests, Enters) (True, Tests, Tests)" by (rule close_step.intros)
  moreover have "close_step (True, Tests, Tests) (True, Joins, Tests)"
    using close_step.intros(2) [of True Tests] by simp
  moreover have "close_step (True, Joins, Tests) (True, Joins, Joins)"
    using close_step.intros(5) [of True Joins] by simp
  ultimately show ?thesis by (meson converse_rtranclp_into_rtranclp rtranclp.rtrancl_refl)
qed

end
