(* ===== verification/Timeout_Loop.thy ===== *)
theory Timeout_Loop
  imports Session
begin

text \<open>
  The timeout thread of src/session.cpp (\<open>timeout_loop\<close>) with its condition variable: when it sleeps, until when,
  what wakes it, and what it does then. The other threads of the session park and take requests, drain
  the table, set \<open>closed_\<close> and notify at any moment; waits may end spuriously and the clock goes on.

  Lemmas: the thread never sleeps past a deadline, so that an overdue request is rejected within a number
  of its own steps, and no request before its deadline; after \<open>close\<close> the thread ends and can be joined.
\<close>

section \<open>The thread\<close>

text \<open>
  \<open>Looks\<close>: at the top of the loop, holding or waiting for the lock. \<open>Waits\<close>: in \<open>wait\<close>, or in \<open>wait_until\<close> some
  time. \<open>Wakes\<close>: \<open>wait_until\<close> has timed out and takes the lock. \<open>Rejects\<close>: the lock is released, the expired
  requests are rejected one by one.
\<close>

datatype ('j, 'v) timeout_thread =
    Looks | Waits "int option" | Wakes | Rejects "(RequestId \<times> ('j, 'v) Pending) list" | Gone

record ('j, 'v) TimeoutLoop =
  tl_session :: "('j, 'v) SessionState"
  tl_thread :: "('j, 'v) timeout_thread"
  tl_now :: int

text \<open>\<open>time_point::max()\<close> in ticks of the clock.\<close>

definition time_point_max :: int where
  "time_point_max = 2 ^ 63 - 1"

definition soonest :: "(RequestId \<times> ('j, 'v) Pending) list \<Rightarrow> int" where
  "soonest ps = fold (\<lambda>(rid, p) m. if pd_deadline p < m then pd_deadline p else m) ps time_point_max"

text \<open>
  From the top of the loop to the wait. The lock is held throughout, and the flag \<open>closed_\<close> is set without it
  and without a notification, so nothing is lost by taking this as one step.
\<close>

definition timeout_look :: "('j, 'v) SessionState \<Rightarrow> ('j, 'v) timeout_thread" where
  "timeout_look s =
     (if se_closed s then Gone
      else if se_pending s = [] then Waits None
      else Waits (Some (soonest (se_pending s))))"

definition own_step :: "'j json_ops \<Rightarrow> ('j, 'v) TimeoutLoop \<Rightarrow> ('j, 'v) TimeoutLoop" where
  "own_step J st =
     (case tl_thread st of
        Looks \<Rightarrow> st\<lparr>tl_thread := timeout_look (tl_session st)\<rparr>
      | Waits None \<Rightarrow> st
      | Waits (Some w) \<Rightarrow> if w \<le> tl_now st then st\<lparr>tl_thread := Wakes\<rparr> else st
      | Wakes \<Rightarrow> (let (ps, s) = sweep (tl_now st) (tl_session st) in st\<lparr>tl_session := s, tl_thread := Rejects ps\<rparr>)
      | Rejects [] \<Rightarrow> st\<lparr>tl_thread := Looks\<rparr>
      | Rejects ((rid, p) # ps) \<Rightarrow>
          st\<lparr>tl_session := settle (rejected (timeout_error J) p) (tl_session st), tl_thread := Rejects ps\<rparr>
      | Gone \<Rightarrow> st)"

text \<open>\<open>timeout_cv_.notify_all()\<close>: a thread that is not in a wait does not notice.\<close>

definition notify_timeout :: "('j, 'v) TimeoutLoop \<Rightarrow> ('j, 'v) TimeoutLoop" where
  "notify_timeout st = (case tl_thread st of Waits w \<Rightarrow> st\<lparr>tl_thread := Looks\<rparr> | _ \<Rightarrow> st)"

inductive loop_step :: "'j json_ops \<Rightarrow> ('j, 'v) TimeoutLoop \<Rightarrow> ('j, 'v) TimeoutLoop \<Rightarrow> bool"
  for J :: "'j json_ops" where
  own: "loop_step J st (own_step J st)"
| spurious: "tl_thread st = Waits w \<Longrightarrow> loop_step J st (st\<lparr>tl_thread := Looks\<rparr>)"
| clock: "tl_now st \<le> t \<Longrightarrow> loop_step J st (st\<lparr>tl_now := t\<rparr>)"
| parks: "park rid p (tl_session st) = (Parked_ok, s) \<Longrightarrow> loop_step J st (notify_timeout (st\<lparr>tl_session := s\<rparr>))"
| takes: "take_pending rid (tl_session st) = (r, s) \<Longrightarrow> loop_step J st (st\<lparr>tl_session := s\<rparr>)"
| drains: "drain (tl_session st) = (ps, s) \<Longrightarrow> loop_step J st (notify_timeout (st\<lparr>tl_session := s\<rparr>))"
| settles: "loop_step J st (st\<lparr>tl_session := settle fr (tl_session st)\<rparr>)"
| closes: "loop_step J st (st\<lparr>tl_session := (tl_session st)\<lparr>se_closed := True\<rparr>\<rparr>)"
| notifies: "loop_step J st (notify_timeout st)"

inductive_cases loop_stepE: "loop_step J st st'"

section \<open>Never late, never early\<close>

lemma soonest_le:
  assumes "(rid, p) \<in> set ps"
  shows "soonest ps \<le> pd_deadline p"
proof -
  let ?f = "\<lambda>(rid, p) m. if pd_deadline p < m then pd_deadline p else m"
  have below: "fold ?f ps m \<le> m" for m and ps :: "(RequestId \<times> ('a, 'b) Pending) list"
    by (induction ps arbitrary: m) (fastforce intro: order_trans)+
  have "fold ?f ps m \<le> pd_deadline p" for m
    using assms
  proof (induction ps arbitrary: m)
    case (Cons q ps)
    then show ?case using below [of ps "?f q m"] by (cases "q = (rid, p)") (auto split: if_splits)
  qed simp
  then show ?thesis by (simp add: soonest_def)
qed

definition on_time :: "('j, 'v) TimeoutLoop \<Rightarrow> bool" where
  "on_time st \<longleftrightarrow>
     (case tl_thread st of
        Waits None \<Rightarrow> se_pending (tl_session st) = []
      | Waits (Some w) \<Rightarrow> \<forall>(rid, p)\<in>set (se_pending (tl_session st)). w \<le> pd_deadline p
      | Rejects ps \<Rightarrow> \<forall>(rid, p)\<in>set ps. pd_deadline p \<le> tl_now st
      | Gone \<Rightarrow> se_closed (tl_session st)
      | _ \<Rightarrow> True)"

lemma on_time_own: "on_time st \<Longrightarrow> on_time (own_step J st)"
  by (auto simp: on_time_def own_step_def timeout_look_def sweep_def settle_def soonest_le
      split: timeout_thread.splits option.splits list.splits)

lemma on_time_notify: "on_time st \<Longrightarrow> on_time (notify_timeout st)"
  by (auto simp: on_time_def notify_timeout_def split: timeout_thread.splits)

lemma on_time_parks:
  "on_time st \<Longrightarrow> park rid p (tl_session st) = (Parked_ok, s) \<Longrightarrow> on_time (notify_timeout (st\<lparr>tl_session := s\<rparr>))"
  by (auto simp: on_time_def notify_timeout_def park_def split: timeout_thread.splits if_splits)

lemma on_time_step: "loop_step J st st' \<Longrightarrow> on_time st \<Longrightarrow> on_time st'"
proof (induction rule: loop_step.induct)
  case (takes rid st r s)
  then have "set (se_pending s) \<subseteq> set (se_pending (tl_session st))" "se_closed s = se_closed (tl_session st)"
    by (auto simp: take_pending_def AList.delete_eq)
  then show ?case
    using takes by (fastforce simp: on_time_def split: timeout_thread.splits option.splits)
next
  case (drains st ps s)
  then show ?case
    by (auto simp: on_time_def notify_timeout_def drain_def split: timeout_thread.splits option.splits)
qed (auto simp: on_time_own on_time_notify on_time_parks, auto simp: on_time_def settle_def
    split: timeout_thread.splits option.splits)

lemma on_time_reachable:
  "(loop_step J)\<^sup>*\<^sup>* st0 st \<Longrightarrow> tl_thread st0 = Looks \<Longrightarrow> on_time st"
proof (induction rule: rtranclp_induct)
  case base
  then show ?case by (simp add: on_time_def)
qed (simp add: on_time_step)

section \<open>The thread by itself\<close>

lemma own_rejects:
  "tl_thread st = Rejects (ps @ qs) \<Longrightarrow>
     (own_step J ^^ length ps) st =
       st\<lparr>tl_session := reject_all (timeout_error J) ps (tl_session st), tl_thread := Rejects qs\<rparr>"
proof (induction ps arbitrary: st)
  case (Cons q ps)
  obtain rid p where q: "q = (rid, p)" by fastforce
  let ?st = "st\<lparr>tl_session := settle (rejected (timeout_error J) p) (tl_session st), tl_thread := Rejects (ps @ qs)\<rparr>"
  have "(own_step J ^^ length (q # ps)) st = (own_step J ^^ length ps) ?st"
    using Cons.prems by (simp add: own_step_def q funpow_swap1)
  then show ?case using Cons.IH [of ?st] by (simp add: reject_all_def q)
qed (simp add: reject_all_def)

text \<open>Awake, the thread does what \<open>timeout_round\<close> says and is back at the top of its loop.\<close>

lemma own_round:
  assumes "tl_thread st = Wakes"
  shows "(own_step J ^^ (length (fst (sweep (tl_now st) (tl_session st))) + 2)) st =
    st\<lparr>tl_session := timeout_round J (tl_now st) (tl_session st), tl_thread := Looks\<rparr>"
proof -
  obtain ps s where sw: "sweep (tl_now st) (tl_session st) = (ps, s)" by fastforce
  have "own_step J st = st\<lparr>tl_session := s, tl_thread := Rejects ps\<rparr>" using assms sw by (simp add: own_step_def)
  then have "(own_step J ^^ Suc (length ps)) st =
      st\<lparr>tl_session := reject_all (timeout_error J) ps s, tl_thread := Rejects []\<rparr>"
    using own_rejects [of "st\<lparr>tl_session := s, tl_thread := Rejects ps\<rparr>" ps "[]" J] by (simp add: funpow_swap1)
  then show ?thesis by (simp add: own_step_def timeout_round_def sw)
qed

text \<open>The steps that are left until the thread looks at the table.\<close>

definition steps_left :: "('j, 'v) TimeoutLoop \<Rightarrow> nat" where
  "steps_left st = (case tl_thread st of Rejects ps \<Rightarrow> length ps + 1 | _ \<Rightarrow> 0)"

lemma own_finishes:
  assumes "tl_thread st = Rejects ps"
  shows "(own_step J ^^ steps_left st) st =
    st\<lparr>tl_session := reject_all (timeout_error J) ps (tl_session st), tl_thread := Looks\<rparr>"
  using own_rejects [of st ps "[]" J] assms by (simp add: steps_left_def own_step_def)

definition times_out_by :: "'j json_ops \<Rightarrow> nat \<Rightarrow> ('j, 'v) Pending \<Rightarrow> ('j, 'v) TimeoutLoop \<Rightarrow> bool" where
  "times_out_by J n p st \<longleftrightarrow>
     (\<exists>k\<le>n. rejected (timeout_error J) p \<in> set (se_settled (tl_session ((own_step J ^^ k) st))))"

lemma times_out_after:
  assumes "times_out_by J n p ((own_step J ^^ k) st)" "k + n \<le> m"
  shows "times_out_by J m p st"
proof -
  obtain i where "i \<le> n" "rejected (timeout_error J) p \<in> set (se_settled (tl_session ((own_step J ^^ (i + k)) st)))"
    using assms(1) by (auto simp: times_out_by_def funpow_add)
  then show ?thesis unfolding times_out_by_def using assms(2) by (intro exI [of _ "i + k"]) simp
qed

lemma wakes_times_out:
  assumes "tl_thread st = Wakes" "(rid, p) \<in> set (se_pending (tl_session st))" "pd_deadline p \<le> tl_now st"
  shows "times_out_by J (length (se_pending (tl_session st)) + 2) p st"
proof -
  have "rejected (timeout_error J) p \<in> set (se_settled (timeout_round J (tl_now st) (tl_session st)))"
    using assms(2,3) by (force simp: timeout_round_def sweep_def)
  moreover have "length (fst (sweep (tl_now st) (tl_session st))) \<le> length (se_pending (tl_session st))"
    by (simp add: sweep_def)
  ultimately show ?thesis
    unfolding times_out_by_def using own_round [OF assms(1), of J]
    by (intro exI [of _ "length (fst (sweep (tl_now st) (tl_session st))) + 2"]) simp
qed

lemma looks_times_out:
  assumes "tl_thread st = Looks" "(rid, p) \<in> set (se_pending (tl_session st))" "pd_deadline p \<le> tl_now st"
    "\<not> se_closed (tl_session st)"
  shows "times_out_by J (length (se_pending (tl_session st)) + 4) p st"
proof -
  have "soonest (se_pending (tl_session st)) \<le> tl_now st" using soonest_le [OF assms(2)] assms(3) by simp
  then have "(own_step J ^^ 2) st = st\<lparr>tl_thread := Wakes\<rparr>"
    using assms by (auto simp: numeral_2_eq_2 own_step_def timeout_look_def)
  then show ?thesis
    using times_out_after [of J "length (se_pending (tl_session st)) + 2" p 2 st]
      wakes_times_out [of "st\<lparr>tl_thread := Wakes\<rparr>" rid p J] assms(2,3) by simp
qed

lemma overdue_times_out:
  assumes "on_time st" "(rid, p) \<in> set (se_pending (tl_session st))" "pd_deadline p \<le> tl_now st"
    "\<not> se_closed (tl_session st)"
  shows "times_out_by J (steps_left st + length (se_pending (tl_session st)) + 4) p st"
proof (cases "tl_thread st")
  case Looks
  then show ?thesis using looks_times_out [OF Looks assms(2-4)] by (simp add: steps_left_def)
next
  case (Waits w)
  then obtain t where t: "w = Some t" "t \<le> pd_deadline p" using assms(1,2) by (cases w) (auto simp: on_time_def)
  then have "(own_step J ^^ 1) st = st\<lparr>tl_thread := Wakes\<rparr>" using Waits assms(3) by (simp add: own_step_def)
  then show ?thesis
    using times_out_after [of J "length (se_pending (tl_session st)) + 2" p 1 st]
      wakes_times_out [of "st\<lparr>tl_thread := Wakes\<rparr>" rid p J] assms(2,3) by simp
next
  case Wakes
  then show ?thesis
    using wakes_times_out [OF Wakes assms(2,3), of J] times_out_after [where k = 0 and st = st and J = J and p = p] by simp
next
  case (Rejects ps)
  let ?st = "st\<lparr>tl_session := reject_all (timeout_error J) ps (tl_session st), tl_thread := Looks\<rparr>"
  have "times_out_by J (length (se_pending (tl_session st)) + 4) p ?st"
    using looks_times_out [of ?st rid p J] assms(2-4) by simp
  then show ?thesis using times_out_after [of J "length (se_pending (tl_session st)) + 4" p "steps_left st" st] own_finishes [OF Rejects, of J] by simp
next
  case Gone
  then show ?thesis using assms(1,4) by (simp add: on_time_def)
qed

section \<open>The end of the thread\<close>

text \<open>Once \<open>closed_\<close> is set and a notification has come after it, the thread does not sleep again.\<close>

definition not_asleep :: "('j, 'v) TimeoutLoop \<Rightarrow> bool" where
  "not_asleep st \<longleftrightarrow> se_closed (tl_session st) \<and> (\<forall>w. tl_thread st \<noteq> Waits w)"

lemma not_asleep_step: "loop_step J st st' \<Longrightarrow> not_asleep st \<Longrightarrow> not_asleep st'"
proof (induction rule: loop_step.induct)
  case (own st)
  then show ?case
    by (auto simp: not_asleep_def own_step_def timeout_look_def sweep_def settle_def
        split: timeout_thread.splits list.splits)
qed (auto simp: not_asleep_def notify_timeout_def park_def take_pending_def drain_def settle_def
    split: timeout_thread.splits if_splits)

lemma not_asleep_ends:
  assumes "not_asleep st"
  shows "\<exists>n \<le> steps_left st + length (se_pending (tl_session st)) + 3. tl_thread ((own_step J ^^ n) st) = Gone"
proof -
  have gone: "tl_thread (own_step J st) = Gone" if "tl_thread st = Looks" "se_closed (tl_session st)" for st
    using that by (simp add: own_step_def timeout_look_def)
  show ?thesis
  proof (cases "tl_thread st")
    case Wakes
    let ?n = "length (fst (sweep (tl_now st) (tl_session st))) + 2"
    have "tl_thread ((own_step J ^^ Suc ?n) st) = Gone"
      using own_round [OF Wakes, of J] assms
        gone [of "st\<lparr>tl_session := timeout_round J (tl_now st) (tl_session st), tl_thread := Looks\<rparr>"]
      by (simp add: not_asleep_def timeout_round_def sweep_def)
    moreover have "Suc ?n \<le> steps_left st + length (se_pending (tl_session st)) + 3"
      by (simp add: sweep_def trans_le_add2)
    ultimately show ?thesis by blast
  next
    case (Rejects ps)
    then have "tl_thread ((own_step J ^^ Suc (steps_left st)) st) = Gone"
      using own_finishes [OF Rejects, of J] assms
        gone [of "st\<lparr>tl_session := reject_all (timeout_error J) ps (tl_session st), tl_thread := Looks\<rparr>"]
      by (simp add: not_asleep_def)
    then show ?thesis by (intro exI [of _ "Suc (steps_left st)"]) simp
  next
    case Looks
    then show ?thesis using gone [OF Looks] assms by (intro exI [of _ 1]) (simp add: not_asleep_def)
  next
    case Gone
    then show ?thesis by (intro exI [of _ 0]) simp
  qed (use assms in \<open>simp add: not_asleep_def\<close>)
qed

theorem timeout_thread_ends:
  assumes "se_closed (tl_session st)" "(loop_step J)\<^sup>*\<^sup>* (notify_timeout st) st'"
  shows "\<exists>n \<le> steps_left st' + length (se_pending (tl_session st')) + 3.
    tl_thread ((own_step J ^^ n) st') = Gone"
proof -
  have "not_asleep (notify_timeout st)"
    using assms(1) by (auto simp: not_asleep_def notify_timeout_def split: timeout_thread.splits)
  with assms(2) have "not_asleep st'" by (induction rule: rtranclp_induct) (simp_all add: not_asleep_step)
  then show ?thesis by (rule not_asleep_ends)
qed

section \<open>Properties\<close>

text \<open>
  C4: Requests time out when they should. Whatever the other threads do and however the waits end: a request is
  rejected for its timeout only at or after its deadline; and when a request is overdue on an open
  session, the timeout thread, without any further notification, rejects it within a number of its own
  steps that the table and the rejections under way bound: it never sleeps past a deadline.
\<close>

theorem timeouts_on_time:
  assumes "(loop_step J)\<^sup>*\<^sup>* st0 st" "tl_thread st0 = Looks"
  shows "(\<forall>ps. tl_thread st = Rejects ps \<longrightarrow> (\<forall>(rid, p)\<in>set ps. pd_deadline p \<le> tl_now st)) \<and>
    (\<forall>rid p. (rid, p) \<in> set (se_pending (tl_session st)) \<and> pd_deadline p \<le> tl_now st \<and> \<not> se_closed (tl_session st) \<longrightarrow>
       (\<exists>n \<le> steps_left st + length (se_pending (tl_session st)) + 4.
          rejected (timeout_error J) p \<in> set (se_settled (tl_session ((own_step J ^^ n) st)))))"
proof -
  have on_time: "on_time st" by (rule on_time_reachable [OF assms])
  then have "\<forall>ps. tl_thread st = Rejects ps \<longrightarrow> (\<forall>(rid, p)\<in>set ps. pd_deadline p \<le> tl_now st)"
    by (auto simp: on_time_def)
  then show ?thesis using overdue_times_out [OF on_time] unfolding times_out_by_def by blast
qed

text \<open>A request with deadline 10 is parked while the thread waits; at 12 it is overdue.\<close>

definition late_request :: "(jv, jv) Pending" where
  "late_request = \<lparr>pd_future = 0, pd_convert = Inr, pd_deadline = 10\<rparr>"

definition late_session :: "(jv, jv) SessionState" where
  "late_session = (session_start SessionState_init)\<lparr>se_pending := [(IdInt 1, late_request)]\<rparr>"

theorem timeouts_on_time_witness:
  "\<exists>n\<le>5. (0, Inl (timeout_error jv_ops)) \<in> set (se_settled (tl_session ((own_step jv_ops ^^ n)
     \<lparr>tl_session = late_session, tl_thread = Looks, tl_now = 12\<rparr>)))"
proof -
  let ?s0 = "session_start SessionState_init :: (jv, jv) SessionState"
  let ?st = "\<lambda>s th t. \<lparr>tl_session = s, tl_thread = th, tl_now = t\<rparr>"
  have "loop_step jv_ops (?st ?s0 Looks 0) (?st ?s0 (Waits None) 0)"
    using loop_step.own [of jv_ops "?st ?s0 Looks 0"]
    by (simp add: own_step_def timeout_look_def session_start_def SessionState_init_def)
  moreover have "park (IdInt 1) late_request ?s0 = (Parked_ok, late_session)"
    by (simp add: park_def late_session_def session_start_def SessionState_init_def)
  then have "loop_step jv_ops (?st ?s0 (Waits None) 0) (?st late_session Looks 0)"
    using loop_step.parks [of "IdInt 1" late_request "?st ?s0 (Waits None) 0" late_session jv_ops]
    by (simp add: notify_timeout_def)
  moreover have "loop_step jv_ops (?st late_session Looks 0) (?st late_session Looks 12)"
    using loop_step.clock [of "?st late_session Looks 0" 12 jv_ops] by simp
  ultimately have run: "(loop_step jv_ops)\<^sup>*\<^sup>* (?st ?s0 Looks 0) (?st late_session Looks 12)"
    by (meson converse_rtranclp_into_rtranclp rtranclp.rtrancl_refl)
  show ?thesis
    using conjunct2 [OF timeouts_on_time [OF run], rule_format, of "IdInt 1" late_request]
    by (simp add: late_session_def late_request_def steps_left_def rejected_def session_start_def SessionState_init_def)
qed

end
