(* ===== verification/Server_Run.thy ===== *)
theory Server_Run
  imports Server
begin

text \<open>
  \<open>Server::run\<close> of src/server.cpp as a thread of its own: it makes the session, starts it, sleeps on \<open>stop_cv_\<close>
  and closes it. Beside it \<open>Server::stop\<close>, and the closing of the transport by the peer or by the HTTP host,
  which sets \<open>closed_\<close> in the session and calls the hook that wakes the thread.

  Lemmas: no wake-up is lost once the session has been started, so that \<open>run\<close> returns after \<open>stop\<close> and after the
  transport has closed; a transport that closes before is not noticed; the hook may outlive the session.
\<close>

section \<open>The threads\<close>

text \<open>
  \<open>Begins\<close>: the flags are reset and the session made, which wires the callbacks of the transport. \<open>Hooks\<close>:
  \<open>set_on_closed\<close>. \<open>Starts\<close>: \<open>Session::start\<close>. \<open>Tests\<close>: the condition of the wait, under \<open>stop_mu_\<close>. \<open>Waits\<close>: asleep.
  \<open>Closes\<close>: \<open>Session::close\<close>, after which the session is destroyed.
\<close>

datatype run_at = Begins | Hooks | Starts | Tests | Waits | Closes | Returned

text \<open>
  The transport's \<open>close\<close>: its callback cancels the pending requests and sets \<open>closed_\<close> (\<open>Marks\<close>), then takes the
  hook and calls it (\<open>Calls\<close>).
\<close>

datatype closer = Idle | Marks | Calls | Done

record ('j, 's, 'v) ServerRun =
  ru_server :: "('j, 's) Server"
  ru_session :: "('j, 'v) SessionState"
  ru_at :: run_at
  ru_closer :: closer

definition ServerRun_init :: "('j, 's) Server \<Rightarrow> ('j, 's, 'v) ServerRun" where
  "ServerRun_init sv = \<lparr>ru_server = sv, ru_session = SessionState_init, ru_at = Begins, ru_closer = Idle\<rparr>"

text \<open>Closing waits for the request workers; it closes the transport unless that is closed already.\<close>

definition run_own :: "'j json_ops \<Rightarrow> ('j, 's, 'v) ServerRun \<Rightarrow> ('j, 's, 'v) ServerRun" where
  "run_own J st =
     (case ru_at st of
        Begins \<Rightarrow> st\<lparr>ru_server := server_run_begin (ru_server st), ru_session := SessionState_init, ru_at := Hooks\<rparr>
      | Hooks \<Rightarrow> st\<lparr>ru_session := set_on_closed True (ru_session st), ru_at := Starts\<rparr>
      | Starts \<Rightarrow> st\<lparr>ru_session := session_start (ru_session st), ru_at := Tests\<rparr>
      | Tests \<Rightarrow>
          (case server_run_end (is_open (ru_session st)) (ru_server st) of
             None \<Rightarrow> st\<lparr>ru_at := Waits\<rparr>
           | Some sv \<Rightarrow> st\<lparr>ru_at := Closes\<rparr>)
      | Waits \<Rightarrow> st
      | Closes \<Rightarrow>
          (case session_close J (ru_closer st \<noteq> Idle) (ru_session st) of
             None \<Rightarrow> st
           | Some s \<Rightarrow>
               st\<lparr>ru_session := s, ru_server := (ru_server st)\<lparr>sv_session := False\<rparr>, ru_at := Returned,
                  ru_closer := (if ru_closer st = Idle \<and> \<not> se_closed (ru_session st) then Done else ru_closer st)\<rparr>)
      | Returned \<Rightarrow> st)"

definition run_notify :: "('j, 's, 'v) ServerRun \<Rightarrow> ('j, 's, 'v) ServerRun" where
  "run_notify st = (if ru_at st = Waits then st\<lparr>ru_at := Tests\<rparr> else st)"

definition run_stop :: "('j, 's, 'v) ServerRun \<Rightarrow> ('j, 's, 'v) ServerRun" where
  "run_stop st = run_notify (st\<lparr>ru_server := server_stop (ru_server st)\<rparr>)"

text \<open>Before the session is made the transport has no callback, and nothing happens when it closes.\<close>

definition close_begin :: "('j, 's, 'v) ServerRun \<Rightarrow> ('j, 's, 'v) ServerRun" where
  "close_begin st = st\<lparr>ru_closer := (if ru_at st = Begins then Done else Marks)\<rparr>"

definition close_mark :: "'j json_ops \<Rightarrow> ('j, 's, 'v) ServerRun \<Rightarrow> ('j, 's, 'v) ServerRun" where
  "close_mark J st =
     st\<lparr>ru_session := (cancel_all_pending (transport_closed_error J) (ru_session st))\<lparr>se_closed := True\<rparr>,
        ru_closer := Calls\<rparr>"

definition close_call :: "('j, 's, 'v) ServerRun \<Rightarrow> ('j, 's, 'v) ServerRun" where
  "close_call st =
     (let s = ru_session st; st = st\<lparr>ru_session := mark_closed s\<lparr>se_closed := se_closed s\<rparr>, ru_closer := Done\<rparr>
      in if \<not> se_closed_cb_fired s \<and> se_on_closed_set s then run_notify st else st)"

text \<open>
  Steps of the threads; \<open>stoppable\<close> says whether \<open>stop\<close> may be called. Requests change the session and the server,
  but not their flags.
\<close>

inductive run_step :: "'j json_ops \<Rightarrow> bool \<Rightarrow> ('j, 's, 'v) ServerRun \<Rightarrow> ('j, 's, 'v) ServerRun \<Rightarrow> bool"
  for J :: "'j json_ops" and stoppable :: bool where
  own: "run_step J stoppable st (run_own J st)"
| spurious: "ru_at st = Waits \<Longrightarrow> run_step J stoppable st (st\<lparr>ru_at := Tests\<rparr>)"
| stop: "stoppable \<Longrightarrow> run_step J stoppable st (run_stop st)"
| closing: "ru_closer st = Idle \<Longrightarrow> run_step J stoppable st (close_begin st)"
| marks: "ru_closer st = Marks \<Longrightarrow> run_step J stoppable st (close_mark J st)"
| calls: "ru_closer st = Calls \<Longrightarrow> run_step J stoppable st (close_call st)"
| traffic: "se_started s = se_started (ru_session st) \<Longrightarrow> se_closed s = se_closed (ru_session st) \<Longrightarrow>
    se_on_closed_set s = se_on_closed_set (ru_session st) \<Longrightarrow>
    se_closed_cb_fired s = se_closed_cb_fired (ru_session st) \<Longrightarrow>
    sv_stop_requested sv = sv_stop_requested (ru_server st) \<Longrightarrow>
    run_step J stoppable st (st\<lparr>ru_session := s, ru_server := sv\<rparr>)"

section \<open>No lost wake-up\<close>

definition awake :: "('j, 's, 'v) ServerRun \<Rightarrow> bool" where
  "awake st \<longleftrightarrow>
     (ru_at st = Begins \<longrightarrow> ru_closer st = Idle \<or> ru_closer st = Done) \<and>
     (ru_at st \<noteq> Begins \<and> ru_at st \<noteq> Returned \<and> ru_closer st \<noteq> Done \<longrightarrow> \<not> se_closed_cb_fired (ru_session st)) \<and>
     (ru_at st = Starts \<longrightarrow> se_on_closed_set (ru_session st)) \<and>
     (ru_at st = Hooks \<or> ru_at st = Starts \<longrightarrow> \<not> se_started (ru_session st)) \<and>
     (ru_at st = Tests \<or> ru_at st = Waits \<longrightarrow> se_started (ru_session st) \<and> se_on_closed_set (ru_session st)) \<and>
     (ru_at st = Waits \<longrightarrow> \<not> sv_stop_requested (ru_server st) \<and>
        (is_open (ru_session st) \<or> ru_closer st = Calls))"

lemmas run_defs = run_own_def run_notify_def run_stop_def close_begin_def close_mark_def close_call_def
  server_run_begin_def server_run_end_def server_stop_def SessionState_init_def set_on_closed_def session_start_def
  mark_closed_def is_open_def cancel_all_pending_def drain_def Let_def

lemma reject_all_flags [simp]:
  "se_started (reject_all e ps s) = se_started s" "se_on_closed_set (reject_all e ps s) = se_on_closed_set s"
  "se_closed_cb_fired (reject_all e ps s) = se_closed_cb_fired s"
  unfolding reject_all_def by (induction ps arbitrary: s) (auto simp: settle_def)

lemma awake_own: "awake st \<Longrightarrow> awake (run_own J st)"
  by (cases "ru_at st") (auto simp: awake_def run_defs split: option.splits)

lemma awake_stop: "awake st \<Longrightarrow> awake (run_stop st)"
  by (auto simp: awake_def run_defs)

lemma awake_close:
  "awake st \<Longrightarrow> ru_closer st = Idle \<Longrightarrow> awake (close_begin st)"
  "awake st \<Longrightarrow> ru_closer st = Marks \<Longrightarrow> awake (close_mark J st)"
  "awake st \<Longrightarrow> ru_closer st = Calls \<Longrightarrow> awake (close_call st)"
  by (auto simp: awake_def run_defs)

lemma awake_step: "run_step J stoppable st st' \<Longrightarrow> awake st \<Longrightarrow> awake st'"
proof (induction rule: run_step.induct)
  case (traffic s st sv)
  then show ?case by (auto simp: awake_def is_open_def)
qed (simp_all add: awake_own awake_stop awake_close, simp add: awake_def)

lemma awake_reachable: "(run_step J stoppable)\<^sup>*\<^sup>* (ServerRun_init sv) st \<Longrightarrow> awake st"
proof (induction rule: rtranclp_induct)
  case base
  then show ?case by (simp add: awake_def ServerRun_init_def)
qed (simp add: awake_step)

text \<open>Once the session has been started, a closing leaves its mark.\<close>

definition closing_noticed :: "('j, 's, 'v) ServerRun \<Rightarrow> bool" where
  "closing_noticed st \<longleftrightarrow>
     ru_at st \<in> {Tests, Waits, Closes, Returned} \<and>
     (ru_closer st \<in> {Calls, Done} \<longrightarrow> se_closed (ru_session st))"

lemma closing_noticed_own: "closing_noticed st \<Longrightarrow> closing_noticed (run_own J st)"
  by (cases "ru_at st") (auto simp: closing_noticed_def run_defs session_close_def on_transport_close_def split: option.splits if_splits)

lemma closing_noticed_step: "run_step J stoppable st st' \<Longrightarrow> closing_noticed st \<Longrightarrow> closing_noticed st'"
proof (induction rule: run_step.induct)
  case (own st)
  then show ?case by (rule closing_noticed_own)
qed (auto simp: closing_noticed_def run_defs)

lemma closing_noticed_steps:
  "(run_step J stoppable)\<^sup>*\<^sup>* st st' \<Longrightarrow> closing_noticed st \<Longrightarrow> closing_noticed st'"
  by (induction rule: rtranclp_induct) (simp_all add: closing_noticed_step)

text \<open>What remains to be done by the thread.\<close>

lemma closes_returns:
  assumes "ru_at st = Closes" "se_workers_running (ru_session st) = 0"
  shows "ru_at (run_own J st) = Returned"
  using assms by (simp add: run_own_def session_close_def cancel_all_pending_def drain_def Let_def)

lemma tests_returns:
  assumes "ru_at st = Tests" "se_workers_running (ru_session st) = 0"
    "sv_stop_requested (ru_server st) \<or> \<not> is_open (ru_session st)"
  shows "ru_at ((run_own J ^^ 2) st) = Returned"
proof -
  have "run_own J st = st\<lparr>ru_at := Closes\<rparr>" using assms by (auto simp: run_own_def server_run_end_def)
  then show ?thesis using closes_returns [of "st\<lparr>ru_at := Closes\<rparr>" J] assms(2) by (simp add: numeral_2_eq_2)
qed

section \<open>Closing too early\<close>

definition unnoticed :: "('j, 's, 'v) ServerRun \<Rightarrow> bool" where
  "unnoticed st \<longleftrightarrow>
     ru_closer st = Done \<and> ru_at st \<notin> {Closes, Returned} \<and>
     (ru_at st \<noteq> Begins \<longrightarrow> \<not> sv_stop_requested (ru_server st) \<and> \<not> se_closed (ru_session st)) \<and>
     (ru_at st \<in> {Tests, Waits} \<longrightarrow> se_started (ru_session st))"

lemma unnoticed_own: "unnoticed st \<Longrightarrow> unnoticed (run_own J st)"
  by (cases "ru_at st") (auto simp: unnoticed_def run_defs)

lemma unnoticed_step: "run_step J False st st' \<Longrightarrow> unnoticed st \<Longrightarrow> unnoticed st'"
proof (induction rule: run_step.induct)
  case (own st)
  then show ?case by (rule unnoticed_own)
qed (auto simp: unnoticed_def)

text \<open>
  A transport that is closed before the thread of \<open>run\<close> has made the session is not noticed: without a call of
  \<open>stop\<close> the thread never returns, and whoever joins it waits for ever.
\<close>

theorem early_close_hangs:
  assumes "(run_step J False)\<^sup>*\<^sup>* (close_begin (ServerRun_init sv)) st"
  shows "ru_at st \<noteq> Returned"
proof -
  have "unnoticed st"
    using assms
  proof (induction rule: rtranclp_induct)
    case base
    then show ?case by (simp add: unnoticed_def close_begin_def ServerRun_init_def)
  qed (simp add: unnoticed_step)
  then show ?thesis by (simp add: unnoticed_def)
qed

text \<open>A call of \<open>stop\<close> before \<open>run\<close> has no effect.\<close>

theorem early_stop_lost: "run_own J (run_stop (ServerRun_init sv)) = run_own J (ServerRun_init sv)"
  by (simp add: ServerRun_init_def run_defs)

text \<open>
  \<open>run\<close> may see \<open>closed_\<close> before the hook has been called: it returns, the session is destroyed, and the
  callback of the transport is still to lock a mutex of the session and to call its hook.
\<close>

theorem callback_outlives_session:
  fixes sv :: "('j, 's) Server"
  shows "\<exists>st :: ('j, 's, 'v) ServerRun.
    (run_step J False)\<^sup>*\<^sup>* (ServerRun_init sv) st \<and> ru_at st = Returned \<and> ru_closer st = Calls"
proof -
  let ?own = "run_own J"
  define begun where "begun = (?own ^^ 3) (ServerRun_init sv :: ('j, 's, 'v) ServerRun)"
  let ?st = "(?own ^^ 2) (close_mark J (close_begin begun))"
  have own: "(run_step J False)\<^sup>*\<^sup>* st ((?own ^^ n) st)" for n and st :: "('j, 's, 'v) ServerRun"
    by (induction n) (auto intro: rtranclp.rtrancl_into_rtrancl run_step.own)
  have at: "ru_at begun = Tests" "ru_closer begun = Idle"
    by (simp_all add: begun_def numeral_3_eq_3 ServerRun_init_def run_defs)
  have "run_step J False begun (close_begin begun)" using at(2) by (rule run_step.closing)
  moreover have "run_step J False (close_begin begun) (close_mark J (close_begin begun))"
    by (rule run_step.marks) (simp add: close_begin_def at)
  ultimately have "(run_step J False)\<^sup>*\<^sup>* (ServerRun_init sv) (close_mark J (close_begin begun))"
    using own [of "ServerRun_init sv" 3] by (simp add: begun_def)
  then have "(run_step J False)\<^sup>*\<^sup>* (ServerRun_init sv) ?st" using own by (rule rtranclp_trans)
  moreover have "ru_at ?st = Returned \<and> ru_closer ?st = Calls"
    by (simp add: begun_def numeral_3_eq_3 numeral_2_eq_2 ServerRun_init_def run_defs session_close_def)
  ultimately show ?thesis by blast
qed

section \<open>Properties\<close>

text \<open>
  C5: \<open>Server::run\<close> returns. Take any interleaving of the thread of \<open>run\<close> with calls of \<open>stop\<close>, the transport's closing,
  requests and spurious wake-ups. If the transport has not begun to close before the session was
  started: as soon as \<open>stop\<close> has been called, or the closing of the transport has ended, at whatever moment,
  and no request worker is left, \<open>run\<close> returns after at most two more steps of its own, without another
  notification.
\<close>

theorem run_returns:
  assumes "(run_step J stoppable)\<^sup>*\<^sup>* (ServerRun_init sv) st"
    "ru_at st \<in> {Tests, Waits, Closes, Returned}" "ru_closer st = Idle"
    "(run_step J stoppable)\<^sup>*\<^sup>* st st'"
    "sv_stop_requested (ru_server st') \<or> ru_closer st' = Done" "se_workers_running (ru_session st') = 0"
  shows "\<exists>n\<le>2. ru_at ((run_own J ^^ n) st') = Returned"
proof -
  have "awake st'" using awake_reachable rtranclp_trans [OF assms(1,4)] by blast
  have noticed: "closing_noticed st'"
    using closing_noticed_steps [OF assms(4)] assms(2,3) by (simp add: closing_noticed_def)
  then have ends: "sv_stop_requested (ru_server st') \<or> \<not> is_open (ru_session st')"
    using assms(5) by (auto simp: closing_noticed_def is_open_def)
  consider "ru_at st' = Tests" | "ru_at st' = Waits" | "ru_at st' = Closes" | "ru_at st' = Returned"
    using noticed by (auto simp: closing_noticed_def)
  then show ?thesis
  proof cases
    case 1
    then show ?thesis using tests_returns [OF 1 assms(6) ends] by blast
  next
    case 2
    then show ?thesis using \<open>awake st'\<close> ends assms(5) by (auto simp: awake_def)
  next
    case 3
    then show ?thesis using closes_returns [OF 3 assms(6)] by (intro exI [of _ 1]) simp
  next
    case 4
    then show ?thesis by (intro exI [of _ 0]) simp
  qed
qed

text \<open>A server whose \<open>run\<close> sleeps when \<open>stop\<close> is called.\<close>

theorem run_returns_witness:
  "\<forall>sv :: (jv, unit) Server. \<exists>n\<le>2. ru_at ((run_own jv_ops ^^ n)
     (run_stop ((run_own jv_ops ^^ 4) (ServerRun_init sv :: (jv, unit, unit) ServerRun)))) = Returned"
proof
  fix sv :: "(jv, unit) Server"
  let ?own = "run_own jv_ops"
  let ?st = "(?own ^^ 4) (ServerRun_init sv :: (jv, unit, unit) ServerRun)"
  have own: "(run_step jv_ops True)\<^sup>*\<^sup>* st ((?own ^^ n) st)" for n and st :: "(jv, unit, unit) ServerRun"
    by (induction n) (auto intro: rtranclp.rtrancl_into_rtrancl run_step.own)
  have four: "(4 :: nat) = Suc (Suc (Suc (Suc 0)))" by simp
  have st: "ru_at ?st = Waits" "ru_closer ?st = Idle" "se_workers_running (ru_session ?st) = 0"
    by (simp_all add: four ServerRun_init_def run_defs)
  show "\<exists>n\<le>2. ru_at ((?own ^^ n) (run_stop ?st)) = Returned"
  proof (rule run_returns)
    show "(run_step jv_ops True)\<^sup>*\<^sup>* (ServerRun_init sv) ?st" by (rule own)
    show "(run_step jv_ops True)\<^sup>*\<^sup>* ?st (run_stop ?st)" by (rule r_into_rtranclp) (simp add: run_step.stop)
  qed (simp_all add: st run_stop_def run_notify_def server_stop_def)
qed

end
