(* ===== verification/Timestamps.thy ===== *)
theory Timestamps
  imports Mcp_Prelude
begin

text \<open>
  The time stamps of tasks: \<open>iso_utc_now\<close> of src/server.cpp, with \<open>gmtime_r\<close> of the C library (seconds since the
  epoch to a date of the Gregorian calendar in UTC). The argument is what the system clock shows, in
  milliseconds since 1970.

  Lemmas: the date counts the days up to it; hence time stamps compare as strings the way the times do.
\<close>

section \<open>The calendar\<close>

definition leap :: "nat \<Rightarrow> bool" where
  "leap y \<longleftrightarrow> 4 dvd y \<and> (\<not> 100 dvd y \<or> 400 dvd y)"

definition year_days :: "nat \<Rightarrow> nat" where
  "year_days y = (if leap y then 366 else 365)"

definition month_days :: "nat \<Rightarrow> nat \<Rightarrow> nat" where
  "month_days y m = (if m = 2 then (if leap y then 29 else 28) else if m \<in> {4, 6, 9, 11} then 30 else 31)"

text \<open>The year that a day falls into, counted from the first day of \<open>y\<close>, and the day in that year; likewise the month.\<close>

function find_year :: "nat \<Rightarrow> nat \<Rightarrow> nat \<times> nat" where
  "find_year y d = (if d < year_days y then (y, d) else find_year (y + 1) (d - year_days y))"
  by pat_completeness auto

termination
  by (relation "measure snd") (auto simp: year_days_def split: if_splits)

function find_month :: "nat \<Rightarrow> nat \<Rightarrow> nat \<Rightarrow> nat \<times> nat" where
  "find_month y m d =
     (if d < month_days y m \<or> 12 \<le> m then (m, d) else find_month y (m + 1) (d - month_days y m))"
  by pat_completeness auto

termination
  by (relation "measure (\<lambda>(y, m, d). 12 - m)") auto

declare find_year.simps [simp del] find_month.simps [simp del]

record tm =
  tm_year :: nat
  tm_mon :: nat
  tm_mday :: nat
  tm_hour :: nat
  tm_min :: nat
  tm_sec :: nat

definition gmtime :: "nat \<Rightarrow> tm" where
  "gmtime t =
     (let (y, d) = find_year 1970 (t div 86400);
          (m, d) = find_month y 1 d;
          s = t mod 86400
      in \<lparr>tm_year = y, tm_mon = m, tm_mday = d + 1, tm_hour = s div 3600, tm_min = s mod 3600 div 60,
          tm_sec = s mod 60\<rparr>)"

section \<open>The text\<close>

definition iso_utc_now :: "nat \<Rightarrow> string" where
  "iso_utc_now now =
     (let tm = gmtime (now div 1000); ms = now mod 1000
      in zero_pad 4 (tm_year tm) @ ''-'' @ zero_pad 2 (tm_mon tm) @ ''-'' @ zero_pad 2 (tm_mday tm) @ ''T'' @
         zero_pad 2 (tm_hour tm) @ '':'' @ zero_pad 2 (tm_min tm) @ '':'' @ zero_pad 2 (tm_sec tm) @ ''.'' @
         zero_pad 3 ms @ ''Z'')"

section \<open>Order\<close>

fun days_before :: "nat \<Rightarrow> nat \<Rightarrow> nat" where
  "days_before y 0 = 0"
| "days_before y (Suc n) = days_before y n + year_days (y + n)"

fun month_start :: "nat \<Rightarrow> nat \<Rightarrow> nat" where
  "month_start y 0 = 0"
| "month_start y (Suc m) = month_start y m + month_days y (Suc m)"

lemma days_before_first: "days_before y (Suc n) = year_days y + days_before (y + 1) n"
  by (induction n) simp_all

lemma find_year:
  "find_year y d = (y', d') \<Longrightarrow> y \<le> y' \<and> d' < year_days y' \<and> d = days_before y (y' - y) + d'"
proof (induction y d rule: find_year.induct)
  case (1 y d)
  show ?case
  proof (cases "d < year_days y")
    case True
    with 1(2) show ?thesis by (simp add: find_year.simps [of y d])
  next
    case False
    with 1(2) have "find_year (y + 1) (d - year_days y) = (y', d')" by (simp add: find_year.simps [of y d])
    with 1(1) False have "y + 1 \<le> y'" "d' < year_days y'" "d - year_days y = days_before (y + 1) (y' - (y + 1)) + d'"
      by simp_all
    moreover from this(1) have "y' - y = Suc (y' - (y + 1))" by simp
    ultimately show ?thesis using False days_before_first [of y "y' - (y + 1)"] by simp
  qed
qed

lemma find_month:
  "find_month y m d = (m', d') \<Longrightarrow> 1 \<le> m \<Longrightarrow> m \<le> 12 \<Longrightarrow>
     m \<le> m' \<and> m' \<le> 12 \<and> (m' < 12 \<longrightarrow> d' < month_days y m') \<and> month_start y (m - 1) + d = month_start y (m' - 1) + d'"
proof (induction y m d rule: find_month.induct)
  case (1 y m d)
  show ?case
  proof (cases "d < month_days y m \<or> 12 \<le> m")
    case True
    with 1(2-) show ?thesis by (auto simp: find_month.simps [of y m d])
  next
    case False
    with 1(2) have "find_month y (m + 1) (d - month_days y m) = (m', d')" by (simp add: find_month.simps [of y m d])
    moreover have "month_start y m = month_start y (m - 1) + month_days y m" using 1(3) by (cases m) simp_all
    ultimately show ?thesis using 1(1) False by auto
  qed
qed

lemma days_before_mono: "m \<le> n \<Longrightarrow> days_before y m \<le> days_before y n"
  by (rule lift_Suc_mono_le [of "days_before y"]) simp_all

lemma month_start_mono: "m \<le> n \<Longrightarrow> month_start y m \<le> month_start y n"
  by (rule lift_Suc_mono_le [of "month_start y"]) simp_all

lemma find_year_less:
  assumes "find_year y d = (a, r)" "find_year y e = (b, s)" "d < e"
  shows "a < b \<or> a = b \<and> r < s"
proof (rule ccontr)
  assume no: "\<not> ?thesis"
  note d = find_year [OF assms(1)] and e = find_year [OF assms(2)]
  from no d e assms(3) have "b < a" by (cases "a = b") auto
  then have "days_before y (Suc (b - y)) \<le> days_before y (a - y)" using e by (intro days_before_mono) arith
  then show False using d e assms(3) by simp
qed

lemma find_month_less:
  assumes "find_month y 1 d = (a, r)" "find_month y 1 e = (b, s)" "d < e"
  shows "a < b \<or> a = b \<and> r < s"
proof (rule ccontr)
  assume no: "\<not> ?thesis"
  have d: "1 \<le> a" "a \<le> 12" "d = month_start y (a - 1) + r" using find_month [OF assms(1)] by simp_all
  have e: "1 \<le> b" "b \<le> 12" "b < 12 \<longrightarrow> s < month_days y b" "e = month_start y (b - 1) + s"
    using find_month [OF assms(2)] by simp_all
  from no d e assms(3) have "b < a" by (cases "a = b") auto
  moreover have "month_start y b = month_start y (b - 1) + month_days y b" using e(1) by (cases b) simp_all
  moreover have "month_start y b \<le> month_start y (a - 1)" using \<open>b < a\<close> by (intro month_start_mono) simp
  ultimately show False using d e assms(3) by simp
qed

lemma month_start_year: "month_start y 12 = year_days y"
  by (simp add: eval_nat_numeral month_days_def year_days_def)

lemma gmtime_fields:
  assumes "gmtime t = tm"
  shows "1 \<le> tm_mon tm" "tm_mon tm \<le> 12" "1 \<le> tm_mday tm" "tm_mday tm \<le> 31" "tm_hour tm < 24" "tm_min tm < 60"
    "tm_sec tm < 60"
proof -
  obtain y d where y: "find_year 1970 (t div 86400) = (y, d)" by fastforce
  obtain m e where m: "find_month y 1 d = (m, e)" by fastforce
  have tm: "tm = \<lparr>tm_year = y, tm_mon = m, tm_mday = e + 1, tm_hour = t mod 86400 div 3600,
      tm_min = t mod 86400 mod 3600 div 60, tm_sec = t mod 86400 mod 60\<rparr>"
    using assms m by (simp add: gmtime_def y Let_def)
  have f: "1 \<le> m" "m \<le> 12" "m < 12 \<longrightarrow> e < month_days y m" "d = month_start y (m - 1) + e"
    using find_month [OF m] by simp_all
  have "d < year_days y" using find_year [OF y] by simp
  then have "e < 31" if "m = 12"
    using f(4) month_start_year [of y] that by (simp add: eval_nat_numeral month_days_def)
  moreover have "e < 31" if "m < 12"
    using f(3) that by (simp add: month_days_def split: if_splits)
  ultimately have "e < 31" using f(2) by linarith
  then show "1 \<le> tm_mon tm" "tm_mon tm \<le> 12" "1 \<le> tm_mday tm" "tm_mday tm \<le> 31" "tm_hour tm < 24" "tm_min tm < 60"
    "tm_sec tm < 60"
    using f by (simp_all add: tm less_mult_imp_div_less)
qed

text \<open>Strings compare character by character.\<close>

definition text_less :: "(string \<times> string) set" where
  "text_less = lexord {(c, d). (of_char c :: nat) < of_char d}"

lemma text_less_prefix: "length u = length v \<Longrightarrow> (u, v) \<in> text_less \<Longrightarrow> (u @ x, v @ y) \<in> text_less"
proof (induction u v rule: list_induct2)
  case (Cons a u b v)
  then show ?case by (auto simp: text_less_def)
qed (simp add: text_less_def)

lemma text_less_same: "(u @ x, u @ y) \<in> text_less \<longleftrightarrow> (x, y) \<in> text_less"
  by (induction u) (simp_all add: text_less_def)

lemma zero_pad_Suc:
  assumes "0 < k" "n < 10 ^ Suc k"
  shows "zero_pad (Suc k) n = zero_pad k (n div 10) @ [digit_char (n mod 10)]"
proof (cases "n < 10")
  case True
  have "dec_string n = [digit_char n]" "dec_string 0 = [digit_char 0]" using True by (simp_all add: dec_string.simps)
  moreover have "digit_char 0 = CHR ''0''" by code_simp
  moreover have "replicate k CHR ''0'' = replicate (k - 1) CHR ''0'' @ [CHR ''0'']"
    using assms(1) by (cases k) (simp_all add: replicate_append_same)
  ultimately show ?thesis using True by (simp add: zero_pad_def)
qed (simp add: zero_pad_def dec_string.simps [of n])

lemma digit_char_less: "a < b \<Longrightarrow> b < 10 \<Longrightarrow> (of_char (digit_char a) :: nat) < of_char (digit_char b)"
  by (simp add: digit_char_def)

lemma zero_pad_less: "0 < k \<Longrightarrow> a < b \<Longrightarrow> b < 10 ^ k \<Longrightarrow> (zero_pad k a, zero_pad k b) \<in> text_less"
proof (induction k arbitrary: a b)
  case (Suc k)
  show ?case
  proof (cases "k = 0")
    case True
    with Suc.prems have "a < 10" "b < 10" by simp_all
    then have "zero_pad (Suc k) a = [digit_char a]" "zero_pad (Suc k) b = [digit_char b]"
      by (simp_all add: True zero_pad_def dec_string.simps)
    then show ?thesis using digit_char_less [OF Suc.prems(2) \<open>b < 10\<close>] by (simp add: text_less_def)
  next
    case False
    with Suc.prems have k: "0 < k" "a < 10 ^ Suc k" by simp_all
    note pads = zero_pad_Suc [OF k(1) k(2)] zero_pad_Suc [OF k(1) Suc.prems(3)]
    have b: "b div 10 < 10 ^ k" using Suc.prems(3) by (simp add: less_mult_imp_div_less)
    have le: "a div 10 \<le> b div 10" using Suc.prems(2) by (simp add: div_le_mono)
    show ?thesis
    proof (cases "a div 10 = b div 10")
      case True
      then have "a mod 10 < b mod 10"
        using Suc.prems(2) div_mult_mod_eq [of a 10] div_mult_mod_eq [of b 10] by linarith
      then have "(of_char (digit_char (a mod 10)) :: nat) < of_char (digit_char (b mod 10))"
        by (intro digit_char_less) simp_all
      then show ?thesis
        unfolding pads True text_less_same by (simp add: text_less_def)
    next
      case False
      with le have "a div 10 < b div 10" by simp
      from Suc.IH [OF k(1) this b] show ?thesis
        unfolding pads by (intro text_less_prefix) (use b k \<open>a div 10 < b div 10\<close> in simp_all)
    qed
  qed
qed simp

text \<open>One field of a time stamp.\<close>

lemma field_less:
  assumes "0 < k" "b < 10 ^ k" "a < b \<or> a = b \<and> (x, y) \<in> text_less"
  shows "(zero_pad k a @ x, zero_pad k b @ y) \<in> text_less"
  using assms zero_pad_less [of k a b] text_less_prefix [of "zero_pad k a" "zero_pad k b" x y]
  by (auto simp: text_less_same)

text \<open>The fields of a later time, from the most significant one.\<close>

lemma div_mod_less: "(a :: nat) < b \<Longrightarrow> a div k < b div k \<or> a div k = b div k \<and> a mod k < b mod k"
  using div_le_mono [of a b k] by (metis add_less_cancel_left div_mult_mod_eq le_less less_imp_le_nat)

lemma time_less:
  fixes a b :: nat
  assumes "a < b"
  shows "a div 3600 < b div 3600 \<or> a div 3600 = b div 3600 \<and>
    (a mod 3600 div 60 < b mod 3600 div 60 \<or> a mod 3600 div 60 = b mod 3600 div 60 \<and> a mod 60 < b mod 60)"
  using div_mod_less [OF assms, of 3600] div_mod_less [of "a mod 3600" "b mod 3600" 60]
  by (auto simp: mod_mod_cancel)

lemma date_less:
  assumes "find_year 1970 a = (y, d)" "find_year 1970 b = (y', d')" "find_month y 1 d = (m, e)"
    "find_month y' 1 d' = (m', e')" "a < b"
  shows "y < y' \<or> y = y' \<and> (m < m' \<or> m = m' \<and> e < e')"
  using find_year_less [OF assms(1,2,5)] find_month_less [OF assms(3)] assms(4) by auto

lemma gmtime_less:
  assumes "t < u" "gmtime t = a" "gmtime u = b"
  shows "tm_year a < tm_year b \<or> tm_year a = tm_year b \<and> (tm_mon a < tm_mon b \<or> tm_mon a = tm_mon b \<and>
    (tm_mday a < tm_mday b \<or> tm_mday a = tm_mday b \<and> (tm_hour a < tm_hour b \<or> tm_hour a = tm_hour b \<and>
    (tm_min a < tm_min b \<or> tm_min a = tm_min b \<and> tm_sec a < tm_sec b))))"
proof -
  obtain y d where y: "find_year 1970 (t div 86400) = (y, d)" by fastforce
  obtain y' d' where y': "find_year 1970 (u div 86400) = (y', d')" by fastforce
  obtain m e where m: "find_month y 1 d = (m, e)" by fastforce
  obtain m' e' where m': "find_month y' 1 d' = (m', e')" by fastforce
  have a: "a = \<lparr>tm_year = y, tm_mon = m, tm_mday = e + 1, tm_hour = t mod 86400 div 3600,
      tm_min = t mod 86400 mod 3600 div 60, tm_sec = t mod 86400 mod 60\<rparr>"
    using m assms(2) by (simp add: gmtime_def y Let_def)
  have b: "b = \<lparr>tm_year = y', tm_mon = m', tm_mday = e' + 1, tm_hour = u mod 86400 div 3600,
      tm_min = u mod 86400 mod 3600 div 60, tm_sec = u mod 86400 mod 60\<rparr>"
    using m' assms(3) by (simp add: gmtime_def y' Let_def)
  from div_mod_less [OF assms(1), of 86400] show ?thesis
  proof
    assume "t div 86400 < u div 86400"
    from date_less [OF y y' m m' this] show ?thesis by (auto simp: a b)
  next
    assume same: "t div 86400 = u div 86400 \<and> t mod 86400 < u mod 86400"
    then have "y = y'" "d = d'" using y y' by simp_all
    then have "m = m'" "e = e'" using m m' by simp_all
    with \<open>y = y'\<close> time_less [of "t mod 86400" "u mod 86400"] same show ?thesis by (simp add: a b)
  qed
qed

lemma iso_length:
  assumes "tm_year (gmtime (now div 1000)) < 10000"
  shows "length (iso_utc_now now) = 24"
  using gmtime_fields [OF refl, of "now div 1000"] assms by (simp add: iso_utc_now_def Let_def)

section \<open>Properties\<close>

text \<open>
  C24: Until the year 10000 a time stamp has the 24 characters of \<open>YYYY-MM-DDTHH:MM:SS.mmmZ\<close>, and time stamps
  compare as strings as the times compare: a later one is greater, character by character.
\<close>

theorem timestamps_ordered:
  assumes "tm_year (gmtime (later div 1000)) < 10000" "now < later"
  shows "length (iso_utc_now now) = 24 \<and> length (iso_utc_now later) = 24 \<and>
    (iso_utc_now now, iso_utc_now later) \<in> text_less"
proof -
  define a b where "a = gmtime (now div 1000)" and "b = gmtime (later div 1000)"
  note fb = gmtime_fields [OF b_def [symmetric]]
  have bounds: "tm_year b < 10 ^ 4" "tm_mon b < 10 ^ 2" "tm_mday b < 10 ^ 2" "tm_hour b < 10 ^ 2" "tm_min b < 10 ^ 2"
    "tm_sec b < 10 ^ 2" "later mod 1000 < 10 ^ 3"
    using fb assms(1) by (simp_all add: b_def)
  have order: "tm_year a < tm_year b \<or> tm_year a = tm_year b \<and> (tm_mon a < tm_mon b \<or> tm_mon a = tm_mon b \<and>
    (tm_mday a < tm_mday b \<or> tm_mday a = tm_mday b \<and> (tm_hour a < tm_hour b \<or> tm_hour a = tm_hour b \<and>
    (tm_min a < tm_min b \<or> tm_min a = tm_min b \<and> (tm_sec a < tm_sec b \<or> tm_sec a = tm_sec b \<and>
      now mod 1000 < later mod 1000)))))"
    using div_mod_less [OF assms(2), of 1000] gmtime_less [OF _ a_def [symmetric] b_def [symmetric]]
    by (auto simp: a_def b_def)
  then have "tm_year a < 10000" using bounds(1) by auto
  moreover have "(iso_utc_now now, iso_utc_now later) \<in> text_less"
    unfolding iso_utc_now_def Let_def a_def [symmetric] b_def [symmetric]
    using order
    by (intro field_less bounds) (auto simp: text_less_same [of "[c]" for c, simplified] intro!: field_less bounds)
  ultimately show ?thesis using iso_length assms(1) by (simp add: a_def)
qed

theorem timestamps_ordered_witness:
  "length (iso_utc_now 0) = 24 \<and> length (iso_utc_now 86400001) = 24 \<and>
    (iso_utc_now 0, iso_utc_now 86400001) \<in> text_less"
  by (rule timestamps_ordered)
    (simp_all add: gmtime_def find_year.simps [of 1970 "Suc 0"] year_days_def split: prod.split)

end
