(* ===== verification/Bench_Stats.thy ===== *)
theory Bench_Stats
  imports Calculator
begin

text \<open>
  The benchmark of bench/mcp_bench.cpp: its server, the summary of the samples (\<open>summarize\<close>) and the report of one
  measurement (\<open>print_latency\<close>), in the arithmetic of \<open>Ieee_Double\<close>. The clock is an argument: a sample is a number
  of nanoseconds. The loops that call the library and take the times are not modelled.

  Lemmas: rounding is monotone, so the index of a percentile stays inside the samples and the summary is in order.
\<close>

section \<open>The server\<close>

definition bench_schema :: "'j json_ops \<Rightarrow> 'j" where
  "bench_schema J = j_init J
     [(''type'', j_string J ''object''),
      (''properties'', j_init J
         [(''a'', j_init J [(''type'', j_string J ''number'')]), (''b'', j_init J [(''type'', j_string J ''number'')])]),
      (''required'', j_array J [j_string J ''a'', j_string J ''b''])]"

definition bench_tool :: "'j json_ops \<Rightarrow> ('j, 's) ToolHandler" where
  "bench_tool J args app =
     (ebind (operands J args) (\<lambda>(a, b). Inr
        \<lparr>ctr_content = [BlockTextContent \<lparr>text_text = double_to_string (double_add a b), text_annotations = None\<rparr>],
         ctr_structured_content = None, ctr_is_error = None, ctr_meta = None\<rparr>), app)"

definition bench_server :: "'j json_ops \<Rightarrow> 's \<Rightarrow> ('j, 's) Server" where
  "bench_server J app =
     add_tool ''add'' (bench_schema J) (Some (bench_tool J)) None None None None
       (Server_init \<lparr>impl_name = ''bench'', impl_title = None, impl_version = ''1.0.0'',
          impl_description = None, impl_website_url = None, impl_icons = None, impl_meta = None\<rparr> app)"

section \<open>The summary\<close>

record Stats =
  st_mean :: double
  st_p50 :: double
  st_p90 :: double
  st_p99 :: double
  st_p999 :: double
  st_max :: double
  st_min :: double

text \<open>The conversion of a double to \<open>size_t\<close> drops the fraction.\<close>

definition percentile_index :: "rat \<Rightarrow> nat \<Rightarrow> nat" where
  "percentile_index p cnt =
     nat \<lfloor>double_value (double_mul (round_double p) (double_of_int (int cnt - 1)))\<rfloor>"

text \<open>
  The samples hold no NaN. \<open>None\<close>: \<open>back\<close> and \<open>front\<close> of an empty vector, or an index out of range, are
  undefined.
\<close>

definition percentile :: "double list \<Rightarrow> rat \<Rightarrow> double option" where
  "percentile v p =
     (if v = [] then Some (DFin 0)
      else if percentile_index p (length v) < length v then Some (v ! percentile_index p (length v)) else None)"

definition summarize :: "double list \<Rightarrow> (Stats \<times> double list) option" where
  "summarize v =
     (let v = sort_key double_value v;
          total = fold (\<lambda>x sum. double_add sum x) v (DFin 0)
      in case (percentile v (1 / 2), percentile v (9 / 10), percentile v (99 / 100), percentile v (999 / 1000)) of
           (Some p50, Some p90, Some p99, Some p999) \<Rightarrow>
             if v = [] then None
             else Some (\<lparr>st_mean = double_div total (double_of_int (int (length v))), st_p50 = p50, st_p90 = p90,
                         st_p99 = p99, st_p999 = p999, st_max = last v, st_min = hd v\<rparr>, v)
         | _ \<Rightarrow> None)"

text \<open>\<open>printf\<close> with \<open>%w.kf\<close>.\<close>

definition fixed :: "nat \<Rightarrow> rat \<Rightarrow> string" where
  "fixed k r =
     (let n = nat (nearest_even (r * 10 ^ k))
      in dec_string (n div 10 ^ k) @ (if k = 0 then [] else ''.'' @ zero_pad k (n mod 10 ^ k)))"

fun format_double :: "nat \<Rightarrow> double \<Rightarrow> string" where
  "format_double k (DFin r) = (if r < 0 then ''-'' else []) @ fixed k \<bar>r\<bar>"
| "format_double k DNegZero = ''-'' @ fixed k 0"
| "format_double k (DInf s) = (if s then ''-inf'' else ''inf'')"
| "format_double k DNaN = ''nan''"

definition pad_left :: "nat \<Rightarrow> string \<Rightarrow> string" where
  "pad_left w s = replicate (w - length s) CHR '' '' @ s"

definition latency_line :: "string \<Rightarrow> double \<Rightarrow> string" where
  "latency_line label d = label @ pad_left 8 (format_double 2 (double_div d (DFin 1000))) @ '' us'' @ [CHR 0x0A]"

definition print_latency :: "string \<Rightarrow> double list \<Rightarrow> double \<Rightarrow> (string \<times> double list) option" where
  "print_latency name samples wall_s =
     map_option (\<lambda>(s, samples).
       ([CHR 0x0A] @ name @ ''  (n='' @ dec_string (length samples) @ '')'' @ [CHR 0x0A] @
        ''  throughput : '' @ pad_left 10 (format_double 0 (double_div (double_of_int (int (length samples))) wall_s)) @
          '' calls/sec'' @ [CHR 0x0A] @
        latency_line ''  mean       : '' (st_mean s) @ latency_line ''  min        : '' (st_min s) @
        latency_line ''  p50        : '' (st_p50 s) @ latency_line ''  p90        : '' (st_p90 s) @
        latency_line ''  p99        : '' (st_p99 s) @ latency_line ''  p99.9      : '' (st_p999 s) @
        latency_line ''  max        : '' (st_max s), samples)) (summarize samples)"

section \<open>Monotone rounding\<close>

lemma round_double_upto:
  assumes "0 \<le> r" "r \<le> hi" "representable hi"
  obtains v where "round_double r = DFin v" "0 \<le> v" "v \<le> hi"
proof (cases "r = 0")
  case False
  then have r: "0 < r" using assms(1) by simp
  have "\<bar>round_mag r - r\<bar> \<le> \<bar>hi - r\<bar>" by (rule round_mag_nearest [OF r assms(3)])
  then have le: "round_mag r \<le> hi" using assms(2) by linarith
  moreover have "hi < double_limit" using assms(3) by (auto simp: representable_def)
  ultimately have "round_double r = DFin (round_mag r)" using r by (simp add: round_double_def Let_def)
  then show thesis using that le round_mag_nonneg [OF r] by blast
qed (use assms that in \<open>simp add: round_double_def\<close>)

lemma round_double_from:
  "round_double r = DFin v \<Longrightarrow> representable lo \<Longrightarrow> lo \<le> r \<Longrightarrow> lo \<le> v"
  using round_double_nearest [of r v lo] by linarith

lemma round_double_mono:
  assumes "round_double x = DFin u" "round_double y = DFin v" "x \<le> y"
  shows "u \<le> v"
proof (rule ccontr)
  assume less: "\<not> u \<le> v"
  have "representable u" "representable v"
    using round_double_wf [of x] round_double_wf [of y] assms(1,2) by simp_all
  then have "\<bar>u - x\<bar> \<le> \<bar>v - x\<bar>" "\<bar>v - y\<bar> \<le> \<bar>u - y\<bar>"
    using round_double_nearest assms(1,2) by blast+
  then have "x = y" using less assms(3) by linarith
  then show False using assms(1,2) less by simp
qed

lemma double_mul_nonneg:
  "0 \<le> a \<Longrightarrow> 0 \<le> b \<Longrightarrow> double_mul (DFin a) (DFin b) = round_double (a * b)"
  by (auto simp: double_mul_def double_is_zero_def double_zero_def round_double_def)

section \<open>Percentiles\<close>

lemma representable_nat: "n \<le> 2 ^ 53 \<Longrightarrow> representable (of_nat n)"
  using representable_of_int [of "int n"] by simp

text \<open>What the index of a percentile comes from.\<close>

lemma percentile_product:
  assumes "0 \<le> p" "p \<le> 1" "0 < cnt" "cnt \<le> 2 ^ 53"
  obtains q x where "round_double p = DFin q" "0 \<le> q" "round_double (q * of_nat (cnt - 1)) = DFin x"
    "0 \<le> x" "x \<le> of_nat (cnt - 1)" "percentile_index p cnt = nat \<lfloor>x\<rfloor>"
proof -
  have "representable 1" using representable_nat [of 1] by simp
  with assms(1,2) obtain q where q: "round_double p = DFin q" "0 \<le> q" "q \<le> 1" by (rule round_double_upto)
  have "q * of_nat (cnt - 1) \<le> of_nat (cnt - 1)" using q(3) by (simp add: mult_left_le_one_le q(2))
  moreover have "representable (of_nat (cnt - 1))" using assms(4) by (intro representable_nat) simp
  ultimately obtain x where x: "round_double (q * of_nat (cnt - 1)) = DFin x" "0 \<le> x" "x \<le> of_nat (cnt - 1)"
    using q(2) round_double_upto [of "q * of_nat (cnt - 1)"] by force
  have "double_of_int (int cnt - 1) = DFin (of_nat (cnt - 1))"
    using double_of_int_exact [of "int cnt - 1"] assms(3,4) by (simp add: of_nat_diff)
  then have "percentile_index p cnt = nat \<lfloor>x\<rfloor>"
    using x(1) by (simp only: percentile_index_def q double_mul_nonneg of_nat_0_le_iff double_value.simps)
  then show thesis using that q x by blast
qed

lemma percentile_index_less:
  assumes "0 \<le> p" "p \<le> 1" "0 < cnt" "cnt \<le> 2 ^ 53"
  shows "percentile_index p cnt < cnt"
proof -
  obtain x :: rat where x: "x \<le> of_nat (cnt - 1)" "percentile_index p cnt = nat \<lfloor>x\<rfloor>"
    using percentile_product [OF assms] by metis
  have "\<lfloor>x\<rfloor> \<le> int (cnt - 1)" using floor_mono [OF x(1)] by simp
  then show ?thesis using x(2) assms(3) by linarith
qed

lemma percentile_index_mono:
  assumes "0 \<le> p" "p \<le> q" "q \<le> 1" "0 < cnt" "cnt \<le> 2 ^ 53"
  shows "percentile_index p cnt \<le> percentile_index q cnt"
proof -
  have p1: "p \<le> 1" and q0: "0 \<le> q" using assms(1-3) by simp_all
  obtain a x where a: "round_double p = DFin a" "round_double (a * of_nat (cnt - 1)) = DFin x"
      "percentile_index p cnt = nat \<lfloor>x\<rfloor>"
    using percentile_product [OF assms(1) p1 assms(4,5)] by metis
  obtain b y where b: "round_double q = DFin b" "round_double (b * of_nat (cnt - 1)) = DFin y"
      "percentile_index q cnt = nat \<lfloor>y\<rfloor>"
    using percentile_product [OF q0 assms(3-5)] by metis
  have "a \<le> b" using round_double_mono [OF a(1) b(1)] assms(2) by simp
  then have "x \<le> y" using round_double_mono [OF a(2) b(2)] by (simp add: mult_right_mono)
  then show ?thesis by (simp add: a b floor_mono nat_mono)
qed

text \<open>The index of the median is exact.\<close>

lemma percentile_index_half:
  assumes "0 < cnt" "cnt \<le> 2 ^ 53"
  shows "percentile_index (1 / 2) cnt = (cnt - 1) div 2"
proof -
  have half: "representable (of_nat n / 2)" if "n < 2 ^ 53" for n
  proof (rule representableI [where m = "int n" and e = "- 1"])
    have "(of_nat n :: rat) < of_nat (2 ^ 53)" using that by (simp only: of_nat_less_iff)
    then have "(of_nat n :: rat) < 2 ^ 53" by simp
    then show "\<bar>of_nat n / 2\<bar> < double_limit" using double_limit(1) by linarith
    have "int n < int (2 ^ 53)" using that by (simp only: of_nat_less_iff)
    then show "\<bar>int n\<bar> \<le> 2 ^ 53" by simp
  qed (simp_all add: power_int_minus)
  have "round_double (1 / 2) = DFin (1 / 2)" using round_double_exact [OF half [of 1]] by simp
  moreover have "round_double (of_nat (cnt - 1) / 2) = DFin (of_nat (cnt - 1) / 2)"
    using assms by (intro round_double_exact half) simp
  moreover have "double_of_int (int cnt - 1) = DFin (of_nat (cnt - 1))"
    using double_of_int_exact [of "int cnt - 1"] assms by (simp add: of_nat_diff)
  moreover have "\<lfloor>of_nat n / (2 :: rat)\<rfloor> = int (n div 2)" for n
    using floor_divide_of_nat_eq [of n 2, where 'a = rat] by simp
  ultimately show ?thesis by (simp add: percentile_index_def double_mul_nonneg)
qed

section \<open>The samples\<close>

text \<open>Whole numbers of nanoseconds are sorted and added exactly.\<close>

lemma sort_samples:
  assumes "\<forall>n\<in>set ns. \<bar>n\<bar> \<le> 2 ^ 53"
  shows "sort_key double_value (map double_of_int ns) = map double_of_int (sort ns)"
proof -
  have insert: "insort_key double_value (double_of_int n) (map double_of_int ms) = map double_of_int (insort n ms)"
    if "\<bar>n\<bar> \<le> 2 ^ 53" "\<forall>m\<in>set ms. \<bar>m\<bar> \<le> 2 ^ 53" for n ms
    using that by (induction ms) (simp_all add: double_of_int_exact)
  show ?thesis using assms by (induction ns) (simp_all add: insert)
qed

lemma add_samples:
  assumes "\<forall>n\<in>set ns. 0 \<le> n" "0 \<le> s" "s + sum_list ns \<le> 2 ^ 53"
  shows "fold (\<lambda>x sum. double_add sum x) (map double_of_int ns) (DFin (of_int s)) = DFin (of_int (s + sum_list ns))"
  using assms
proof (induction ns arbitrary: s)
  case (Cons n ns)
  have "0 \<le> sum_list ns" using Cons.prems(1) by (simp add: sum_list_nonneg)
  then have "\<bar>n\<bar> \<le> 2 ^ 53" "\<bar>s + n\<bar> \<le> 2 ^ 53" using Cons.prems by auto
  then have "double_add (DFin (of_int s)) (double_of_int n) = DFin (of_int (s + n))"
    using double_int_ops(1) [of s n] by (simp add: double_of_int_exact)
  then show ?case using Cons.IH [of "s + n"] Cons.prems by (simp add: add.assoc)
qed simp

text \<open>
  For samples of whole nanoseconds whose total needs at most 53 bits: the summary holds the least and the greatest
  sample, the lower median, percentiles in order, and the correctly rounded mean, which lies between the extremes.
\<close>

lemma member_le_total: "\<forall>n\<in>set ns. 0 \<le> n \<Longrightarrow> (n :: int) \<in> set ns \<Longrightarrow> n \<le> sum_list ns"
proof (induction ns)
  case (Cons m ns)
  then have "0 \<le> m" "0 \<le> sum_list ns" by (simp_all add: sum_list_nonneg)
  then show ?case using Cons by fastforce
qed simp

text \<open>The mean of numbers lies between their bounds.\<close>

lemma mean_between:
  assumes "ns \<noteq> []" "\<forall>n\<in>set ns. a \<le> n \<and> n \<le> (b :: int)"
  shows "of_int a \<le> of_int (sum_list ns) / (of_nat (length ns) :: rat)"
    and "of_int (sum_list ns) / (of_nat (length ns) :: rat) \<le> of_int b"
proof -
  have "a * int (length ns) \<le> sum_list ns \<and> sum_list ns \<le> b * int (length ns)"
    using assms(2) by (induction ns) (auto simp: distrib_left)
  then have "of_int (a * int (length ns)) \<le> (of_int (sum_list ns) :: rat)"
    "(of_int (sum_list ns) :: rat) \<le> of_int (b * int (length ns))"
    by (simp_all only: of_int_le_iff)
  then show "of_int a \<le> of_int (sum_list ns) / (of_nat (length ns) :: rat)"
    "of_int (sum_list ns) / (of_nat (length ns) :: rat) \<le> of_int b"
    using assms(1) by (simp_all add: pos_le_divide_eq pos_divide_le_eq)
qed

lemma rounded_mean_between:
  assumes "ns \<noteq> []" "\<forall>n\<in>set ns. a \<le> n \<and> n \<le> b" "0 \<le> a" "b \<le> 2 ^ 53"
  shows "of_int a \<le> double_value (round_double (of_int (sum_list ns) / of_nat (length ns)))"
    and "double_value (round_double (of_int (sum_list ns) / of_nat (length ns))) \<le> of_int b"
proof -
  let ?m = "of_int (sum_list ns) / (of_nat (length ns) :: rat)"
  note m = mean_between [OF assms(1,2)]
  have "a \<le> b" using assms(1,2) by (cases ns) auto
  then have "representable (of_int a)" "representable (of_int b)" using assms(3,4) representable_of_int by simp_all
  moreover have "0 \<le> ?m" using m(1) assms(3) by (meson of_int_0_le_iff order_trans)
  then obtain v where v: "round_double ?m = DFin v" "v \<le> of_int b"
    using round_double_upto [OF _ m(2)] calculation(2) by blast
  ultimately have "of_int a \<le> v" using round_double_from [OF v(1) _ m(1)] by blast
  then show "of_int a \<le> double_value (round_double ?m)" "double_value (round_double ?m) \<le> of_int b"
    using v by simp_all
qed

lemma ends_of_sorted:
  assumes "xs \<noteq> []" "sorted xs" "n \<in> set xs"
  shows "hd xs \<le> n" "n \<le> last xs"
  using assms by (induction xs) auto

lemma percentile_sorted:
  assumes "0 \<le> p" "p \<le> 1" "v \<noteq> []" "length v \<le> 2 ^ 53"
  shows "percentile v p = Some (v ! percentile_index p (length v))"
  using percentile_index_less [OF assms(1,2) _ assms(4)] assms(3) by (simp add: percentile_def)

text \<open>The summary of sorted samples.\<close>

definition stats_of :: "int list \<Rightarrow> Stats" where
  "stats_of xs =
     (let pct = (\<lambda>p. double_of_int (xs ! percentile_index p (length xs)))
      in \<lparr>st_mean = round_double (of_int (sum_list xs) / of_nat (length xs)), st_p50 = pct (1 / 2), st_p90 = pct (9 / 10),
          st_p99 = pct (99 / 100), st_p999 = pct (999 / 1000), st_max = double_of_int (last xs),
          st_min = double_of_int (hd xs)\<rparr>)"

definition samples_ok :: "int list \<Rightarrow> bool" where
  "samples_ok ns \<longleftrightarrow> ns \<noteq> [] \<and> (\<forall>n\<in>set ns. 0 \<le> n) \<and> sum_list ns \<le> 2 ^ 53 \<and> length ns \<le> 2 ^ 53"

lemma samples_okD:
  assumes "samples_ok ns"
  shows "ns \<noteq> []" "\<And>n. n \<in> set ns \<Longrightarrow> 0 \<le> n" "sum_list ns \<le> 2 ^ 53" "length ns \<le> 2 ^ 53"
    "\<And>n. n \<in> set ns \<Longrightarrow> \<bar>n\<bar> \<le> 2 ^ 53"
proof -
  show "ns \<noteq> []" "sum_list ns \<le> 2 ^ 53" "length ns \<le> 2 ^ 53" "\<And>n. n \<in> set ns \<Longrightarrow> 0 \<le> n"
    using assms by (simp_all add: samples_ok_def)
  show "\<bar>n\<bar> \<le> 2 ^ 53" if "n \<in> set ns" for n
    using assms member_le_total [OF _ that] that by (fastforce simp: samples_ok_def)
qed

lemma samples_ok_sort [simp]: "samples_ok (sort ns) = samples_ok ns"
proof -
  have "sum_list (sort ns) = sum_list ns" by (simp flip: sum_mset_sum_list)
  moreover have "sort ns = [] \<longleftrightarrow> ns = []" using length_sort [of "\<lambda>x. x" ns] by (metis length_0_conv)
  ultimately show ?thesis by (simp add: samples_ok_def)
qed

lemma summarize_samples:
  assumes "samples_ok ns"
  shows "summarize (map double_of_int ns) = Some (stats_of (sort ns), map double_of_int (sort ns))"
proof -
  define xs where "xs = sort ns"
  have ok: "samples_ok xs" using assms by (simp add: xs_def)
  note xs = samples_okD [OF ok]
  have "percentile (map double_of_int xs) p = Some (double_of_int (xs ! percentile_index p (length xs)))"
    if "0 \<le> p" "p \<le> 1" for p
    using percentile_sorted [OF that, of "map double_of_int xs"] percentile_index_less [OF that, of "length xs"] xs(1,4)
    by simp
  moreover have "double_div (DFin (of_int (sum_list xs))) (double_of_int (int (length xs))) =
      round_double (of_int (sum_list xs) / of_nat (length xs))"
    using xs by (auto simp: double_of_int_exact double_div_def double_is_zero_def double_zero_def round_double_def
        sum_list_nonneg)
  ultimately show ?thesis
    using xs add_samples [of xs 0] sort_samples [of ns] samples_okD(5) [OF assms]
    by (simp add: summarize_def stats_of_def Let_def hd_map last_map flip: xs_def)
qed

lemma value_of_sample: "samples_ok xs \<Longrightarrow> i < length xs \<Longrightarrow> double_value (double_of_int (xs ! i)) = of_int (xs ! i)"
  using samples_okD(5) [of xs "xs ! i"] by (simp only: nth_mem double_of_int_exact double_value.simps)

lemma percentiles_in_order:
  assumes "samples_ok xs" "sorted xs"
  shows "sorted (map double_value [st_min (stats_of xs), st_p50 (stats_of xs), st_p90 (stats_of xs),
     st_p99 (stats_of xs), st_p999 (stats_of xs), st_max (stats_of xs)])"
proof -
  note xs = samples_okD [OF assms(1)]
  have less: "percentile_index p (length xs) < length xs" if "0 \<le> p" "p \<le> 1" for p
    using percentile_index_less [OF that, of "length xs"] xs(1,4) by simp
  moreover have "xs ! percentile_index p (length xs) \<le> xs ! percentile_index q (length xs)"
    if "0 \<le> p" "p \<le> q" "q \<le> 1" for p q
    using percentile_index_mono [OF that, of "length xs"] less [of q] that assms(2) xs(1,4)
    by (intro sorted_nth_mono) simp_all
  moreover have "xs ! 0 \<le> xs ! i" "xs ! i \<le> xs ! (length xs - 1)" if "i < length xs" for i
    using that assms(2) by (auto intro!: sorted_nth_mono)
  ultimately show ?thesis
    using xs(1) value_of_sample [OF assms(1)] by (simp add: stats_of_def Let_def hd_conv_nth last_conv_nth)
qed

lemma mean_in_order:
  assumes "samples_ok xs" "sorted xs"
  shows "sorted (map double_value [st_min (stats_of xs), st_mean (stats_of xs), st_max (stats_of xs)])"
proof -
  note xs = samples_okD [OF assms(1)]
  have ends: "hd xs \<in> set xs" "last xs \<in> set xs" using xs(1) by simp_all
  then have "0 \<le> hd xs" "last xs \<le> 2 ^ 53" using xs(2) xs(5) [of "last xs"] by auto
  moreover have "\<forall>n\<in>set xs. hd xs \<le> n \<and> n \<le> last xs" using ends_of_sorted [OF xs(1) assms(2)] by blast
  ultimately have "of_int (hd xs) \<le> double_value (st_mean (stats_of xs))"
      "double_value (st_mean (stats_of xs)) \<le> of_int (last xs)"
    using rounded_mean_between [OF xs(1)] by (simp_all add: stats_of_def Let_def)
  then show ?thesis
    using value_of_sample [OF assms(1)] xs(1) by (simp add: stats_of_def Let_def hd_conv_nth last_conv_nth)
qed

theorem summary_in_order:
  assumes "samples_ok ns"
  shows "\<exists>s. summarize (map double_of_int ns) = Some (s, map double_of_int (sort ns)) \<and>
     (\<forall>n\<in>set ns. double_value (st_min s) \<le> of_int n \<and> of_int n \<le> double_value (st_max s)) \<and>
     {st_min s, st_p50 s, st_p90 s, st_p99 s, st_p999 s, st_max s} \<subseteq> double_of_int ` set ns \<and>
     st_p50 s = double_of_int (sort ns ! ((length ns - 1) div 2)) \<and>
     sorted (map double_value [st_min s, st_p50 s, st_p90 s, st_p99 s, st_p999 s, st_max s]) \<and>
     st_mean s = round_double (of_int (sum_list ns) / of_nat (length ns)) \<and>
     sorted (map double_value [st_min s, st_mean s, st_max s])"
proof -
  define xs s where "xs = sort ns" and "s = stats_of (sort ns)"
  have ok: "samples_ok xs" and "sorted xs" using assms by (simp_all add: xs_def)
  note xs = samples_okD [OF ok]
  have same: "set xs = set ns" "length xs = length ns" "sum_list xs = sum_list ns"
    by (simp_all add: xs_def flip: sum_mset_sum_list)
  have "double_value (st_min s) \<le> of_int n \<and> of_int n \<le> double_value (st_max s)" if "n \<in> set ns" for n
    using ends_of_sorted [OF xs(1) \<open>sorted xs\<close>, of n] that value_of_sample [OF ok] xs(1) same(1)
    by (simp add: s_def stats_of_def Let_def hd_conv_nth last_conv_nth flip: xs_def)
  moreover have "double_of_int (xs ! percentile_index p (length xs)) \<in> double_of_int ` set ns"
    if "0 \<le> p" "p \<le> 1" for p
    using percentile_index_less [OF that, of "length xs"] xs(1,4) nth_mem [of _ xs] same(1) by simp
  then have "{st_min s, st_p50 s, st_p90 s, st_p99 s, st_p999 s, st_max s} \<subseteq> double_of_int ` set ns"
    using xs(1) same(1) hd_in_set [OF xs(1)] last_in_set [OF xs(1)]
    by (simp add: s_def stats_of_def Let_def flip: xs_def)
  moreover have "st_p50 s = double_of_int (xs ! ((length ns - 1) div 2))"
    using percentile_index_half [of "length xs"] xs(4) same(2) samples_okD(1) [OF assms] by (simp add: s_def stats_of_def Let_def flip: xs_def)
  moreover have "st_mean s = round_double (of_int (sum_list ns) / of_nat (length ns))"
    using same by (simp add: s_def stats_of_def Let_def flip: xs_def)
  ultimately show ?thesis
    using summarize_samples [OF assms] percentiles_in_order [OF ok \<open>sorted xs\<close>] mean_in_order [OF ok \<open>sorted xs\<close>]
    unfolding s_def xs_def by blast
qed

text \<open>Without samples the last element of an empty vector is read.\<close>

theorem no_samples_undefined: "summarize [] = None" "print_latency name [] wall_s = None"
  by (simp_all add: summarize_def print_latency_def percentile_def)

end
