(* ===== verification/Spec2Isabelle.thy ===== *)
theory Spec2Isabelle
  imports Stdio_Transport Pagination Rpc_Envelope Proto_Core Proto_Content Proto_Tools
    Proto_Resources Proto_Utilities Proto_Sampling Json_Value Task_Store Session Server
    Server_Laws Wire Http_Client Client Http_Stack Http_Push Mcp_Log Notes_Service Notes_Server
    Ieee_Double Calculator Echo_Server Simple_Client Stdio_Descriptors Timeout_Loop Server_Run Timestamps
    Bench_Stats
begin

text \<open>
  A verification development for mcp-cpp, a C++ library for the Model Context Protocol (MCP):
  JSON-RPC 2.0 sessions over a transport, with a server and a client on top.

  \<^bold>\<open>The program.\<close> A \<open>Transport\<close> (include/mcp/transport.hpp) carries text frames. The \<open>Session\<close>
  (src/session.cpp) parses them with src/protocol.cpp, runs requests on worker threads, and matches
  responses to the promises of the requests it sent. The \<open>Server\<close> (src/server.cpp) registers
  tools, resources and prompts, installs its handlers in a session and keeps a \<open>TaskStore\<close> of
  long-running calls; the \<open>Client\<close> (src/client.cpp) sends the requests of the protocol and answers
  those of the server. Frames travel over pipes (src/stdio_transport.cpp) or over HTTP: the
  \<open>HttpClientTransport\<close> (src/http_client_transport.cpp) posts each frame and reads a stream of
  server-sent events, the \<open>HttpServerHost\<close> (src/http_server_host.cpp) keeps one server with its own
  \<open>HttpSessionTransport\<close> per session.

  \<^bold>\<open>Theories.\<close>

  \<^item> Mcp_Prelude: error sums and their combinators, decimal strings, lemmas on 64-bit words.
  \<^item> Ieee_Double: the arithmetic of \<open>double\<close>, correctly rounded, and the text of \<open>std::to_string\<close>.
  \<^item> Json_Lib: nlohmann::json as a parameter (the record \<open>json_ops\<close>) with its documented behaviour
    as the locale \<open>json_lib\<close>; exceptions; the helpers of src/protocol.cpp (\<open>require\<close>,
    \<open>take_optional\<close>, ...); the locale \<open>codec\<close> of a \<open>to_json\<close>/\<open>from_json\<close> pair.
  \<^item> Json_Value: JSON values with a printer and a parser, on which \<open>json_lib\<close> is interpreted; the
    witnesses run on it.
  \<^item> Rpc_Envelope: request ids, requests, notifications, responses, \<open>parse_message\<close> and
    \<open>serialize_message\<close> (src/protocol.cpp).
  \<^item> Proto_Core, Proto_Content, Proto_Tools, Proto_Resources, Proto_Utilities, Proto_Sampling: the
    message types of include/mcp/protocol.hpp with their \<open>to_json\<close> and \<open>from_json\<close>; each pair is a
    \<open>sublocale\<close> of \<open>codec\<close>, whose law is the round trip, for values that satisfy its \<open>_wf\<close> predicate.
  \<^item> Stdio_Transport: src/stdio_transport.cpp, \<open>send\<close>, the framing of \<open>read_loop\<close>, start and close.
  \<^item> Stdio_Descriptors: the file descriptors of that transport from construction to destruction, with the loop of
    \<open>quiet_close\<close> call by call, and those of a spawned server; two concurrent calls of \<open>close\<close>.
  \<^item> Pagination: \<open>decode_cursor\<close> and \<open>paginate\<close> of src/server.cpp.
  \<^item> Task_Store: \<open>detail::TaskStore\<close> of src/server.cpp; the locale \<open>task_registry\<close> is its contract.
  \<^item> Timestamps: the time stamps of tasks, \<open>iso_utc_now\<close> of src/server.cpp.
  \<^item> Session: src/session.cpp; \<open>session_step\<close> interleaves its critical sections.
  \<^item> Timeout_Loop: the timeout thread of the session and its condition variable; \<open>loop_step\<close> interleaves it with
    what the other threads do to the table.
  \<^item> Server: the state, registration, handlers and life cycle of src/server.cpp.
  \<^item> Server_Run: \<open>Server::run\<close> as a thread beside \<open>stop\<close> and the closing of the transport; \<open>run_step\<close> interleaves
    them.
  \<^item> Server_Laws: what those handlers guarantee.
  \<^item> Wire: two sessions over a transport; the locale \<open>frame_channel\<close> is the transport's contract,
    interpreted on the stdio transport.
  \<^item> Sse: server-sent events, \<open>drain_sse\<close> of src/http_client_transport.cpp and the writer of the
    host's GET stream; the second interpretation of \<open>frame_channel\<close>.
  \<^item> Http_Transport: \<open>HttpSessionTransport\<close> of src/http_server_host.cpp, where a POST waits for the
    response to its request; \<open>hs_step\<close> interleaves its critical sections.
  \<^item> Http_Auth: the gates of the host: origins, CORS, bearer authorization and its challenges.
  \<^item> Http_Host: the handlers of the host, its map of sessions, \<open>start\<close> and \<open>stop\<close>; \<open>host_step\<close>
    interleaves requests and teardowns.
  \<^item> Http_Client: src/http_client_transport.cpp, the POST replies, the GET loop, the send queue;
    \<open>client_step\<close> interleaves its threads.
  \<^item> Client: src/client.cpp, connect, initialize, one function per request, the handlers; calls from
    end to end between a client and a server.
  \<^item> Http_Stack: \<open>Client\<close>, \<open>Http_Client\<close>, \<open>Http_Host\<close>, \<open>Http_Transport\<close> and \<open>Server\<close> composed: one exchange of
    the client over a POST, and the link of client and host by a session that it keeps.
  \<^item> Http_Push: the other direction, a request of the server that is pushed into the GET stream and answered by a
    POST.
  \<^item> Mcp_Log: src/log.cpp, levels, sinks and the line of the default sink.
  \<^item> Notes_Service, Notes_Server: examples/mcp_notes_server/main.cpp, a server that keeps notes in SQLite,
    as a client of the library. SQLite is the record \<open>sqlite\<close>; the locale \<open>sql_engine\<close> states what it
    documents: a statement of \<open>Sql_Statements\<close> that runs to its end has its meaning on the rows of the table, one
    that fails leaves them.
  \<^item> Sql_Statements: reading the text of an upsert, of a query and of a delete by one column, and their meaning. It
    models no code of the repository but the language of its statements.
  \<^item> Calculator, Echo_Server, Simple_Client: the programs examples/calculator_server,
    examples/http_calculator_server, examples/http_echo_server and examples/simple_client.
  \<^item> Bench_Stats: the server, the summary and the report of bench/mcp_bench.cpp.

  \<^bold>\<open>Correspondence.\<close> A C++ struct is a record with prefixed fields, an enum or variant a datatype,
  \<open>std::optional\<close> an option, a \<open>double\<close> its rational value or one of negative zero, the infinities and
  NaN, \<open>std::int64_t\<close> and \<open>std::size_t\<close> are 64-bit words. An
  \<open>unordered_map\<close> is an association list with distinct keys whose order stands for the container's
  iteration order. A throw is \<open>Inl\<close> of an \<open>exc\<close>; undefined behaviour is the exception
  \<open>Undefined\<close>, which no handler catches. Threads are sequences of steps: where operations of one
  object run under one lock they are one function; where an operation takes the lock several times
  its critical sections are separate definitions. Callbacks of the application are functions on an
  application state.

  \<^bold>\<open>Environment.\<close> The results of \<open>poll\<close>, \<open>read\<close> and \<open>write\<close>, the clocks, the random numbers and
  the wake-ups of waiting threads are arguments, in the order in which the code asks for them. A
  system call that has not returned is the end of its list of results. No definition uses fuel
  except \<open>follow\<close>, the client that asks for page after page; its number of requests is shown to be
  enough when it exceeds the number of items.

  \<^bold>\<open>Lemmas.\<close> Round trips of every message type; exactness, bounds and
  completeness of the framing; strictness of cursors and completeness of paging; the invariant of
  the task store, its contract and its notifications; no promise of a session lost or settled twice
  in any interleaving, and none left past its deadline; a server that wakes up when it is stopped;
  the guards, the handshake and the task life cycle of the server; and requests, in any number and
  any order of service, that reach their promises over stdio. Over HTTP: an event stream that loses
  nothing; each POST answered by its own response; who is let in and what a refusal says; every
  session torn down once; accepted frames posted once; pushes of the server handed up in order.
  Between \<open>Client\<close> and \<open>Server\<close>: the handshake, a tool call and a sampling
  request from end to end, all three also through the whole HTTP stack. A transport that leaks no
  descriptor; time stamps that sort as the times; arithmetic tools that answer with the nearest
  double, and the transcript of the client program against them; an echo server that lets nobody in
  without its token. For the notes: nothing is written by a read-only server, nothing deleted
  without consent, and what was written reads back.

  \<^bold>\<open>Not modelled.\<close> The log messages of the components; the signal handlers of the examples, their help and
  usage texts; the loops of the benchmark that take the times; the tests. The HTTP library cpp-httplib is a
  parameter: a request maps each header name to its values, the replies a client gets are arguments,
  and so is the result of binding a port. Memory management and the C++ memory model are left out: a
  lock or an atomic is a step.
\<close>

end
